(* ===== verification/Prelude.thy ===== *)
theory Prelude
  imports Main "HOL-Library.Word" "HOL-Library.AList"
begin

unbundle bit_operations_syntax

text \<open>
  The vocabulary every component of the development shares.

  \<^item> Machine integers are words of their width; \<open>usize\<close> lengths and indices are \<open>nat\<close>.
  \<^item> A fallible Rust function returns a \<open>result\<close>: \<open>Ok\<close>, \<open>Err\<close>, or \<open>Panic\<close> for the
    run-time failures of the language (an index or a slice out of range, a length mismatch in
    a fixed-size copy).  \<open>and_then\<close> is the \<open>?\<close> operator.
  \<^item> A fixed-size array is a byte list; the well-formedness predicate of the structure that
    holds it fixes its length.
  \<^item> A \<open>HashMap\<close> is an association list with distinct keys.  The order of the list stands
    for the iteration order, which Rust leaves unspecified.
  \<^item> The locales \<open>byte_codec\<close> and \<open>exact_codec\<close> are the contracts that every wire format of
    the program has with the code that calls it.
\<close>

section \<open>Machine integers and bytes\<close>

type_synonym byte = "8 word"
type_synonym bytes = "byte list"
type_synonym u16 = "16 word"
type_synonym u32 = "32 word"
type_synonym u64 = "64 word"

named_theorems codec_simps
  \<open>rewrite rules that run an encoder or a decoder on concatenated fields\<close>

named_theorems result_splits
  \<open>elimination of successful monadic computations\<close>

text \<open>Rust's saturating operations.\<close>

definition sat_add :: "'n::len word \<Rightarrow> 'n word \<Rightarrow> 'n word" where
  "sat_add a b = (if unat a + unat b < 2 ^ LENGTH('n) then a + b else - 1)"

definition sat_sub :: "'n::len word \<Rightarrow> 'n word \<Rightarrow> 'n word" where
  "sat_sub a b = (if a < b then 0 else a - b)"

definition sat_mul :: "'n::len word \<Rightarrow> 'n word \<Rightarrow> 'n word" where
  "sat_mul a b = (if unat a * unat b < 2 ^ LENGTH('n) then a * b else - 1)"

definition sat_pow :: "'n::len word \<Rightarrow> nat \<Rightarrow> 'n word" where
  "sat_pow a k = (if unat a ^ k < 2 ^ LENGTH('n) then a ^ k else - 1)"

lemma unat_minus_1: "unat (- 1 :: 'n::len word) = 2 ^ LENGTH('n) - 1"
  by (simp add: unsigned_minus_1_eq_mask mask_eq_exp_minus_1)

lemma unat_sat_add:
  "unat (sat_add a b :: 'n::len word) = min (2 ^ LENGTH('n) - 1) (unat a + unat b)"
  by (auto simp: sat_add_def unat_minus_1 unat_word_ariths min_def)

lemma unat_sat_sub: "unat (sat_sub a b) = unat a - unat b"
  by (auto simp: sat_sub_def unat_sub word_less_nat_alt word_le_nat_alt)

lemma word_less_plus_1:
  assumes "(a :: 'n::len word) < b"
  shows "unat (a + 1) = unat a + 1" and "a + 1 \<le> b"
proof -
  have "unat b < 2 ^ LENGTH('n)" by (rule unsigned_less)
  moreover from assms have "unat a + 1 \<le> unat b" by (simp add: word_less_nat_alt)
  ultimately have "unat a + 1 < 2 ^ LENGTH('n)" by (rule le_less_trans [rotated])
  then show u: "unat (a + 1) = unat a + 1" by (cases "LENGTH('n) = 0") (simp_all add: unat_word_ariths)
  from assms show "a + 1 \<le> b" by (simp add: word_le_nat_alt word_less_nat_alt u)
qed

lemma sat_add_ge: "(a :: 'n::len word) \<le> sat_add a b"
proof -
  have "unat a < 2 ^ LENGTH('n)" by (rule unsigned_less)
  then have "unat a \<le> 2 ^ LENGTH('n) - 1" by arith
  then show ?thesis by (simp add: word_le_nat_alt unat_sat_add)
qed

subsection \<open>Little-endian encodings\<close>

definition u16_to_le :: "u16 \<Rightarrow> bytes" where
  "u16_to_le w = [ucast w, ucast (drop_bit 8 w)]"

definition u16_from_le :: "byte \<Rightarrow> byte \<Rightarrow> u16" where
  "u16_from_le b0 b1 = ucast b0 OR push_bit 8 (ucast b1)"

definition u32_to_le :: "u32 \<Rightarrow> bytes" where
  "u32_to_le w = [ucast w, ucast (drop_bit 8 w), ucast (drop_bit 16 w), ucast (drop_bit 24 w)]"

definition u32_from_le :: "byte \<Rightarrow> byte \<Rightarrow> byte \<Rightarrow> byte \<Rightarrow> u32" where
  "u32_from_le b0 b1 b2 b3 =
     ucast b0 OR push_bit 8 (ucast b1) OR push_bit 16 (ucast b2) OR push_bit 24 (ucast b3)"

definition u64_from_le :: "byte \<Rightarrow> byte \<Rightarrow> byte \<Rightarrow> byte \<Rightarrow> byte \<Rightarrow> byte \<Rightarrow> byte \<Rightarrow> byte \<Rightarrow> u64" where
  "u64_from_le b0 b1 b2 b3 b4 b5 b6 b7 =
     ucast b0 OR push_bit 8 (ucast b1) OR push_bit 16 (ucast b2) OR push_bit 24 (ucast b3)
     OR push_bit 32 (ucast b4) OR push_bit 40 (ucast b5) OR push_bit 48 (ucast b6)
     OR push_bit 56 (ucast b7)"

lemma length_u16_to_le [simp]: "length (u16_to_le w) = 2"
  by (simp add: u16_to_le_def)

lemma length_u32_to_le [simp]: "length (u32_to_le w) = 4"
  by (simp add: u32_to_le_def)

lemma less_8_cases: "(n::nat) < 8 \<longleftrightarrow> n \<in> {0,1,2,3,4,5,6,7}"
  by auto

lemma bit_byte_ge [simp]: "8 \<le> n \<Longrightarrow> \<not> bit (b :: byte) n"
  using bit_imp_le_length [of b n] by auto

lemma u16_from_to_le: "u16_from_le (ucast w) (ucast (drop_bit 8 w)) = w"
  unfolding u16_from_le_def
  by (rule bit_word_eqI) (auto simp: bit_simps)

lemma u32_from_to_le:
  "u32_from_le (ucast w) (ucast (drop_bit 8 w)) (ucast (drop_bit 16 w)) (ucast (drop_bit 24 w)) = w"
  unfolding u32_from_le_def
proof (rule bit_word_eqI)
  fix n assume "n < LENGTH(32)"
  then consider "n < 8" | "8 \<le> n" "n < 16" | "16 \<le> n" "n < 24" | "24 \<le> n" "n < 32" by fastforce
  then show "bit (ucast (ucast w :: byte) OR push_bit 8 (ucast (ucast (drop_bit 8 w) :: byte))
      OR push_bit 16 (ucast (ucast (drop_bit 16 w) :: byte))
      OR push_bit 24 (ucast (ucast (drop_bit 24 w) :: byte)) :: u32) n = bit w n"
    by cases (simp_all add: bit_simps less_diff_conv2)
qed

lemma u16_to_from_le: "u16_to_le (u16_from_le b0 b1) = [b0, b1]"
  unfolding u16_to_le_def u16_from_le_def
  by (auto intro!: bit_word_eqI simp: bit_simps)

lemma u32_to_from_le: "u32_to_le (u32_from_le b0 b1 b2 b3) = [b0, b1, b2, b3]"
  unfolding u32_to_le_def u32_from_le_def
  by (auto intro!: bit_word_eqI simp: bit_simps)

lemma u16_to_le_inj [simp]: "u16_to_le v = u16_to_le w \<longleftrightarrow> v = w"
proof
  assume eq: "u16_to_le v = u16_to_le w"
  have "v = u16_from_le (u16_to_le v ! 0) (u16_to_le v ! 1)"
    by (simp add: u16_to_le_def u16_from_to_le)
  also have "\<dots> = w" unfolding eq by (simp add: u16_to_le_def u16_from_to_le)
  finally show "v = w" .
qed simp

lemma u32_to_le_inj [simp]: "u32_to_le v = u32_to_le w \<longleftrightarrow> v = w"
proof
  assume eq: "u32_to_le v = u32_to_le w"
  have "v = u32_from_le (u32_to_le v ! 0) (u32_to_le v ! 1) (u32_to_le v ! 2) (u32_to_le v ! 3)"
    by (simp add: u32_to_le_def u32_from_to_le)
  also have "\<dots> = w" unfolding eq by (simp add: u32_to_le_def u32_from_to_le)
  finally show "v = w" .
qed simp

lemma unat_of_nat_u16: "n < 65536 \<Longrightarrow> unat (of_nat n :: u16) = n"
  by (simp add: unat_of_nat)

lemma unat_of_nat_u32: "n < 4294967296 \<Longrightarrow> unat (of_nat n :: u32) = n"
  by (simp add: unat_of_nat)

section \<open>Results, errors and panics\<close>

datatype ('e, 'a) result = Ok 'a | Err 'e | Panic

primrec and_then :: "('e, 'a) result \<Rightarrow> ('a \<Rightarrow> ('e, 'b) result) \<Rightarrow> ('e, 'b) result" where
  "and_then (Ok x) f = f x"
| "and_then (Err e) f = Err e"
| "and_then Panic f = Panic"

primrec map_err :: "('e \<Rightarrow> 'f) \<Rightarrow> ('e, 'a) result \<Rightarrow> ('f, 'a) result" where
  "map_err f (Ok x) = Ok x"
| "map_err f (Err e) = Err (f e)"
| "map_err f Panic = Panic"

primrec is_ok :: "('e, 'a) result \<Rightarrow> bool" where
  "is_ok (Ok x) = True"
| "is_ok (Err e) = False"
| "is_ok Panic = False"

text \<open>The \<open>?\<close> operator in a method that has changed its state: the change stays.\<close>

primrec or_return :: "('e, 'a) result \<Rightarrow> 's \<Rightarrow> ('a \<Rightarrow> ('e, 'b) result \<times> 's) \<Rightarrow> ('e, 'b) result \<times> 's" where
  "or_return (Ok x) s f = f x"
| "or_return (Err e) s f = (Err e, s)"
| "or_return Panic s f = (Panic, s)"

lemma or_return_cases:
  assumes "or_return r s f = (q, t)"
  obtains (Ok) x where "r = Ok x" "f x = (q, t)" | (Err) e where "r = Err e" "q = Err e" "t = s" | (Panic) "r = Panic" "q = Panic" "t = s"
  using assms by (cases r) auto

lemma or_return_same: "or_return r s (\<lambda>x. (f x, s)) = (and_then r f, s)"
  by (cases r) simp_all

lemma and_then_cong [fundef_cong]:
  "r = r' \<Longrightarrow> (\<And>x. r' = Ok x \<Longrightarrow> f x = g x) \<Longrightarrow> and_then r f = and_then r' g"
  by (cases r') auto

lemma and_then_eq_Ok [result_splits]:
  "and_then r f = Ok y \<longleftrightarrow> (\<exists>x. r = Ok x \<and> f x = Ok y)"
  by (cases r) auto

lemma and_then_eq_Panic [result_splits]:
  "and_then r f = Panic \<longleftrightarrow> r = Panic \<or> (\<exists>x. r = Ok x \<and> f x = Panic)"
  by (cases r) auto

lemma and_then_eq_Err [result_splits]:
  "and_then r f = Err e \<longleftrightarrow> r = Err e \<or> (\<exists>x. r = Ok x \<and> f x = Err e)"
  by (cases r) auto

lemma map_err_eq_Ok [simp]: "map_err f r = Ok y \<longleftrightarrow> r = Ok y"
  by (cases r) auto

lemma map_err_eq_Panic [simp]: "map_err f r = Panic \<longleftrightarrow> r = Panic"
  by (cases r) auto

lemma is_ok_iff: "is_ok r \<longleftrightarrow> (\<exists>x. r = Ok x)"
  by (cases r) auto

text \<open>\<open>Result::unwrap_or\<close>.\<close>

primrec ok_or :: "('e, 'a) result \<Rightarrow> 'a \<Rightarrow> 'a" where
  "ok_or (Ok x) d = x"
| "ok_or (Err e) d = d"
| "ok_or Panic d = d"

subsection \<open>Strings\<close>

text \<open>A string is the list of the bytes of its UTF-8 encoding; \<open>as_bytes\<close> is the method of that name.\<close>

definition as_bytes :: "string \<Rightarrow> bytes" where
  "as_bytes = map (\<lambda>c. of_nat (of_char c))"

lemma char_byte_inj: "(of_nat (of_char c) :: byte) = of_nat (of_char d) \<longleftrightarrow> c = d"
proof -
  have "unat (of_nat (of_char c) :: byte) = of_char c" for c :: char
    using nat_of_char_less_256 [of c] by (simp add: unat_of_nat)
  then show ?thesis by (metis of_char_eq_iff)
qed

lemma as_bytes_inj [simp]: "as_bytes s = as_bytes t \<longleftrightarrow> s = t"
  by (simp add: as_bytes_def inj_map_eq_map inj_def char_byte_inj)

lemma as_bytes_append [simp]: "as_bytes (s @ t) = as_bytes s @ as_bytes t"
  by (simp add: as_bytes_def)

subsection \<open>Decimal numbers\<close>

fun show_nat :: "nat \<Rightarrow> string" where
  "show_nat n = (if n < 10 then [char_of (48 + n)] else show_nat (n div 10) @ [char_of (48 + n mod 10)])"

declare show_nat.simps [simp del]

subsection \<open>Indexing and slicing\<close>

text \<open>\<open>data[i]\<close> and \<open>data[i..i+n]\<close>: both panic out of range.\<close>

definition byte_at :: "'a list \<Rightarrow> nat \<Rightarrow> ('e, 'a) result" where
  "byte_at xs i = (if i < length xs then Ok (xs ! i) else Panic)"

definition slice_at :: "'a list \<Rightarrow> nat \<Rightarrow> nat \<Rightarrow> ('e, 'a list) result" where
  "slice_at xs i n = (if i + n \<le> length xs then Ok (take n (drop i xs)) else Panic)"

definition u16_at :: "bytes \<Rightarrow> nat \<Rightarrow> ('e, u16) result" where
  "u16_at xs i =
     (if i + 2 \<le> length xs then Ok (u16_from_le (xs ! i) (xs ! (i + 1))) else Panic)"

definition u32_at :: "bytes \<Rightarrow> nat \<Rightarrow> ('e, u32) result" where
  "u32_at xs i =
     (if i + 4 \<le> length xs
      then Ok (u32_from_le (xs ! i) (xs ! (i + 1)) (xs ! (i + 2)) (xs ! (i + 3))) else Panic)"

text \<open>
  The lemmas below read a field out of a concatenation: \<open>p\<close> is what precedes the field, and the
  offset is its length.
\<close>

lemma byte_at_append [codec_simps]:
  "i = length p \<Longrightarrow> byte_at (p @ x # q) i = Ok x"
  by (simp add: byte_at_def)

lemma slice_at_append [codec_simps]:
  "i = length p \<Longrightarrow> n = length x \<Longrightarrow> slice_at (p @ x @ q) i n = Ok x"
  by (simp add: slice_at_def)

lemma u16_at_append [codec_simps]:
  "i = length p \<Longrightarrow> u16_at (p @ u16_to_le w @ q) i = Ok w"
  by (simp add: u16_at_def u16_to_le_def nth_append u16_from_to_le)

lemma u32_at_append [codec_simps]:
  "i = length p \<Longrightarrow> u32_at (p @ u32_to_le w @ q) i = Ok w"
  by (simp add: u32_at_def u32_to_le_def nth_append u32_from_to_le)

lemma byte_at_eq_Ok: "byte_at xs i = Ok x \<longleftrightarrow> i < length xs \<and> x = xs ! i"
  by (auto simp: byte_at_def)

lemma slice_at_eq_Ok: "slice_at xs i n = Ok ys \<longleftrightarrow> i + n \<le> length xs \<and> ys = take n (drop i xs)"
  by (auto simp: slice_at_def)

lemma slice_at_length: "slice_at xs i n = Ok ys \<Longrightarrow> length ys = n"
  by (auto simp: slice_at_def split: if_splits)

lemma take_drop_nths:
  "i + 2 \<le> length xs \<Longrightarrow> take 2 (drop i xs) = [xs ! i, xs ! (i + 1)]"
  "i + 4 \<le> length xs \<Longrightarrow> take 4 (drop i xs) = [xs ! i, xs ! (i + 1), xs ! (i + 2), xs ! (i + 3)]"
  by (simp_all add: numeral_eq_Suc Cons_nth_drop_Suc [symmetric] take_Suc_conv_app_nth)

lemma u16_at_eq_Ok: "u16_at bs i = Ok w \<longleftrightarrow> i + 2 \<le> length bs \<and> take 2 (drop i bs) = u16_to_le w"
  by (auto simp: u16_at_def take_drop_nths(1) u16_to_from_le [symmetric])

lemma u32_at_eq_Ok: "u32_at bs i = Ok w \<longleftrightarrow> i + 4 \<le> length bs \<and> take 4 (drop i bs) = u32_to_le w"
  by (auto simp: u32_at_def take_drop_nths(2) u32_to_from_le [symmetric])

lemma at_eq_Panic:
  "byte_at xs i = Panic \<longleftrightarrow> length xs \<le> i"
  "slice_at xs i n = Panic \<longleftrightarrow> length xs < i + n"
  "u16_at bs i = Panic \<longleftrightarrow> length bs < i + 2"
  "u32_at bs i = Panic \<longleftrightarrow> length bs < i + 4"
  by (auto simp: byte_at_def slice_at_def u16_at_def u32_at_def)

lemma at_ne_Err [simp]:
  "byte_at xs i \<noteq> Err e" "slice_at xs i n \<noteq> Err e" "u16_at bs i \<noteq> Err e" "u32_at bs i \<noteq> Err e"
  by (auto simp: byte_at_def slice_at_def u16_at_def u32_at_def)

section \<open>Hash maps as association lists\<close>

type_synonym ('k, 'v) hmap = "('k \<times> 'v) list"

definition hm_wf :: "('k, 'v) hmap \<Rightarrow> bool" where
  "hm_wf m \<longleftrightarrow> distinct (map fst m)"

abbreviation hm_get :: "('k, 'v) hmap \<Rightarrow> 'k \<Rightarrow> 'v option" where
  "hm_get \<equiv> map_of"

definition hm_contains :: "('k, 'v) hmap \<Rightarrow> 'k \<Rightarrow> bool" where
  "hm_contains m k \<longleftrightarrow> map_of m k \<noteq> None"

abbreviation hm_insert :: "'k \<Rightarrow> 'v \<Rightarrow> ('k, 'v) hmap \<Rightarrow> ('k, 'v) hmap" where
  "hm_insert \<equiv> AList.update"

abbreviation hm_remove :: "'k \<Rightarrow> ('k, 'v) hmap \<Rightarrow> ('k, 'v) hmap" where
  "hm_remove \<equiv> AList.delete"

lemma hm_wf_simps [simp]: "hm_wf []" "hm_wf (p # m) \<longleftrightarrow> fst p \<notin> fst ` set m \<and> hm_wf m"
  by (auto simp: hm_wf_def)

lemma hm_wf_insert [simp]: "hm_wf m \<Longrightarrow> hm_wf (hm_insert k v m)"
  by (simp add: hm_wf_def distinct_update)

lemma hm_wf_remove [simp]: "hm_wf m \<Longrightarrow> hm_wf (hm_remove k m)"
  by (simp add: hm_wf_def distinct_delete)

lemma hm_wf_filter [simp]: "hm_wf m \<Longrightarrow> hm_wf (filter P m)"
  by (simp add: hm_wf_def distinct_map_filter)

lemma hm_contains_iff: "hm_contains m k \<longleftrightarrow> k \<in> fst ` set m"
  by (auto simp: hm_contains_def map_of_eq_None_iff)

lemma hm_get_insert [simp]: "hm_get (hm_insert k v m) k' = (if k' = k then Some v else hm_get m k')"
  by (simp add: update_conv')

lemma hm_get_remove [simp]: "hm_get (hm_remove k m) k' = (if k' = k then None else hm_get m k')"
  by (simp add: delete_conv')

lemma hm_insert_fresh: "k \<notin> fst ` set m \<Longrightarrow> hm_insert k v m = m @ [(k, v)]"
  by (induction m) auto

lemma length_hm_insert:
  "length (hm_insert k v m) = (if k \<in> fst ` set m then length m else Suc (length m))"
  by (induction m) auto

lemma hm_remove_filter: "hm_remove k m = filter (\<lambda>(k', _). k' \<noteq> k) m"
  by (induction m) (auto simp: AList.delete_eq)

lemma length_hm_remove:
  "hm_wf m \<Longrightarrow> length (hm_remove k m) = (if k \<in> fst ` set m then length m - 1 else length m)"
proof (induction m)
  case (Cons p m)
  have "hm_remove k m = m" if "k \<notin> fst ` set m"
    using that by simp
  with Cons show ?case by (cases p; cases m) auto
qed simp

lemma hm_get_in: "hm_wf m \<Longrightarrow> hm_get m k = Some v \<longleftrightarrow> (k, v) \<in> set m"
  by (simp add: hm_wf_def)

section \<open>The contract of a wire format\<close>

text \<open>
  An encoder and a decoder that agree: decoding what was encoded gives the value back, up to the
  normal form \<open>canon\<close> of values that have two representations in memory.
\<close>

locale byte_codec =
  fixes enc :: "'a \<Rightarrow> ('e, bytes) result"
    and dec :: "bytes \<Rightarrow> ('f, 'a) result"
    and wf :: "'a \<Rightarrow> bool"
    and canon :: "'a \<Rightarrow> 'a"
  assumes dec_enc: "wf x \<Longrightarrow> enc x = Ok bs \<Longrightarrow> dec bs = Ok (canon x)"
begin

lemma enc_determines:
  "wf x \<Longrightarrow> wf y \<Longrightarrow> enc x = Ok bs \<Longrightarrow> enc y = Ok bs \<Longrightarrow> canon x = canon y"
  using dec_enc [of x bs] dec_enc [of y bs] by simp

lemma enc_inj:
  "wf x \<Longrightarrow> wf y \<Longrightarrow> canon x = x \<Longrightarrow> canon y = y \<Longrightarrow> enc x = Ok bs \<Longrightarrow> enc y = Ok bs \<Longrightarrow> x = y"
  using enc_determines by metis

end

text \<open>
  A format that is exact accepts only what its encoder produces, so no two byte strings stand for
  the same value.
\<close>

locale exact_codec = byte_codec enc dec wf "\<lambda>x. x"
  for enc :: "'a \<Rightarrow> ('e, bytes) result" and dec :: "bytes \<Rightarrow> ('f, 'a) result" and wf :: "'a \<Rightarrow> bool" +
  assumes enc_dec: "dec bs = Ok x \<Longrightarrow> wf x \<and> enc x = Ok bs"
begin

lemma dec_iff: "dec bs = Ok x \<longleftrightarrow> wf x \<and> enc x = Ok bs"
  using dec_enc enc_dec by blast

lemma not_malleable: "dec bs = Ok x \<Longrightarrow> dec cs = Ok x \<Longrightarrow> bs = cs"
  using enc_dec [of bs x] enc_dec [of cs x] by simp

end

end
