(* ===== verification/Message_Types.thy ===== *)
theory Message_Types
  imports Prelude
begin

text \<open>
  The message types of \<open>core/src/message/types.rs\<close>: the plaintext message, the two generations
  of encrypted envelopes, their signed forms and the wrappers the transport dispatches on.
\<close>

datatype message_type = Text | MReceipt | OnionRelay

datatype delivery_status = DSent | DDelivered | DRead | DFailed

record message =
  msg_id :: string
  msg_sender_id :: string
  msg_recipient_id :: string
  msg_type :: message_type
  msg_payload :: bytes
  msg_timestamp :: u64

record receipt =
  rc_message_id :: string
  rc_status :: delivery_status
  rc_timestamp :: u64

record envelope =
  ev_sender_public_key :: bytes
  ev_ephemeral_public_key :: bytes
  ev_nonce :: bytes
  ev_ciphertext :: bytes
  ev_ratchet_dh_public :: "bytes option"
  ev_ratchet_message_number :: "u32 option"

record envelope_v2 =
  v2_suite :: byte
  v2_sender_public_key :: bytes
  v2_ephemeral_public_key :: bytes
  v2_nonce :: bytes
  v2_ciphertext :: bytes
  v2_ratchet_dh_public :: "bytes option"
  v2_ratchet_message_number :: "u32 option"
  v2_pq_kem_ciphertext :: "bytes option"
  v2_pq_encaps_key :: "bytes option"
  v2_transcript_hash :: "bytes option"

record signed_envelope =
  se_envelope :: envelope
  se_signature :: bytes

record signed_envelope_v2 =
  se2_envelope :: envelope_v2
  se2_signature :: bytes

definition WIRE_TAG_V2 :: byte where
  "WIRE_TAG_V2 = 0x02"

datatype wire_envelope = WireV1 envelope | WireV2 envelope_v2

datatype wire_signed_envelope = WireSignedV1 signed_envelope | WireSignedV2 signed_envelope_v2

text \<open>\<open>Message::is_recent\<close>; \<open>now\<close> is the clock reading.\<close>

definition Message_is_recent :: "u64 \<Rightarrow> message \<Rightarrow> u64 \<Rightarrow> bool" where
  "Message_is_recent now m threshold_secs \<longleftrightarrow> sat_sub now (msg_timestamp m) < threshold_secs"

lemma Message_is_recent_iff:
  "Message_is_recent now m t \<longleftrightarrow> unat now - unat (msg_timestamp m) < unat t"
  by (simp add: Message_is_recent_def word_less_nat_alt unat_sat_sub)

end
