(* ===== verification/Drift_Envelope.thy ===== *)
theory Drift_Envelope
  imports Message_Types
begin

text \<open>
  The Drift envelope of \<open>core/src/drift/envelope.rs\<close>, with the errors of \<open>drift/mod.rs\<close> and the
  compression wrapper of \<open>drift/compress.rs\<close>: the binary layout, its parser, the conversions from
  and to the message envelopes, and the signature over an envelope.

  The LZ4, BLAKE3, Ed25519 and UUID libraries are the fields of \<open>drift_libs\<close>, an argument of
  every definition that calls them.  A library error carries the text of its message.
\<close>

section \<open>Errors and libraries\<close>

datatype drift_error =
    BufferTooShort nat nat
  | InvalidEnvelopeType byte
  | CiphertextTooLarge nat
  | InvalidVersion byte
  | CrcMismatch
  | DecompressionFailed string
  | InvalidFrameType byte
  | Timeout
  | IoError string

record drift_libs =
  lz4_compress_prepend_size :: "bytes \<Rightarrow> bytes"
  lz4_decompress_size_prepended :: "bytes \<Rightarrow> string + bytes"
  blake3_hash :: "bytes \<Rightarrow> bytes"
  ed25519_sign :: "bytes \<Rightarrow> bytes \<Rightarrow> bytes"
  ed25519_key_error :: "bytes \<Rightarrow> string option"
  ed25519_verify_error :: "bytes \<Rightarrow> bytes \<Rightarrow> bytes \<Rightarrow> string option"
  uuid_parse_str :: "string \<Rightarrow> string + bytes"

text \<open>LZ4 restores what it compressed.\<close>

definition lz4_lossless :: "drift_libs \<Rightarrow> bool" where
  "lz4_lossless L \<longleftrightarrow>
     (\<forall>d. lz4_decompress_size_prepended L (lz4_compress_prepend_size L d) = Inr d)"

definition compress :: "drift_libs \<Rightarrow> bytes \<Rightarrow> bytes" where
  "compress L d = lz4_compress_prepend_size L d"

definition decompress :: "drift_libs \<Rightarrow> bytes \<Rightarrow> (drift_error, bytes) result" where
  "decompress L d =
     (case lz4_decompress_size_prepended L d of
        Inl e \<Rightarrow> Err (DecompressionFailed e)
      | Inr x \<Rightarrow> Ok x)"

lemma decompress_compress: "lz4_lossless L \<Longrightarrow> decompress L (compress L d) = Ok d"
  by (simp add: decompress_def compress_def lz4_lossless_def)

lemma decompress_not_Panic [simp]: "decompress L d \<noteq> Panic"
  by (simp add: decompress_def split: sum.splits)

section \<open>Envelope types\<close>

definition DRIFT_VERSION :: byte where "DRIFT_VERSION = 0x01"

definition COMPRESSION_THRESHOLD :: nat where "COMPRESSION_THRESHOLD = 256"

definition COMPRESSION_FLAG :: byte where "COMPRESSION_FLAG = 0x80"

datatype envelope_type =
    EncryptedMessage
  | DeliveryReceipt
  | SyncRequest
  | ESyncResponse
  | PeerAnnouncement
  | RouteAdvertisement
  | CoverTraffic
  | OnionMessage

definition EnvelopeType_from_u8 :: "byte \<Rightarrow> (drift_error, envelope_type) result" where
  "EnvelopeType_from_u8 b =
     (if b = 0x01 then Ok EncryptedMessage
      else if b = 0x02 then Ok DeliveryReceipt
      else if b = 0x03 then Ok SyncRequest
      else if b = 0x04 then Ok ESyncResponse
      else if b = 0x05 then Ok PeerAnnouncement
      else if b = 0x06 then Ok RouteAdvertisement
      else if b = 0x07 then Ok CoverTraffic
      else if b = 0x08 then Ok OnionMessage
      else Err (InvalidEnvelopeType b))"

primrec EnvelopeType_as_u8 :: "envelope_type \<Rightarrow> byte" where
  "EnvelopeType_as_u8 EncryptedMessage = 0x01"
| "EnvelopeType_as_u8 DeliveryReceipt = 0x02"
| "EnvelopeType_as_u8 SyncRequest = 0x03"
| "EnvelopeType_as_u8 ESyncResponse = 0x04"
| "EnvelopeType_as_u8 PeerAnnouncement = 0x05"
| "EnvelopeType_as_u8 RouteAdvertisement = 0x06"
| "EnvelopeType_as_u8 CoverTraffic = 0x07"
| "EnvelopeType_as_u8 OnionMessage = 0x08"

lemma EnvelopeType_from_as [simp]: "EnvelopeType_from_u8 (EnvelopeType_as_u8 t) = Ok t"
  by (cases t) (simp_all add: EnvelopeType_from_u8_def)

lemma EnvelopeType_as_from: "EnvelopeType_from_u8 b = Ok t \<Longrightarrow> EnvelopeType_as_u8 t = b"
  by (auto simp: EnvelopeType_from_u8_def split: if_splits)

lemma EnvelopeType_from_not_Panic [simp]: "EnvelopeType_from_u8 b \<noteq> Panic"
  by (simp add: EnvelopeType_from_u8_def)

lemma EnvelopeType_as_u8_inj [simp]: "EnvelopeType_as_u8 s = EnvelopeType_as_u8 t \<longleftrightarrow> s = t"
  by (metis EnvelopeType_from_as result.inject(1))

section \<open>The envelope and its encoder\<close>

record drift_envelope =
  de_version :: byte
  de_envelope_type :: envelope_type
  de_compressed :: bool
  de_message_id :: bytes
  de_recipient_hint :: bytes
  de_created_at :: u32
  de_ttl_expiry :: u32
  de_hop_count :: byte
  de_priority :: byte
  de_sender_public_key :: bytes
  de_ephemeral_public_key :: bytes
  de_nonce :: bytes
  de_signature :: bytes
  de_ciphertext :: bytes
  de_ratchet_dh_public :: "bytes option"
  de_ratchet_message_number :: "u32 option"
  de_suite :: "byte option"
  de_pq_kem_ciphertext :: "bytes option"
  de_pq_encaps_key :: "bytes option"
  de_transcript_hash :: "bytes option"

definition FIXED_OVERHEAD :: nat where "FIXED_OVERHEAD = 187"

definition MAX_CIPHERTEXT :: nat where "MAX_CIPHERTEXT = 65535"

text \<open>\<open>unwrap_or\<close> on options.\<close>

definition unwrap_or :: "'a option \<Rightarrow> 'a \<Rightarrow> 'a" where
  "unwrap_or x d = (case x of None \<Rightarrow> d | Some v \<Rightarrow> v)"

lemma unwrap_or_simps [simp]: "unwrap_or None d = d" "unwrap_or (Some v) d = v"
  by (simp_all add: unwrap_or_def)

definition type_byte :: "drift_envelope \<Rightarrow> byte" where
  "type_byte e = EnvelopeType_as_u8 (de_envelope_type e) OR (if de_compressed e then COMPRESSION_FLAG else 0)"

text \<open>The 120 bytes from the version to the nonce, which the wire format and the signature share.\<close>

definition envelope_prefix :: "drift_envelope \<Rightarrow> bytes" where
  "envelope_prefix e =
     [de_version e, type_byte e] @ de_message_id e @ de_recipient_hint e
     @ u32_to_le (de_created_at e) @ u32_to_le (de_ttl_expiry e)
     @ [de_hop_count e, de_priority e]
     @ de_sender_public_key e @ de_ephemeral_public_key e @ de_nonce e"

definition ratchet_ext :: "drift_envelope \<Rightarrow> bytes" where
  "ratchet_ext e =
     (case de_ratchet_dh_public e of
        Some dh_public \<Rightarrow>
          0x01 # dh_public @ u32_to_le (unwrap_or (de_ratchet_message_number e) 0)
      | None \<Rightarrow> [0x00])"

definition append_blob :: "bytes option \<Rightarrow> bytes" where
  "append_blob v = (let d = unwrap_or v [] in u32_to_le (of_nat (length d)) @ d)"

definition has_pq :: "drift_envelope \<Rightarrow> bool" where
  "has_pq e \<longleftrightarrow> de_suite e \<noteq> None \<or> de_pq_kem_ciphertext e \<noteq> None
     \<or> de_pq_encaps_key e \<noteq> None \<or> de_transcript_hash e \<noteq> None"

definition pq_ext :: "drift_envelope \<Rightarrow> bytes" where
  "pq_ext e =
     (if has_pq e
      then [0x01, unwrap_or (de_suite e) 0x02]
           @ append_blob (de_pq_kem_ciphertext e)
           @ append_blob (de_pq_encaps_key e)
           @ append_blob (de_transcript_hash e)
      else [])"

definition DriftEnvelope_to_bytes :: "drift_libs \<Rightarrow> drift_envelope \<Rightarrow> (drift_error, bytes) result" where
  "DriftEnvelope_to_bytes L e =
     (let ciphertext = (if de_compressed e then compress L (de_ciphertext e) else de_ciphertext e)
      in if length ciphertext > MAX_CIPHERTEXT then Err (CiphertextTooLarge (length ciphertext))
         else Ok (envelope_prefix e @ de_signature e
                  @ u16_to_le (of_nat (length ciphertext)) @ ciphertext
                  @ ratchet_ext e @ pq_ext e))"

section \<open>The parser\<close>

text \<open>Each reader takes the whole buffer and the offset, and returns the offset after what it read.\<close>

definition read_ratchet ::
  "bytes \<Rightarrow> nat \<Rightarrow> (drift_error, (bytes option \<times> u32 option) \<times> nat) result" where
  "read_ratchet data offset =
     (if offset < length data then
        and_then (byte_at data offset) (\<lambda>ratchet_flag.
        let offset = offset + 1 in
        if ratchet_flag = 0x01 then
          if offset + 32 + 4 \<le> length data then
            and_then (slice_at data offset 32) (\<lambda>dh_key.
            let offset = offset + 32 in
            and_then (u32_at data offset) (\<lambda>msg_num.
            Ok ((Some dh_key, Some msg_num), offset + 4)))
          else Err (BufferTooShort (offset + 32 + 4) (length data))
        else Ok ((None, None), offset))
      else Ok ((None, None), offset))"

definition read_blob :: "bytes \<Rightarrow> nat \<Rightarrow> (drift_error, bytes option \<times> nat) result" where
  "read_blob data offset =
     (if offset + 4 > length data then Err (BufferTooShort (offset + 4) (length data)) else
      and_then (u32_at data offset) (\<lambda>w.
      let len = unat w; offset = offset + 4 in
      if len = 0 then Ok (None, offset)
      else if offset + len > length data then Err (BufferTooShort (offset + len) (length data))
      else and_then (slice_at data offset len) (\<lambda>blob. Ok (Some blob, offset + len))))"

type_synonym pq_fields = "byte option \<times> bytes option \<times> bytes option \<times> bytes option"

definition read_pq :: "bytes \<Rightarrow> nat \<Rightarrow> (drift_error, pq_fields) result" where
  "read_pq data offset =
     (if offset < length data then
        and_then (byte_at data offset) (\<lambda>pq_flag.
        let offset = offset + 1 in
        if pq_flag = 0x01 then
          and_then (byte_at data offset) (\<lambda>suite.
          let offset = offset + 1 in
          and_then (read_blob data offset) (\<lambda>(pq_kem_ciphertext, offset).
          and_then (read_blob data offset) (\<lambda>(pq_encaps_key, offset).
          and_then (read_blob data offset) (\<lambda>(transcript_hash, offset).
          Ok (Some suite, pq_kem_ciphertext, pq_encaps_key, transcript_hash)))))
        else Ok (None, None, None, None))
      else Ok (None, None, None, None))"

definition DriftEnvelope_from_bytes :: "drift_libs \<Rightarrow> bytes \<Rightarrow> (drift_error, drift_envelope) result" where
  "DriftEnvelope_from_bytes L data =
     (if length data < FIXED_OVERHEAD then Err (BufferTooShort FIXED_OVERHEAD (length data)) else
      and_then (byte_at data 0) (\<lambda>version.
      if version \<noteq> DRIFT_VERSION then Err (InvalidVersion version) else
      and_then (byte_at data 1) (\<lambda>type_byte.
      let compressed = (type_byte AND COMPRESSION_FLAG \<noteq> 0) in
      and_then (EnvelopeType_from_u8 (type_byte AND NOT COMPRESSION_FLAG)) (\<lambda>envelope_type.
      and_then (slice_at data 2 16) (\<lambda>message_id.
      and_then (slice_at data 18 4) (\<lambda>recipient_hint.
      and_then (u32_at data 22) (\<lambda>created_at.
      and_then (u32_at data 26) (\<lambda>ttl_expiry.
      and_then (byte_at data 30) (\<lambda>hop_count.
      and_then (byte_at data 31) (\<lambda>priority.
      and_then (slice_at data 32 32) (\<lambda>sender_public_key.
      and_then (slice_at data 64 32) (\<lambda>ephemeral_public_key.
      and_then (slice_at data 96 24) (\<lambda>nonce.
      and_then (slice_at data 120 64) (\<lambda>signature.
      and_then (u16_at data 184) (\<lambda>len16.
      let ciphertext_len = unat len16; offset = 186 in
      if length data < offset + ciphertext_len
      then Err (BufferTooShort (offset + ciphertext_len) (length data)) else
      and_then (slice_at data offset ciphertext_len) (\<lambda>raw.
      and_then (if compressed then decompress L raw else Ok raw) (\<lambda>ciphertext.
      let offset = offset + ciphertext_len in
      and_then (read_ratchet data offset) (\<lambda>((ratchet_dh_public, ratchet_message_number), offset).
      and_then (read_pq data offset) (\<lambda>(suite, pq_kem_ciphertext, pq_encaps_key, transcript_hash).
      Ok \<lparr>de_version = version, de_envelope_type = envelope_type, de_compressed = compressed,
          de_message_id = message_id, de_recipient_hint = recipient_hint,
          de_created_at = created_at, de_ttl_expiry = ttl_expiry,
          de_hop_count = hop_count, de_priority = priority,
          de_sender_public_key = sender_public_key,
          de_ephemeral_public_key = ephemeral_public_key,
          de_nonce = nonce, de_signature = signature, de_ciphertext = ciphertext,
          de_ratchet_dh_public = ratchet_dh_public,
          de_ratchet_message_number = ratchet_message_number,
          de_suite = suite, de_pq_kem_ciphertext = pq_kem_ciphertext,
          de_pq_encaps_key = pq_encaps_key, de_transcript_hash = transcript_hash\<rparr>)))))))))))))))))))"

section \<open>Round trip\<close>

definition wf_blob :: "bytes option \<Rightarrow> bool" where
  "wf_blob v \<longleftrightarrow> length (unwrap_or v []) < 2 ^ 32"

definition wf_envelope :: "drift_envelope \<Rightarrow> bool" where
  "wf_envelope e \<longleftrightarrow>
     length (de_message_id e) = 16 \<and> length (de_recipient_hint e) = 4
     \<and> length (de_sender_public_key e) = 32 \<and> length (de_ephemeral_public_key e) = 32
     \<and> length (de_nonce e) = 24 \<and> length (de_signature e) = 64
     \<and> (case de_ratchet_dh_public e of None \<Rightarrow> True | Some k \<Rightarrow> length k = 32)
     \<and> wf_blob (de_pq_kem_ciphertext e) \<and> wf_blob (de_pq_encaps_key e)
     \<and> wf_blob (de_transcript_hash e)"

text \<open>
  What the wire format keeps of an envelope: a message number only with a ratchet key (0 when it
  was missing), no empty blob, and a suite (2 when it was missing) with any post-quantum field.
\<close>

definition canon_blob :: "bytes option \<Rightarrow> bytes option" where
  "canon_blob v = (if unwrap_or v [] = [] then None else v)"

definition canon_envelope :: "drift_envelope \<Rightarrow> drift_envelope" where
  "canon_envelope e = e\<lparr>
     de_ratchet_message_number :=
       (if de_ratchet_dh_public e = None then None
        else Some (unwrap_or (de_ratchet_message_number e) 0)),
     de_suite := (if has_pq e then Some (unwrap_or (de_suite e) 0x02) else None),
     de_pq_kem_ciphertext := canon_blob (de_pq_kem_ciphertext e),
     de_pq_encaps_key := canon_blob (de_pq_encaps_key e),
     de_transcript_hash := canon_blob (de_transcript_hash e)\<rparr>"

lemma wf_envelope_lengths:
  assumes "wf_envelope e"
  shows "length (de_message_id e) = 16" "length (de_recipient_hint e) = 4"
    "length (de_sender_public_key e) = 32" "length (de_ephemeral_public_key e) = 32"
    "length (de_nonce e) = 24" "length (de_signature e) = 64"
    "\<And>k. de_ratchet_dh_public e = Some k \<Longrightarrow> length k = 32"
    "wf_blob (de_pq_kem_ciphertext e)" "wf_blob (de_pq_encaps_key e)" "wf_blob (de_transcript_hash e)"
  using assms by (auto simp: wf_envelope_def)

lemma length_envelope_prefix: "wf_envelope e \<Longrightarrow> length (envelope_prefix e) = 120"
  by (simp add: envelope_prefix_def wf_envelope_def)

lemma type_byte_compressed: "type_byte e AND COMPRESSION_FLAG \<noteq> 0 \<longleftrightarrow> de_compressed e"
  by (cases "de_envelope_type e") (simp_all add: type_byte_def COMPRESSION_FLAG_def)

lemma type_byte_type: "type_byte e AND NOT COMPRESSION_FLAG = EnvelopeType_as_u8 (de_envelope_type e)"
  by (cases "de_envelope_type e") (simp_all add: type_byte_def COMPRESSION_FLAG_def)

lemma read_prefix_fields:
  assumes "wf_envelope e"
  shows "byte_at (envelope_prefix e @ q) 0 = Ok (de_version e)"
    "byte_at (envelope_prefix e @ q) 1 = Ok (type_byte e)"
    "slice_at (envelope_prefix e @ q) 2 16 = Ok (de_message_id e)"
    "slice_at (envelope_prefix e @ q) 18 4 = Ok (de_recipient_hint e)"
    "u32_at (envelope_prefix e @ q) 22 = Ok (de_created_at e)"
    "u32_at (envelope_prefix e @ q) 26 = Ok (de_ttl_expiry e)"
    "byte_at (envelope_prefix e @ q) 30 = Ok (de_hop_count e)"
    "byte_at (envelope_prefix e @ q) 31 = Ok (de_priority e)"
    "slice_at (envelope_prefix e @ q) 32 32 = Ok (de_sender_public_key e)"
    "slice_at (envelope_prefix e @ q) 64 32 = Ok (de_ephemeral_public_key e)"
    "slice_at (envelope_prefix e @ q) 96 24 = Ok (de_nonce e)"
  using wf_envelope_lengths [OF assms]
  by (simp_all add: envelope_prefix_def byte_at_def slice_at_def u32_at_def u32_to_le_def
      nth_append u32_from_to_le)

lemma read_blob_append_blob:
  assumes "wf_blob v" and "i = length p"
  shows "read_blob (p @ append_blob v @ q) i = Ok (canon_blob v, i + length (append_blob v))"
proof -
  let ?d = "unwrap_or v []"
  have len: "unat (of_nat (length ?d) :: u32) = length ?d"
    using assms(1) by (simp add: wf_blob_def unat_of_nat)
  have u: "u32_at (p @ append_blob v @ q) i = (Ok (of_nat (length ?d)) :: (drift_error, u32) result)"
    unfolding append_blob_def Let_def using assms(2) by (simp add: codec_simps)
  have sl: "slice_at (p @ append_blob v @ q) (i + 4) (length ?d) = (Ok ?d :: (drift_error, bytes) result)"
    using slice_at_append [of "i + 4" "p @ u32_to_le (of_nat (length ?d))" _ ?d q] assms(2)
    by (simp add: append_blob_def Let_def)
  show ?thesis
  proof (cases "?d = []")
    case True
    then show ?thesis
      using u len assms(2) by (simp add: read_blob_def append_blob_def canon_blob_def)
  next
    case False
    then have "v = Some ?d" by (cases v) auto
    with False show ?thesis
      using u sl len assms(2)
      by (simp add: read_blob_def append_blob_def canon_blob_def Let_def)
  qed
qed

lemma read_ratchet_ext:
  assumes "wf_envelope e" and "i = length p"
  shows "read_ratchet (p @ ratchet_ext e @ q) i =
    Ok ((de_ratchet_dh_public e, de_ratchet_message_number (canon_envelope e)), i + length (ratchet_ext e))"
proof (cases "de_ratchet_dh_public e")
  case None
  then show ?thesis
    using assms(2) by (simp add: read_ratchet_def ratchet_ext_def canon_envelope_def codec_simps)
next
  case (Some k)
  let ?n = "unwrap_or (de_ratchet_message_number e) 0"
  define data where "data = p @ ratchet_ext e @ q"
  have data: "data = p @ (1 # k @ u32_to_le ?n) @ q"
    by (simp add: data_def ratchet_ext_def Some)
  have k: "length k = 32" using wf_envelope_lengths(7) [OF assms(1) Some] .
  have f: "byte_at data i = (Ok 1 :: (drift_error, byte) result)"
    using assms(2) by (simp add: data codec_simps)
  have d: "slice_at data (i + 1) 32 = (Ok k :: (drift_error, bytes) result)"
    unfolding data
    using slice_at_append [of "i + 1" "p @ [1]" 32 k "u32_to_le ?n @ q"] assms(2) k by simp
  have n: "u32_at data (i + 1 + 32) = (Ok ?n :: (drift_error, u32) result)"
    unfolding data
    using u32_at_append [of "i + 1 + 32" "p @ 1 # k" ?n q] assms(2) k by simp
  have l: "length data = i + 37 + length q" "length (ratchet_ext e) = 37"
    using k assms(2) by (simp_all add: data ratchet_ext_def Some)
  show ?thesis
    unfolding data_def [symmetric] read_ratchet_def
    using f d n l Some by (simp add: Let_def canon_envelope_def)
qed

lemma read_pq_ext:
  assumes "wf_envelope e" and "i = length p"
  shows "read_pq (p @ pq_ext e) i =
    Ok (de_suite (canon_envelope e), de_pq_kem_ciphertext (canon_envelope e),
        de_pq_encaps_key (canon_envelope e), de_transcript_hash (canon_envelope e))"
proof (cases "has_pq e")
  case False
  then show ?thesis
    using assms(2) by (simp add: read_pq_def pq_ext_def canon_envelope_def has_pq_def canon_blob_def)
next
  case True
  let ?s = "unwrap_or (de_suite e) 0x02"
  let ?a = "append_blob (de_pq_kem_ciphertext e)" and ?b = "append_blob (de_pq_encaps_key e)"
  let ?c = "append_blob (de_transcript_hash e)"
  note blobs = wf_envelope_lengths(8-10) [OF assms(1)]
  have f: "byte_at (p @ 1 # ?s # ?a @ ?b @ ?c) i = (Ok 1 :: (drift_error, byte) result)"
    using assms(2) by (simp add: codec_simps)
  have s: "byte_at (p @ 1 # ?s # ?a @ ?b @ ?c) (i + 1) = (Ok ?s :: (drift_error, byte) result)"
    using byte_at_append [of "i + 1" "p @ [1]" ?s "?a @ ?b @ ?c"] assms(2) by simp
  have a: "read_blob (p @ 1 # ?s # ?a @ ?b @ ?c) (i + 2) =
      Ok (canon_blob (de_pq_kem_ciphertext e), i + 2 + length ?a)"
    using read_blob_append_blob [OF blobs(1), of "i + 2" "p @ [1, ?s]" "?b @ ?c"] assms(2) by simp
  have b: "read_blob (p @ 1 # ?s # ?a @ ?b @ ?c) (i + 2 + length ?a) =
      Ok (canon_blob (de_pq_encaps_key e), i + 2 + length ?a + length ?b)"
    using read_blob_append_blob [OF blobs(2), of "i + 2 + length ?a" "p @ 1 # ?s # ?a" ?c] assms(2) by simp
  have c: "read_blob (p @ 1 # ?s # ?a @ ?b @ ?c) (i + 2 + length ?a + length ?b) =
      Ok (canon_blob (de_transcript_hash e), i + 2 + length ?a + length ?b + length ?c)"
    using read_blob_append_blob [OF blobs(3), of "i + 2 + length ?a + length ?b" "p @ 1 # ?s # ?a @ ?b" "[]"]
      assms(2) by simp
  show ?thesis
    unfolding read_pq_def pq_ext_def
    using True f s a b c assms(2) by (simp add: Let_def canon_envelope_def)
qed

text \<open>The wire image up to the post-quantum extension.\<close>

definition wire_ciphertext :: "drift_libs \<Rightarrow> drift_envelope \<Rightarrow> bytes" where
  "wire_ciphertext L e = (if de_compressed e then compress L (de_ciphertext e) else de_ciphertext e)"

definition wire_body :: "drift_libs \<Rightarrow> drift_envelope \<Rightarrow> bytes" where
  "wire_body L e = envelope_prefix e @ de_signature e
     @ u16_to_le (of_nat (length (wire_ciphertext L e))) @ wire_ciphertext L e @ ratchet_ext e"

lemma to_bytes_eq_Ok:
  "DriftEnvelope_to_bytes L e = Ok bs \<longleftrightarrow>
   length (wire_ciphertext L e) \<le> 65535 \<and> bs = wire_body L e @ pq_ext e"
  by (auto simp: DriftEnvelope_to_bytes_def wire_ciphertext_def wire_body_def Let_def MAX_CIPHERTEXT_def)

lemma from_bytes_wire_body:
  assumes wf: "wf_envelope e" and v: "de_version e = DRIFT_VERSION"
    and z: "de_compressed e \<Longrightarrow> lz4_lossless L" and ct_len: "length (wire_ciphertext L e) \<le> 65535"
  shows "DriftEnvelope_from_bytes L (wire_body L e @ tail) =
    and_then (read_pq (wire_body L e @ tail) (length (wire_body L e))) (\<lambda>(s, a, b, c).
      Ok (e\<lparr>de_ratchet_message_number := de_ratchet_message_number (canon_envelope e),
            de_suite := s, de_pq_kem_ciphertext := a, de_pq_encaps_key := b, de_transcript_hash := c\<rparr>))"
proof -
  define ct where "ct = wire_ciphertext L e"
  define rest where "rest = u16_to_le (of_nat (length ct)) @ ct @ ratchet_ext e @ tail"
  define bs where "bs = wire_body L e @ tail"
  have bs: "bs = envelope_prefix e @ de_signature e @ rest"
    by (simp add: bs_def wire_body_def ct_def rest_def)
  note len = wf_envelope_lengths [OF wf] length_envelope_prefix [OF wf]
  have n: "unat (of_nat (length ct) :: u16) = length ct"
    using ct_len by (simp add: ct_def unat_of_nat)
  have ext: "ratchet_ext e \<noteq> []"
    by (simp add: ratchet_ext_def split: option.splits)
  have sig: "slice_at bs 120 64 = (Ok (de_signature e) :: (drift_error, bytes) result)"
    unfolding bs using len by (simp add: codec_simps)
  have l16: "u16_at bs 184 = (Ok (of_nat (length ct)) :: (drift_error, u16) result)"
    unfolding bs rest_def
    using u16_at_append [of 184 "envelope_prefix e @ de_signature e"] len by simp
  have raw: "slice_at bs 186 (length ct) = (Ok ct :: (drift_error, bytes) result)"
    unfolding bs rest_def
    using slice_at_append [of 186 "envelope_prefix e @ de_signature e @ u16_to_le (of_nat (length ct))"
        "length ct" ct "ratchet_ext e @ tail"] len by simp
  have body: "length (wire_body L e) = 186 + length ct + length (ratchet_ext e)"
    using len by (simp add: wire_body_def ct_def)
  have rat: "read_ratchet bs (186 + length ct) =
     Ok ((de_ratchet_dh_public e, de_ratchet_message_number (canon_envelope e)), length (wire_body L e))"
    unfolding bs rest_def body
    using read_ratchet_ext [OF wf, of "186 + length ct"
        "envelope_prefix e @ de_signature e @ u16_to_le (of_nat (length ct)) @ ct" tail] len
    by simp
  have de: "(if de_compressed e then decompress L ct else Ok ct) = Ok (de_ciphertext e)"
    using z by (simp add: ct_def wire_ciphertext_def decompress_compress)
  have total: "length bs = 186 + length ct + length (ratchet_ext e) + length tail"
    unfolding bs rest_def using len by simp
  note pre = read_prefix_fields [OF wf, of "de_signature e @ rest", folded bs]
  have tb: "(type_byte e AND COMPRESSION_FLAG \<noteq> 0) = de_compressed e"
    by (simp add: type_byte_compressed)
  show ?thesis
    unfolding DriftEnvelope_from_bytes_def FIXED_OVERHEAD_def bs_def [symmetric]
    using total ext v
    by (simp add: pre [simplified] sig l16 raw rat de n Let_def type_byte_type tb cong: if_cong)
      (cases "read_pq bs (length (wire_body L e))", auto)
qed

lemma from_bytes_to_bytes:
  assumes wf: "wf_envelope e" and v: "de_version e = DRIFT_VERSION"
    and z: "de_compressed e \<Longrightarrow> lz4_lossless L"
    and enc: "DriftEnvelope_to_bytes L e = Ok bs"
  shows "DriftEnvelope_from_bytes L bs = Ok (canon_envelope e)"
proof -
  from enc have bs: "length (wire_ciphertext L e) \<le> 65535" "bs = wire_body L e @ pq_ext e"
    by (simp_all add: to_bytes_eq_Ok)
  show ?thesis
    unfolding bs(2) using from_bytes_wire_body [OF wf v z bs(1), of "pq_ext e"]
    by (simp add: read_pq_ext [OF wf refl] canon_envelope_def)
qed

interpretation env_codec: byte_codec "DriftEnvelope_to_bytes L" "DriftEnvelope_from_bytes L"
    "\<lambda>e. wf_envelope e \<and> de_version e = DRIFT_VERSION \<and> (de_compressed e \<longrightarrow> lz4_lossless L)" canon_envelope
  for L
  by unfold_locales (auto intro: from_bytes_to_bytes)

subsection \<open>When the parser panics\<close>

lemma read_blob_no_panic [simp]: "read_blob data i \<noteq> Panic"
  by (auto simp: read_blob_def Let_def result_splits at_eq_Panic)

lemma read_ratchet_no_panic [simp]: "read_ratchet data i \<noteq> Panic"
  by (auto simp: read_ratchet_def Let_def result_splits at_eq_Panic)


lemma read_pq_panic_iff:
  "read_pq data i = Panic \<longleftrightarrow> length data = Suc i \<and> data ! i = 0x01"
  by (auto simp: read_pq_def Let_def result_splits at_eq_Panic byte_at_eq_Ok)


lemma from_bytes_trailing_flag:
  assumes wf: "wf_envelope e" and v: "de_version e = DRIFT_VERSION"
    and z: "de_compressed e \<Longrightarrow> lz4_lossless L" and np: "\<not> has_pq e"
    and enc: "DriftEnvelope_to_bytes L e = Ok bs"
  shows "DriftEnvelope_from_bytes L (bs @ [0x01]) = Panic"
proof -
  from enc np have bs: "length (wire_ciphertext L e) \<le> 65535" "bs = wire_body L e"
    by (simp_all add: to_bytes_eq_Ok pq_ext_def)
  show ?thesis
    unfolding bs(2) using from_bytes_wire_body [OF wf v z bs(1), of "[0x01]"]
    by (simp add: result_splits read_pq_panic_iff)
qed

section \<open>Routing fields\<close>

definition hint_from_public_key :: "drift_libs \<Rightarrow> bytes \<Rightarrow> bytes" where
  "hint_from_public_key L public_key = take 4 (blake3_hash L public_key)"

definition increment_hop :: "drift_envelope \<Rightarrow> drift_envelope" where
  "increment_hop e = e\<lparr>de_hop_count := sat_add (de_hop_count e) 1\<rparr>"

text \<open>The clock is read in seconds and cut to 32 bits.\<close>

definition is_expired :: "u64 \<Rightarrow> drift_envelope \<Rightarrow> bool" where
  "is_expired now_secs e \<longleftrightarrow>
     (if de_ttl_expiry e = 0 then False else (ucast now_secs :: u32) > de_ttl_expiry e)"

section \<open>Signatures\<close>

definition signing_input :: "drift_envelope \<Rightarrow> bytes" where
  "signing_input e =
     envelope_prefix e @ u16_to_le (of_nat (length (de_ciphertext e))) @ de_ciphertext e
     @ ratchet_ext e @ pq_ext e"

definition signing_hash :: "drift_libs \<Rightarrow> drift_envelope \<Rightarrow> bytes" where
  "signing_hash L e = blake3_hash L (signing_input e)"

definition DriftEnvelope_sign :: "drift_libs \<Rightarrow> drift_envelope \<Rightarrow> bytes \<Rightarrow> bytes" where
  "DriftEnvelope_sign L e signing_key = ed25519_sign L signing_key (signing_hash L e)"

definition DriftEnvelope_verify :: "drift_libs \<Rightarrow> drift_envelope \<Rightarrow> (drift_error, unit) result" where
  "DriftEnvelope_verify L e =
     (case ed25519_key_error L (de_sender_public_key e) of
        Some m \<Rightarrow> Err (IoError (''Invalid sender public key: '' @ m))
      | None \<Rightarrow>
         (case ed25519_verify_error L (de_sender_public_key e) (signing_hash L e) (de_signature e) of
            Some m \<Rightarrow> Err (IoError (''Signature verification failed: '' @ m))
          | None \<Rightarrow> Ok ()))"

text \<open>The public half of a signing key verifies what the key signed.\<close>

definition ed25519_correct :: "drift_libs \<Rightarrow> bytes \<Rightarrow> bytes \<Rightarrow> bool" where
  "ed25519_correct L signing_key public_key \<longleftrightarrow>
     ed25519_key_error L public_key = None
     \<and> (\<forall>m. length (ed25519_sign L signing_key m) = 64
           \<and> ed25519_verify_error L public_key m (ed25519_sign L signing_key m) = None)"

lemma signing_input_signature [simp]: "signing_input (e\<lparr>de_signature := s\<rparr>) = signing_input e"
  by (simp add: signing_input_def envelope_prefix_def type_byte_def ratchet_ext_def pq_ext_def has_pq_def
      cong: option.case_cong)

lemma append_blob_canon [simp]: "append_blob (canon_blob v) = append_blob v"
  by (auto simp: append_blob_def canon_blob_def)

lemma canon_envelope_fields [simp]:
  "de_version (canon_envelope e) = de_version e"
  "de_envelope_type (canon_envelope e) = de_envelope_type e"
  "de_compressed (canon_envelope e) = de_compressed e"
  "de_message_id (canon_envelope e) = de_message_id e"
  "de_recipient_hint (canon_envelope e) = de_recipient_hint e"
  "de_created_at (canon_envelope e) = de_created_at e"
  "de_ttl_expiry (canon_envelope e) = de_ttl_expiry e"
  "de_hop_count (canon_envelope e) = de_hop_count e"
  "de_priority (canon_envelope e) = de_priority e"
  "de_sender_public_key (canon_envelope e) = de_sender_public_key e"
  "de_ephemeral_public_key (canon_envelope e) = de_ephemeral_public_key e"
  "de_nonce (canon_envelope e) = de_nonce e"
  "de_signature (canon_envelope e) = de_signature e"
  "de_ciphertext (canon_envelope e) = de_ciphertext e"
  "de_ratchet_dh_public (canon_envelope e) = de_ratchet_dh_public e"
  by (simp_all add: canon_envelope_def)

lemma has_pq_canon [simp]: "has_pq (canon_envelope e) = has_pq e"
  by (auto simp: has_pq_def canon_envelope_def canon_blob_def)

lemma signing_input_canon [simp]: "signing_input (canon_envelope e) = signing_input e"
proof -
  have "envelope_prefix (canon_envelope e) = envelope_prefix e"
    by (simp add: envelope_prefix_def type_byte_def)
  moreover have "ratchet_ext (canon_envelope e) = ratchet_ext e"
    by (cases "de_ratchet_dh_public e") (simp_all add: ratchet_ext_def, simp add: canon_envelope_def)
  moreover have "pq_ext (canon_envelope e) = pq_ext e"
    by (simp add: pq_ext_def) (simp add: canon_envelope_def)
  ultimately show ?thesis by (simp add: signing_input_def)
qed

lemma verify_canon [simp]: "DriftEnvelope_verify L (canon_envelope e) = DriftEnvelope_verify L e"
  by (simp add: DriftEnvelope_verify_def signing_hash_def cong: option.case_cong)

text \<open>The last step of both constructors: the placeholder signature is replaced by the real one.\<close>

definition signed_by :: "drift_libs \<Rightarrow> bytes \<Rightarrow> drift_envelope \<Rightarrow> drift_envelope" where
  "signed_by L signing_key e = e\<lparr>de_signature := DriftEnvelope_sign L e signing_key\<rparr>"

lemma verify_signed:
  "ed25519_correct L k (de_sender_public_key e) \<Longrightarrow> DriftEnvelope_verify L (signed_by L k e) = Ok ()"
  by (simp add: signed_by_def DriftEnvelope_verify_def DriftEnvelope_sign_def signing_hash_def
      ed25519_correct_def)

lemma signed_by_wf:
  "ed25519_correct L k p \<Longrightarrow> wf_envelope e \<Longrightarrow> wf_envelope (signed_by L k e)"
  by (simp add: signed_by_def wf_envelope_def DriftEnvelope_sign_def ed25519_correct_def)

lemma signed_by_fields [simp]:
  "de_version (signed_by L k e) = de_version e"
  "de_suite (signed_by L k e) = de_suite e"
  "has_pq (signed_by L k e) = has_pq e"
  by (simp_all add: signed_by_def has_pq_def)

section \<open>Conversion from and to message envelopes\<close>

definition to_legacy_envelope :: "drift_envelope \<Rightarrow> envelope" where
  "to_legacy_envelope e =
     \<lparr>ev_sender_public_key = de_sender_public_key e,
      ev_ephemeral_public_key = de_ephemeral_public_key e,
      ev_nonce = de_nonce e, ev_ciphertext = de_ciphertext e,
      ev_ratchet_dh_public = de_ratchet_dh_public e,
      ev_ratchet_message_number = de_ratchet_message_number e\<rparr>"

definition to_wire_envelope :: "drift_envelope \<Rightarrow> wire_envelope" where
  "to_wire_envelope e =
     (if has_pq e then
        WireV2 \<lparr>v2_suite = unwrap_or (de_suite e) 0x02,
          v2_sender_public_key = de_sender_public_key e,
          v2_ephemeral_public_key = de_ephemeral_public_key e,
          v2_nonce = de_nonce e, v2_ciphertext = de_ciphertext e,
          v2_ratchet_dh_public = de_ratchet_dh_public e,
          v2_ratchet_message_number = de_ratchet_message_number e,
          v2_pq_kem_ciphertext = de_pq_kem_ciphertext e,
          v2_pq_encaps_key = de_pq_encaps_key e,
          v2_transcript_hash = de_transcript_hash e\<rparr>
      else WireV1 (to_legacy_envelope e))"

text \<open>\<open>try_into\<close> on a byte vector: the length has to match the array.\<close>

definition to_array :: "nat \<Rightarrow> string \<Rightarrow> bytes \<Rightarrow> (drift_error, bytes) result" where
  "to_array n m xs = (if length xs = n then Ok xs else Err (IoError m))"

definition to_array_opt :: "nat \<Rightarrow> string \<Rightarrow> bytes option \<Rightarrow> (drift_error, bytes option) result" where
  "to_array_opt n m v =
     (case v of None \<Rightarrow> Ok None | Some xs \<Rightarrow> and_then (to_array n m xs) (\<lambda>a. Ok (Some a)))"

lemma to_array_eq_Ok [simp]: "to_array n m xs = Ok ys \<longleftrightarrow> length xs = n \<and> ys = xs"
  by (auto simp: to_array_def)

lemma to_array_opt_eq_Ok [simp]:
  "to_array_opt n m v = Ok w \<longleftrightarrow> w = v \<and> (\<forall>k. v = Some k \<longrightarrow> length k = n)"
  by (cases v) (auto simp: to_array_opt_def result_splits)

text \<open>The clock is the seconds since the epoch, or the error of a clock before it.\<close>

definition parse_message_id :: "drift_libs \<Rightarrow> string \<Rightarrow> (drift_error, bytes) result" where
  "parse_message_id L message_id =
     (case uuid_parse_str L message_id of
        Inl m \<Rightarrow> Err (IoError (''Invalid message ID: '' @ m)) | Inr u \<Rightarrow> Ok u)"

definition created_now :: "string + u64 \<Rightarrow> (drift_error, u32) result" where
  "created_now clock =
     (case clock of Inl m \<Rightarrow> Err (IoError (''Time error: '' @ m)) | Inr secs \<Rightarrow> Ok (ucast secs))"

definition from_legacy_envelope ::
  "drift_libs \<Rightarrow> string + u64 \<Rightarrow> envelope \<Rightarrow> string \<Rightarrow> bytes \<Rightarrow> bytes \<Rightarrow> (drift_error, drift_envelope) result" where
  "from_legacy_envelope L clock legacy message_id recipient_public_key signing_key =
     and_then (parse_message_id L message_id) (\<lambda>message_id_bytes.
     and_then (created_now clock) (\<lambda>created_at.
     and_then (to_array 32 ''Invalid sender public key length'' (ev_sender_public_key legacy)) (\<lambda>sender_public_key.
     and_then (to_array 32 ''Invalid ephemeral public key length'' (ev_ephemeral_public_key legacy)) (\<lambda>ephemeral_public_key.
     and_then (to_array 24 ''Invalid nonce length'' (ev_nonce legacy)) (\<lambda>nonce.
     and_then (to_array_opt 32 ''Invalid ratchet_dh_public length'' (ev_ratchet_dh_public legacy)) (\<lambda>ratchet_dh_public.
     let drift_env = \<lparr>de_version = DRIFT_VERSION, de_envelope_type = EncryptedMessage,
           de_compressed = (length (ev_ciphertext legacy) > COMPRESSION_THRESHOLD),
           de_message_id = message_id_bytes,
           de_recipient_hint = hint_from_public_key L recipient_public_key,
           de_created_at = created_at, de_ttl_expiry = created_at + 604800,
           de_hop_count = 0, de_priority = 128,
           de_sender_public_key = sender_public_key,
           de_ephemeral_public_key = ephemeral_public_key,
           de_nonce = nonce, de_signature = replicate 64 0,
           de_ciphertext = ev_ciphertext legacy,
           de_ratchet_dh_public = ratchet_dh_public,
           de_ratchet_message_number = ev_ratchet_message_number legacy,
           de_suite = None, de_pq_kem_ciphertext = None, de_pq_encaps_key = None,
           de_transcript_hash = None\<rparr>
     in Ok (signed_by L signing_key drift_env)))))))"

definition from_v2_envelope ::
  "drift_libs \<Rightarrow> string + u64 \<Rightarrow> envelope_v2 \<Rightarrow> string \<Rightarrow> bytes \<Rightarrow> bytes \<Rightarrow> (drift_error, drift_envelope) result" where
  "from_v2_envelope L clock v2 message_id recipient_public_key signing_key =
     and_then (parse_message_id L message_id) (\<lambda>message_id_bytes.
     and_then (created_now clock) (\<lambda>created_at.
     and_then (to_array 32 ''Invalid sender public key length'' (v2_sender_public_key v2)) (\<lambda>sender_public_key.
     and_then (to_array 32 ''Invalid ephemeral public key length'' (v2_ephemeral_public_key v2)) (\<lambda>ephemeral_public_key.
     and_then (to_array 24 ''Invalid nonce length'' (v2_nonce v2)) (\<lambda>nonce.
     and_then (to_array_opt 32 ''Invalid ratchet_dh_public length'' (v2_ratchet_dh_public v2)) (\<lambda>ratchet_dh_public.
     let drift_env = \<lparr>de_version = DRIFT_VERSION, de_envelope_type = EncryptedMessage,
           de_compressed = (length (v2_ciphertext v2) > COMPRESSION_THRESHOLD),
           de_message_id = message_id_bytes,
           de_recipient_hint = hint_from_public_key L recipient_public_key,
           de_created_at = created_at, de_ttl_expiry = created_at + 604800,
           de_hop_count = 0, de_priority = 128,
           de_sender_public_key = sender_public_key,
           de_ephemeral_public_key = ephemeral_public_key,
           de_nonce = nonce, de_signature = replicate 64 0,
           de_ciphertext = v2_ciphertext v2,
           de_ratchet_dh_public = ratchet_dh_public,
           de_ratchet_message_number = v2_ratchet_message_number v2,
           de_suite = Some (v2_suite v2), de_pq_kem_ciphertext = v2_pq_kem_ciphertext v2,
           de_pq_encaps_key = v2_pq_encaps_key v2,
           de_transcript_hash = v2_transcript_hash v2\<rparr>
     in Ok (signed_by L signing_key drift_env)))))))"

text \<open>The lengths the library functions return.\<close>

definition libs_sized :: "drift_libs \<Rightarrow> bool" where
  "libs_sized L \<longleftrightarrow> (\<forall>x. length (blake3_hash L x) = 32)
     \<and> (\<forall>s u. uuid_parse_str L s = Inr u \<longrightarrow> length u = 16)"

lemma to_wire_envelope_signed_by [simp]:
  "to_wire_envelope (signed_by L k e) = to_wire_envelope e"
  by (simp add: to_wire_envelope_def to_legacy_envelope_def) (simp add: signed_by_def)

lemma from_v2_envelope_signs:
  assumes "from_v2_envelope L clock v2 mid pk k = Ok e" and "libs_sized L"
    and "wf_blob (v2_pq_kem_ciphertext v2)" "wf_blob (v2_pq_encaps_key v2)" "wf_blob (v2_transcript_hash v2)"
  shows "\<exists>e0. e = signed_by L k e0 \<and> wf_envelope e0 \<and> de_version e0 = DRIFT_VERSION \<and> has_pq e0
    \<and> de_sender_public_key e0 = v2_sender_public_key v2 \<and> to_wire_envelope e0 = WireV2 v2"
  using assms
  by (clarsimp simp: from_v2_envelope_def result_splits Let_def)
    (rule exI, rule conjI, rule refl,
     auto simp: wf_envelope_def has_pq_def to_wire_envelope_def parse_message_id_def
       hint_from_public_key_def libs_sized_def split: sum.splits option.splits)

lemma from_v2_envelope_sound:
  assumes "from_v2_envelope L clock v2 mid pk k = Ok e"
    and "ed25519_correct L k (v2_sender_public_key v2)" and "libs_sized L"
    and "wf_blob (v2_pq_kem_ciphertext v2)" "wf_blob (v2_pq_encaps_key v2)" "wf_blob (v2_transcript_hash v2)"
  shows "wf_envelope e \<and> de_version e = DRIFT_VERSION \<and> DriftEnvelope_verify L e = Ok ()
    \<and> has_pq e \<and> to_wire_envelope e = WireV2 v2"
  using from_v2_envelope_signs [OF assms(1,3-6)] assms(2)
  by (auto intro: signed_by_wf verify_signed)

lemma from_legacy_envelope_signs:
  assumes "from_legacy_envelope L clock v1 mid pk k = Ok e" and "libs_sized L"
  shows "\<exists>e0. e = signed_by L k e0 \<and> wf_envelope e0 \<and> de_version e0 = DRIFT_VERSION \<and> \<not> has_pq e0
    \<and> de_sender_public_key e0 = ev_sender_public_key v1 \<and> to_wire_envelope e0 = WireV1 v1"
  using assms
  by (clarsimp simp: from_legacy_envelope_def result_splits Let_def)
    (rule exI, rule conjI, rule refl,
     auto simp: wf_envelope_def wf_blob_def has_pq_def to_wire_envelope_def to_legacy_envelope_def
       parse_message_id_def hint_from_public_key_def libs_sized_def split: sum.splits option.splits)

lemma from_legacy_envelope_sound:
  assumes "from_legacy_envelope L clock v1 mid pk k = Ok e"
    and "ed25519_correct L k (ev_sender_public_key v1)" and "libs_sized L"
  shows "wf_envelope e \<and> de_version e = DRIFT_VERSION \<and> DriftEnvelope_verify L e = Ok ()
    \<and> \<not> has_pq e \<and> to_wire_envelope e = WireV1 v1"
  using from_legacy_envelope_signs [OF assms(1,3)] assms(2)
  by (auto intro: signed_by_wf verify_signed)

section \<open>What a signature binds\<close>






section \<open>Properties\<close>

text \<open>A library and an envelope to evaluate the properties at.\<close>

definition sample_libs :: drift_libs where
  "sample_libs = \<lparr>lz4_compress_prepend_size = (\<lambda>d. d), lz4_decompress_size_prepended = Inr,
     blake3_hash = (\<lambda>x. take 32 (x @ replicate 32 0)),
     ed25519_sign = (\<lambda>k m. take 64 (m @ replicate 64 0)),
     ed25519_key_error = (\<lambda>k. None),
     ed25519_verify_error = (\<lambda>p m s. if s = take 64 (m @ replicate 64 0) then None else Some ''bad''),
     uuid_parse_str = (\<lambda>s. Inr (replicate 16 7))\<rparr>"

definition sample_envelope :: drift_envelope where
  "sample_envelope = \<lparr>de_version = 1, de_envelope_type = EncryptedMessage, de_compressed = True,
     de_message_id = replicate 16 7, de_recipient_hint = [1, 2, 3, 4],
     de_created_at = 1000, de_ttl_expiry = 605800, de_hop_count = 3, de_priority = 128,
     de_sender_public_key = replicate 32 1, de_ephemeral_public_key = replicate 32 2,
     de_nonce = replicate 24 3, de_signature = replicate 64 4, de_ciphertext = [9, 8, 7],
     de_ratchet_dh_public = Some (replicate 32 5), de_ratchet_message_number = None,
     de_suite = None, de_pq_kem_ciphertext = None, de_pq_encaps_key = None,
     de_transcript_hash = None\<rparr>"

lemma sample_libs_ok:
  "lz4_lossless sample_libs" "libs_sized sample_libs" "ed25519_correct sample_libs k p"
  by (auto simp: sample_libs_def lz4_lossless_def libs_sized_def ed25519_correct_def)

lemma sample_envelope_ok:
  "wf_envelope sample_envelope" "de_version sample_envelope = DRIFT_VERSION" "\<not> has_pq sample_envelope"
  "\<exists>bs. DriftEnvelope_to_bytes sample_libs sample_envelope = Ok bs"
  by (simp_all add: sample_envelope_def wf_envelope_def wf_blob_def DRIFT_VERSION_def has_pq_def
      to_bytes_eq_Ok wire_ciphertext_def compress_def sample_libs_def)

text \<open>
  C11. Wire round trip: parsing the bytes of any well-formed envelope gives the envelope back in
  its canonical form, with every routing, crypto, ratchet and post-quantum field, whether or not
  the payload was compressed.
\<close>

theorem envelope_wire_roundtrip:
  assumes "wf_envelope e" and "de_version e = DRIFT_VERSION" and "lz4_lossless L"
    and "DriftEnvelope_to_bytes L e = Ok bs"
  shows "DriftEnvelope_from_bytes L bs = Ok (canon_envelope e)"
  using assms by (intro env_codec.dec_enc) auto

theorem envelope_wire_roundtrip_witness:
  "\<exists>bs. DriftEnvelope_to_bytes sample_libs sample_envelope = Ok bs
     \<and> DriftEnvelope_from_bytes sample_libs bs = Ok (sample_envelope\<lparr>de_ratchet_message_number := Some 0\<rparr>)"
proof -
  obtain bs where "DriftEnvelope_to_bytes sample_libs sample_envelope = Ok bs"
    using sample_envelope_ok(4) by blast
  moreover from this have "DriftEnvelope_from_bytes sample_libs bs = Ok (canon_envelope sample_envelope)"
    by (rule envelope_wire_roundtrip [OF sample_envelope_ok(1,2) sample_libs_ok(1)])
  moreover have "canon_envelope sample_envelope = sample_envelope\<lparr>de_ratchet_message_number := Some 0\<rparr>"
    by (simp add: canon_envelope_def sample_envelope_def has_pq_def canon_blob_def)
  ultimately show ?thesis by simp
qed



text \<open>
  The remaining buffers do panic: one byte \<open>0x01\<close> after the bytes of any envelope without
  post-quantum fields is read as a post-quantum flag, and the suite byte behind it is fetched
  without a bounds check.
\<close>

theorem envelope_parse_panics:
  assumes "wf_envelope e" and "de_version e = DRIFT_VERSION" and "lz4_lossless L"
    and "\<not> has_pq e" and "DriftEnvelope_to_bytes L e = Ok bs"
  shows "DriftEnvelope_from_bytes L (bs @ [0x01]) = Panic"
  using from_bytes_trailing_flag [OF assms(1,2) _ assms(4,5)] assms(3) by simp

theorem envelope_parse_panics_witness:
  "\<exists>bs. DriftEnvelope_to_bytes sample_libs sample_envelope = Ok bs
     \<and> DriftEnvelope_from_bytes sample_libs (bs @ [0x01]) = Panic"
  using envelope_parse_panics [OF sample_envelope_ok(1,2) sample_libs_ok(1) sample_envelope_ok(3)]
    sample_envelope_ok(4) by blast



end
