(* ===== verification/Drift_Sketch.thy ===== *)
theory Drift_Sketch
  imports Drift_Envelope "HOL-Library.Multiset"
begin

text \<open>
  The invertible Bloom lookup table of \<open>core/src/drift/sketch.rs\<close> that two nodes use to find the
  message identifiers one of them lacks: insertion, subtraction, peeling and the wire format.

  A message identifier is a list of 16 bytes.  The cell counter is an \<open>i32\<close>, kept as a 32-bit word
  whose addition wraps.  The digest of the \<open>blake3\<close> package is the argument \<open>b3\<close>.
\<close>

section \<open>Cells\<close>

type_synonym message_id = bytes

definition HASH_COUNT :: nat where "HASH_COUNT = 3"

definition CELLS_PER_DIFF :: nat where "CELLS_PER_DIFF = 3"

record iblt_cell =
  cell_count :: "32 word"
  cell_key_sum :: bytes
  cell_key_check :: u32

definition IBLTCell_new :: iblt_cell where
  "IBLTCell_new = \<lparr>cell_count = 0, cell_key_sum = replicate 16 0, cell_key_check = 0\<rparr>"

definition is_pure :: "iblt_cell \<Rightarrow> bool" where
  "is_pure c \<longleftrightarrow> cell_count c = 1 \<or> cell_count c = - 1"

definition is_empty_cell :: "iblt_cell \<Rightarrow> bool" where
  "is_empty_cell c \<longleftrightarrow> cell_count c = 0"

definition xor_bytes :: "bytes \<Rightarrow> bytes \<Rightarrow> bytes" where
  "xor_bytes xs ys = map2 (XOR) xs ys"

definition key_prefix :: "bytes \<Rightarrow> u32" where
  "key_prefix key = u32_from_le (key ! 0) (key ! 1) (key ! 2) (key ! 3)"

definition xor_in :: "iblt_cell \<Rightarrow> message_id \<Rightarrow> iblt_cell" where
  "xor_in c key = c\<lparr>cell_key_sum := xor_bytes (cell_key_sum c) key,
                    cell_key_check := cell_key_check c XOR key_prefix key\<rparr>"

definition xor_out :: "iblt_cell \<Rightarrow> message_id \<Rightarrow> iblt_cell" where
  "xor_out c key = xor_in c key"

section \<open>Tables\<close>

record iblt =
  iblt_cells :: "iblt_cell list"
  iblt_num_cells :: nat

definition IBLT_new :: "nat \<Rightarrow> iblt" where
  "IBLT_new expected_diffs =
     (let num_cells = max expected_diffs 1 * CELLS_PER_DIFF
      in \<lparr>iblt_cells = replicate num_cells IBLTCell_new, iblt_num_cells = num_cells\<rparr>)"

definition IBLT_with_cells :: "nat \<Rightarrow> iblt" where
  "IBLT_with_cells num_cells =
     \<lparr>iblt_cells = replicate (max num_cells 1) IBLTCell_new, iblt_num_cells = max num_cells 1\<rparr>"

definition hash_to_cell :: "(bytes \<Rightarrow> bytes) \<Rightarrow> nat \<Rightarrow> message_id \<Rightarrow> nat \<Rightarrow> nat" where
  "hash_to_cell b3 num_cells key hash_idx =
     (let bs = b3 (of_nat hash_idx # key);
          v = u64_from_le (bs ! 0) (bs ! 1) (bs ! 2) (bs ! 3) (bs ! 4) (bs ! 5) (bs ! 6) (bs ! 7)
      in unat v mod num_cells)"

text \<open>One pass over the hash functions: change the counter of each cell by \<open>s\<close> and xor the key.\<close>

definition cell_add :: "32 word \<Rightarrow> message_id \<Rightarrow> iblt_cell \<Rightarrow> iblt_cell" where
  "cell_add s key c = xor_in (c\<lparr>cell_count := cell_count c + s\<rparr>) key"

definition update_cells ::
  "(bytes \<Rightarrow> bytes) \<Rightarrow> nat \<Rightarrow> 32 word \<Rightarrow> message_id \<Rightarrow> iblt_cell list \<Rightarrow> iblt_cell list" where
  "update_cells b3 n s key cells =
     fold (\<lambda>hash_idx cells.
             let cell_idx = hash_to_cell b3 n key hash_idx
             in cells[cell_idx := cell_add s key (cells ! cell_idx)]) [0..<HASH_COUNT] cells"

text \<open>The remainder by \<open>num_cells\<close> panics on a table without cells.\<close>

definition IBLT_insert :: "(bytes \<Rightarrow> bytes) \<Rightarrow> message_id \<Rightarrow> iblt \<Rightarrow> (drift_error, iblt) result" where
  "IBLT_insert b3 key t =
     (if iblt_num_cells t = 0 then Panic
      else Ok (t\<lparr>iblt_cells := update_cells b3 (iblt_num_cells t) 1 key (iblt_cells t)\<rparr>))"

definition IBLT_remove :: "(bytes \<Rightarrow> bytes) \<Rightarrow> message_id \<Rightarrow> iblt \<Rightarrow> (drift_error, iblt) result" where
  "IBLT_remove b3 key t =
     (if iblt_num_cells t = 0 then Panic
      else Ok (t\<lparr>iblt_cells := update_cells b3 (iblt_num_cells t) (- 1) key (iblt_cells t)\<rparr>))"

definition cell_subtract :: "iblt_cell \<Rightarrow> iblt_cell \<Rightarrow> iblt_cell" where
  "cell_subtract a b =
     \<lparr>cell_count = cell_count a - cell_count b,
      cell_key_sum = xor_bytes (cell_key_sum a) (cell_key_sum b),
      cell_key_check = cell_key_check a XOR cell_key_check b\<rparr>"

text \<open>
  The result is a fresh table with at least one cell, of which the first \<open>num_cells\<close> are filled.
\<close>

definition IBLT_subtract :: "iblt \<Rightarrow> iblt \<Rightarrow> (drift_error, iblt) result" where
  "IBLT_subtract t u =
     (if iblt_num_cells t \<noteq> iblt_num_cells u
      then Err (BufferTooShort (iblt_num_cells t) (iblt_num_cells u))
      else
        let n = iblt_num_cells t; r = IBLT_with_cells n
        in Ok (r\<lparr>iblt_cells := map (\<lambda>i. cell_subtract (iblt_cells t ! i) (iblt_cells u ! i)) [0..<n]
                                 @ drop n (iblt_cells r)\<rparr>))"

section \<open>Peeling\<close>

definition pure_position :: "iblt_cell list \<Rightarrow> nat option" where
  "pure_position cells = find (\<lambda>i. is_pure (cells ! i)) [0..<length cells]"

text \<open>The loop body, with the iterations that remain as the first argument.\<close>

fun decode_loop ::
  "(bytes \<Rightarrow> bytes) \<Rightarrow> nat \<Rightarrow> nat \<Rightarrow> iblt_cell list \<Rightarrow> message_id list \<Rightarrow> message_id list
   \<Rightarrow> (drift_error, message_id list \<times> message_id list) result" where
  "decode_loop b3 n 0 cells alice_only bob_only =
     Err (DecompressionFailed ''IBLT decode failed: exceeded maximum iterations (IBLT likely undersized for differences)'')"
| "decode_loop b3 n (Suc k) cells alice_only bob_only =
     (case pure_position cells of
        None \<Rightarrow>
          if list_all is_empty_cell cells then Ok (alice_only, bob_only)
          else Err (DecompressionFailed ''IBLT decode failed: cannot peel remaining cells'')
      | Some idx \<Rightarrow>
          let key = cell_key_sum (cells ! idx); count = cell_count (cells ! idx);
              key_check = cell_key_check (cells ! idx) in
          if key_check \<noteq> key_prefix key
          then Err (DecompressionFailed ''IBLT decode failed: key_check mismatch, possible hash collision or corruption'')
          else
            let alice_only = (if count = 1 then alice_only @ [key] else alice_only);
                bob_only = (if count = 1 then bob_only else bob_only @ [key]);
                cells = update_cells b3 n (- count) key cells
            in decode_loop b3 n k (cells[idx := IBLTCell_new]) alice_only bob_only)"

definition IBLT_decode :: "(bytes \<Rightarrow> bytes) \<Rightarrow> iblt \<Rightarrow> (drift_error, message_id list \<times> message_id list) result" where
  "IBLT_decode b3 t = decode_loop b3 (iblt_num_cells t) (iblt_num_cells t * 10) (iblt_cells t) [] []"

section \<open>Wire format\<close>

definition cell_bytes :: "iblt_cell \<Rightarrow> bytes" where
  "cell_bytes c = ucast (cell_count c) # cell_key_sum c @ u32_to_le (cell_key_check c)"

definition IBLT_to_bytes :: "iblt \<Rightarrow> (drift_error, bytes) result" where
  "IBLT_to_bytes t =
     (if iblt_num_cells t > 65535 then Err (BufferTooShort (iblt_num_cells t) 65535)
      else Ok (u16_to_le (of_nat (iblt_num_cells t)) @ concat (map cell_bytes (iblt_cells t))))"

definition read_cell :: "bytes \<Rightarrow> nat \<Rightarrow> (drift_error, iblt_cell) result" where
  "read_cell data offset =
     and_then (byte_at data offset) (\<lambda>count.
     and_then (slice_at data (offset + 1) 16) (\<lambda>key_sum.
     and_then (u32_at data (offset + 17)) (\<lambda>key_check.
     Ok \<lparr>cell_count = ucast count, cell_key_sum = key_sum, cell_key_check = key_check\<rparr>)))"

fun read_cells :: "bytes \<Rightarrow> nat \<Rightarrow> nat \<Rightarrow> (drift_error, iblt_cell list) result" where
  "read_cells data i 0 = Ok []"
| "read_cells data i (Suc n) =
     and_then (read_cell data (2 + i * 21)) (\<lambda>c.
     and_then (read_cells data (i + 1) n) (\<lambda>cs. Ok (c # cs)))"

definition IBLT_from_bytes :: "bytes \<Rightarrow> (drift_error, iblt) result" where
  "IBLT_from_bytes data =
     (if length data < 2 then Err (BufferTooShort 2 (length data)) else
      and_then (u16_at data 0) (\<lambda>len16.
      let num_cells = unat len16; expected_len = 2 + num_cells * 21 in
      if length data \<noteq> expected_len then Err (BufferTooShort expected_len (length data)) else
      and_then (read_cells data 0 num_cells) (\<lambda>cells.
      Ok \<lparr>iblt_cells = cells, iblt_num_cells = num_cells\<rparr>)))"

definition serialized_size :: "iblt \<Rightarrow> nat" where
  "serialized_size t = 2 + iblt_num_cells t * 21"

section \<open>The algebra of keys and cells\<close>

lemma length_xor_bytes [simp]: "length (xor_bytes xs ys) = min (length xs) (length ys)"
  by (simp add: xor_bytes_def)

lemma nth_xor_bytes [simp]:
  "i < length xs \<Longrightarrow> i < length ys \<Longrightarrow> xor_bytes xs ys ! i = (xs ! i XOR ys ! i)"
  by (simp add: xor_bytes_def)

lemma xor_bytes_commute: "xor_bytes xs ys = xor_bytes ys xs"
  by (rule nth_equalityI) (auto simp: xor.commute)

lemma xor_bytes_assoc: "xor_bytes (xor_bytes xs ys) zs = xor_bytes xs (xor_bytes ys zs)"
  by (rule nth_equalityI) (auto simp: xor.assoc)

lemma xor_bytes_left_commute: "xor_bytes xs (xor_bytes ys zs) = xor_bytes ys (xor_bytes xs zs)"
  by (metis xor_bytes_commute xor_bytes_assoc)

lemmas xor_bytes_ac = xor_bytes_commute xor_bytes_assoc xor_bytes_left_commute

lemma xor_bytes_zero: "length x = n \<Longrightarrow> xor_bytes x (replicate n 0) = x"
  by (rule nth_equalityI) auto

lemma xor_bytes_self: "length x = n \<Longrightarrow> xor_bytes x x = replicate n 0"
  by (rule nth_equalityI) auto

lemma xor_bytes_cancel: "length x = length y \<Longrightarrow> xor_bytes x (xor_bytes x y) = y"
  by (rule nth_equalityI) (auto simp flip: xor.assoc)

lemma xor_bytes_cancel': "length x = length y \<Longrightarrow> xor_bytes (xor_bytes x y) x = y"
  by (simp add: xor_bytes_commute [of "xor_bytes x y"] xor_bytes_cancel)

lemma xor_word_cancel: "(a XOR b) XOR a = (b :: 'a::len word)"
  by (simp add: xor.commute xor.left_commute)

lemma u32_from_le_xor:
  "u32_from_le (a XOR a') (b XOR b') (c XOR c') (d XOR d') = u32_from_le a b c d XOR u32_from_le a' b' c' d'"
  unfolding u32_from_le_def
proof (rule bit_word_eqI)
  fix n assume "n < LENGTH(32)"
  then consider "n < 8" | "8 \<le> n" "n < 16" | "16 \<le> n" "n < 24" | "24 \<le> n" "n < 32" by fastforce
  then show "bit (ucast (a XOR a') OR push_bit 8 (ucast (b XOR b')) OR push_bit 16 (ucast (c XOR c'))
        OR push_bit 24 (ucast (d XOR d')) :: u32) n =
      bit ((ucast a OR push_bit 8 (ucast b) OR push_bit 16 (ucast c) OR push_bit 24 (ucast d)) XOR
        (ucast a' OR push_bit 8 (ucast b') OR push_bit 16 (ucast c') OR push_bit 24 (ucast d')) :: u32) n"
    by cases (simp_all add: bit_simps less_diff_conv2)
qed

lemma key_prefix_xor:
  "length a = 16 \<Longrightarrow> length b = 16 \<Longrightarrow> key_prefix (xor_bytes a b) = key_prefix a XOR key_prefix b"
  by (simp add: key_prefix_def u32_from_le_xor)

definition xor_all :: "message_id list \<Rightarrow> bytes" where
  "xor_all xs = foldr xor_bytes xs (replicate 16 0)"

definition valid_keys :: "message_id list \<Rightarrow> bool" where
  "valid_keys xs \<longleftrightarrow> list_all (\<lambda>x. length x = 16) xs"

lemma valid_keys_simps [simp]:
  "valid_keys []" "valid_keys (x # xs) \<longleftrightarrow> length x = 16 \<and> valid_keys xs"
  "valid_keys (xs @ ys) \<longleftrightarrow> valid_keys xs \<and> valid_keys ys"
  "valid_keys (replicate n x) \<longleftrightarrow> n = 0 \<or> length x = 16"
  by (auto simp: valid_keys_def list_all_iff)

lemma valid_keys_remove1: "valid_keys xs \<Longrightarrow> valid_keys (remove1 x xs)"
  by (auto simp: valid_keys_def list_all_iff dest: notin_set_remove1)

lemma valid_keysD: "valid_keys xs \<Longrightarrow> x \<in> set xs \<Longrightarrow> length x = 16"
  by (simp add: valid_keys_def list_all_iff)

lemma valid_keys_mset: "mset xs = mset ys \<Longrightarrow> valid_keys xs = valid_keys ys"
  unfolding valid_keys_def list_all_iff by (drule mset_eq_setD) simp

lemma xor_all_simps [simp]: "xor_all [] = replicate 16 0" "xor_all (x # xs) = xor_bytes x (xor_all xs)"
  by (simp_all add: xor_all_def)

lemma length_xor_all [simp]: "valid_keys xs \<Longrightarrow> length (xor_all xs) = 16"
  by (induction xs) auto

lemma xor_all_append: "valid_keys ys \<Longrightarrow> xor_all (xs @ ys) = xor_bytes (xor_all xs) (xor_all ys)"
proof (induction xs)
  case Nil
  then show ?case by (simp add: xor_bytes_commute [of "replicate 16 0"] xor_bytes_zero)
qed (simp add: xor_bytes_assoc)

lemma xor_all_mset: "mset xs = mset ys \<Longrightarrow> xor_all xs = xor_all ys"
  unfolding xor_all_def foldr_conv_fold
  by (rule arg_cong [where f = "\<lambda>f. f _"], rule fold_multiset_equiv)
    (auto simp: fun_eq_iff xor_bytes_left_commute)

text \<open>
  What a cell holds after the keys \<open>xs\<close> have been added to an empty one (\<open>s = 1\<close>) or taken out
  of it (\<open>s = -1\<close>).
\<close>

definition cell_rep :: "32 word \<Rightarrow> message_id list \<Rightarrow> iblt_cell" where
  "cell_rep s xs = \<lparr>cell_count = s * of_nat (length xs), cell_key_sum = xor_all xs,
                  cell_key_check = key_prefix (xor_all xs)\<rparr>"

lemma cell_rep_Nil: "cell_rep s [] = IBLTCell_new"
  by (simp add: cell_rep_def IBLTCell_new_def key_prefix_def u32_from_le_def)

lemma cell_rep_mset: "mset xs = mset ys \<Longrightarrow> cell_rep s xs = cell_rep s ys"
  unfolding cell_rep_def using xor_all_mset [of xs ys] mset_eq_length [of xs ys] by simp

lemma cell_add_rep:
  "length x = 16 \<Longrightarrow> valid_keys xs \<Longrightarrow> cell_add s x (cell_rep s xs) = cell_rep s (x # xs)"
  by (simp add: cell_add_def xor_in_def cell_rep_def key_prefix_xor xor_bytes_commute [of x] xor.commute
      distrib_left add.commute)

lemma cell_drop_rep:
  "length x = 16 \<Longrightarrow> valid_keys xs \<Longrightarrow> cell_add (- s) x (cell_rep s (x # xs)) = cell_rep s xs"
  by (simp add: cell_add_def xor_in_def cell_rep_def key_prefix_xor xor_bytes_cancel' xor_word_cancel
      distrib_left)

lemma cell_subtract_rep:
  assumes "valid_keys xs" and "valid_keys ys"
  shows "cell_subtract (cell_rep s (xs @ ys)) (cell_rep s xs) = cell_rep s ys"
    and "cell_subtract (cell_rep s xs) (cell_rep s (xs @ ys)) = cell_rep (- s) ys"
  using assms
  by (simp_all add: cell_subtract_def cell_rep_def xor_all_append key_prefix_xor xor_bytes_cancel
      xor_bytes_cancel' xor_word_cancel distrib_left)

lemma cell_add_funpow:
  "length x = 16 \<Longrightarrow> valid_keys xs \<Longrightarrow> (cell_add s x ^^ k) (cell_rep s xs) = cell_rep s (replicate k x @ xs)"
  by (induction k) (simp_all add: cell_add_rep)

lemma cell_drop_funpow:
  "length x = 16 \<Longrightarrow> valid_keys xs \<Longrightarrow> (cell_add (- s) x ^^ k) (cell_rep s (replicate k x @ xs)) = cell_rep s xs"
  by (induction k) (simp_all add: funpow_swap1 cell_drop_rep)

section \<open>Which cells a key hits\<close>

definition hits :: "(bytes \<Rightarrow> bytes) \<Rightarrow> nat \<Rightarrow> message_id \<Rightarrow> nat \<Rightarrow> nat" where
  "hits b3 n x i = count_list (map (hash_to_cell b3 n x) [0..<HASH_COUNT]) i"

text \<open>The keys of \<open>xs\<close> in cell \<open>i\<close>, once for every hash function that sends them there.\<close>

definition in_cell :: "(bytes \<Rightarrow> bytes) \<Rightarrow> nat \<Rightarrow> message_id list \<Rightarrow> nat \<Rightarrow> message_id list" where
  "in_cell b3 n xs i = concat (map (\<lambda>x. replicate (hits b3 n x i) x) xs)"

definition table_rep :: "(bytes \<Rightarrow> bytes) \<Rightarrow> nat \<Rightarrow> 32 word \<Rightarrow> message_id list \<Rightarrow> iblt_cell list" where
  "table_rep b3 n s xs = map (\<lambda>i. cell_rep s (in_cell b3 n xs i)) [0..<n]"

lemma in_cell_simps [simp]:
  "in_cell b3 n [] i = []" "in_cell b3 n (x # xs) i = replicate (hits b3 n x i) x @ in_cell b3 n xs i"
  "in_cell b3 n (xs @ ys) i = in_cell b3 n xs i @ in_cell b3 n ys i"
  by (simp_all add: in_cell_def)

lemma valid_in_cell [simp]: "valid_keys xs \<Longrightarrow> valid_keys (in_cell b3 n xs i)"
  by (induction xs) auto

lemma mset_in_cell: "mset (in_cell b3 n xs i) = (\<Sum>x\<in>#mset xs. replicate_mset (hits b3 n x i) x)"
  by (induction xs) simp_all

lemma in_cell_cong: "mset xs = mset ys \<Longrightarrow> mset (in_cell b3 n xs i) = mset (in_cell b3 n ys i)"
  by (simp add: mset_in_cell)

lemma table_rep_cong: "mset xs = mset ys \<Longrightarrow> table_rep b3 n s xs = table_rep b3 n s ys"
  by (auto simp: table_rep_def intro!: cell_rep_mset in_cell_cong)

lemma length_table_rep [simp]: "length (table_rep b3 n s xs) = n"
  by (simp add: table_rep_def)

lemma nth_table_rep [simp]: "i < n \<Longrightarrow> table_rep b3 n s xs ! i = cell_rep s (in_cell b3 n xs i)"
  by (simp add: table_rep_def)

lemma hash_to_cell_less [simp]: "0 < n \<Longrightarrow> hash_to_cell b3 n x j < n"
  by (simp add: hash_to_cell_def Let_def)

lemma hits_total: "0 < n \<Longrightarrow> (\<Sum>i<n. hits b3 n x i) = HASH_COUNT"
proof -
  assume n: "0 < n"
  have "set (map (hash_to_cell b3 n x) [0..<HASH_COUNT]) \<subseteq> {..<n}" using n by auto
  from sum_count_set [OF this] show ?thesis by (simp add: hits_def)
qed

lemma hit_somewhere: "0 < n \<Longrightarrow> \<exists>i<n. 0 < hits b3 n x i"
proof (rule ccontr)
  assume n: "0 < n" and "\<not> (\<exists>i<n. 0 < hits b3 n x i)"
  then have "(\<Sum>i<n. hits b3 n x i) = 0" by simp
  with hits_total [OF n, of b3 x] show False by (simp add: HASH_COUNT_def)
qed

lemma in_cell_length_le: "length (in_cell b3 n xs i) \<le> HASH_COUNT * length xs"
proof -
  have "hits b3 n x i \<le> HASH_COUNT" for x
    using count_le_length [of "map (hash_to_cell b3 n x) [0..<HASH_COUNT]" i] by (simp add: hits_def)
  then show ?thesis by (induction xs) (auto intro: add_mono)
qed

lemma length_in_cell: "length (in_cell b3 n xs i) = (\<Sum>x\<in>#mset xs. hits b3 n x i)"
  by (induction xs) simp_all

lemma in_cell_mem: "x \<in> set (in_cell b3 n xs i) \<Longrightarrow> x \<in> set xs \<and> 0 < hits b3 n x i"
  by (induction xs) (auto simp: in_set_replicate)

lemma mset_remove1_Cons: "x \<in> set xs \<Longrightarrow> mset (x # remove1 x xs) = mset xs"
  by simp

lemma in_cell_remove1:
  "x \<in> set xs \<Longrightarrow>
   mset (in_cell b3 n xs i) = mset (replicate (hits b3 n x i) x @ in_cell b3 n (remove1 x xs) i)"
  using in_cell_cong [OF mset_remove1_Cons, symmetric] by (metis in_cell_simps(2))

lemma fold_list_update:
  assumes "\<And>i. i \<in> set js \<Longrightarrow> i < length cs"
  shows "length (fold (\<lambda>i cs. cs[i := f (cs ! i)]) js cs) = length cs"
    and "k < length cs \<Longrightarrow> fold (\<lambda>i cs. cs[i := f (cs ! i)]) js cs ! k = (f ^^ count_list js k) (cs ! k)"
  using assms by (induction js arbitrary: cs) (auto simp: nth_list_update funpow_swap1)

lemma update_cells_fold:
  "update_cells b3 n s x cells =
   fold (\<lambda>i cs. cs[i := cell_add s x (cs ! i)]) (map (hash_to_cell b3 n x) [0..<HASH_COUNT]) cells"
  by (simp add: update_cells_def Let_def fold_map comp_def)

lemma nth_update_cells:
  assumes "0 < n" and "length cells = n"
  shows "length (update_cells b3 n s x cells) = n"
    and "k < n \<Longrightarrow> update_cells b3 n s x cells ! k = (cell_add s x ^^ hits b3 n x k) (cells ! k)"
proof -
  have "\<And>i. i \<in> set (map (hash_to_cell b3 n x) [0..<HASH_COUNT]) \<Longrightarrow> i < length cells"
    using assms by auto
  note upd = fold_list_update [where js = "map (hash_to_cell b3 n x) [0..<HASH_COUNT]" and
      f = "cell_add s x" and cs = cells, OF this]
  show "length (update_cells b3 n s x cells) = n"
    unfolding update_cells_fold using upd(1) assms(2) by simp
  show "k < n \<Longrightarrow> update_cells b3 n s x cells ! k = (cell_add s x ^^ hits b3 n x k) (cells ! k)"
    unfolding update_cells_fold hits_def using upd(2) assms(2) by simp
qed

lemma update_cells_insert:
  assumes "0 < n" and "length x = 16" and "valid_keys xs"
  shows "update_cells b3 n s x (table_rep b3 n s xs) = table_rep b3 n s (x # xs)"
  using assms by (intro nth_equalityI) (simp_all add: nth_update_cells cell_add_funpow)

lemma update_cells_remove:
  assumes "0 < n" and "x \<in> set xs" and "valid_keys xs"
  shows "update_cells b3 n (- s) x (table_rep b3 n s xs) = table_rep b3 n s (remove1 x xs)"
proof (rule nth_equalityI)
  fix i assume "i < length (update_cells b3 n (- s) x (table_rep b3 n s xs))"
  then have i: "i < n" using assms(1) by (simp add: nth_update_cells)
  have "update_cells b3 n (- s) x (table_rep b3 n s xs) ! i =
      (cell_add (- s) x ^^ hits b3 n x i) (cell_rep s (in_cell b3 n xs i))"
    using assms(1) i by (simp add: nth_update_cells)
  also have "cell_rep s (in_cell b3 n xs i) =
      cell_rep s (replicate (hits b3 n x i) x @ in_cell b3 n (remove1 x xs) i)"
    by (rule cell_rep_mset [OF in_cell_remove1 [OF assms(2)]])
  also have "(cell_add (- s) x ^^ hits b3 n x i) \<dots> = table_rep b3 n s (remove1 x xs) ! i"
    using i assms(2,3) by (simp add: cell_drop_funpow valid_keys_remove1 valid_keysD)
  finally show "update_cells b3 n (- s) x (table_rep b3 n s xs) ! i = table_rep b3 n s (remove1 x xs) ! i" .
qed (use assms(1) in \<open>simp add: nth_update_cells\<close>)

section \<open>Peeling a one-sided difference\<close>

lemma pure_position_Some: "pure_position cells = Some i \<Longrightarrow> i < length cells \<and> is_pure (cells ! i)"
  by (auto simp: pure_position_def find_Some_iff)

lemma pure_position_None: "pure_position cells = None \<longleftrightarrow> list_all (\<lambda>c. \<not> is_pure c) cells"
  by (auto simp: pure_position_def find_None_iff list_all_length)

text \<open>Below \<open>2^31\<close> entries the counter of a cell does not wrap.\<close>

definition is_sign :: "32 word \<Rightarrow> bool" where
  "is_sign s \<longleftrightarrow> s = 1 \<or> s = - 1"

definition small_keys :: "message_id list \<Rightarrow> bool" where
  "small_keys xs \<longleftrightarrow> HASH_COUNT * length xs < 2 ^ 31"

lemma count_of_nat:
  "m < 2 ^ 31 \<Longrightarrow> (of_nat m :: 32 word) = 1 \<longleftrightarrow> m = 1"
  "m < 2 ^ 31 \<Longrightarrow> (of_nat m :: 32 word) \<noteq> - 1"
  "m < 2 ^ 31 \<Longrightarrow> (of_nat m :: 32 word) = 0 \<longleftrightarrow> m = 0"
proof -
  assume m: "m < 2 ^ 31"
  then have u: "unat (of_nat m :: 32 word) = m" by (simp add: unat_of_nat_u32)
  have "unat (1 :: 32 word) = 1" "unat (- 1 :: 32 word) = 4294967295" "unat (0 :: 32 word) = 0"
    by (simp_all add: unat_minus_1)
  with m u show "(of_nat m :: 32 word) = 1 \<longleftrightarrow> m = 1" "(of_nat m :: 32 word) \<noteq> - 1"
    "(of_nat m :: 32 word) = 0 \<longleftrightarrow> m = 0"
    by (auto simp: word_unat_eq_iff)
qed

lemma in_cell_small: "small_keys xs \<Longrightarrow> length (in_cell b3 n xs i) < 2 ^ 31"
  using in_cell_length_le [of b3 n xs i] by (simp add: small_keys_def)

lemma count_signed:
  assumes "m < 2 ^ 31" and "is_sign s"
  shows "s * of_nat m = 1 \<or> s * of_nat m = - 1 \<longleftrightarrow> m = 1" "s * of_nat m = 0 \<longleftrightarrow> m = 0"
proof -
  have neg: "- of_nat m = (1 :: 32 word) \<longleftrightarrow> of_nat m = (- 1 :: 32 word)"
    using minus_equation_iff [of "of_nat m" "1 :: 32 word"] by (rule trans) (rule eq_commute)
  from assms(2) consider "s = 1" | "s = - 1" by (auto simp: is_sign_def)
  then show "s * of_nat m = 1 \<or> s * of_nat m = - 1 \<longleftrightarrow> m = 1" "s * of_nat m = 0 \<longleftrightarrow> m = 0"
    by (cases; simp add: neg count_of_nat [OF assms(1)])+
qed

lemma is_pure_rep:
  "small_keys xs \<Longrightarrow> is_sign s \<Longrightarrow>
   is_pure (cell_rep s (in_cell b3 n xs i)) \<longleftrightarrow> length (in_cell b3 n xs i) = 1"
  using in_cell_small [of xs b3 n i] by (simp add: is_pure_def cell_rep_def count_signed)

lemma all_empty_rep:
  assumes "0 < n" and "small_keys xs" and "is_sign s" and "list_all is_empty_cell (table_rep b3 n s xs)"
  shows "xs = []"
proof (rule ccontr)
  assume "xs \<noteq> []"
  then obtain x where x: "x \<in> set xs" by (cases xs) auto
  obtain i where i: "i < n" "0 < hits b3 n x i" using hit_somewhere [OF assms(1)] by blast
  have "length (in_cell b3 n xs i) = 0"
    using assms i in_cell_small [OF assms(2)]
    by (simp add: list_all_length is_empty_cell_def cell_rep_def count_signed)
  moreover have "x \<in> set (in_cell b3 n xs i)"
    using x i by (auto simp: in_cell_def)
  ultimately show False by simp
qed

lemma small_keys_remove1: "small_keys xs \<Longrightarrow> small_keys (remove1 x xs)"
  by (auto simp: small_keys_def HASH_COUNT_def length_remove1)

text \<open>Peeling one key: the pure cell holds a key of the difference, and only that.\<close>

lemma peel_step:
  assumes n: "0 < n" and v: "valid_keys xs" and small: "small_keys xs" and s: "is_sign s"
    and idx: "pure_position (table_rep b3 n s xs) = Some i"
  obtains x where "x \<in> set xs" "table_rep b3 n s xs ! i = cell_rep s [x]" "length x = 16"
    "(update_cells b3 n (- s) x (table_rep b3 n s xs))[i := IBLTCell_new] = table_rep b3 n s (remove1 x xs)"
proof -
  from pure_position_Some [OF idx] have i: "i < n" "length (in_cell b3 n xs i) = 1"
    using is_pure_rep [OF small s] by auto
  then obtain x where x: "in_cell b3 n xs i = [x]" by (auto simp: length_Suc_conv)
  then have mem: "x \<in> set xs" "0 < hits b3 n x i" using in_cell_mem [of x b3 n xs i] by auto
  have "length (in_cell b3 n xs i) = hits b3 n x i + length (in_cell b3 n (remove1 x xs) i)"
    using mset_eq_length [OF in_cell_remove1 [OF mem(1)]] by simp
  with i mem(2) have "length (in_cell b3 n (remove1 x xs) i) = 0" by linarith
  with i have "table_rep b3 n s (remove1 x xs) ! i = IBLTCell_new" by (simp add: cell_rep_Nil)
  then have "(table_rep b3 n s (remove1 x xs))[i := IBLTCell_new] = table_rep b3 n s (remove1 x xs)"
    by (metis list_update_id)
  with mem x i show ?thesis
    using that update_cells_remove [OF n mem(1) v] valid_keysD [OF v mem(1)] by simp
qed

text \<open>
  A stopping set is a non-empty part of the difference no cell of which holds exactly one key:
  there peeling gets stuck.
\<close>

definition no_stopping_set :: "(bytes \<Rightarrow> bytes) \<Rightarrow> nat \<Rightarrow> message_id list \<Rightarrow> bool" where
  "no_stopping_set b3 n xs \<longleftrightarrow>
     (\<forall>S. S \<subseteq># mset xs \<and> S \<noteq> {#} \<longrightarrow> (\<exists>i<n. (\<Sum>x\<in>#S. hits b3 n x i) = 1))"

lemma no_stopping_set_remove1: "no_stopping_set b3 n xs \<Longrightarrow> no_stopping_set b3 n (remove1 x xs)"
  unfolding no_stopping_set_def
  by (metis mset_remove1 diff_subset_eq_self subset_mset.order_trans)

lemma no_stopping_set_pure:
  assumes "no_stopping_set b3 n xs" and "xs \<noteq> []" and "small_keys xs" and "is_sign s"
  shows "pure_position (table_rep b3 n s xs) \<noteq> None"
proof -
  obtain i where "i < n" "length (in_cell b3 n xs i) = 1"
    using assms(1,2) unfolding no_stopping_set_def length_in_cell
    by (metis mset_zero_iff subset_mset.order_refl)
  then show ?thesis
    using is_pure_rep [OF assms(3,4)] by (auto simp: pure_position_None list_all_length)
qed

text \<open>Where the keys of a difference with sign \<open>s\<close> end up.\<close>

definition peeled_to :: "32 word \<Rightarrow> message_id list \<Rightarrow> message_id list \<Rightarrow> message_id list" where
  "peeled_to s xs ys = (if s = 1 then xs else ys)"

lemma decode_loop_peels:
  assumes n: "0 < n" and sign: "is_sign s"
  shows "\<lbrakk>valid_keys xs; small_keys xs\<rbrakk> \<Longrightarrow>
    (\<forall>a' b'. decode_loop b3 n k (table_rep b3 n s xs) a b = Ok (a', b') \<longrightarrow>
       mset (peeled_to s a' b') = mset (peeled_to s a b) + mset xs \<and> peeled_to (- s) a' b' = peeled_to (- s) a b)
    \<and> (no_stopping_set b3 n xs \<and> length xs < k \<longrightarrow> is_ok (decode_loop b3 n k (table_rep b3 n s xs) a b))"
proof (induction k arbitrary: xs a b)
  case (Suc k)
  show ?case
  proof (cases "pure_position (table_rep b3 n s xs)")
    case None
    then have "no_stopping_set b3 n xs \<longrightarrow> xs = []"
      using no_stopping_set_pure [OF _ _ Suc.prems(2) sign] by blast
    moreover have "list_all is_empty_cell (table_rep b3 n s [])"
      by (simp add: list_all_length cell_rep_Nil is_empty_cell_def IBLTCell_new_def)
    ultimately show ?thesis
      using None all_empty_rep [OF n Suc.prems(2) sign] by auto
  next
    case (Some i)
    from peel_step [OF n Suc.prems sign Some] obtain x where x: "x \<in> set xs" "length x = 16"
      and cell: "table_rep b3 n s xs ! i = cell_rep s [x]"
      and upd: "(update_cells b3 n (- s) x (table_rep b3 n s xs))[i := IBLTCell_new] =
        table_rep b3 n s (remove1 x xs)" by metis
    let ?a = "if s = 1 then a @ [x] else a" and ?b = "if s = 1 then b else b @ [x]"
    have step: "decode_loop b3 n (Suc k) (table_rep b3 n s xs) a b =
        decode_loop b3 n k (table_rep b3 n s (remove1 x xs)) ?a ?b"
      using Some cell upd x(2) by (simp add: cell_rep_def xor_bytes_zero)
    have small: "small_keys (remove1 x xs)"
      using Suc.prems(2) by (rule small_keys_remove1)
    have "s \<noteq> - s" using sign by (auto simp: is_sign_def)
    then have dest: "mset (peeled_to s ?a ?b) + mset (remove1 x xs) = mset (peeled_to s a b) + mset xs"
      "peeled_to (- s) ?a ?b = peeled_to (- s) a b"
      using sign mset_remove1_Cons [OF x(1)] by (auto simp: peeled_to_def is_sign_def)
    have "length (remove1 x xs) < k" if "length xs < Suc k"
      using that x(1) by (simp add: length_remove1) (cases xs, auto)
    then show ?thesis
      unfolding step
      using Suc.IH [OF valid_keys_remove1 [OF Suc.prems(1)] small, of ?a ?b] dest
        no_stopping_set_remove1 by metis
  qed
qed simp

section \<open>Building and subtracting tables\<close>

text \<open>The loop that fills a table with the identifiers of a store.\<close>

fun insert_all :: "(bytes \<Rightarrow> bytes) \<Rightarrow> message_id list \<Rightarrow> iblt \<Rightarrow> (drift_error, iblt) result" where
  "insert_all b3 [] t = Ok t"
| "insert_all b3 (key # keys) t = and_then (IBLT_insert b3 key t) (\<lambda>t. insert_all b3 keys t)"

definition table_of :: "(bytes \<Rightarrow> bytes) \<Rightarrow> nat \<Rightarrow> 32 word \<Rightarrow> message_id list \<Rightarrow> iblt" where
  "table_of b3 n s xs = \<lparr>iblt_cells = table_rep b3 n s xs, iblt_num_cells = n\<rparr>"

lemma empty_tables:
  "IBLT_new d = table_of b3 (max d 1 * CELLS_PER_DIFF) s []"
  "IBLT_with_cells n = table_of b3 (max n 1) s []"
  by (simp_all add: IBLT_new_def IBLT_with_cells_def table_of_def table_rep_def cell_rep_Nil
      map_replicate_const Let_def)

lemma insert_all_table_of:
  "0 < n \<Longrightarrow> valid_keys ks \<Longrightarrow> valid_keys xs \<Longrightarrow>
   insert_all b3 ks (table_of b3 n 1 xs) = Ok (table_of b3 n 1 (rev ks @ xs))"
  by (induction ks arbitrary: xs) (simp_all add: IBLT_insert_def table_of_def update_cells_insert)

lemma insert_all_empty:
  assumes "0 < n" and "valid_keys ks"
  shows "insert_all b3 ks (table_of b3 n 1 []) = Ok (table_of b3 n 1 ks)"
proof -
  have "table_rep b3 n 1 (rev ks) = table_rep b3 n 1 ks" by (rule table_rep_cong) simp
  then show ?thesis using insert_all_table_of [OF assms, of "[]" b3] by (simp add: table_of_def)
qed

lemma insert_all_new:
  assumes "valid_keys ks"
  shows "insert_all b3 ks (IBLT_new d) = Ok (table_of b3 (max d 1 * CELLS_PER_DIFF) 1 ks)"
    and "insert_all b3 ks (IBLT_with_cells n) = Ok (table_of b3 (max n 1) 1 ks)"
  unfolding empty_tables [of _ b3 1] using assms
  by (simp_all add: insert_all_empty CELLS_PER_DIFF_def)

lemma subtract_table_of:
  "0 < n \<Longrightarrow> IBLT_subtract (table_of b3 n s xs) (table_of b3 n s' ys) =
   Ok \<lparr>iblt_cells = map (\<lambda>i. cell_subtract (cell_rep s (in_cell b3 n xs i)) (cell_rep s' (in_cell b3 n ys i))) [0..<n],
       iblt_num_cells = n\<rparr>"
  by (simp add: IBLT_subtract_def table_of_def IBLT_with_cells_def max_def Let_def)

lemma subtract_tables:
  assumes n: "0 < n" and v: "valid_keys xs" "valid_keys ds" and eq: "mset ys = mset (xs @ ds)"
  shows "IBLT_subtract (table_of b3 n 1 ys) (table_of b3 n 1 xs) = Ok (table_of b3 n 1 ds)"
    and "IBLT_subtract (table_of b3 n 1 xs) (table_of b3 n 1 ys) = Ok (table_of b3 n (- 1) ds)"
proof -
  have "table_of b3 n 1 ys = table_of b3 n 1 (xs @ ds)"
    using table_rep_cong [OF eq] by (simp add: table_of_def)
  then show "IBLT_subtract (table_of b3 n 1 ys) (table_of b3 n 1 xs) = Ok (table_of b3 n 1 ds)"
    and "IBLT_subtract (table_of b3 n 1 xs) (table_of b3 n 1 ys) = Ok (table_of b3 n (- 1) ds)"
    using n v by (simp_all add: subtract_table_of cell_subtract_rep)
      (simp_all add: table_of_def table_rep_def)
qed

section \<open>The key check\<close>

definition check_ok :: "iblt_cell \<Rightarrow> bool" where
  "check_ok c \<longleftrightarrow> length (cell_key_sum c) = 16 \<and> cell_key_check c = key_prefix (cell_key_sum c)"

lemma check_ok_new [simp]: "check_ok IBLTCell_new"
  by (simp add: check_ok_def IBLTCell_new_def key_prefix_def u32_from_le_def)

lemma check_ok_add [simp]: "check_ok c \<Longrightarrow> length x = 16 \<Longrightarrow> check_ok (cell_add s x c)"
  by (simp add: check_ok_def cell_add_def xor_in_def key_prefix_xor)

lemma check_ok_subtract: "check_ok c \<Longrightarrow> check_ok d \<Longrightarrow> check_ok (cell_subtract c d)"
  by (simp add: check_ok_def cell_subtract_def key_prefix_xor)

lemma check_ok_update:
  assumes "list_all check_ok cells" and "length x = 16" and "0 < n" and "length cells = n"
  shows "list_all check_ok (update_cells b3 n s x cells)"
proof -
  have "check_ok ((cell_add s x ^^ k) c)" if "check_ok c" for k c
    using that assms(2) by (induction k) simp_all
  then show ?thesis using assms by (simp add: list_all_length nth_update_cells)
qed

definition key_check_mismatch :: drift_error where
  "key_check_mismatch =
     DecompressionFailed ''IBLT decode failed: key_check mismatch, possible hash collision or corruption''"

lemma decode_loop_check:
  "\<lbrakk>list_all check_ok cells; 0 < n; length cells = n\<rbrakk> \<Longrightarrow>
   decode_loop b3 n k cells a b \<noteq> Err key_check_mismatch"
proof (induction k arbitrary: cells a b)
  case 0
  show ?case by (simp add: key_check_mismatch_def)
next
  case (Suc k)
  show ?case
  proof (cases "pure_position cells")
    case None
    then show ?thesis by (simp add: key_check_mismatch_def)
  next
    case (Some i)
    let ?x = "cell_key_sum (cells ! i)" and ?s = "- cell_count (cells ! i)"
    have i: "check_ok (cells ! i)"
      using Suc.prems(1) pure_position_Some [OF Some] by (simp add: list_all_length)
    then have "list_all check_ok ((update_cells b3 n ?s ?x cells)[i := IBLTCell_new])"
      using check_ok_update [OF Suc.prems(1) _ Suc.prems(2,3), of ?x b3 ?s]
      by (auto simp: check_ok_def [of "cells ! i"] list_all_iff dest!: set_update_subset_insert [THEN subsetD])
    then show ?thesis
      using Some i Suc.IH [OF _ Suc.prems(2)] nth_update_cells(1) [OF Suc.prems(2,3)]
      by (simp add: check_ok_def [of "cells ! i"] Let_def)
  qed
qed

lemma table_of_check_ok: "valid_keys xs \<Longrightarrow> list_all check_ok (iblt_cells (table_of b3 n s xs))"
  by (simp add: table_of_def list_all_length check_ok_def cell_rep_def)

section \<open>Wire format\<close>

definition iblt_wf :: "iblt \<Rightarrow> bool" where
  "iblt_wf t \<longleftrightarrow> length (iblt_cells t) = iblt_num_cells t
     \<and> list_all (\<lambda>c. length (cell_key_sum c) = 16) (iblt_cells t)"

text \<open>What one byte keeps of a counter, read back as a non-negative number.\<close>

definition truncate_count :: "iblt_cell \<Rightarrow> iblt_cell" where
  "truncate_count c = c\<lparr>cell_count := ucast (ucast (cell_count c) :: byte)\<rparr>"

definition truncate_counts :: "iblt \<Rightarrow> iblt" where
  "truncate_counts t = t\<lparr>iblt_cells := map truncate_count (iblt_cells t)\<rparr>"

lemma length_cell_bytes: "length (cell_key_sum c) = 16 \<Longrightarrow> length (cell_bytes c) = 21"
  by (simp add: cell_bytes_def)

lemma read_cell_bytes:
  assumes "length (cell_key_sum c) = 16" and "i = length p"
  shows "read_cell (p @ cell_bytes c @ q) i = Ok (truncate_count c)"
proof -
  let ?d = "p @ cell_bytes c @ q"
  have a: "byte_at ?d i = (Ok (ucast (cell_count c)) :: (drift_error, byte) result)"
    using assms(2) by (simp add: cell_bytes_def codec_simps)
  have b: "slice_at ?d (i + 1) 16 = (Ok (cell_key_sum c) :: (drift_error, bytes) result)"
    using slice_at_append [of "i + 1" "p @ [ucast (cell_count c)]" 16 "cell_key_sum c"
        "u32_to_le (cell_key_check c) @ q"] assms by (simp add: cell_bytes_def)
  have c: "u32_at ?d (i + 17) = (Ok (cell_key_check c) :: (drift_error, u32) result)"
    using u32_at_append [of "i + 17" "p @ ucast (cell_count c) # cell_key_sum c" "cell_key_check c" q] assms
    by (simp add: cell_bytes_def)
  show ?thesis using a b c by (simp add: read_cell_def truncate_count_def)
qed

lemma read_cells_bytes:
  "\<lbrakk>list_all (\<lambda>c. length (cell_key_sum c) = 16) cs; length p = 2 + i * 21\<rbrakk> \<Longrightarrow>
   read_cells (p @ concat (map cell_bytes cs)) i (length cs) = Ok (map truncate_count cs)"
proof (induction cs arbitrary: p i)
  case (Cons c cs)
  have "read_cell (p @ cell_bytes c @ concat (map cell_bytes cs)) (2 + i * 21) = Ok (truncate_count c)"
    using Cons.prems by (intro read_cell_bytes) simp_all
  moreover have "read_cells ((p @ cell_bytes c) @ concat (map cell_bytes cs)) (i + 1) (length cs) =
      Ok (map truncate_count cs)"
    using Cons.prems by (intro Cons.IH) (simp_all add: length_cell_bytes)
  ultimately show ?case by simp
qed simp

lemma concat_cell_bytes_length:
  "iblt_wf t \<Longrightarrow> length (concat (map cell_bytes (iblt_cells t))) = iblt_num_cells t * 21"
  unfolding iblt_wf_def length_concat
  by (simp add: comp_def list_all_iff length_cell_bytes sum_list_triv cong: map_cong)

lemma iblt_from_to_bytes:
  assumes "iblt_wf t" and "IBLT_to_bytes t = Ok bs"
  shows "IBLT_from_bytes bs = Ok (truncate_counts t)"
proof -
  let ?n = "of_nat (iblt_num_cells t) :: u16" and ?cs = "concat (map cell_bytes (iblt_cells t))"
  from assms(2) have n: "iblt_num_cells t \<le> 65535" and bs: "bs = u16_to_le ?n @ ?cs"
    by (auto simp: IBLT_to_bytes_def split: if_splits)
  have u: "unat ?n = iblt_num_cells t" using n by (intro unat_of_nat_u16) simp
  have l: "length ?cs = iblt_num_cells t * 21"
    using assms(1) by (rule concat_cell_bytes_length)
  have h: "u16_at bs 0 = (Ok ?n :: (drift_error, u16) result)"
    using u16_at_append [of 0 "[]" ?n ?cs] by (simp add: bs)
  have "read_cells bs 0 (iblt_num_cells t) = Ok (map truncate_count (iblt_cells t))"
    using assms(1) read_cells_bytes [of "iblt_cells t" "u16_to_le ?n" 0] by (simp add: iblt_wf_def bs)
  then show ?thesis
    using h l u by (simp add: IBLT_from_bytes_def bs truncate_counts_def Let_def)
qed

lemma to_bytes_size: "iblt_wf t \<Longrightarrow> IBLT_to_bytes t = Ok bs \<Longrightarrow> length bs = serialized_size t"
  by (auto simp: IBLT_to_bytes_def concat_cell_bytes_length serialized_size_def split: if_splits)

interpretation sketch_codec: byte_codec IBLT_to_bytes IBLT_from_bytes iblt_wf truncate_counts
  by unfold_locales (rule iblt_from_to_bytes)

lemma table_of_wf: "valid_keys xs \<Longrightarrow> iblt_wf (table_of b3 n s xs)"
  using table_of_check_ok [of xs b3 n s]
  by (simp add: iblt_wf_def table_of_def check_ok_def list_all_iff)

lemma truncate_count_id: "truncate_count c = c \<longleftrightarrow> unat (cell_count c) < 256"
proof -
  have "unat (ucast (ucast (cell_count c) :: byte) :: 32 word) = unat (cell_count c) mod 256"
    by (simp add: unsigned_ucast_eq take_bit_eq_mod unat_mod)
  then have "(ucast (ucast (cell_count c) :: byte) :: 32 word) = cell_count c \<longleftrightarrow> unat (cell_count c) < 256"
    by (simp add: word_unat_eq_iff) (metis mod_less mod_less_divisor zero_less_numeral)
  then show ?thesis by (cases c) (simp add: truncate_count_def)
qed

section \<open>Properties\<close>

text \<open>A digest that sends the keys to the cells 0, 1 and 2 of a table of three cells.\<close>

definition spread_hash :: "bytes \<Rightarrow> bytes" where
  "spread_hash bs = take 1 bs @ replicate 31 0"

lemma spread_hits:
  assumes "3 \<le> n"
  shows "hits spread_hash n x i = (if i < 3 then 1 else 0)"
proof -
  have "map (hash_to_cell spread_hash n x) [0..<HASH_COUNT] = [0, 1, 2]"
    using assms by (simp add: HASH_COUNT_def hash_to_cell_def spread_hash_def u64_from_le_def upt_rec)
  then show ?thesis by (auto simp: hits_def)
qed

lemma no_stopping_single:
  assumes "i < n" and "hits b3 n x i = 1"
  shows "no_stopping_set b3 n [x]"
proof -
  have "(\<Sum>y\<in>#S. hits b3 n y i) = 1" if S: "S \<subseteq># {#x#}" "S \<noteq> {#}" for S
  proof -
    have "S = {#x#}" using S by (metis nonempty_subseteq_mset_eq_single)
    then show ?thesis using assms(2) by simp
  qed
  then show ?thesis unfolding no_stopping_set_def using assms(1) by auto
qed

lemma decode_single:
  assumes "i < n" and "hits b3 n x i = 1" and "length x = 16"
  shows "IBLT_decode b3 (table_of b3 n 1 [x]) = Ok ([x], [])"
proof -
  have n: "0 < n" using assms(1) by simp
  have "small_keys [x]" by (simp add: small_keys_def HASH_COUNT_def)
  note peel = decode_loop_peels [OF n _ _ this, of 1 b3 "n * 10" "[]" "[]"]
  have "is_ok (IBLT_decode b3 (table_of b3 n 1 [x]))"
    using peel no_stopping_single [OF assms(1,2)] n assms(3)
    by (simp add: IBLT_decode_def table_of_def is_sign_def)
  then obtain p q where d: "IBLT_decode b3 (table_of b3 n 1 [x]) = Ok (p, q)" by (auto simp: is_ok_iff)
  then have "mset p = {#x#}" "q = []"
    using peel assms(3) by (simp_all add: IBLT_decode_def table_of_def is_sign_def peeled_to_def)
  with d show ?thesis by simp
qed

lemma xor_bytes_fixpoint:
  assumes "length a = 16" "length b = 16" "length c = 16" and "xor_bytes a (xor_bytes b c) = a"
  shows "b = c"
proof -
  have "xor_bytes b c = xor_bytes a (xor_bytes a (xor_bytes b c))"
    using assms(1-3) by (simp add: xor_bytes_cancel)
  also have "\<dots> = replicate 16 0" using assms(1,4) by (simp add: xor_bytes_self)
  finally have "xor_bytes b (xor_bytes b c) = b" using assms(2) by (simp add: xor_bytes_zero)
  then show ?thesis using assms(2,3) by (simp add: xor_bytes_cancel)
qed

lemma xor_bytes_fresh:
  assumes "length a = 16" "length b = 16" "length c = 16" and "distinct [a, b, c]"
  shows "xor_bytes a (xor_bytes b c) \<notin> {a, b, c}"
proof -
  have "xor_bytes a (xor_bytes b c) = xor_bytes b (xor_bytes a c)"
    "xor_bytes a (xor_bytes b c) = xor_bytes c (xor_bytes a b)" by (simp_all add: xor_bytes_ac)
  then show ?thesis
    using assms xor_bytes_fixpoint [of a b c] xor_bytes_fixpoint [of b a c] xor_bytes_fixpoint [of c a b] by auto
qed

lemma xor_all_replicate3:
  assumes "length a = 16" "length b = 16" "length c = 16"
  shows "xor_bytes (xor_all (replicate k a @ replicate k b)) (xor_all (replicate k c)) =
    xor_all (replicate k (xor_bytes a (xor_bytes b c)))"
  using assms by (induction k) (simp_all add: xor_all_append xor_bytes_ac xor_bytes_self)

lemma cell_subtract_xor3:
  assumes "length a = 16" "length b = 16" "length c = 16"
  shows "cell_subtract (cell_rep 1 (replicate k a @ replicate k b)) (cell_rep 1 (replicate k c)) =
    cell_rep 1 (replicate k (xor_bytes a (xor_bytes b c)))"
proof -
  have "valid_keys (replicate k a @ replicate k b)" "valid_keys (replicate k c)" using assms by simp_all
  then show ?thesis
    unfolding cell_subtract_def cell_rep_def xor_all_replicate3 [OF assms, symmetric]
    by (simp add: key_prefix_xor)
qed

text \<open>
  C13. Reconciliation of a one-sided difference, whatever the hash function does.  Fill one table
  with the keys of a set and another with those of a larger one, in any order, subtract them
  either way and decode: a successful decode returns exactly the missing keys, on the right side.
  It succeeds whenever the difference contains no stopping set and the iteration limit exceeds
  its size.
\<close>

theorem iblt_reconciles:
  assumes "valid_keys xs" "valid_keys ds" "small_keys ds" and "mset ys = mset xs + mset ds"
    and "insert_all b3 xs (IBLT_new d) = Ok small" and "insert_all b3 ys (IBLT_new d) = Ok large"
  shows "\<exists>t u. IBLT_subtract large small = Ok t \<and> IBLT_subtract small large = Ok u
    \<and> (\<forall>a b. IBLT_decode b3 t = Ok (a, b) \<longrightarrow> mset a = mset ds \<and> b = [])
    \<and> (\<forall>a b. IBLT_decode b3 u = Ok (a, b) \<longrightarrow> a = [] \<and> mset b = mset ds)
    \<and> (no_stopping_set b3 (iblt_num_cells t) ds \<and> length ds < iblt_num_cells t * 10
        \<longrightarrow> is_ok (IBLT_decode b3 t) \<and> is_ok (IBLT_decode b3 u))"
proof -
  let ?n = "max d 1 * CELLS_PER_DIFF"
  have n: "0 < ?n" by (simp add: CELLS_PER_DIFF_def)
  have "valid_keys ys" using valid_keys_mset [of ys "xs @ ds"] assms(1,2,4) by simp
  then have t: "small = table_of b3 ?n 1 xs" "large = table_of b3 ?n 1 ys"
    using insert_all_new(1) [OF assms(1), of b3 d] insert_all_new(1) [of ys b3 d] assms(5,6) by simp_all
  have sub: "IBLT_subtract large small = Ok (table_of b3 ?n 1 ds)"
    "IBLT_subtract small large = Ok (table_of b3 ?n (- 1) ds)"
    unfolding t using subtract_tables [OF n assms(1,2), of ys b3] assms(4) by simp_all
  have ne: "(1 :: 32 word) \<noteq> - 1" by simp
  note peel = decode_loop_peels [OF n _ assms(2,3), of _ b3 "?n * 10" "[]" "[]", unfolded is_sign_def]
  show ?thesis
    unfolding sub using peel [of 1] peel [of "- 1"] ne
    by (auto simp: IBLT_decode_def table_of_def peeled_to_def)
qed

theorem iblt_reconciles_witness:
  "\<exists>small large t a. insert_all spread_hash [replicate 16 1] (IBLT_new 1) = Ok small
     \<and> insert_all spread_hash [replicate 16 2, replicate 16 1] (IBLT_new 1) = Ok large
     \<and> IBLT_subtract large small = Ok t \<and> IBLT_decode spread_hash t = Ok (a, [])
     \<and> mset a = {#replicate 16 2#}"
proof -
  let ?k = "replicate 16 (1 :: byte)" and ?l = "replicate 16 (2 :: byte)"
  obtain small large where tabs: "insert_all spread_hash [?k] (IBLT_new 1) = Ok small"
    "insert_all spread_hash [?l, ?k] (IBLT_new 1) = Ok large"
    using insert_all_new(1) [of "[?k]"] insert_all_new(1) [of "[?l, ?k]"] by (metis valid_keys_simps(1,2) length_replicate)
  have ds: "valid_keys [?l]" "small_keys [?l]" by (simp_all add: small_keys_def HASH_COUNT_def)
  obtain t where t: "IBLT_subtract large small = Ok t"
    "\<forall>a b. IBLT_decode spread_hash t = Ok (a, b) \<longrightarrow> mset a = mset [?l] \<and> b = []"
    "no_stopping_set spread_hash (iblt_num_cells t) [?l] \<and> length [?l] < iblt_num_cells t * 10
      \<longrightarrow> is_ok (IBLT_decode spread_hash t)"
    using iblt_reconciles [of "[?k]" "[?l]" "[?l, ?k]", OF _ ds _ tabs] by auto
  have "iblt_num_cells small = 3" "iblt_num_cells large = 3"
    using tabs insert_all_new(1) [of "[?k]" spread_hash 1] insert_all_new(1) [of "[?l, ?k]" spread_hash 1]
    by (simp_all add: table_of_def CELLS_PER_DIFF_def)
  with t(1) have "iblt_num_cells t = 3" by (auto simp: IBLT_subtract_def IBLT_with_cells_def Let_def)
  with t(2,3) no_stopping_single [of 0 3 spread_hash ?l] spread_hits obtain a where "IBLT_decode spread_hash t = Ok (a, [])" "mset a = {#?l#}"
    by (auto simp: is_ok_iff)
  with tabs t(1) show ?thesis by blast
qed

text \<open>
  The check word of a cell never rejects anything: in a table built by insertions and one
  subtraction it always equals the first four bytes of the key sum, so the error for a mixed cell
  cannot occur.
\<close>

theorem iblt_key_check_vacuous:
  assumes "valid_keys xs" "valid_keys ys"
    and "insert_all b3 xs (IBLT_new d) = Ok t" and "insert_all b3 ys (IBLT_new d) = Ok u"
    and "IBLT_subtract t u = Ok v"
  shows "IBLT_decode b3 v \<noteq> Err key_check_mismatch"
proof -
  let ?n = "max d 1 * CELLS_PER_DIFF"
  have n: "0 < ?n" by (simp add: CELLS_PER_DIFF_def)
  have tu: "t = table_of b3 ?n 1 xs" "u = table_of b3 ?n 1 ys"
    using insert_all_new(1) [OF assms(1), of b3 d] insert_all_new(1) [OF assms(2), of b3 d] assms(3,4) by simp_all
  have v: "iblt_num_cells v = ?n" "iblt_cells v =
      map (\<lambda>i. cell_subtract (cell_rep 1 (in_cell b3 ?n xs i)) (cell_rep 1 (in_cell b3 ?n ys i))) [0..<?n]"
    using assms(5) unfolding tu subtract_table_of [OF n] by auto
  have "check_ok (cell_rep s (in_cell b3 ?n ks i))" if "valid_keys ks" for s ks i
    using that by (simp add: check_ok_def cell_rep_def)
  with assms(1,2) have "list_all check_ok (iblt_cells v)"
    by (simp add: v list_all_length check_ok_subtract)
  then show ?thesis
    unfolding IBLT_decode_def using decode_loop_check [OF _ n] by (simp add: v)
qed

theorem iblt_key_check_vacuous_witness:
  "\<exists>t u v. insert_all spread_hash [replicate 16 1] (IBLT_new 1) = Ok t
     \<and> insert_all spread_hash [replicate 16 2] (IBLT_new 1) = Ok u
     \<and> IBLT_subtract t u = Ok v \<and> IBLT_decode spread_hash v \<noteq> Err key_check_mismatch"
proof -
  let ?k = "replicate 16 (1 :: byte)" and ?l = "replicate 16 (2 :: byte)"
  obtain t u where tu: "insert_all spread_hash [?k] (IBLT_new 1) = Ok t"
    "insert_all spread_hash [?l] (IBLT_new 1) = Ok u" "iblt_num_cells t = iblt_num_cells u"
    using insert_all_new(1) [of "[?k]" spread_hash 1] insert_all_new(1) [of "[?l]" spread_hash 1]
    by (auto simp: table_of_def)
  then obtain v where v: "IBLT_subtract t u = Ok v" by (auto simp: IBLT_subtract_def Let_def)
  have "IBLT_decode spread_hash v \<noteq> Err key_check_mismatch"
    by (rule iblt_key_check_vacuous [OF _ _ tu(1,2) v]) simp_all
  with tu v show ?thesis by blast
qed

text \<open>
  A two-sided difference can decode to an identifier that exists on neither side.  When three
  keys and their exclusive or fall into the same cells, the table of the first two minus the table
  of the third is the table of the exclusive or, and decoding reports that as the one identifier
  the first side has and the other lacks.
\<close>

theorem iblt_decode_fabricates:
  assumes "length a = 16" "length b = 16" "length c = 16" and "distinct [a, b, c]"
    and x: "x = xor_bytes a (xor_bytes b c)" and n: "n = max d 1 * CELLS_PER_DIFF"
    and "hits b3 n a = hits b3 n x" "hits b3 n b = hits b3 n x" "hits b3 n c = hits b3 n x"
    and "i < n" "hits b3 n x i = 1"
    and "insert_all b3 [a, b] (IBLT_new d) = Ok t" and "insert_all b3 [c] (IBLT_new d) = Ok u"
  shows "\<exists>v. IBLT_subtract t u = Ok v \<and> IBLT_decode b3 v = Ok ([x], []) \<and> x \<notin> {a, b, c}"
proof -
  have n0: "0 < n" using assms(10) by simp
  have len: "length x = 16" using assms(1-3) by (simp add: x)
  have tu: "t = table_of b3 n 1 [a, b]" "u = table_of b3 n 1 [c]"
    using insert_all_new(1) [of "[a, b]" b3 d] insert_all_new(1) [of "[c]" b3 d] assms(1-3,12,13) n by simp_all
  have "IBLT_subtract t u = Ok (table_of b3 n 1 [x])"
    unfolding tu subtract_table_of [OF n0]
    using assms(7-9) cell_subtract_xor3 [OF assms(1-3)] by (simp add: table_of_def table_rep_def x)
  then show ?thesis
    using decode_single [OF assms(10,11) len] xor_bytes_fresh [OF assms(1-4)] by (simp add: x)
qed

theorem iblt_decode_fabricates_witness:
  "\<exists>t u v. insert_all spread_hash [replicate 16 1, replicate 16 2] (IBLT_new 1) = Ok t
     \<and> insert_all spread_hash [replicate 16 4] (IBLT_new 1) = Ok u
     \<and> IBLT_subtract t u = Ok v \<and> IBLT_decode spread_hash v = Ok ([replicate 16 7], [])"
proof -
  let ?a = "replicate 16 (1 :: byte)" and ?b = "replicate 16 (2 :: byte)" and ?c = "replicate 16 (4 :: byte)"
  have x: "xor_bytes ?a (xor_bytes ?b ?c) = replicate 16 7"
    by (rule nth_equalityI) simp_all
  obtain t u where tu: "insert_all spread_hash [?a, ?b] (IBLT_new 1) = Ok t"
    "insert_all spread_hash [?c] (IBLT_new 1) = Ok u"
    using insert_all_new(1) [of "[?a, ?b]" spread_hash 1] insert_all_new(1) [of "[?c]" spread_hash 1] by simp
  have "\<exists>v. IBLT_subtract t u = Ok v \<and> IBLT_decode spread_hash v = Ok ([xor_bytes ?a (xor_bytes ?b ?c)], [])
      \<and> xor_bytes ?a (xor_bytes ?b ?c) \<notin> {?a, ?b, ?c}"
    by (rule iblt_decode_fabricates [OF _ _ _ _ refl refl _ _ _ _ _ tu, of 0])
      (simp_all add: CELLS_PER_DIFF_def spread_hits fun_eq_iff)
  with tu x show ?thesis by auto
qed

text \<open>
  The wire format keeps a table up to its counters, of which it keeps the low eight bits: the
  table survives the round trip exactly when every counter is between 0 and 255.  A store that
  puts 256 keys into one cell, or a table of deletions, is received as a different table.
\<close>

theorem iblt_wire_truncates_counts:
  assumes "iblt_wf t" and "IBLT_to_bytes t = Ok bs"
  shows "IBLT_from_bytes bs = Ok (truncate_counts t) \<and> length bs = serialized_size t
    \<and> (IBLT_from_bytes bs = Ok t \<longleftrightarrow> list_all (\<lambda>c. unat (cell_count c) < 256) (iblt_cells t))"
proof -
  have "truncate_counts t = t \<longleftrightarrow> map truncate_count (iblt_cells t) = iblt_cells t"
    by (cases t) (simp add: truncate_counts_def)
  also have "\<dots> \<longleftrightarrow> list_all (\<lambda>c. unat (cell_count c) < 256) (iblt_cells t)"
    using map_eq_conv [of truncate_count "iblt_cells t" id] by (simp add: list_all_iff truncate_count_id)
  finally show ?thesis
    using sketch_codec.dec_enc [OF assms] to_bytes_size [OF assms] by simp
qed

theorem iblt_wire_truncates_counts_witness:
  "\<exists>bs. IBLT_to_bytes (table_of spread_hash 3 (- 1) [replicate 16 1]) = Ok bs
     \<and> IBLT_from_bytes bs \<noteq> Ok (table_of spread_hash 3 (- 1) [replicate 16 1])"
proof -
  let ?t = "table_of spread_hash 3 (- 1) [replicate 16 (1 :: byte)]"
  obtain bs where bs: "IBLT_to_bytes ?t = Ok bs" by (simp add: IBLT_to_bytes_def table_of_def)
  have "\<not> list_all (\<lambda>c. unat (cell_count c) < 256) (iblt_cells ?t)"
    by (simp add: table_of_def list_all_length spread_hits cell_rep_def unat_minus_1)
      (rule exI [of _ 0], simp)
  with iblt_wire_truncates_counts [OF table_of_wf bs] bs show ?thesis by auto
qed

end
