(* ===== verification/Storage_Backend.thy ===== *)
theory Storage_Backend
  imports Prelude
begin

text \<open>
  The storage abstraction of \<open>core/src/store/backend.rs\<close>.  A trait object \<open>dyn StorageBackend\<close> is
  a \<open>storage_vtable\<close>, the record of its operations, together with the state they work on.

  The contract that the stores rely on is the locale \<open>backend_contract\<close>; \<open>MemoryStorage\<close> provides
  it as long as its lock is not poisoned, and \<open>DegradedStorage\<close> refuses every operation.  The
  \<open>sled\<close> database behind \<open>SledStorage\<close> is a package of its own; only the retry loop that opens it is
  modelled here.
\<close>

section \<open>Trait objects\<close>

type_synonym scan_result = "(bytes \<times> bytes) list"

record 's storage_vtable =
  vt_put :: "bytes \<Rightarrow> bytes \<Rightarrow> 's \<Rightarrow> (string, unit) result \<times> 's"
  vt_get :: "bytes \<Rightarrow> 's \<Rightarrow> (string, bytes option) result"
  vt_remove :: "bytes \<Rightarrow> 's \<Rightarrow> (string, unit) result \<times> 's"
  vt_scan_prefix :: "bytes \<Rightarrow> 's \<Rightarrow> (string, scan_result) result"
  vt_count_prefix :: "bytes \<Rightarrow> 's \<Rightarrow> (string, nat) result"
  vt_flush :: "'s \<Rightarrow> (string, unit) result \<times> 's"
  vt_approximate_size :: "'s \<Rightarrow> (string, u64) result"

fun starts_with :: "'a list \<Rightarrow> 'a list \<Rightarrow> bool" where
  "starts_with ks [] = True"
| "starts_with [] (p # ps) = False"
| "starts_with (k # ks) (p # ps) \<longleftrightarrow> k = p \<and> starts_with ks ps"

section \<open>Memory storage\<close>

text \<open>\<open>ms_poison\<close> holds the text of the poison error once a writer has panicked.\<close>

record memory_storage =
  ms_data :: "(bytes, bytes) hmap"
  ms_poison :: "string option"

definition MemoryStorage_new :: memory_storage where
  "MemoryStorage_new = \<lparr>ms_data = [], ms_poison = None\<rparr>"

definition ms_lock :: "memory_storage \<Rightarrow> (string, unit) result" where
  "ms_lock s = (case ms_poison s of None \<Rightarrow> Ok () | Some e \<Rightarrow> Err (''storage lock poisoned: '' @ e))"

definition MemoryStorage_put :: "bytes \<Rightarrow> bytes \<Rightarrow> memory_storage \<Rightarrow> (string, unit) result \<times> memory_storage" where
  "MemoryStorage_put key v s =
     (case ms_lock s of
        Ok _ \<Rightarrow> (Ok (), s\<lparr>ms_data := hm_insert key v (ms_data s)\<rparr>)
      | r \<Rightarrow> (r, s))"

definition MemoryStorage_get :: "bytes \<Rightarrow> memory_storage \<Rightarrow> (string, bytes option) result" where
  "MemoryStorage_get key s = and_then (ms_lock s) (\<lambda>_. Ok (hm_get (ms_data s) key))"

definition MemoryStorage_remove :: "bytes \<Rightarrow> memory_storage \<Rightarrow> (string, unit) result \<times> memory_storage" where
  "MemoryStorage_remove key s =
     (case ms_lock s of
        Ok _ \<Rightarrow> (Ok (), s\<lparr>ms_data := hm_remove key (ms_data s)\<rparr>)
      | r \<Rightarrow> (r, s))"

definition MemoryStorage_scan_prefix :: "bytes \<Rightarrow> memory_storage \<Rightarrow> (string, scan_result) result" where
  "MemoryStorage_scan_prefix prefix s =
     and_then (ms_lock s) (\<lambda>_. Ok (filter (\<lambda>(key, v). starts_with key prefix) (ms_data s)))"

definition MemoryStorage_count_prefix :: "bytes \<Rightarrow> memory_storage \<Rightarrow> (string, nat) result" where
  "MemoryStorage_count_prefix prefix s =
     and_then (ms_lock s) (\<lambda>_. Ok (length (filter (\<lambda>key. starts_with key prefix) (map fst (ms_data s)))))"

definition MemoryStorage_flush :: "memory_storage \<Rightarrow> (string, unit) result \<times> memory_storage" where
  "MemoryStorage_flush s = (Ok (), s)"

definition MemoryStorage_approximate_size :: "memory_storage \<Rightarrow> (string, u64) result" where
  "MemoryStorage_approximate_size s =
     and_then (ms_lock s) (\<lambda>_. Ok (sum_list (map (\<lambda>(k, v). of_nat (length k + length v)) (ms_data s))))"

definition memory_vtable :: "memory_storage storage_vtable" where
  "memory_vtable = \<lparr>vt_put = MemoryStorage_put, vt_get = MemoryStorage_get,
     vt_remove = MemoryStorage_remove, vt_scan_prefix = MemoryStorage_scan_prefix,
     vt_count_prefix = MemoryStorage_count_prefix, vt_flush = MemoryStorage_flush,
     vt_approximate_size = MemoryStorage_approximate_size\<rparr>"

section \<open>Degraded storage\<close>

record degraded_storage =
  ds_path :: string
  ds_error :: string

definition degraded_message :: "degraded_storage \<Rightarrow> string" where
  "degraded_message s =
     ''storage degraded for path '' @ [CHR 0x27] @ ds_path s @ [CHR 0x27] @ '': '' @ ds_error s"

text \<open>All seven operations return this error and change nothing.\<close>

definition degraded_vtable :: "degraded_storage storage_vtable" where
  "degraded_vtable = \<lparr>
     vt_put = (\<lambda>key v s. (Err (degraded_message s), s)),
     vt_get = (\<lambda>key s. Err (degraded_message s)),
     vt_remove = (\<lambda>key s. (Err (degraded_message s), s)),
     vt_scan_prefix = (\<lambda>prefix s. Err (degraded_message s)),
     vt_count_prefix = (\<lambda>prefix s. Err (degraded_message s)),
     vt_flush = (\<lambda>s. (Err (degraded_message s), s)),
     vt_approximate_size = (\<lambda>s. Err (degraded_message s))\<rparr>"

section \<open>Opening the database\<close>

text \<open>
  The error of an open attempt: an I/O error with its kind (whether it is \<open>WouldBlock\<close>) and its
  text, or another error of the database.  The text is compared after conversion to lower case
  (of ASCII letters, which is what the texts of the operating system consist of).
\<close>

datatype open_error = SledIo bool string | SledOther string

fun str_contains :: "string \<Rightarrow> string \<Rightarrow> bool" where
  "str_contains [] pat = (pat = [])"
| "str_contains (c # cs) pat \<longleftrightarrow> starts_with (c # cs) pat \<or> str_contains cs pat"

definition to_lowercase :: "string \<Rightarrow> string" where
  "to_lowercase = map (\<lambda>c. let n = (of_char c :: nat) in if 65 \<le> n \<and> n \<le> 90 then char_of (n + 32) else c)"

definition is_lock_contention :: "bool \<Rightarrow> string \<Rightarrow> bool" where
  "is_lock_contention would_block text =
     (would_block
      \<or> (let msg = to_lowercase text in
         str_contains msg ''lock''
         \<or> str_contains msg ''sharing violation''
         \<or> str_contains msg ''resource temporarily unavailable''
         \<or> str_contains msg ''would block''
         \<or> str_contains msg ''being used by another process''))"

definition LOCK_MAX_OPEN_ATTEMPTS :: nat where "LOCK_MAX_OPEN_ATTEMPTS = 10"

text \<open>
  \<open>opn k\<close> is the outcome of the \<open>k\<close>-th attempt.  The first argument counts the attempts that are
  left after this one.
\<close>

fun open_attempts ::
  "nat \<Rightarrow> (nat \<Rightarrow> open_error + 'db) \<Rightarrow> nat \<Rightarrow> (nat \<times> open_error, 'db) result" where
  "open_attempts left opn attempt =
     (case opn attempt of
        Inr db \<Rightarrow> Ok db
      | Inl e \<Rightarrow>
          (case (e, left) of
             (SledIo would_block text, Suc left') \<Rightarrow>
               if is_lock_contention would_block text
               then open_attempts left' opn (attempt + 1) else Err (attempt, e)
           | _ \<Rightarrow> Err (attempt, e)))"

definition open_with_lock_retry ::
  "(nat \<Rightarrow> open_error + 'db) \<Rightarrow> (nat \<times> open_error, 'db) result" where
  "open_with_lock_retry opn = open_attempts (LOCK_MAX_OPEN_ATTEMPTS - 1) opn 1"

section \<open>The contract of a backend\<close>

text \<open>
  A backend in a good state is a map from keys to values: a write is seen by the next read, a scan
  lists each key with the prefix once, in some order.
\<close>

locale backend_contract =
  fixes vt :: "'s storage_vtable"
    and content :: "'s \<Rightarrow> bytes \<rightharpoonup> bytes"
    and good :: "'s \<Rightarrow> bool"
  assumes put_law: "good s \<Longrightarrow> \<exists>s'. vt_put vt k v s = (Ok (), s') \<and> good s' \<and> content s' = (content s)(k \<mapsto> v)"
    and get_law: "good s \<Longrightarrow> vt_get vt k s = Ok (content s k)"
    and remove_law: "good s \<Longrightarrow> \<exists>s'. vt_remove vt k s = (Ok (), s') \<and> good s' \<and> content s' = (content s)(k := None)"
    and scan_law: "good s \<Longrightarrow> \<exists>es. vt_scan_prefix vt p s = Ok es \<and> distinct (map fst es)
        \<and> set es = {(k, v). content s k = Some v \<and> starts_with k p}"
    and count_law: "good s \<Longrightarrow> vt_scan_prefix vt p s = Ok es \<Longrightarrow> vt_count_prefix vt p s = Ok (length es)"
    and flush_law: "good s \<Longrightarrow> \<exists>s'. vt_flush vt s = (Ok (), s') \<and> good s' \<and> content s' = content s"
begin

lemma get_after_put:
  "good s \<Longrightarrow> vt_put vt k v s = (r, s') \<Longrightarrow> vt_get vt k' s' = (if k' = k then Ok (Some v) else vt_get vt k' s)"
  using put_law [of s k v] by (auto simp: get_law)

lemma get_after_remove:
  "good s \<Longrightarrow> vt_remove vt k s = (r, s') \<Longrightarrow> vt_get vt k' s' = (if k' = k then Ok None else vt_get vt k' s)"
  using remove_law [of s k] by (auto simp: get_law)

lemma scan_after_put:
  assumes "good s" and "vt_put vt k v s = (r, s')" and "vt_scan_prefix vt p s = Ok es"
    and "vt_scan_prefix vt p s' = Ok es'"
  shows "set es' = (if starts_with k p then {(k, v)} \<union> {e \<in> set es. fst e \<noteq> k} else set es)"
proof -
  from put_law [OF assms(1), of k v] assms(2) have s': "good s'" "content s' = (content s)(k \<mapsto> v)" by auto
  have "set es = {(k, v). content s k = Some v \<and> starts_with k p}" "set es' = {(k, v). content s' k = Some v \<and> starts_with k p}"
    using scan_law [OF assms(1), of p] scan_law [OF s'(1), of p] assms(3,4) by auto
  then show ?thesis by (auto simp: s'(2) split: if_splits)
qed

end

definition memory_good :: "memory_storage \<Rightarrow> bool" where
  "memory_good s \<longleftrightarrow> ms_poison s = None \<and> hm_wf (ms_data s)"

definition memory_content :: "memory_storage \<Rightarrow> bytes \<rightharpoonup> bytes" where
  "memory_content s = hm_get (ms_data s)"

interpretation memory: backend_contract memory_vtable memory_content memory_good
proof
  fix s :: memory_storage and k v p :: bytes and es :: scan_result
  assume good: "memory_good s"
  then have lock: "ms_lock s = Ok ()" and wf: "hm_wf (ms_data s)"
    by (simp_all add: memory_good_def ms_lock_def)
  show "\<exists>s'. vt_put memory_vtable k v s = (Ok (), s') \<and> memory_good s' \<and> memory_content s' = (memory_content s)(k \<mapsto> v)"
    using good by (simp add: memory_vtable_def MemoryStorage_put_def lock memory_good_def memory_content_def fun_eq_iff)
  show "vt_get memory_vtable k s = Ok (memory_content s k)"
    by (simp add: memory_vtable_def MemoryStorage_get_def lock memory_content_def)
  show "\<exists>s'. vt_remove memory_vtable k s = (Ok (), s') \<and> memory_good s' \<and> memory_content s' = (memory_content s)(k := None)"
    using good by (simp add: memory_vtable_def MemoryStorage_remove_def lock memory_good_def memory_content_def fun_eq_iff)
  show "\<exists>es. vt_scan_prefix memory_vtable p s = Ok es \<and> distinct (map fst es)
      \<and> set es = {(k, v). memory_content s k = Some v \<and> starts_with k p}"
    using hm_wf_filter [OF wf] hm_get_in [OF wf]
    by (auto simp: memory_vtable_def MemoryStorage_scan_prefix_def lock memory_content_def hm_wf_def)
  show "\<exists>s'. vt_flush memory_vtable s = (Ok (), s') \<and> memory_good s' \<and> memory_content s' = memory_content s"
    using good by (simp add: memory_vtable_def MemoryStorage_flush_def)
  assume "vt_scan_prefix memory_vtable p s = Ok es"
  then show "vt_count_prefix memory_vtable p s = Ok (length es)"
    by (auto simp: memory_vtable_def MemoryStorage_scan_prefix_def MemoryStorage_count_prefix_def lock
        filter_map comp_def split_def)
qed

lemma memory_new_good: "memory_good MemoryStorage_new" "memory_content MemoryStorage_new = Map.empty"
  by (simp_all add: memory_good_def memory_content_def MemoryStorage_new_def)

lemma starts_with_append [simp]: "starts_with (p @ q) p"
  by (induction p) auto

lemma starts_with_iff: "starts_with ks ps \<longleftrightarrow> (\<exists>q. ks = ps @ q)"
  by (induction ks ps rule: starts_with.induct) auto

section \<open>Retries\<close>

lemma open_attempts_result:
  assumes "\<And>k. attempt \<le> k \<Longrightarrow> k < attempt + m \<Longrightarrow>
      \<exists>b t. opn k = Inl (SledIo b t) \<and> is_lock_contention b t" and "m \<le> left"
  shows "open_attempts left opn attempt = open_attempts (left - m) opn (attempt + m)"
  using assms
proof (induction m arbitrary: left attempt)
  case (Suc m)
  obtain b t where e: "opn attempt = Inl (SledIo b t)" "is_lock_contention b t"
    using Suc.prems(1) [of attempt] by auto
  obtain l where l: "left = Suc l" using Suc.prems(2) by (cases left) auto
  have "open_attempts l opn (attempt + 1) = open_attempts (l - m) opn (attempt + 1 + m)"
    using Suc.prems l by (intro Suc.IH) auto
  then show ?case using e l by (simp add: add.commute add.left_commute)
qed simp

text \<open>
  Opening the database retries exactly while the failure is lock contention, and at most ten
  times: after \<open>m < 10\<close> contended attempts the outcome of attempt \<open>m + 1\<close> decides, success or a
  different error; ten contended attempts give up with the tenth error.
\<close>

theorem open_retries_bounded:
  assumes "\<And>k. 1 \<le> k \<Longrightarrow> k \<le> m \<Longrightarrow> \<exists>b t. opn k = Inl (SledIo b t) \<and> is_lock_contention b t"
    and "m < 10"
  shows "(\<forall>db. opn (m + 1) = Inr db \<longrightarrow> open_with_lock_retry opn = Ok db)
    \<and> (\<forall>e. opn (m + 1) = Inl e \<and> (m = 9 \<or> (\<forall>b t. e = SledIo b t \<longrightarrow> \<not> is_lock_contention b t))
         \<longrightarrow> open_with_lock_retry opn = Err (m + 1, e))"
proof -
  have "open_with_lock_retry opn = open_attempts (9 - m) opn (1 + m)"
    unfolding open_with_lock_retry_def LOCK_MAX_OPEN_ATTEMPTS_def
    using open_attempts_result [of 1 m opn 9] assms by simp
  then show ?thesis
    by (auto split: open_error.splits nat.splits)
qed

theorem open_retries_bounded_witness:
  "open_with_lock_retry (\<lambda>k :: nat. if k \<le> 3 then Inl (SledIo True ''busy'') else Inr k) = Ok 4"
proof -
  let ?opn = "\<lambda>k :: nat. if k \<le> 3 then Inl (SledIo True ''busy'') else Inr k"
  have "\<exists>b t. ?opn k = Inl (SledIo b t) \<and> is_lock_contention b t" if "1 \<le> k" "k \<le> 3" for k
    using that by (auto simp: is_lock_contention_def)
  from open_retries_bounded [where m = 3 and opn = ?opn, OF this] show ?thesis by simp
qed

end
