(* ===== verification/Rust_Strings.thy ===== *)
theory Rust_Strings
  imports Prelude
begin

text \<open>
  The conversions between byte strings and strings that the code takes from the standard library:
  \<open>String::from_utf8\<close> and \<open>String::from_utf8_lossy\<close>.  A string is the list of the bytes of its UTF-8
  encoding, so a valid byte string is converted byte by byte.
\<close>

definition bytes_string :: "bytes \<Rightarrow> string" where
  "bytes_string = map (\<lambda>b. char_of (unat b))"

lemma bytes_string_inverse [simp]: "bytes_string (as_bytes s) = s"
proof -
  have "char_of (unat (of_nat (of_char c) :: byte)) = c" for c
    using nat_of_char_less_256 [of c] by (simp add: unat_of_nat)
  then show ?thesis by (simp add: bytes_string_def as_bytes_def comp_def)
qed

text \<open>
  The decoder of the standard library: the length of the character that the bytes start with, or of the
  longest start of a character, and whether the character is complete.
\<close>

definition is_cont :: "byte \<Rightarrow> bool" where
  "is_cont b \<longleftrightarrow> 0x80 \<le> b \<and> b \<le> 0xBF"

text \<open>\<open>safe_get\<close>: 0 beyond the end.\<close>

definition safe_get :: "bytes \<Rightarrow> nat \<Rightarrow> byte" where
  "safe_get bs i = (if i < length bs then bs ! i else 0)"

definition utf8_step :: "bytes \<Rightarrow> bool \<times> nat" where
  "utf8_step bs =
     (let a = safe_get bs 0; b = safe_get bs 1; c = safe_get bs 2; d = safe_get bs 3 in
      if a < 0x80 then (True, 1)
      else if 0xC2 \<le> a \<and> a \<le> 0xDF then (if is_cont b then (True, 2) else (False, 1))
      else if 0xE0 \<le> a \<and> a \<le> 0xEF then
        (if (a = 0xE0 \<and> 0xA0 \<le> b \<and> b \<le> 0xBF) \<or> (a = 0xED \<and> 0x80 \<le> b \<and> b \<le> 0x9F) \<or> (a \<noteq> 0xE0 \<and> a \<noteq> 0xED \<and> is_cont b)
         then (if is_cont c then (True, 3) else (False, 2)) else (False, 1))
      else if 0xF0 \<le> a \<and> a \<le> 0xF4 then
        (if (a = 0xF0 \<and> 0x90 \<le> b \<and> b \<le> 0xBF) \<or> (a = 0xF4 \<and> 0x80 \<le> b \<and> b \<le> 0x8F) \<or> (a \<noteq> 0xF0 \<and> a \<noteq> 0xF4 \<and> is_cont b)
         then (if is_cont c then (if is_cont d then (True, 4) else (False, 3)) else (False, 2)) else (False, 1))
      else (False, 1))"

lemma utf8_step_pos: "0 < snd (utf8_step bs)"
  by (simp add: utf8_step_def Let_def)

function utf8_valid :: "bytes \<Rightarrow> bool" where
  "utf8_valid bs =
     (if bs = [] then True
      else if fst (utf8_step bs) then utf8_valid (drop (snd (utf8_step bs)) bs)
      else False)"
  by auto

termination
  by (relation "measure length") (auto simp: utf8_step_pos)

declare utf8_valid.simps [simp del]

text \<open>The replacement character U+FFFD stands for every incomplete piece.\<close>

function utf8_lossy :: "bytes \<Rightarrow> bytes" where
  "utf8_lossy bs =
     (if bs = [] then []
      else (if fst (utf8_step bs) then take (snd (utf8_step bs)) bs else [0xEF, 0xBF, 0xBD])
             @ utf8_lossy (drop (snd (utf8_step bs)) bs))"
  by auto

termination
  by (relation "measure length") (auto simp: utf8_step_pos)

declare utf8_lossy.simps [simp del]

definition string_from_utf8 :: "bytes \<Rightarrow> string option" where
  "string_from_utf8 bs = (if utf8_valid bs then Some (bytes_string bs) else None)"

definition string_from_utf8_lossy :: "bytes \<Rightarrow> string" where
  "string_from_utf8_lossy bs = bytes_string (utf8_lossy bs)"

text \<open>A valid string survives both.\<close>

lemma utf8_lossy_valid: "utf8_valid bs \<Longrightarrow> utf8_lossy bs = bs"
proof (induction bs rule: utf8_lossy.induct)
  case (1 bs)
  then show ?case
    by (cases "bs = []")
       (auto simp: utf8_lossy.simps [of bs] utf8_lossy.simps [of "[]"] utf8_valid.simps [of bs] split: if_splits)
qed

lemma string_from_utf8_as_bytes: "utf8_valid (as_bytes s) \<Longrightarrow> string_from_utf8 (as_bytes s) = Some s"
  by (simp add: string_from_utf8_def)

lemma string_from_utf8_lossy_as_bytes: "utf8_valid (as_bytes s) \<Longrightarrow> string_from_utf8_lossy (as_bytes s) = s"
  by (simp add: string_from_utf8_lossy_def utf8_lossy_valid)

lemma utf8_valid_ascii: "\<forall>b \<in> set bs. b < 0x80 \<Longrightarrow> utf8_valid bs"
proof (induction bs)
  case (Cons b bs)
  then have "utf8_step (b # bs) = (True, 1)" by (simp add: utf8_step_def safe_get_def)
  with Cons show ?case by (simp add: utf8_valid.simps [of "b # bs"])
qed (simp add: utf8_valid.simps)

text \<open>What the lossy conversion produces is always valid.\<close>

lemma utf8_step_replacement: "utf8_step ([0xEF, 0xBF, 0xBD] @ bs) = (True, 3)"
  by (simp add: utf8_step_def safe_get_def is_cont_def)

end
