(* ===== verification/Sample_Codec.thy ===== *)
theory Sample_Codec
  imports Rust_Strings
begin

text \<open>
  A concrete serializer for records: a list of fields, each a byte string with its end marked.  The
  serializers of the program are packages of their own and parameters of the model; this one stands
  in for them where a property is evaluated at a concrete input.
\<close>

fun enc_list :: "bytes \<Rightarrow> bytes" where
  "enc_list [] = [0]"
| "enc_list (b # bs) = 1 # b # enc_list bs"

fun dec_list :: "bytes \<Rightarrow> bytes \<times> bytes" where
  "dec_list (t # b # bs) = (if t = 0 then ([], b # bs) else case dec_list bs of (xs, q) \<Rightarrow> (b # xs, q))"
| "dec_list bs = ([], [])"

lemma dec_enc_list: "dec_list (enc_list xs @ q) = (xs, q)"
proof (induction xs)
  case Nil
  then show ?case by (cases q) auto
qed auto

definition enc_fields :: "bytes list \<Rightarrow> bytes" where
  "enc_fields fs = concat (map enc_list fs)"

primrec dec_fields :: "nat \<Rightarrow> bytes \<Rightarrow> bytes list" where
  "dec_fields 0 bs = []"
| "dec_fields (Suc n) bs = (case dec_list bs of (f, bs) \<Rightarrow> f # dec_fields n bs)"

lemma dec_enc_fields: "n = length fs \<Longrightarrow> dec_fields n (enc_fields fs) = fs"
  by (induction fs arbitrary: n) (auto simp: enc_fields_def dec_enc_list)

definition u64_bytes :: "u64 \<Rightarrow> bytes" where
  "u64_bytes w = u32_to_le (ucast w) @ u32_to_le (ucast (drop_bit 32 w))"

definition bytes_u32 :: "bytes \<Rightarrow> u32" where
  "bytes_u32 v = u32_from_le (v ! 0) (v ! 1) (v ! 2) (v ! 3)"

definition bytes_u64 :: "bytes \<Rightarrow> u64" where
  "bytes_u64 v = ucast (bytes_u32 v) OR push_bit 32 (ucast (bytes_u32 (drop 4 v)))"

lemma bytes_u32_inverse [simp]: "bytes_u32 (u32_to_le w) = w" "bytes_u32 (u32_to_le w @ q) = w"
  by (simp_all add: bytes_u32_def u32_to_le_def u32_from_to_le)

lemma u64_halves: "(ucast (ucast w :: u32) OR push_bit 32 (ucast (ucast (drop_bit 32 w) :: u32))) = (w :: u64)"
  by (rule bit_word_eqI) (auto simp: bit_simps)

lemma bytes_u64_inverse [simp]: "bytes_u64 (u64_bytes w) = w"
  by (simp add: bytes_u64_def u64_bytes_def u64_halves)

definition bool_bytes :: "bool \<Rightarrow> bytes" where
  "bool_bytes b = (if b then [1] else [])"

definition bytes_bool :: "bytes \<Rightarrow> bool" where
  "bytes_bool v \<longleftrightarrow> v \<noteq> []"

lemma bytes_bool_inverse [simp]: "bytes_bool (bool_bytes b) = b"
  by (simp add: bytes_bool_def bool_bytes_def)

definition option_bytes :: "('a \<Rightarrow> bytes) \<Rightarrow> 'a option \<Rightarrow> bytes" where
  "option_bytes f x = (case x of None \<Rightarrow> [] | Some y \<Rightarrow> 1 # f y)"

definition bytes_option :: "(bytes \<Rightarrow> 'a) \<Rightarrow> bytes \<Rightarrow> 'a option" where
  "bytes_option g v = (case v of [] \<Rightarrow> None | b # bs \<Rightarrow> Some (g bs))"

lemma bytes_option_inverse [simp]: "(\<And>y. g (f y) = y) \<Longrightarrow> bytes_option g (option_bytes f x) = x"
  by (cases x) (simp_all add: bytes_option_def option_bytes_def)

text \<open>A text form of byte strings: two letters for every byte.\<close>

definition letter :: "nat \<Rightarrow> char" where
  "letter n = char_of (97 + n)"

definition text_of_bytes :: "bytes \<Rightarrow> string" where
  "text_of_bytes v = concat (map (\<lambda>b. [letter (unat b div 16), letter (unat b mod 16)]) v)"

fun bytes_of_text :: "string \<Rightarrow> bytes" where
  "bytes_of_text (c # d # cs) = of_nat ((of_char c - 97) * 16 + (of_char d - 97)) # bytes_of_text cs"
| "bytes_of_text cs = []"

lemma of_char_letter: "n < 16 \<Longrightarrow> of_char (letter n) = (97 + n :: nat)"
  by (simp add: letter_def)

lemma bytes_of_text_inverse [simp]: "bytes_of_text (text_of_bytes v) = v"
proof (induction v)
  case (Cons b v)
  have "unat b < 256" using unsigned_less [of b] by simp
  then have "of_char (letter (unat b div 16)) = 97 + unat b div 16" "of_char (letter (unat b mod 16)) = 97 + unat b mod 16"
    by (simp_all add: of_char_letter less_mult_imp_div_less)
  then have "(of_char (letter (unat b div 16)) - 97) * 16 + (of_char (letter (unat b mod 16)) - 97) = unat b"
    by (simp only: diff_add_inverse div_mult_mod_eq)
  moreover have "text_of_bytes (b # v) = letter (unat b div 16) # letter (unat b mod 16) # text_of_bytes v"
    by (simp add: text_of_bytes_def)
  ultimately show ?case using Cons by (simp del: of_nat_add of_nat_mult)
qed (simp add: text_of_bytes_def)

lemma text_of_bytes_valid: "utf8_valid (as_bytes (text_of_bytes v))"
proof (rule utf8_valid_ascii, rule ballI)
  fix x
  assume "x \<in> set (as_bytes (text_of_bytes v))"
  then obtain n :: nat where n: "n < 16" "x = of_nat (of_char (letter n))"
  proof (clarsimp simp: as_bytes_def text_of_bytes_def)
    fix c y
    assume "c \<in> set v" "y = letter (unat c div 16) \<or> y = letter (unat c mod 16)"
      and t: "\<And>n. n < 16 \<Longrightarrow> word_of_nat (of_char y) = (word_of_nat (of_char (letter n)) :: byte) \<Longrightarrow> thesis"
    moreover have "unat c div 16 < 16" using unsigned_less [of c, where 'a = nat] by (simp add: less_mult_imp_div_less)
    ultimately show thesis by (metis mod_less_divisor zero_less_numeral)
  qed
  then have x: "x = of_nat (97 + n)" by (simp only: of_char_letter)
  have "unat x = 97 + n" unfolding x using n(1) by (simp only: unsigned_of_nat) (simp add: take_bit_nat_eq_self)
  then show "x < 0x80" using n(1) by (simp add: word_less_nat_alt)
qed

end
