(* ===== verification/Drift_Store.thy ===== *)
theory Drift_Store
  imports Complex_Main Drift_Sketch Storage_Backend "HOL-Library.List_Lexorder" Sample_Codec
begin

text \<open>
  The message store of \<open>core/src/drift/store.rs\<close>: a map from message identifiers to envelopes with a
  capacity, eviction of the lowest priority score, union of two stores, expiry, and write-through
  persistence.

  The store operations take the score as a function; \<open>priority_score\<close> at the time of the call is the
  one the code uses.  The score is a real number here where the code computes in \<open>f64\<close>: rounding and
  the infinities of an exponential far out of range are not part of the model.  One operation reads
  the clock once.  The bincode serializer and the storage backend are the fields of \<open>store_libs\<close>; a
  failed write to the backend is logged by the code and otherwise ignored.
\<close>

section \<open>Stored envelopes\<close>

record stored_envelope =
  sv_envelope_data :: bytes
  sv_message_id :: message_id
  sv_recipient_hint :: bytes
  sv_created_at :: u32
  sv_ttl_expiry :: u32
  sv_hop_count :: byte
  sv_priority :: byte
  sv_received_at :: u64

definition ttl_factor :: "real \<Rightarrow> stored_envelope \<Rightarrow> real" where
  "ttl_factor now e =
     (if sv_ttl_expiry e = 0 then 1
      else
        let total_lifetime = real (unat (sv_ttl_expiry e)) - real (unat (sv_created_at e));
            remaining = real (unat (sv_ttl_expiry e)) - now
        in if total_lifetime \<le> 0 \<or> remaining \<le> 0 then 0
           else max 0 (min 1 (remaining / total_lifetime)))"

definition priority_score :: "real \<Rightarrow> stored_envelope \<Rightarrow> real" where
  "priority_score now e =
     (let age_hours = (now - real (unat (sv_created_at e))) / 3600;
          recency = exp (- age_hours / 24);
          hop_penalty = 1 / (1 + real (unat (sv_hop_count e)))
      in real (unat (sv_priority e)) * recency * hop_penalty * ttl_factor now e)"

section \<open>The store\<close>

definition MAX_MESSAGES :: nat where "MAX_MESSAGES = 10000"

record 's store_libs =
  sl_vtable :: "'s storage_vtable"
  sl_serialize :: "stored_envelope \<Rightarrow> string + bytes"
  sl_deserialize :: "bytes \<Rightarrow> string + stored_envelope"

record 's mesh_store =
  mst_messages :: "(message_id, stored_envelope) hmap"
  mst_max_messages :: nat
  mst_backend :: "'s option"

definition MeshStore_new :: "'s mesh_store" where
  "MeshStore_new = \<lparr>mst_messages = [], mst_max_messages = MAX_MESSAGES, mst_backend = None\<rparr>"

definition MeshStore_with_capacity :: "nat \<Rightarrow> 's mesh_store" where
  "MeshStore_with_capacity m = \<lparr>mst_messages = [], mst_max_messages = m, mst_backend = None\<rparr>"

definition drift_prefix :: bytes where
  "drift_prefix = [0x64, 0x72, 0x69, 0x66, 0x74, 0x3A]"

definition drift_key :: "message_id \<Rightarrow> bytes" where
  "drift_key mid = drift_prefix @ mid"

definition MeshStore_remove :: "'s store_libs \<Rightarrow> message_id \<Rightarrow> 's mesh_store \<Rightarrow> bool \<times> 's mesh_store" where
  "MeshStore_remove L mid st =
     (if hm_contains (mst_messages st) mid
      then (True, st\<lparr>mst_messages := hm_remove mid (mst_messages st),
                     mst_backend := map_option (\<lambda>b. snd (vt_remove (sl_vtable L) (drift_key mid) b)) (mst_backend st)\<rparr>)
      else (False, st))"

text \<open>\<open>min_by\<close> on the entries: of several minimal ones it returns the first.\<close>

definition lowest_entry ::
  "(stored_envelope \<Rightarrow> real) \<Rightarrow> (message_id \<times> stored_envelope) list \<Rightarrow> (message_id \<times> stored_envelope) option" where
  "lowest_entry score ms =
     (case ms of [] \<Rightarrow> None
      | m # ms \<Rightarrow> Some (fold (\<lambda>y x. if score (snd y) < score (snd x) then y else x) ms m))"

lemma fold_min_mem: "fold (\<lambda>y x. if P y x then y else x) ms m \<in> set (m # ms)"
proof (induction ms arbitrary: m)
  case (Cons a ms)
  show ?case using Cons.IH [of "if P a m then a else m"] by (auto split: if_splits)
qed simp

lemma lowest_entry_mem: "lowest_entry score ms = Some p \<Longrightarrow> p \<in> set ms"
  unfolding lowest_entry_def
  using fold_min_mem [of "\<lambda>y x. score (snd y) < score (snd x)" "tl ms" "hd ms"]
  by (auto split: list.splits)

lemma length_hm_remove_less: "k \<in> fst ` set m \<Longrightarrow> length (hm_remove k m) < length m"
proof (induction m)
  case (Cons p m)
  have "length (hm_remove k m) \<le> length m" by (simp add: hm_remove_filter)
  with Cons show ?case by (cases p) auto
qed simp

function evict_if_over_budget ::
  "'s store_libs \<Rightarrow> (stored_envelope \<Rightarrow> real) \<Rightarrow> 's mesh_store \<Rightarrow> 's mesh_store" where
  "evict_if_over_budget L score st =
     (if length (mst_messages st) > mst_max_messages st then
        (case lowest_entry score (mst_messages st) of
           Some (mid, _) \<Rightarrow> evict_if_over_budget L score (snd (MeshStore_remove L mid st))
         | None \<Rightarrow> st)
      else st)"
  by auto

termination
proof (relation "measure (\<lambda>(L, score, st). length (mst_messages st))")
  fix L :: "'s store_libs" and score and st :: "'s mesh_store" and p mid e
  assume "lowest_entry score (mst_messages st) = Some p" and "(mid, e) = p"
  then have "mid \<in> fst ` set (mst_messages st)" using lowest_entry_mem by force
  then show "((L, score, snd (MeshStore_remove L mid st)), L, score, st)
      \<in> measure (\<lambda>(L, score, st). length (mst_messages st))"
    by (auto simp: MeshStore_remove_def hm_contains_iff length_hm_remove_less)
qed simp

declare evict_if_over_budget.simps [simp del]

definition write_through :: "'s store_libs \<Rightarrow> stored_envelope \<Rightarrow> 's \<Rightarrow> 's" where
  "write_through L e b =
     (case sl_serialize L e of
        Inr v \<Rightarrow> snd (vt_put (sl_vtable L) (drift_key (sv_message_id e)) v b)
      | Inl _ \<Rightarrow> b)"

definition MeshStore_insert ::
  "'s store_libs \<Rightarrow> (stored_envelope \<Rightarrow> real) \<Rightarrow> stored_envelope \<Rightarrow> 's mesh_store \<Rightarrow> bool \<times> 's mesh_store" where
  "MeshStore_insert L score e st =
     (if hm_contains (mst_messages st) (sv_message_id e) then (False, st)
      else
        let st = st\<lparr>mst_backend := map_option (write_through L e) (mst_backend st)\<rparr>;
            st = st\<lparr>mst_messages := hm_insert (sv_message_id e) e (mst_messages st)\<rparr>
        in (True, evict_if_over_budget L score st))"

definition MeshStore_merge ::
  "'s store_libs \<Rightarrow> (stored_envelope \<Rightarrow> real) \<Rightarrow> 's mesh_store \<Rightarrow> 's mesh_store \<Rightarrow> 's mesh_store" where
  "MeshStore_merge L score other st =
     fold (\<lambda>(mid, e) st. if hm_contains (mst_messages st) mid then st else snd (MeshStore_insert L score e st))
       (mst_messages other) st"

definition MeshStore_get :: "message_id \<Rightarrow> 's mesh_store \<Rightarrow> stored_envelope option" where
  "MeshStore_get mid st = hm_get (mst_messages st) mid"

definition MeshStore_contains :: "message_id \<Rightarrow> 's mesh_store \<Rightarrow> bool" where
  "MeshStore_contains mid st = hm_contains (mst_messages st) mid"

definition message_ids :: "'s mesh_store \<Rightarrow> message_id list" where
  "message_ids st = map fst (mst_messages st)"

definition messages_for_recipient :: "bytes \<Rightarrow> 's mesh_store \<Rightarrow> stored_envelope list" where
  "messages_for_recipient hint st = filter (\<lambda>e. sv_recipient_hint e = hint) (map snd (mst_messages st))"

definition by_priority :: "(stored_envelope \<Rightarrow> real) \<Rightarrow> 's mesh_store \<Rightarrow> stored_envelope list" where
  "by_priority score st = sort_key (\<lambda>e. - score e) (map snd (mst_messages st))"

definition MeshStore_len :: "'s mesh_store \<Rightarrow> nat" where
  "MeshStore_len st = length (mst_messages st)"

text \<open>The clock in seconds is cut to 32 bits.\<close>

definition remove_expired :: "'s store_libs \<Rightarrow> u64 \<Rightarrow> 's mesh_store \<Rightarrow> nat \<times> 's mesh_store" where
  "remove_expired L now st =
     (let now32 = (ucast now :: u32);
          expired_ids = map fst (filter (\<lambda>(_, e). sv_ttl_expiry e \<noteq> 0 \<and> sv_ttl_expiry e \<le> now32) (mst_messages st))
      in fold (\<lambda>mid (removed, st). case MeshStore_remove L mid st of
                 (True, st) \<Rightarrow> (removed + 1, st) | (False, st) \<Rightarrow> (removed, st)) expired_ids (0, st))"

definition generate_proof :: "(bytes \<Rightarrow> bytes) \<Rightarrow> (bytes \<Rightarrow> string) \<Rightarrow> 's mesh_store \<Rightarrow> string" where
  "generate_proof b3 hex_encode st = hex_encode (b3 (concat (sort (message_ids st))))"

fun save_entries ::
  "'s store_libs \<Rightarrow> (message_id \<times> stored_envelope) list \<Rightarrow> 's \<Rightarrow> (string, unit) result \<times> 's" where
  "save_entries L [] b = (Ok (), b)"
| "save_entries L ((mid, e) # ms) b =
     (case sl_serialize L e of
        Inl err \<Rightarrow> (Err (''Failed to serialize envelope: '' @ err), b)
      | Inr v \<Rightarrow>
          (case vt_put (sl_vtable L) (drift_key mid) v b of
             (Ok _, b) \<Rightarrow> save_entries L ms b
           | (Err err, b) \<Rightarrow> (Err err, b)
           | (Panic, b) \<Rightarrow> (Panic, b)))"

definition MeshStore_save :: "'s store_libs \<Rightarrow> 's mesh_store \<Rightarrow> 's \<Rightarrow> (string, unit) result \<times> 's" where
  "MeshStore_save L st b = save_entries L (mst_messages st) b"

definition load_entry ::
  "'s store_libs \<Rightarrow> bytes \<times> bytes \<Rightarrow> (message_id, stored_envelope) hmap \<times> nat
   \<Rightarrow> (message_id, stored_envelope) hmap \<times> nat" where
  "load_entry L kv ml =
     (case (kv, ml) of ((_, v), (ms, loaded)) \<Rightarrow>
        (case sl_deserialize L v of
           Inr e \<Rightarrow> if hm_contains ms (sv_message_id e) then (ms, loaded)
                    else (hm_insert (sv_message_id e) e ms, loaded + 1)
         | Inl _ \<Rightarrow> (ms, loaded)))"

definition MeshStore_load ::
  "'s store_libs \<Rightarrow> (stored_envelope \<Rightarrow> real) \<Rightarrow> 's \<Rightarrow> 's mesh_store \<Rightarrow> (string, nat) result \<times> 's mesh_store" where
  "MeshStore_load L score b st =
     (case vt_scan_prefix (sl_vtable L) drift_prefix b of
        Ok entries \<Rightarrow>
          (case fold (load_entry L) entries (mst_messages st, 0) of (ms, loaded) \<Rightarrow>
             (Ok loaded, evict_if_over_budget L score (st\<lparr>mst_messages := ms\<rparr>)))
      | Err err \<Rightarrow> (Err err, st)
      | Panic \<Rightarrow> (Panic, st))"

definition MeshStore_persistent :: "'s store_libs \<Rightarrow> (stored_envelope \<Rightarrow> real) \<Rightarrow> 's \<Rightarrow> 's mesh_store" where
  "MeshStore_persistent L score b =
     snd (MeshStore_load L score b
       \<lparr>mst_messages = [], mst_max_messages = MAX_MESSAGES, mst_backend = Some b\<rparr>)"

section \<open>Eviction\<close>

lemma fold_min_le:
  "y \<in> set (m # ms) \<Longrightarrow> f (fold (\<lambda>y x. if f y < f x then y else x) ms m) \<le> (f y :: real)"
proof (induction ms arbitrary: m y)
  case (Cons a ms)
  let ?m = "if f a < f m then a else m"
  have "f (fold (\<lambda>y x. if f y < f x then y else x) ms ?m) \<le> f z" if "z \<in> set (?m # ms)" for z
    using Cons.IH that by blast
  from this [of ?m] this [of y] Cons.prems show ?case by (auto split: if_splits)
qed simp

lemma lowest_entry_le: "lowest_entry score ms = Some p \<Longrightarrow> q \<in> set ms \<Longrightarrow> score (snd p) \<le> score (snd q)"
  unfolding lowest_entry_def using fold_min_le [of q "hd ms" "tl ms" "score \<circ> snd"]
  by (auto split: list.splits)

lemma lowest_entry_None: "lowest_entry score ms = None \<longleftrightarrow> ms = []"
  by (simp add: lowest_entry_def split: list.splits)

definition store_wf :: "'s mesh_store \<Rightarrow> bool" where
  "store_wf st \<longleftrightarrow> hm_wf (mst_messages st) \<and> (\<forall>(k, e) \<in> set (mst_messages st). sv_message_id e = k)"

definition within_budget :: "'s mesh_store \<Rightarrow> bool" where
  "within_budget st \<longleftrightarrow> length (mst_messages st) \<le> mst_max_messages st"

lemma MeshStore_remove_messages [simp]:
  "mst_messages (snd (MeshStore_remove L mid st)) = hm_remove mid (mst_messages st)"
  "mst_max_messages (snd (MeshStore_remove L mid st)) = mst_max_messages st"
  by (auto simp: MeshStore_remove_def hm_contains_iff)

lemma MeshStore_remove_fst: "fst (MeshStore_remove L mid st) \<longleftrightarrow> hm_contains (mst_messages st) mid"
  by (simp add: MeshStore_remove_def)

lemma store_wf_remove: "store_wf st \<Longrightarrow> store_wf (snd (MeshStore_remove L mid st))"
  by (auto simp: store_wf_def hm_remove_filter)

lemma evict_step:
  assumes "length (mst_messages st) > mst_max_messages st"
  obtains mid e where "(mid, e) \<in> set (mst_messages st)"
    "\<And>q. q \<in> set (mst_messages st) \<Longrightarrow> score e \<le> score (snd q)"
    "evict_if_over_budget L score st = evict_if_over_budget L score (snd (MeshStore_remove L mid st))"
proof -
  have "lowest_entry score (mst_messages st) \<noteq> None" using assms by (auto simp: lowest_entry_None)
  then obtain mid e where l: "lowest_entry score (mst_messages st) = Some (mid, e)" by auto
  show ?thesis
  proof (rule that)
    show "(mid, e) \<in> set (mst_messages st)" using l by (rule lowest_entry_mem)
    show "score e \<le> score (snd q)" if "q \<in> set (mst_messages st)" for q
      using lowest_entry_le [OF l that] by simp
    show "evict_if_over_budget L score st = evict_if_over_budget L score (snd (MeshStore_remove L mid st))"
      using assms l by (subst evict_if_over_budget.simps) simp
  qed
qed

lemma evict_id: "within_budget st \<Longrightarrow> evict_if_over_budget L score st = st"
  by (subst evict_if_over_budget.simps) (simp add: within_budget_def)

text \<open>Whatever holds of the store and survives a removal holds after eviction.\<close>

lemma evict_induct [consumes 1, case_names remove]:
  assumes "P st" and "\<And>st mid. P st \<Longrightarrow> mid \<in> fst ` set (mst_messages st) \<Longrightarrow> P (snd (MeshStore_remove L mid st))"
  shows "P (evict_if_over_budget L score st)"
  using assms(1)
proof (induction "length (mst_messages st)" arbitrary: st rule: less_induct)
  case less
  show ?case
  proof (cases "length (mst_messages st) > mst_max_messages st")
    case True
    then obtain mid e where m: "(mid, e) \<in> set (mst_messages st)"
      "evict_if_over_budget L score st = evict_if_over_budget L score (snd (MeshStore_remove L mid st))"
      by (rule evict_step)
    then have "mid \<in> fst ` set (mst_messages st)" by force
    with less assms(2) show ?thesis unfolding m(2) by (simp add: length_hm_remove_less)
  next
    case False
    with less show ?thesis by (simp add: evict_id within_budget_def)
  qed
qed

lemma evict_max [simp]: "mst_max_messages (evict_if_over_budget L score st) = mst_max_messages st"
  by (rule evict_induct [where P = "\<lambda>st'. mst_max_messages st' = mst_max_messages st"]) simp_all

lemma evict_wf: "store_wf st \<Longrightarrow> store_wf (evict_if_over_budget L score st)"
  by (rule evict_induct [where P = store_wf]) (simp_all add: store_wf_remove)

lemma evict_subset: "set (mst_messages (evict_if_over_budget L score st)) \<subseteq> set (mst_messages st)"
  by (rule evict_induct [where P = "\<lambda>st'. set (mst_messages st') \<subseteq> set (mst_messages st)"])
    (auto simp: hm_remove_filter)

lemma evict_length:
  "store_wf st \<Longrightarrow> length (mst_messages (evict_if_over_budget L score st)) =
   min (mst_max_messages st) (length (mst_messages st))"
proof (induction "length (mst_messages st)" arbitrary: st rule: less_induct)
  case less
  show ?case
  proof (cases "length (mst_messages st) > mst_max_messages st")
    case True
    then obtain mid e where m: "(mid, e) \<in> set (mst_messages st)"
      "evict_if_over_budget L score st = evict_if_over_budget L score (snd (MeshStore_remove L mid st))"
      by (rule evict_step)
    then have mid: "mid \<in> fst ` set (mst_messages st)" by force
    then have "length (hm_remove mid (mst_messages st)) = length (mst_messages st) - 1"
      using less.prems by (simp add: length_hm_remove store_wf_def)
    with less.hyps [of "snd (MeshStore_remove L mid st)"] less.prems True mid show ?thesis
      unfolding m(2) by (simp add: store_wf_remove length_hm_remove_less)
  qed (use evict_id [of st L score] in \<open>simp add: within_budget_def\<close>)
qed

lemma evict_best:
  "\<lbrakk>store_wf st; d \<in> set (mst_messages st); d \<notin> set (mst_messages (evict_if_over_budget L score st));
    k \<in> set (mst_messages (evict_if_over_budget L score st))\<rbrakk> \<Longrightarrow> score (snd d) \<le> score (snd k)"
proof (induction "length (mst_messages st)" arbitrary: st rule: less_induct)
  case less
  show ?case
  proof (cases "length (mst_messages st) > mst_max_messages st")
    case True
    obtain mid e where m: "(mid, e) \<in> set (mst_messages st)"
      "\<And>q. q \<in> set (mst_messages st) \<Longrightarrow> score e \<le> score (snd q)"
      "evict_if_over_budget L score st = evict_if_over_budget L score (snd (MeshStore_remove L mid st))"
      using evict_step [OF True, of score L] by metis
    let ?st = "snd (MeshStore_remove L mid st)"
    have len: "length (mst_messages ?st) < length (mst_messages st)"
      using m(1) length_hm_remove_less [of mid "mst_messages st"] by force
    have k: "k \<in> set (mst_messages st)" using less.prems(4) evict_subset by blast
    show ?thesis
    proof (cases "d \<in> set (mst_messages ?st)")
      case True
      then show ?thesis
        using less.hyps [OF len] less.prems store_wf_remove [OF less.prems(1)] unfolding m(3) by blast
    next
      case False
      then have "fst d = mid" using less.prems(2) by (auto simp: hm_remove_filter)
      then have "d = (mid, e)"
        using less.prems(1,2) m(1) by (cases d) (auto simp: store_wf_def hm_wf_def dest: eq_key_imp_eq_value)
      then show ?thesis using m(2) [OF k] by simp
    qed
  qed (use less.prems evict_id [of st L score] in \<open>simp add: within_budget_def\<close>)
qed

section \<open>Insertion and union\<close>

text \<open>The store after an insertion of a new message, before eviction.\<close>

definition with_message :: "'s store_libs \<Rightarrow> stored_envelope \<Rightarrow> 's mesh_store \<Rightarrow> 's mesh_store" where
  "with_message L e st = st\<lparr>mst_backend := map_option (write_through L e) (mst_backend st),
     mst_messages := hm_insert (sv_message_id e) e (mst_messages st)\<rparr>"

lemma insert_new:
  "\<not> hm_contains (mst_messages st) (sv_message_id e) \<Longrightarrow>
   MeshStore_insert L score e st = (True, evict_if_over_budget L score (with_message L e st))"
  by (simp add: MeshStore_insert_def with_message_def Let_def)

lemma insert_duplicate:
  "hm_contains (mst_messages st) (sv_message_id e) \<Longrightarrow> MeshStore_insert L score e st = (False, st)"
  by (simp add: MeshStore_insert_def)

lemma with_message_simps:
  "\<not> hm_contains (mst_messages st) (sv_message_id e) \<Longrightarrow>
     mst_messages (with_message L e st) = mst_messages st @ [(sv_message_id e, e)]"
  "mst_max_messages (with_message L e st) = mst_max_messages st"
  by (simp_all add: with_message_def hm_contains_iff hm_insert_fresh)

lemma with_message_wf:
  "store_wf st \<Longrightarrow> \<not> hm_contains (mst_messages st) (sv_message_id e) \<Longrightarrow> store_wf (with_message L e st)"
  by (auto simp: store_wf_def with_message_simps hm_wf_def hm_contains_iff)

lemma insert_wf: "store_wf st \<Longrightarrow> store_wf (snd (MeshStore_insert L score e st))"
  by (cases "hm_contains (mst_messages st) (sv_message_id e)")
    (simp_all add: insert_duplicate insert_new evict_wf with_message_wf)

lemma insert_max [simp]: "mst_max_messages (snd (MeshStore_insert L score e st)) = mst_max_messages st"
  by (cases "hm_contains (mst_messages st) (sv_message_id e)")
    (simp_all add: insert_duplicate insert_new with_message_simps)

lemma insert_budget:
  "store_wf st \<Longrightarrow> within_budget st \<Longrightarrow> within_budget (snd (MeshStore_insert L score e st))"
  by (cases "hm_contains (mst_messages st) (sv_message_id e)")
    (simp_all add: insert_duplicate insert_new within_budget_def evict_length with_message_wf with_message_simps)

lemma insert_room:
  "\<not> hm_contains (mst_messages st) (sv_message_id e) \<Longrightarrow> length (mst_messages st) < mst_max_messages st \<Longrightarrow>
   snd (MeshStore_insert L score e st) = with_message L e st"
  by (simp add: insert_new evict_id within_budget_def with_message_simps)

lemma insert_full_cases:
  assumes "store_wf st" and "within_budget st" and "\<not> hm_contains (mst_messages st) (sv_message_id e)"
    and "st' = snd (MeshStore_insert L score e st)"
  shows "set (mst_messages st') \<subseteq> insert (sv_message_id e, e) (set (mst_messages st))"
    and "d \<in> insert (sv_message_id e, e) (set (mst_messages st)) \<Longrightarrow> d \<notin> set (mst_messages st') \<Longrightarrow>
      length (mst_messages st') = mst_max_messages st \<and> (\<forall>k \<in> set (mst_messages st'). score (snd d) \<le> score (snd k))"
    and "length (mst_messages st') = min (mst_max_messages st) (length (mst_messages st) + 1)"
proof -
  have wf: "store_wf (with_message L e st)" using assms(1,3) by (rule with_message_wf)
  have st': "st' = evict_if_over_budget L score (with_message L e st)"
    using assms(3,4) by (simp add: insert_new)
  have ms: "set (mst_messages (with_message L e st)) = insert (sv_message_id e, e) (set (mst_messages st))"
    using assms(3) by (simp add: with_message_simps)
  show sub: "set (mst_messages st') \<subseteq> insert (sv_message_id e, e) (set (mst_messages st))"
    using evict_subset [of L score "with_message L e st"] unfolding st' ms .
  show len: "length (mst_messages st') = min (mst_max_messages st) (length (mst_messages st) + 1)"
    unfolding st' evict_length [OF wf] using assms(3) by (simp add: with_message_simps)
  assume d: "d \<in> insert (sv_message_id e, e) (set (mst_messages st))" "d \<notin> set (mst_messages st')"
  have "\<not> within_budget (with_message L e st)"
    using d ms evict_id [of "with_message L e st" L score] by (auto simp: st')
  then have "length (mst_messages st') = mst_max_messages st"
    using assms(3) len by (simp add: within_budget_def with_message_simps)
  with d show "length (mst_messages st') = mst_max_messages st
      \<and> (\<forall>k \<in> set (mst_messages st'). score (snd d) \<le> score (snd k))"
    using evict_best [OF wf, of d L score] ms by (auto simp: st')
qed

text \<open>
  The union of two stores.  \<open>C\<close> are the entries of both.  An identifier is accounted for when the
  store holds it, or when the store is full and one of its entries scores no higher than anything
  the store holds.
\<close>

definition accounted ::
  "(stored_envelope \<Rightarrow> real) \<Rightarrow> (message_id \<times> stored_envelope) set \<Rightarrow> 's mesh_store \<Rightarrow> message_id \<Rightarrow> bool" where
  "accounted score C st mid \<longleftrightarrow> hm_contains (mst_messages st) mid
     \<or> (length (mst_messages st) = mst_max_messages st
        \<and> (\<exists>e. (mid, e) \<in> C \<and> (\<forall>k \<in> set (mst_messages st). score e \<le> score (snd k))))"

definition merging ::
  "(stored_envelope \<Rightarrow> real) \<Rightarrow> (message_id \<times> stored_envelope) set \<Rightarrow> message_id set \<Rightarrow> 's mesh_store \<Rightarrow> bool" where
  "merging score C seen st \<longleftrightarrow> store_wf st \<and> within_budget st \<and> set (mst_messages st) \<subseteq> C
     \<and> (\<forall>mid \<in> seen. accounted score C st mid)"

lemma insert_accounted:
  assumes wf: "store_wf st" "within_budget st" and C: "set (mst_messages st) \<subseteq> C"
    and new: "\<not> hm_contains (mst_messages st) (sv_message_id e)" and acc: "accounted score C st mid"
  shows "accounted score C (snd (MeshStore_insert L score e st)) mid"
proof -
  define st' where "st' = snd (MeshStore_insert L score e st)"
  note ins = insert_full_cases [OF wf new st'_def]
  have max: "mst_max_messages st' = mst_max_messages st" by (simp add: st'_def)
  show ?thesis
  proof (cases "hm_contains (mst_messages st) mid")
    case True
    then obtain e0 where e0: "(mid, e0) \<in> set (mst_messages st)" by (auto simp: hm_contains_iff)
    then show ?thesis
      unfolding st'_def [symmetric] accounted_def max using ins(2) [of "(mid, e0)"] C
      by (force simp: hm_contains_iff)
  next
    case False
    with acc obtain e0 where full: "length (mst_messages st) = mst_max_messages st"
      and e0: "(mid, e0) \<in> C" "\<And>k. k \<in> set (mst_messages st) \<Longrightarrow> score e0 \<le> score (snd k)"
      by (auto simp: accounted_def)
    have len: "length (mst_messages st') = mst_max_messages st" using ins(3) full by simp
    have "score e0 \<le> score (snd k)" if k: "k \<in> set (mst_messages st')" for k
    proof (cases "k \<in> set (mst_messages st)")
      case False
      have "distinct (mst_messages st)" "distinct (mst_messages st')"
        using wf(1) insert_wf [OF wf(1), of L score e] by (auto simp: store_wf_def hm_wf_def st'_def distinct_map)
      then have "card (set (mst_messages st)) = card (set (mst_messages st'))"
        using full len by (simp add: distinct_card)
      then have "\<not> set (mst_messages st) \<subseteq> set (mst_messages st')"
        using False k by (metis List.finite_set card_subset_eq)
      then obtain d where "d \<in> set (mst_messages st)" "d \<notin> set (mst_messages st')" by blast
      then show ?thesis using e0(2) [of d] ins(2) [of d] k by force
    qed (use e0 in simp)
    then show ?thesis
      unfolding st'_def [symmetric] accounted_def using len max e0(1) by auto
  qed
qed

lemma merge_step:
  assumes m: "merging score C seen st" and e: "(mid, e) \<in> C" "sv_message_id e = mid"
  shows "merging score C (insert mid seen)
    (if hm_contains (mst_messages st) mid then st else snd (MeshStore_insert L score e st))"
proof (cases "hm_contains (mst_messages st) mid")
  case True
  with m show ?thesis by (auto simp: merging_def accounted_def)
next
  case False
  define st' where "st' = snd (MeshStore_insert L score e st)"
  from m have wf: "store_wf st" "within_budget st" and C: "set (mst_messages st) \<subseteq> C" by (auto simp: merging_def)
  note ins = insert_full_cases [OF wf False [folded e(2)] st'_def]
  have "accounted score C st' mid"
    unfolding accounted_def using ins(2) [of "(mid, e)"] e by (force simp: hm_contains_iff st'_def)
  moreover have "accounted score C st' i" if "i \<in> seen" for i
    unfolding st'_def by (rule insert_accounted [OF wf C]) (use False e(2) m that in \<open>auto simp: merging_def\<close>)
  moreover have "store_wf st'" "within_budget st'"
    unfolding st'_def using wf by (simp_all add: insert_wf insert_budget)
  moreover have "set (mst_messages st') \<subseteq> C" using ins(1) C e by auto
  ultimately show ?thesis using False by (simp add: merging_def st'_def)
qed

lemma merge_fold:
  "\<lbrakk>merging score C seen st; set ms \<subseteq> C; \<forall>(k, e) \<in> set ms. sv_message_id e = k\<rbrakk> \<Longrightarrow>
   merging score C (seen \<union> fst ` set ms)
     (fold (\<lambda>(mid, e) st. if hm_contains (mst_messages st) mid then st else snd (MeshStore_insert L score e st)) ms st)"
proof (induction ms arbitrary: seen st)
  case (Cons p ms)
  obtain mid e where p: "p = (mid, e)" by (cases p)
  let ?st = "if hm_contains (mst_messages st) mid then st else snd (MeshStore_insert L score e st)"
  have "merging score C (insert mid seen) ?st"
    using Cons.prems by (intro merge_step) (auto simp: p)
  from Cons.IH [OF this] Cons.prems show ?case by (simp add: p)
qed simp

lemma merge_merging:
  assumes "store_wf st" "within_budget st" "store_wf other"
  shows "merging score (set (mst_messages st) \<union> set (mst_messages other))
    (fst ` (set (mst_messages st) \<union> set (mst_messages other))) (MeshStore_merge L score other st)"
proof -
  let ?C = "set (mst_messages st) \<union> set (mst_messages other)"
  have "merging score ?C (fst ` set (mst_messages st)) st"
    using assms by (simp add: merging_def accounted_def hm_contains_iff)
  from merge_fold [OF this, of "mst_messages other" L] assms(3) show ?thesis
    unfolding MeshStore_merge_def image_Un by (simp add: store_wf_def)
qed

lemma merge_length:
  assumes "store_wf st" "within_budget st" "store_wf other"
  shows "length (mst_messages (MeshStore_merge L score other st)) =
    min (mst_max_messages (MeshStore_merge L score other st))
      (card (fst ` (set (mst_messages st) \<union> set (mst_messages other))))"
proof -
  let ?C = "set (mst_messages st) \<union> set (mst_messages other)" and ?m = "MeshStore_merge L score other st"
  have m: "merging score ?C (fst ` ?C) ?m" using merge_merging [OF assms] .
  have len: "length (mst_messages ?m) = card (fst ` set (mst_messages ?m))"
    using m distinct_card [of "map fst (mst_messages ?m)"] by (simp add: merging_def store_wf_def hm_wf_def)
  have le: "card (fst ` set (mst_messages ?m)) \<le> card (fst ` ?C)" and b: "length (mst_messages ?m) \<le> mst_max_messages ?m"
    using m by (auto simp: merging_def within_budget_def intro!: card_mono image_mono)
  show ?thesis
  proof (cases "fst ` ?C \<subseteq> fst ` set (mst_messages ?m)")
    case True
    then have "card (fst ` ?C) \<le> length (mst_messages ?m)" unfolding len by (intro card_mono) auto
    with le len b show ?thesis by simp
  next
    case False
    then have "length (mst_messages ?m) = mst_max_messages ?m"
      using m unfolding merging_def accounted_def hm_contains_iff by blast
    with le len show ?thesis by simp
  qed
qed

lemma merge_max [simp]: "mst_max_messages (MeshStore_merge L score other st) = mst_max_messages st"
proof -
  have "mst_max_messages (fold (\<lambda>(mid, e) st. if hm_contains (mst_messages st) mid then st
      else snd (MeshStore_insert L score e st)) ms st) = mst_max_messages st" for ms
    by (induction ms arbitrary: st) auto
  then show ?thesis by (simp add: MeshStore_merge_def)
qed

text \<open>With room for both, the union keeps the receiver's entries and adds the missing ones.\<close>

lemma merge_room_fold:
  "\<lbrakk>store_wf st; hm_wf ms; \<forall>(k, e) \<in> set ms. sv_message_id e = k;
    length (mst_messages st) + length ms \<le> mst_max_messages st\<rbrakk> \<Longrightarrow>
   hm_get (mst_messages (fold (\<lambda>(mid, e) st. if hm_contains (mst_messages st) mid then st
      else snd (MeshStore_insert L score e st)) ms st)) mid =
   (case hm_get (mst_messages st) mid of Some e \<Rightarrow> Some e | None \<Rightarrow> hm_get ms mid)"
proof (induction ms arbitrary: st)
  case (Cons p ms)
  obtain k e where p: "p = (k, e)" by (cases p)
  have k: "sv_message_id e = k" using Cons.prems(3) by (simp add: p)
  have fresh: "hm_get ms k = None" using Cons.prems(2) by (simp add: p map_of_eq_None_iff)
  show ?case
  proof (cases "hm_contains (mst_messages st) k")
    case True
    then show ?thesis
      using Cons by (auto simp: p hm_contains_def split: option.splits)
  next
    case False
    then have ins: "snd (MeshStore_insert L score e st) = with_message L e st"
      using Cons.prems(4) k by (intro insert_room) simp_all
    have wf: "store_wf (with_message L e st)" using Cons.prems(1) False k by (simp add: with_message_wf)
    have "hm_get (mst_messages (with_message L e st)) mid = (if mid = k then Some e else hm_get (mst_messages st) mid)"
      using k by (simp add: with_message_def)
    moreover have "length (mst_messages (with_message L e st)) + length ms \<le> mst_max_messages (with_message L e st)"
      using Cons.prems(4) False k by (simp add: with_message_simps)
    ultimately show ?thesis
      using Cons.IH [OF wf] Cons.prems(2,3) False fresh by (auto simp: p ins hm_contains_def split: option.splits)
  qed
qed (simp split: option.splits)

lemma merge_room:
  assumes "store_wf st" "store_wf other"
    and "length (mst_messages st) + length (mst_messages other) \<le> mst_max_messages st"
  shows "MeshStore_get mid (MeshStore_merge L score other st) =
    (case MeshStore_get mid st of Some e \<Rightarrow> Some e | None \<Rightarrow> MeshStore_get mid other)"
  unfolding MeshStore_get_def MeshStore_merge_def
  using assms by (intro merge_room_fold) (auto simp: store_wf_def)

section \<open>Write-through persistence\<close>

text \<open>Bincode restores every envelope it serializes, and serializes every envelope.\<close>

definition bincode_lossless :: "'s store_libs \<Rightarrow> bool" where
  "bincode_lossless L \<longleftrightarrow> (\<forall>e. \<exists>v. sl_serialize L e = Inr v \<and> sl_deserialize L v = Inr e)"

definition serialized :: "'s store_libs \<Rightarrow> stored_envelope \<Rightarrow> bytes" where
  "serialized L e = (case sl_serialize L e of Inr v \<Rightarrow> v | Inl _ \<Rightarrow> [])"

lemma serializedD:
  "bincode_lossless L \<Longrightarrow> sl_serialize L e = Inr (serialized L e) \<and> sl_deserialize L (serialized L e) = Inr e"
  unfolding bincode_lossless_def serialized_def by (metis sum.simps(6))

lemma drift_key_prefix: "starts_with k drift_prefix \<longleftrightarrow> (\<exists>mid. k = drift_key mid)"
  by (simp add: starts_with_iff drift_key_def)

lemma drift_key_inj [simp]: "drift_key m = drift_key m' \<longleftrightarrow> m = m'"
  by (simp add: drift_key_def)

text \<open>The backend of a store holds, under the store's prefix, exactly the entries of the store.\<close>

definition mirrored ::
  "'s store_libs \<Rightarrow> ('s \<Rightarrow> bytes \<rightharpoonup> bytes) \<Rightarrow> ('s \<Rightarrow> bool) \<Rightarrow> 's mesh_store \<Rightarrow> bool" where
  "mirrored L content good st \<longleftrightarrow> (\<exists>b. mst_backend st = Some b \<and> good b
     \<and> (\<forall>mid. content b (drift_key mid) = map_option (serialized L) (hm_get (mst_messages st) mid)))"

context backend_contract
begin

lemma mirrored_remove:
  assumes "sl_vtable L = vt" and "mirrored L content good st"
  shows "mirrored L content good (snd (MeshStore_remove L mid st))"
proof -
  from assms(2) obtain b where b: "mst_backend st = Some b" "good b"
    "\<And>m. content b (drift_key m) = map_option (serialized L) (hm_get (mst_messages st) m)"
    by (auto simp: mirrored_def)
  obtain b' where "vt_remove vt (drift_key mid) b = (Ok (), b')" "good b'" "content b' = (content b)(drift_key mid := None)"
    using remove_law [OF b(2)] by blast
  then show ?thesis
    using b assms by (auto simp: mirrored_def MeshStore_remove_def)
qed

lemma mirrored_evict:
  "sl_vtable L = vt \<Longrightarrow> mirrored L content good st \<Longrightarrow> mirrored L content good (evict_if_over_budget L score st)"
  by (rule evict_induct [where P = "mirrored L content good"]) (simp_all add: mirrored_remove)

lemma mirrored_with_message:
  assumes "sl_vtable L = vt" and "bincode_lossless L" and "mirrored L content good st"
  shows "mirrored L content good (with_message L e st)"
proof -
  from assms(3) obtain b where b: "mst_backend st = Some b" "good b"
    "\<And>m. content b (drift_key m) = map_option (serialized L) (hm_get (mst_messages st) m)"
    by (auto simp: mirrored_def)
  obtain b' where "vt_put vt (drift_key (sv_message_id e)) (serialized L e) b = (Ok (), b')" "good b'"
    "content b' = (content b)(drift_key (sv_message_id e) \<mapsto> serialized L e)"
    using put_law [OF b(2)] by blast
  then show ?thesis
    using b serializedD [OF assms(2), of e] assms(1)
    by (auto simp: mirrored_def with_message_def write_through_def)
qed

lemma mirrored_insert:
  "\<lbrakk>sl_vtable L = vt; bincode_lossless L; mirrored L content good st\<rbrakk> \<Longrightarrow>
   mirrored L content good (snd (MeshStore_insert L score e st))"
  by (cases "hm_contains (mst_messages st) (sv_message_id e)")
    (simp_all add: insert_duplicate insert_new mirrored_evict mirrored_with_message)

end

section \<open>Expiry\<close>

definition expired_at :: "u32 \<Rightarrow> stored_envelope \<Rightarrow> bool" where
  "expired_at now32 e \<longleftrightarrow> sv_ttl_expiry e \<noteq> 0 \<and> sv_ttl_expiry e \<le> now32"

lemma remove_all_fold:
  "\<lbrakk>distinct ids; set ids \<subseteq> fst ` set (mst_messages st); hm_wf (mst_messages st)\<rbrakk> \<Longrightarrow>
   fst (fold (\<lambda>mid (removed, st). case MeshStore_remove L mid st of
          (True, st) \<Rightarrow> (removed + 1, st) | (False, st) \<Rightarrow> (removed, st)) ids (n, st)) = n + length ids
   \<and> mst_messages (snd (fold (\<lambda>mid (removed, st). case MeshStore_remove L mid st of
          (True, st) \<Rightarrow> (removed + 1, st) | (False, st) \<Rightarrow> (removed, st)) ids (n, st)))
     = filter (\<lambda>(k, _). k \<notin> set ids) (mst_messages st)"
proof (induction ids arbitrary: n st)
  case (Cons mid ids)
  have r: "MeshStore_remove L mid st = (True, snd (MeshStore_remove L mid st))"
    using Cons.prems(2) MeshStore_remove_fst [of L mid st] by (cases "MeshStore_remove L mid st") (auto simp: hm_contains_iff)
  have "set ids \<subseteq> fst ` set (mst_messages (snd (MeshStore_remove L mid st)))"
    using Cons.prems(1,2) by (force simp: hm_remove_filter)
  moreover have "hm_wf (mst_messages (snd (MeshStore_remove L mid st)))" using Cons.prems(3) by simp
  ultimately show ?case
    using Cons.IH [of "snd (MeshStore_remove L mid st)" "n + 1"] Cons.prems(1)
    by (subst (1 2) fold_Cons, subst (1 2) comp_apply, subst (1 2) prod.case, subst (1 2) r)
      (auto simp: hm_remove_filter split_def intro!: filter_cong)
qed simp

lemma remove_expired_result:
  assumes "store_wf st"
  shows "mst_messages (snd (remove_expired L now st)) = filter (\<lambda>(_, e). \<not> expired_at (ucast now) e) (mst_messages st)"
    and "fst (remove_expired L now st) = length (filter (\<lambda>(_, e). expired_at (ucast now) e) (mst_messages st))"
proof -
  let ?P = "\<lambda>(_ :: message_id, e). expired_at (ucast now) e"
  let ?ids = "map fst (filter ?P (mst_messages st))"
  have wf: "hm_wf (mst_messages st)" using assms by (simp add: store_wf_def)
  then have d: "distinct ?ids" using hm_wf_filter by (auto simp: hm_wf_def distinct_map_filter)
  have "fst x \<in> set ?ids \<longleftrightarrow> ?P x" if "x \<in> set (mst_messages st)" for x
    using that wf by (force simp: hm_wf_def dest: eq_key_imp_eq_value)
  then have f: "filter (\<lambda>(k, _). k \<notin> set ?ids) (mst_messages st) = filter (\<lambda>x. \<not> ?P x) (mst_messages st)"
    by (intro filter_cong) (auto simp: split_def)
  note r = remove_all_fold [OF d _ wf, of L 0]
  have e: "remove_expired L now st = fold (\<lambda>mid (removed, st). case MeshStore_remove L mid st of
      (True, st) \<Rightarrow> (removed + 1, st) | (False, st) \<Rightarrow> (removed, st)) ?ids (0, st)"
    by (simp add: remove_expired_def expired_at_def)
  show "mst_messages (snd (remove_expired L now st)) = filter (\<lambda>(_, e). \<not> expired_at (ucast now) e) (mst_messages st)"
    unfolding e using r f by (auto simp: split_def)
  show "fst (remove_expired L now st) = length (filter ?P (mst_messages st))"
    unfolding e using r by auto
qed

section \<open>Sequences of operations and recovery\<close>

datatype 's store_op =
    StInsert stored_envelope
  | StRemove message_id
  | StExpire u64
  | StMerge "'s mesh_store"

primrec store_step :: "'s store_libs \<Rightarrow> (stored_envelope \<Rightarrow> real) \<Rightarrow> 's store_op \<Rightarrow> 's mesh_store \<Rightarrow> 's mesh_store" where
  "store_step L score (StInsert e) st = snd (MeshStore_insert L score e st)"
| "store_step L score (StRemove mid) st = snd (MeshStore_remove L mid st)"
| "store_step L score (StExpire now) st = snd (remove_expired L now st)"
| "store_step L score (StMerge other) st = MeshStore_merge L score other st"

text \<open>A run: each operation with the scores at its time.\<close>

definition store_run ::
  "'s store_libs \<Rightarrow> ((stored_envelope \<Rightarrow> real) \<times> 's store_op) list \<Rightarrow> 's mesh_store \<Rightarrow> 's mesh_store" where
  "store_run L ops st = fold (\<lambda>(score, op) st. store_step L score op st) ops st"

definition store_inv :: "'s mesh_store \<Rightarrow> bool" where
  "store_inv st \<longleftrightarrow> store_wf st \<and> within_budget st"

lemma remove_expired_preserves:
  assumes "\<And>st mid. P st \<Longrightarrow> P (snd (MeshStore_remove L mid st))" and "P st"
  shows "P (snd (remove_expired L now st))"
proof -
  have "P (snd (fold (\<lambda>mid (removed, st). case MeshStore_remove L mid st of
      (True, st) \<Rightarrow> (removed + 1, st) | (False, st) \<Rightarrow> (removed, st)) ids (n, st)))" if "P st" for ids n st
    using that
  proof (induction ids arbitrary: n st)
    case (Cons mid ids)
    then show ?case
      using assms(1) [of st mid] by (cases "MeshStore_remove L mid st") (auto split: bool.splits)
  qed simp
  with assms(2) show ?thesis by (simp add: remove_expired_def Let_def)
qed

lemma merge_preserves:
  assumes "\<And>st e. P st \<Longrightarrow> P (snd (MeshStore_insert L score e st))" and "P st"
  shows "P (MeshStore_merge L score other st)"
proof -
  have "P (fold (\<lambda>(mid, e) st. if hm_contains (mst_messages st) mid then st
      else snd (MeshStore_insert L score e st)) ms st)" if "P st" for ms st
    using that by (induction ms arbitrary: st) (auto simp: assms(1))
  with assms(2) show ?thesis by (simp add: MeshStore_merge_def)
qed

lemma remove_inv: "store_inv st \<Longrightarrow> store_inv (snd (MeshStore_remove L mid st))"
  by (auto simp: store_inv_def store_wf_remove within_budget_def hm_remove_filter intro: le_trans [OF length_filter_le])

lemma insert_inv: "store_inv st \<Longrightarrow> store_inv (snd (MeshStore_insert L score e st))"
  by (simp add: store_inv_def insert_wf insert_budget)

lemma step_preserves:
  assumes "\<And>st e score. P st \<Longrightarrow> P (snd (MeshStore_insert L score e st))"
    and "\<And>st mid. P st \<Longrightarrow> P (snd (MeshStore_remove L mid st))" and "P st"
  shows "P (store_step L score op st)"
  using assms by (cases op) (simp_all add: remove_expired_preserves merge_preserves)

lemma run_preserves:
  assumes "\<And>st e score. P st \<Longrightarrow> P (snd (MeshStore_insert L score e st))"
    and "\<And>st mid. P st \<Longrightarrow> P (snd (MeshStore_remove L mid st))" and "P st"
  shows "P (store_run L ops st)"
proof -
  have "P (fold (\<lambda>(score, op) st. store_step L score op st) ops st)" if "P st" for st
    using that by (induction ops arbitrary: st) (auto intro: step_preserves [of P L] assms(1,2))
  then show ?thesis using assms(3) by (simp add: store_run_def)
qed

lemma run_inv: "store_inv st \<Longrightarrow> store_inv (store_run L ops st)"
  by (rule run_preserves) (simp_all add: insert_inv remove_inv)

lemma run_max: "mst_max_messages (store_run L ops st) = mst_max_messages st"
  by (rule run_preserves [where P = "\<lambda>st'. mst_max_messages st' = mst_max_messages st"]) simp_all

lemma length_hm: "hm_wf m \<Longrightarrow> length m = card (dom (hm_get m))"
  using distinct_card [of "map fst m"] by (simp add: dom_map_of_conv_image_fst hm_wf_def)

lemma load_fold:
  assumes "\<And>k v. (k, v) \<in> set es \<Longrightarrow> \<exists>e. sl_deserialize L v = Inr e \<and> k = drift_key (sv_message_id e)"
    and "distinct (map fst es)" and "hm_wf ms"
  shows "hm_wf (fst (fold (load_entry L) es (ms, n))) \<and>
    hm_get (fst (fold (load_entry L) es (ms, n))) mid =
      (case hm_get ms mid of Some e \<Rightarrow> Some e
       | None \<Rightarrow> (case map_of es (drift_key mid) of
           Some v \<Rightarrow> (case sl_deserialize L v of Inr e \<Rightarrow> Some e | Inl _ \<Rightarrow> None) | None \<Rightarrow> None))"
  using assms
proof (induction es arbitrary: ms n)
  case (Cons p es)
  obtain k v where p: "p = (k, v)" by (cases p)
  obtain e where e: "sl_deserialize L v = Inr e" "k = drift_key (sv_message_id e)"
    using Cons.prems(1) [of k v] by (auto simp: p)
  have fresh: "map_of es k = None" using Cons.prems(2) by (simp add: p map_of_eq_None_iff)
  define ms' where "ms' = (if hm_contains ms (sv_message_id e) then ms else hm_insert (sv_message_id e) e ms)"
  obtain n' where "load_entry L p (ms, n) = (ms', n')"
    by (cases "hm_contains ms (sv_message_id e)") (auto simp: load_entry_def p e ms'_def)
  then have step: "fold (load_entry L) (p # es) (ms, n) = fold (load_entry L) es (ms', n')" by simp
  have wf: "hm_wf ms'" using Cons.prems(3) by (simp add: ms'_def)
  have get: "hm_get ms' mid = (case hm_get ms mid of Some e' \<Rightarrow> Some e'
      | None \<Rightarrow> if mid = sv_message_id e then Some e else None)"
    by (auto simp: ms'_def hm_contains_def split: option.splits)
  show ?case
    unfolding step using Cons.IH [OF _ _ wf, of n'] Cons.prems(1,2) fresh e
    by (auto simp: p get split: option.splits)
qed (simp split: option.splits)

context backend_contract
begin

lemma load_mirrored:
  assumes L: "sl_vtable L = vt" "bincode_lossless L" and inv: "store_inv st"
    and m: "mirrored L content good st" and b: "mst_backend st = Some b" and max: "mst_max_messages st \<le> MAX_MESSAGES"
  shows "MeshStore_get mid (MeshStore_persistent L score b) = MeshStore_get mid st"
    and "mst_backend (MeshStore_persistent L score b) = Some b"
proof -
  from m b have good: "good b"
    and c: "\<And>k. content b (drift_key k) = map_option (serialized L) (hm_get (mst_messages st) k)"
    by (auto simp: mirrored_def)
  obtain es where es: "vt_scan_prefix vt drift_prefix b = Ok es" "distinct (map fst es)"
    "set es = {(k, v). content b k = Some v \<and> starts_with k drift_prefix}"
    using scan_law [OF good] by blast
  have get: "map_of es (drift_key k) = map_option (serialized L) (hm_get (mst_messages st) k)" for k
  proof -
    have "map_of es (drift_key k) = Some v \<longleftrightarrow> content b (drift_key k) = Some v" for v
      using es(2,3) by (auto simp: drift_key_def)
    then show ?thesis unfolding c [symmetric] by (metis not_Some_eq)
  qed
  have ent: "\<exists>e. sl_deserialize L v = Inr e \<and> k = drift_key (sv_message_id e)" if kv: "(k, v) \<in> set es" for k v
  proof -
    from kv obtain i where i: "k = drift_key i" "content b k = Some v" using es(3) by (auto simp: drift_key_prefix)
    then obtain e where e: "hm_get (mst_messages st) i = Some e" "v = serialized L e" using c by auto
    then have "sv_message_id e = i" using inv by (auto simp: store_inv_def store_wf_def dest: map_of_SomeD)
    then show ?thesis using e i serializedD [OF L(2)] by auto
  qed
  define ms where "ms = fst (fold (load_entry L) es ([], 0))"
  have ms: "hm_wf ms" "\<And>k. hm_get ms k = hm_get (mst_messages st) k"
    using load_fold [of es L "[]" 0] ent es(2) get serializedD [OF L(2)]
    by (auto simp: ms_def split: option.splits)
  then have "dom (hm_get ms) = dom (hm_get (mst_messages st))" by (auto simp: dom_def)
  then have "length ms \<le> MAX_MESSAGES"
    using length_hm [OF ms(1)] length_hm [of "mst_messages st"] inv max
    by (simp add: store_inv_def store_wf_def within_budget_def)
  then have "MeshStore_persistent L score b =
      \<lparr>mst_messages = ms, mst_max_messages = MAX_MESSAGES, mst_backend = Some b\<rparr>"
    using es(1) L(1)
    by (cases "fold (load_entry L) es ([], 0)")
      (simp add: MeshStore_persistent_def MeshStore_load_def evict_id within_budget_def ms_def)
  then show "MeshStore_get mid (MeshStore_persistent L score b) = MeshStore_get mid st"
    and "mst_backend (MeshStore_persistent L score b) = Some b"
    using ms(2) by (simp_all add: MeshStore_get_def)
qed

lemma run_mirrored:
  "\<lbrakk>sl_vtable L = vt; bincode_lossless L; mirrored L content good st\<rbrakk> \<Longrightarrow> mirrored L content good (store_run L ops st)"
  by (rule run_preserves) (simp_all add: mirrored_insert mirrored_remove)

end

section \<open>Scores\<close>

lemma ttl_factor_bounds: "0 \<le> ttl_factor now e" "ttl_factor now e \<le> 1"
  by (auto simp: ttl_factor_def Let_def)

lemma ttl_factor_expired:
  "sv_ttl_expiry e \<noteq> 0 \<Longrightarrow> real (unat (sv_ttl_expiry e)) \<le> now \<Longrightarrow> ttl_factor now e = 0"
  by (simp add: ttl_factor_def)

definition recency_hops :: "real \<Rightarrow> stored_envelope \<Rightarrow> real" where
  "recency_hops now e = exp (- ((now - real (unat (sv_created_at e))) / 3600) / 24)
     * (1 / (1 + real (unat (sv_hop_count e))))"

lemma priority_score_factors:
  "priority_score now e = real (unat (sv_priority e)) * (recency_hops now e * ttl_factor now e)"
  by (simp only: priority_score_def Let_def recency_hops_def mult.assoc)

lemma recency_hops_nonneg: "0 \<le> recency_hops now e"
  unfolding recency_hops_def
  by (intro mult_nonneg_nonneg divide_nonneg_nonneg add_nonneg_nonneg of_nat_0_le_iff) auto

lemma recency_hops_le:
  assumes "real (unat (sv_created_at e)) \<le> now"
  shows "recency_hops now e \<le> 1"
proof -
  define h where "h = real (unat (sv_hop_count e))"
  have "0 \<le> h" unfolding h_def by (rule of_nat_0_le_iff)
  then have "1 / (1 + h) \<le> 1" "0 \<le> 1 / (1 + h)" by simp_all
  moreover have "exp (- ((now - real (unat (sv_created_at e))) / 3600) / 24) \<le> 1" using assms by simp
  ultimately show ?thesis unfolding recency_hops_def h_def [symmetric] by (intro mult_le_one)
qed

lemma priority_score_nonneg: "0 \<le> priority_score now e"
  unfolding priority_score_factors
  by (intro mult_nonneg_nonneg of_nat_0_le_iff recency_hops_nonneg ttl_factor_bounds)

lemma priority_score_le:
  assumes "real (unat (sv_created_at e)) \<le> now"
  shows "priority_score now e \<le> real (unat (sv_priority e))"
proof -
  have "recency_hops now e * ttl_factor now e \<le> 1"
    by (intro mult_le_one recency_hops_le assms ttl_factor_bounds)
  then show ?thesis
    unfolding priority_score_factors by (intro mult_left_le of_nat_0_le_iff)
qed

lemma exp_8_gt: "exp (8 :: real) > 255"
proof -
  have "(2 :: real) ^ 8 \<le> exp 1 ^ 8" using exp_ge_add_one_self [of 1] by (intro power_mono) auto
  also have "\<dots> = exp 8" using exp_of_nat_mult [of 8 "1 :: real"] by simp
  finally show ?thesis by simp
qed

lemma unat_byte_le: "unat (b :: byte) \<le> 255"
proof -
  have "unat b < 2 ^ 8" using unsigned_less [of b, where 'a = nat] by simp
  then show ?thesis by simp
qed

section \<open>Properties\<close>

text \<open>A serializer and two envelopes to evaluate the properties at.\<close>

definition sample_ser :: "stored_envelope \<Rightarrow> bytes" where
  "sample_ser e = enc_fields [sv_envelope_data e, sv_message_id e, sv_recipient_hint e, u32_to_le (sv_created_at e),
     u32_to_le (sv_ttl_expiry e), [sv_hop_count e], [sv_priority e], u64_bytes (sv_received_at e)]"

definition sample_des :: "bytes \<Rightarrow> stored_envelope" where
  "sample_des v = (let f = dec_fields 8 v in
     \<lparr>sv_envelope_data = f ! 0, sv_message_id = f ! 1, sv_recipient_hint = f ! 2, sv_created_at = bytes_u32 (f ! 3),
      sv_ttl_expiry = bytes_u32 (f ! 4), sv_hop_count = f ! 5 ! 0, sv_priority = f ! 6 ! 0,
      sv_received_at = bytes_u64 (f ! 7)\<rparr>)"

lemma sample_des_ser: "sample_des (sample_ser e) = e"
  by (simp add: sample_des_def sample_ser_def dec_enc_fields)

definition sample_store_libs :: "memory_storage store_libs" where
  "sample_store_libs = \<lparr>sl_vtable = memory_vtable, sl_serialize = (\<lambda>e. Inr (sample_ser e)),
     sl_deserialize = (\<lambda>v. Inr (sample_des v))\<rparr>"

lemma sample_store_libs_ok: "sl_vtable sample_store_libs = memory_vtable" "bincode_lossless sample_store_libs"
  by (simp_all add: sample_store_libs_def bincode_lossless_def sample_des_ser)

definition sample_stored :: "byte \<Rightarrow> byte \<Rightarrow> stored_envelope" where
  "sample_stored i p = \<lparr>sv_envelope_data = [i], sv_message_id = replicate 16 i, sv_recipient_hint = [1, 2, 3, 4],
     sv_created_at = 1000, sv_ttl_expiry = 0, sv_hop_count = 0, sv_priority = p, sv_received_at = 1000\<rparr>"

definition sample_score :: "stored_envelope \<Rightarrow> real" where
  "sample_score e = real (unat (sv_priority e))"

definition sample_store :: "nat \<Rightarrow> stored_envelope list \<Rightarrow> memory_storage mesh_store" where
  "sample_store m es = \<lparr>mst_messages = map (\<lambda>e. (sv_message_id e, e)) es, mst_max_messages = m, mst_backend = None\<rparr>"

text \<open>
  C36. Inserting into the store.  A known identifier changes nothing and returns false.  A new
  message returns true, the store stays within its capacity and holds one message more as long as
  there is room, and whatever is evicted, the new message included, scores no higher than anything
  that stays.
\<close>

theorem mesh_insert_keeps_best:
  assumes "store_inv st"
  shows "store_inv (snd (MeshStore_insert L score e st))
    \<and> (MeshStore_contains (sv_message_id e) st \<longrightarrow> MeshStore_insert L score e st = (False, st))
    \<and> (\<not> MeshStore_contains (sv_message_id e) st \<longrightarrow>
         (case MeshStore_insert L score e st of (new, st') \<Rightarrow> new
            \<and> MeshStore_len st' = min (mst_max_messages st) (MeshStore_len st + 1)
            \<and> set (mst_messages st') \<subseteq> insert (sv_message_id e, e) (set (mst_messages st))
            \<and> (\<forall>d \<in> insert (sv_message_id e, e) (set (mst_messages st)) - set (mst_messages st').
                 \<forall>k \<in> set (mst_messages st'). score (snd d) \<le> score (snd k))))"
proof -
  have wf: "store_wf st" "within_budget st" using assms by (simp_all add: store_inv_def)
  have "fst (MeshStore_insert L score e st)" if "\<not> MeshStore_contains (sv_message_id e) st"
    using that by (simp add: insert_new MeshStore_contains_def)
  then show ?thesis
    using insert_inv [OF assms] insert_duplicate [of st e] insert_full_cases [OF wf _ refl, where e = e and L = L and score = score]
    by (auto simp: MeshStore_contains_def MeshStore_len_def split_def)
qed

theorem mesh_insert_keeps_best_witness:
  "MeshStore_len (snd (MeshStore_insert sample_store_libs sample_score (sample_stored 3 30)
     (sample_store 2 [sample_stored 1 10, sample_stored 2 20]))) = 2"
proof -
  have "(replicate 16 (1 :: byte)) \<noteq> replicate 16 2" "(replicate 16 (1 :: byte)) \<noteq> replicate 16 3"
    "(replicate 16 (2 :: byte)) \<noteq> replicate 16 3" by simp_all
  then show ?thesis
    using mesh_insert_keeps_best [of "sample_store 2 [sample_stored 1 10, sample_stored 2 20]"
        sample_store_libs sample_score "sample_stored 3 30"]
    by (auto simp: sample_store_def sample_stored_def store_inv_def store_wf_def within_budget_def
        MeshStore_contains_def MeshStore_len_def hm_contains_def split_def)
qed

text \<open>
  Merging another store.  The result is well formed, within the capacity and as large as it
  can be; it holds only entries of the two stores; and every identifier of either store is in it,
  unless the result is full and an entry with that identifier scores no higher than anything kept.
\<close>

theorem mesh_merge_keeps_best:
  assumes "store_inv st" and "store_inv other" and "st' = MeshStore_merge L score other st"
  shows "store_inv st' \<and> set (mst_messages st') \<subseteq> set (mst_messages st) \<union> set (mst_messages other)
    \<and> MeshStore_len st' = min (mst_max_messages st) (card (set (message_ids st) \<union> set (message_ids other)))
    \<and> (\<forall>mid \<in> set (message_ids st) \<union> set (message_ids other). MeshStore_contains mid st'
         \<or> (MeshStore_len st' = mst_max_messages st
            \<and> (\<exists>e. (mid, e) \<in> set (mst_messages st) \<union> set (mst_messages other)
                  \<and> (\<forall>k \<in> set (mst_messages st'). score e \<le> score (snd k)))))"
proof -
  have wf: "store_wf st" "within_budget st" "store_wf other" using assms by (simp_all add: store_inv_def)
  have "mst_max_messages st' = mst_max_messages st" by (simp add: assms(3))
  then show ?thesis
    using merge_merging [OF wf, of score L] merge_length [OF wf, of L score]
    unfolding assms(3) [symmetric] merging_def accounted_def
    by (simp add: store_inv_def MeshStore_len_def MeshStore_contains_def message_ids_def image_Un)
qed

theorem mesh_merge_keeps_best_witness:
  "MeshStore_len (MeshStore_merge sample_store_libs sample_score (sample_store 5 [sample_stored 2 20])
     (sample_store 5 [sample_stored 1 10])) = 2"
proof -
  have "(replicate 16 (1 :: byte)) \<noteq> replicate 16 2" by simp
  then show ?thesis
    using mesh_merge_keeps_best [of "sample_store 5 [sample_stored 1 10]" "sample_store 5 [sample_stored 2 20]"
        _ sample_store_libs sample_score, OF _ _ refl]
    by (auto simp: sample_store_def sample_stored_def store_inv_def store_wf_def within_budget_def
        message_ids_def)
qed

text \<open>
  When merging is commutative.  With room for both stores, the union holds the receiver's
  entry for an identifier both have and the other's for the rest, so the two orders agree on the
  identifiers, and they agree on the entries exactly when the stores agree on every identifier they
  share.  The entries record when a node received a message, so two nodes that hold the same
  message do not have equal entries.
\<close>

theorem mesh_merge_commutes_iff:
  assumes "store_inv a" and "store_inv b"
    and "MeshStore_len a + MeshStore_len b \<le> min (mst_max_messages a) (mst_max_messages b)"
  shows "(\<forall>mid. MeshStore_contains mid (MeshStore_merge L score b a) \<longleftrightarrow> MeshStore_contains mid (MeshStore_merge L score a b))
    \<and> ((\<forall>mid. MeshStore_get mid (MeshStore_merge L score b a) = MeshStore_get mid (MeshStore_merge L score a b))
        \<longleftrightarrow> (\<forall>mid e e'. MeshStore_get mid a = Some e \<and> MeshStore_get mid b = Some e' \<longrightarrow> e = e'))"
proof -
  have ab: "MeshStore_get mid (MeshStore_merge L score b a) =
      (case MeshStore_get mid a of Some e \<Rightarrow> Some e | None \<Rightarrow> MeshStore_get mid b)" for mid
    using assms by (intro merge_room) (auto simp: store_inv_def MeshStore_len_def)
  have ba: "MeshStore_get mid (MeshStore_merge L score a b) =
      (case MeshStore_get mid b of Some e \<Rightarrow> Some e | None \<Rightarrow> MeshStore_get mid a)" for mid
    using assms by (intro merge_room) (auto simp: store_inv_def MeshStore_len_def)
  have c: "MeshStore_contains mid st \<longleftrightarrow> MeshStore_get mid st \<noteq> None" for mid and st :: "'a mesh_store"
    by (simp add: MeshStore_contains_def MeshStore_get_def hm_contains_def)
  show ?thesis
    unfolding c ab ba by (auto split: option.splits)
qed

theorem mesh_merge_commutes_iff_witness:
  "\<not> (\<forall>mid. MeshStore_get mid (MeshStore_merge sample_store_libs sample_score (sample_store 5 [sample_stored 1 20])
         (sample_store 5 [sample_stored 1 10])) =
       MeshStore_get mid (MeshStore_merge sample_store_libs sample_score (sample_store 5 [sample_stored 1 10])
         (sample_store 5 [sample_stored 1 20])))"
proof -
  let ?a = "sample_store 5 [sample_stored 1 10]" and ?b = "sample_store 5 [sample_stored 1 20]"
  have "store_inv ?a" "store_inv ?b" "MeshStore_len ?a + MeshStore_len ?b \<le> min (mst_max_messages ?a) (mst_max_messages ?b)"
    by (simp_all add: sample_store_def sample_stored_def store_inv_def store_wf_def within_budget_def MeshStore_len_def)
  moreover have "MeshStore_get (replicate 16 1) ?a = Some (sample_stored 1 10)"
    "MeshStore_get (replicate 16 1) ?b = Some (sample_stored 1 20)" "sample_stored 1 10 \<noteq> sample_stored 1 20"
    by (simp_all add: sample_store_def sample_stored_def MeshStore_get_def)
  ultimately show ?thesis
    using mesh_merge_commutes_iff [of ?a ?b sample_store_libs sample_score] by blast
qed

text \<open>
  C12. Recovery after a restart.  Take a store created on an empty backend and run any sequence of
  insertions, removals, expiries and merges on it, with evictions wherever the capacity demands
  them: a store opened on the backend it leaves behind holds the same messages.
\<close>

theorem mesh_store_recovers:
  assumes "sl_vtable L = memory_vtable" and "bincode_lossless L"
    and "st = store_run L ops (MeshStore_persistent L score MemoryStorage_new)"
  shows "\<exists>b. mst_backend st = Some b
    \<and> (\<forall>mid. MeshStore_get mid (MeshStore_persistent L score' b) = MeshStore_get mid st)"
proof -
  let ?st0 = "MeshStore_persistent L score MemoryStorage_new"
  have st0: "?st0 = \<lparr>mst_messages = [], mst_max_messages = MAX_MESSAGES, mst_backend = Some MemoryStorage_new\<rparr>"
    using assms(1) by (simp add: MeshStore_persistent_def MeshStore_load_def memory_vtable_def
        MemoryStorage_scan_prefix_def ms_lock_def MemoryStorage_new_def evict_id within_budget_def)
  have "mirrored L memory_content memory_good ?st0"
    by (simp add: st0 mirrored_def memory_new_good)
  then have m: "mirrored L memory_content memory_good st"
    unfolding assms(3) by (rule memory.run_mirrored [OF assms(1,2)])
  have inv: "store_inv st"
    unfolding assms(3) by (rule run_inv) (simp add: st0 store_inv_def store_wf_def within_budget_def)
  have max: "mst_max_messages st \<le> MAX_MESSAGES" unfolding assms(3) run_max by (simp add: st0)
  from m obtain b where b: "mst_backend st = Some b" by (auto simp: mirrored_def)
  then show ?thesis using memory.load_mirrored(1) [OF assms(1,2) inv m b max] by auto
qed

theorem mesh_store_recovers_witness:
  "\<exists>b. mst_backend (store_run sample_store_libs [(sample_score, StInsert (sample_stored 1 10)), (sample_score, StExpire 7)]
       (MeshStore_persistent sample_store_libs sample_score MemoryStorage_new)) = Some b
     \<and> (\<forall>mid. MeshStore_get mid (MeshStore_persistent sample_store_libs sample_score b) =
         MeshStore_get mid (store_run sample_store_libs [(sample_score, StInsert (sample_stored 1 10)), (sample_score, StExpire 7)]
           (MeshStore_persistent sample_store_libs sample_score MemoryStorage_new)))"
  by (rule mesh_store_recovers [OF sample_store_libs_ok refl])

text \<open>
  Expiry removes exactly the messages whose expiry time is set and not later than the clock
  (cut to 32 bits), reports their number, and keeps the rest in place.
\<close>

theorem mesh_expiry_exact:
  assumes "store_inv st" and "remove_expired L now st = (n, st')"
  shows "mst_messages st' = filter (\<lambda>(_, e). \<not> (sv_ttl_expiry e \<noteq> 0 \<and> sv_ttl_expiry e \<le> ucast now)) (mst_messages st)
    \<and> n + MeshStore_len st' = MeshStore_len st"
proof -
  have "store_wf st" using assms(1) by (simp add: store_inv_def)
  note r = remove_expired_result [OF this, of L now, unfolded assms(2)]
  then have ms: "mst_messages st' = filter (\<lambda>(_, e). \<not> expired_at (ucast now) e) (mst_messages st)" by simp
  have "n + MeshStore_len st' = MeshStore_len st"
    using r sum_length_filter_compl [of "\<lambda>(_, e). expired_at (ucast now) e" "mst_messages st"]
    by (simp add: MeshStore_len_def split_def)
  with ms show ?thesis by (simp only: expired_at_def simp_thms)
qed

theorem mesh_expiry_exact_witness:
  "fst (remove_expired sample_store_libs 2000 (sample_store 5 [sample_stored 1 10, (sample_stored 2 10)\<lparr>sv_ttl_expiry := 2000\<rparr>])) = 1"
proof -
  let ?st = "sample_store 5 [sample_stored 1 10, (sample_stored 2 10)\<lparr>sv_ttl_expiry := 2000\<rparr>]"
  obtain n st' where r: "remove_expired sample_store_libs 2000 ?st = (n, st')" by (cases "remove_expired sample_store_libs 2000 ?st")
  have "(replicate 16 (1 :: byte)) \<noteq> replicate 16 2" by simp
  then have "store_inv ?st"
    by (simp add: sample_store_def sample_stored_def store_inv_def store_wf_def within_budget_def)
  from mesh_expiry_exact [OF this r] have "n = 1"
    by (auto simp: sample_store_def sample_stored_def MeshStore_len_def)
  with r show ?thesis by simp
qed

text \<open>
  The score of a message that does not come from the future lies between 0 and its priority,
  and an expired message scores 0.  A message dated eight days ahead of the clock, though, with
  priority 1, no hops and no expiry, outscores every message that is not dated ahead, whatever its
  priority: a sender can make the store evict everything else first.
\<close>

theorem priority_score_future:
  assumes "real (unat (sv_created_at e)) \<le> now"
    and "now + 8 * 86400 \<le> real (unat (sv_created_at f))"
    and "sv_priority f = 1" "sv_hop_count f = 0" "sv_ttl_expiry f = 0"
  shows "0 \<le> priority_score now e \<and> priority_score now e \<le> real (unat (sv_priority e))
    \<and> (sv_ttl_expiry e \<noteq> 0 \<and> real (unat (sv_ttl_expiry e)) \<le> now \<longrightarrow> priority_score now e = 0)
    \<and> priority_score now e < priority_score now f"
proof -
  define c where "c = real (unat (sv_created_at f))"
  have "8 \<le> - ((now - c) / 3600) / 24" using assms(2) unfolding c_def [symmetric] by (simp add: field_simps)
  then have "exp 8 \<le> exp (- ((now - c) / 3600) / 24)" by simp
  then have "255 < exp (- ((now - c) / 3600) / 24)" using exp_8_gt by linarith
  then have f: "255 < priority_score now f"
    using assms(3-5) by (simp add: priority_score_def ttl_factor_def c_def)
  have "priority_score now e \<le> real (unat (sv_priority e))" using assms(1) by (rule priority_score_le)
  moreover have "real (unat (sv_priority e)) \<le> 255"
    using unat_byte_le [of "sv_priority e"] by (metis of_nat_le_iff of_nat_numeral)
  ultimately show ?thesis
    using f priority_score_nonneg ttl_factor_expired [of e now] by (auto simp: priority_score_factors)
qed

theorem priority_score_future_witness:
  "priority_score 2000 (sample_stored 1 255) < priority_score 2000 ((sample_stored 2 1)\<lparr>sv_created_at := 700000\<rparr>)"
  using priority_score_future [of "sample_stored 1 255" 2000 "(sample_stored 2 1)\<lparr>sv_created_at := 700000\<rparr>"]
  by (simp add: sample_stored_def)

end
