(* ===== verification/Drift_Frame.thy ===== *)
theory Drift_Frame
  imports Drift_Envelope
begin

text \<open>
  The transport frame of \<open>core/src/drift/frame.rs\<close>: a length, a type, a payload and a CRC32, and
  the reader that takes one frame off a byte stream within the read deadline.

  The checksum of the \<open>crc32fast\<close> package is the argument \<open>crc\<close>.  A reader is what the peer
  delivers before the deadline, and how the stream ends there: the peer closed it (the text of the
  I/O error) or it stalled, in which case the surrounding timeout fires.
\<close>

section \<open>Frames\<close>

definition FRAME_MAX_PAYLOAD :: nat where "FRAME_MAX_PAYLOAD = 65535"

definition TRANSPORT_OVERHEAD :: nat where "TRANSPORT_OVERHEAD = 7"

datatype frame_type = Data | SyncReq | SyncResp | Ping | PeerInfo

definition FrameType_from_u8 :: "byte \<Rightarrow> (drift_error, frame_type) result" where
  "FrameType_from_u8 v =
     (if v = 0x01 then Ok Data
      else if v = 0x02 then Ok SyncReq
      else if v = 0x03 then Ok SyncResp
      else if v = 0x04 then Ok Ping
      else if v = 0x05 then Ok PeerInfo
      else Err (InvalidFrameType v))"

primrec FrameType_as_u8 :: "frame_type \<Rightarrow> byte" where
  "FrameType_as_u8 Data = 0x01"
| "FrameType_as_u8 SyncReq = 0x02"
| "FrameType_as_u8 SyncResp = 0x03"
| "FrameType_as_u8 Ping = 0x04"
| "FrameType_as_u8 PeerInfo = 0x05"

record drift_frame =
  df_frame_type :: frame_type
  df_payload :: bytes

definition DriftFrame_to_bytes :: "(bytes \<Rightarrow> u32) \<Rightarrow> drift_frame \<Rightarrow> (drift_error, bytes) result" where
  "DriftFrame_to_bytes crc f =
     (let payload_len = 1 + length (df_payload f) in
      if payload_len > 65535 then Err (BufferTooShort payload_len 65535)
      else
        let buf = u16_to_le (of_nat payload_len) @ [FrameType_as_u8 (df_frame_type f)] @ df_payload f
        in Ok (buf @ u32_to_le (crc buf)))"

definition DriftFrame_from_bytes :: "(bytes \<Rightarrow> u32) \<Rightarrow> bytes \<Rightarrow> (drift_error, drift_frame) result" where
  "DriftFrame_from_bytes crc data =
     (if length data < TRANSPORT_OVERHEAD then Err (BufferTooShort TRANSPORT_OVERHEAD (length data)) else
      and_then (u16_at data 0) (\<lambda>len16.
      let len = unat len16 in
      if len > FRAME_MAX_PAYLOAD + 1 then Err (BufferTooShort FRAME_MAX_PAYLOAD len) else
      let expected_total = 2 + len + 4 in
      if length data \<noteq> expected_total then Err (BufferTooShort expected_total (length data)) else
      let crc_offset = length data - 4 in
      and_then (slice_at data 0 crc_offset) (\<lambda>data_to_check.
      and_then (u32_at data crc_offset) (\<lambda>received_crc.
      if crc data_to_check \<noteq> received_crc then Err CrcMismatch else
      and_then (byte_at data 2) (\<lambda>b.
      and_then (FrameType_from_u8 b) (\<lambda>frame_type.
      and_then (slice_at data 3 (crc_offset - 3)) (\<lambda>payload.
      Ok \<lparr>df_frame_type = frame_type, df_payload = payload\<rparr>)))))))"

section \<open>Reading from a stream\<close>

datatype stream_end = Closed string | Stalled

record reader =
  rd_arrived :: bytes
  rd_end :: stream_end

text \<open>
  \<open>read_exact\<close> fills a buffer of \<open>n\<close> bytes or fails; a failed read has used up what arrived.
\<close>

definition read_exact :: "reader \<Rightarrow> nat \<Rightarrow> (drift_error, bytes) result \<times> reader" where
  "read_exact r n =
     (if n \<le> length (rd_arrived r)
      then (Ok (take n (rd_arrived r)), r\<lparr>rd_arrived := drop n (rd_arrived r)\<rparr>)
      else (case rd_end r of Closed e \<Rightarrow> Err (IoError e) | Stalled \<Rightarrow> Err Timeout,
            r\<lparr>rd_arrived := []\<rparr>))"

definition read_with_timeout :: "(bytes \<Rightarrow> u32) \<Rightarrow> reader \<Rightarrow> (drift_error, drift_frame) result \<times> reader" where
  "read_with_timeout crc r =
     (case read_exact r 2 of
        (Ok len_buf, r) \<Rightarrow>
          let len = unat (u16_from_le (len_buf ! 0) (len_buf ! 1)) in
          if len > FRAME_MAX_PAYLOAD + 1 then (Err (BufferTooShort FRAME_MAX_PAYLOAD len), r)
          else
            let remaining = len + 4 in
            (case read_exact r remaining of
               (Ok rest, r) \<Rightarrow> (DriftFrame_from_bytes crc (len_buf @ rest), r)
             | (Err e, r) \<Rightarrow> (Err e, r)
             | (Panic, r) \<Rightarrow> (Panic, r))
      | (Err e, r) \<Rightarrow> (Err e, r)
      | (Panic, r) \<Rightarrow> (Panic, r))"

section \<open>The format is exact\<close>

lemma FrameType_from_as_u8 [simp]: "FrameType_from_u8 (FrameType_as_u8 t) = Ok t"
  by (cases t) (simp_all add: FrameType_from_u8_def)

lemma FrameType_from_u8_eq_Ok: "FrameType_from_u8 b = Ok t \<longleftrightarrow> b = FrameType_as_u8 t"
  by (cases t) (auto simp: FrameType_from_u8_def split: if_splits)

lemma FrameType_from_u8_not_Panic [simp]: "FrameType_from_u8 b \<noteq> Panic"
  by (simp add: FrameType_from_u8_def)

lemma unat_le_u16: "unat (w :: u16) \<le> 65535"
proof -
  have "unat w < 2 ^ 16" using unsigned_less [of w, where 'a = nat] by simp
  then show ?thesis by simp
qed

lemma frame_to_bytes_eq_Ok:
  "DriftFrame_to_bytes crc f = Ok bs \<longleftrightarrow>
   (\<exists>len buf. unat (len :: u16) = 1 + length (df_payload f)
      \<and> buf = u16_to_le len @ FrameType_as_u8 (df_frame_type f) # df_payload f
      \<and> bs = buf @ u32_to_le (crc buf))"
proof (cases "length (df_payload f) \<le> 65534")
  case True
  then have "unat (of_nat (1 + length (df_payload f)) :: u16) = 1 + length (df_payload f)"
    by (intro unat_of_nat_u16) simp
  then have "unat (len :: u16) = 1 + length (df_payload f) \<longleftrightarrow> len = of_nat (1 + length (df_payload f))" for len
    using word_unat_eq_iff by metis
  with True show ?thesis by (auto simp: DriftFrame_to_bytes_def Let_def)
next
  case False
  then have "unat (len :: u16) \<noteq> 1 + length (df_payload f)" for len
    using unat_le_u16 [of len] by simp
  with False show ?thesis by (simp add: DriftFrame_to_bytes_def)
qed

lemma frame_from_bytes_eq_Ok:
  "DriftFrame_from_bytes crc data = Ok f \<longleftrightarrow>
   (\<exists>len. 7 \<le> length data \<and> take 2 data = u16_to_le len \<and> length data = unat len + 6
      \<and> drop (unat len + 2) data = u32_to_le (crc (take (unat len + 2) data))
      \<and> data ! 2 = FrameType_as_u8 (df_frame_type f)
      \<and> df_payload f = take (unat len - 1) (drop 3 data))"
proof (cases "7 \<le> length data")
  case True
  define len where "len = u16_from_le (data ! 0) (data ! 1)"
  have u: "u16_at data 0 = (Ok len :: (drift_error, u16) result)"
    using True by (simp add: u16_at_def len_def)
  then have t: "take 2 data = u16_to_le len" by (simp add: u16_at_eq_Ok)
  show ?thesis
  proof (cases "length data = unat len + 6")
    case total: True
    define c where "c = u32_from_le (data ! (unat len + 2)) (data ! (unat len + 3))
      (data ! (unat len + 4)) (data ! (unat len + 5))"
    have v: "u32_at data (unat len + 2) = (Ok c :: (drift_error, u32) result)"
      using total by (simp add: u32_at_def c_def eval_nat_numeral)
    then have d: "drop (unat len + 2) data = u32_to_le c" using total by (simp add: u32_at_eq_Ok)
    have f: "\<lparr>df_frame_type = t, df_payload = p\<rparr> = f \<longleftrightarrow> t = df_frame_type f \<and> p = df_payload f" for t p
      by (cases f) auto
    show ?thesis
      using True t d v total unat_le_u16 [of len]
      by (auto simp: f Let_def numeral_3_eq_3 DriftFrame_from_bytes_def TRANSPORT_OVERHEAD_def FRAME_MAX_PAYLOAD_def u
          slice_at_def byte_at_def and_then_eq_Ok FrameType_from_u8_eq_Ok)
  next
    case False
    then show ?thesis
      using True t by (auto simp: DriftFrame_from_bytes_def u Let_def)
  qed
next
  case False
  then show ?thesis by (simp add: DriftFrame_from_bytes_def TRANSPORT_OVERHEAD_def)
qed

lemma frame_dec_enc:
  assumes "DriftFrame_to_bytes crc f = Ok bs"
  shows "DriftFrame_from_bytes crc bs = Ok f"
proof -
  obtain len :: u16 and buf where u: "unat len = 1 + length (df_payload f)"
    and buf: "buf = u16_to_le len @ FrameType_as_u8 (df_frame_type f) # df_payload f"
    and bs: "bs = buf @ u32_to_le (crc buf)"
    using assms by (auto simp: frame_to_bytes_eq_Ok)
  have l: "unat len + 2 = length buf" by (simp add: buf u)
  show ?thesis
    unfolding frame_from_bytes_eq_Ok
  proof (intro exI [of _ len] conjI)
    show "drop (unat len + 2) bs = u32_to_le (crc (take (unat len + 2) bs))"
      unfolding l by (simp add: bs)
  qed (simp_all add: bs buf u nth_append)
qed

lemma frame_enc_dec:
  assumes "DriftFrame_from_bytes crc data = Ok f"
  shows "DriftFrame_to_bytes crc f = Ok data"
proof -
  obtain len where l: "7 \<le> length data" "take 2 data = u16_to_le len" "length data = unat len + 6"
    and c: "drop (unat len + 2) data = u32_to_le (crc (take (unat len + 2) data))"
    and t: "data ! 2 = FrameType_as_u8 (df_frame_type f)"
    and p: "df_payload f = take (unat len - 1) (drop 3 data)"
    using assms by (auto simp: frame_from_bytes_eq_Ok)
  have n: "unat len = 1 + length (df_payload f)" using l p by simp
  have "take (unat len + 2) data = take 2 data @ take (unat len) (drop 2 data)"
    by (metis add.commute take_add)
  also have "take (unat len) (drop 2 data) = data ! 2 # df_payload f"
    using l p Cons_nth_drop_Suc [of 2 data, symmetric] by (cases "unat len") (auto simp: numeral_3_eq_3)
  finally have b: "take (unat len + 2) data = u16_to_le len @ FrameType_as_u8 (df_frame_type f) # df_payload f"
    using l(2) t by simp
  have "data = take (unat len + 2) data @ drop (unat len + 2) data" by simp
  then show ?thesis
    unfolding frame_to_bytes_eq_Ok c b [symmetric]
    by (intro exI [of _ len] exI [of _ "take (unat len + 2) data"] conjI n b)
qed

interpretation frame_codec: exact_codec "DriftFrame_to_bytes crc" "DriftFrame_from_bytes crc" "\<lambda>_. True" for crc
  by unfold_locales (auto intro: frame_dec_enc frame_enc_dec)

lemma frame_from_bytes_not_Panic: "DriftFrame_from_bytes crc data \<noteq> Panic"
  unfolding DriftFrame_from_bytes_def TRANSPORT_OVERHEAD_def
  by (auto simp: result_splits Let_def at_eq_Panic)

section \<open>Streams of frames\<close>

lemma read_with_timeout_frame:
  assumes "DriftFrame_to_bytes crc f = Ok bs" and "rd_arrived r = bs @ q"
  shows "read_with_timeout crc r = (Ok f, r\<lparr>rd_arrived := q\<rparr>)"
proof -
  obtain len where l: "take 2 bs = u16_to_le len" "length bs = unat len + 6"
    using frame_dec_enc [OF assms(1)] by (auto simp: frame_from_bytes_eq_Ok)
  define rest where "rest = drop 2 bs"
  have bs: "bs = u16_to_le len @ rest" "length rest = unat len + 4"
    using append_take_drop_id [of 2 bs] l by (simp_all add: rest_def)
  have len: "u16_from_le (u16_to_le len ! 0) (u16_to_le len ! 1) = len"
    by (simp add: u16_to_le_def u16_from_to_le)
  show ?thesis
    using assms(2) frame_dec_enc [OF assms(1)] unat_le_u16 [of len] len
    by (simp add: read_with_timeout_def read_exact_def bs FRAME_MAX_PAYLOAD_def Let_def)
qed

lemma read_with_timeout_truncated:
  assumes "DriftFrame_to_bytes crc f = Ok bs" and "bs = p @ q" and "q \<noteq> []"
  shows "fst (read_with_timeout crc \<lparr>rd_arrived = p, rd_end = s\<rparr>) =
    (case s of Closed e \<Rightarrow> Err (IoError e) | Stalled \<Rightarrow> Err Timeout)"
proof (cases "length p < 2")
  case True
  then show ?thesis by (cases s) (simp_all add: read_with_timeout_def read_exact_def)
next
  case False
  obtain len where l: "take 2 bs = u16_to_le len" "length bs = unat len + 6"
    using frame_dec_enc [OF assms(1)] by (auto simp: frame_from_bytes_eq_Ok)
  have "take 2 p = u16_to_le len" using l(1) False assms(2) by simp
  then have len: "u16_from_le (take 2 p ! 0) (take 2 p ! 1) = len"
    by (simp add: u16_to_le_def u16_from_to_le)
  have "length (drop 2 p) < unat len + 4" using l(2) assms(2,3) False by (cases q) auto
  then show ?thesis
    using False len unat_le_u16 [of len]
    by (cases s) (simp_all add: read_with_timeout_def read_exact_def Let_def FRAME_MAX_PAYLOAD_def)
qed

text \<open>Reading \<open>n\<close> frames one after the other, as the receive loops do.\<close>

fun read_frames :: "(bytes \<Rightarrow> u32) \<Rightarrow> nat \<Rightarrow> reader \<Rightarrow> (drift_error, drift_frame list) result \<times> reader" where
  "read_frames crc 0 r = (Ok [], r)"
| "read_frames crc (Suc n) r =
     (case read_with_timeout crc r of
        (Ok f, r) \<Rightarrow> (case read_frames crc n r of (fs, r) \<Rightarrow> (and_then fs (\<lambda>fs. Ok (f # fs)), r))
      | (Err e, r) \<Rightarrow> (Err e, r)
      | (Panic, r) \<Rightarrow> (Panic, r))"

section \<open>Properties\<close>

definition sample_frames :: "drift_frame list" where
  "sample_frames = [\<lparr>df_frame_type = Ping, df_payload = []\<rparr>, \<lparr>df_frame_type = Data, df_payload = [7, 8]\<rparr>]"

text \<open>
  C28. The frame format is exact: a buffer is accepted if and only if it is the encoding of the frame
  it is read as.  Nothing truncated, extended, of an unknown type or with a wrong checksum gets
  through, no two buffers stand for one frame, and the parser never panics.
\<close>

theorem frame_format_exact:
  "(DriftFrame_from_bytes crc data = Ok f \<longleftrightarrow> DriftFrame_to_bytes crc f = Ok data)
   \<and> DriftFrame_from_bytes crc data \<noteq> Panic"
  using frame_codec.dec_iff frame_from_bytes_not_Panic by simp

text \<open>
  Frames sent back to back are read back one by one in the order they were sent, and the
  reader is left at the first byte behind the last of them.
\<close>

theorem frame_stream_in_order:
  assumes "list_all2 (\<lambda>f bs. DriftFrame_to_bytes crc f = Ok bs) fs bss"
    and "rd_arrived r = concat bss @ q"
  shows "read_frames crc (length fs) r = (Ok fs, r\<lparr>rd_arrived := q\<rparr>)"
  using assms
proof (induction fs arbitrary: bss r)
  case (Cons f fs)
  then obtain bs css where b: "bss = bs # css" "DriftFrame_to_bytes crc f = Ok bs"
    and cs: "list_all2 (\<lambda>f bs. DriftFrame_to_bytes crc f = Ok bs) fs css"
    by (auto simp: list_all2_Cons1)
  have "read_with_timeout crc r = (Ok f, r\<lparr>rd_arrived := concat css @ q\<rparr>)"
    using read_with_timeout_frame [OF b(2), of r "concat css @ q"] Cons.prems(2) b(1) by simp
  then show ?case
    using Cons.IH [OF cs, of "r\<lparr>rd_arrived := concat css @ q\<rparr>"] by simp
qed simp

theorem frame_stream_in_order_witness:
  "\<exists>bss. map (DriftFrame_to_bytes (\<lambda>_. 0)) sample_frames = map Ok bss
     \<and> read_frames (\<lambda>_. 0) 2 \<lparr>rd_arrived = concat bss @ [9], rd_end = Stalled\<rparr>
       = (Ok sample_frames, \<lparr>rd_arrived = [9], rd_end = Stalled\<rparr>)"
proof -
  let ?bss = "[[1, 0, 4, 0, 0, 0, 0], [3, 0, 1, 7, 8, 0, 0, 0, 0]] :: bytes list"
  have e: "list_all2 (\<lambda>f bs. DriftFrame_to_bytes (\<lambda>_. 0) f = Ok bs) sample_frames ?bss"
    by (simp add: sample_frames_def DriftFrame_to_bytes_def u16_to_le_def u32_to_le_def)
  then have "map (DriftFrame_to_bytes (\<lambda>_. 0)) sample_frames = map Ok ?bss"
    by (simp add: sample_frames_def)
  moreover have "read_frames (\<lambda>_. 0) (length sample_frames) \<lparr>rd_arrived = concat ?bss @ [9], rd_end = Stalled\<rparr>
       = (Ok sample_frames, \<lparr>rd_arrived = [9], rd_end = Stalled\<rparr>)"
    using frame_stream_in_order [OF e, of "\<lparr>rd_arrived = concat ?bss @ [9], rd_end = Stalled\<rparr>" "[9]"] by simp
  moreover have "length sample_frames = 2" by (simp add: sample_frames_def)
  ultimately show ?thesis by metis
qed

text \<open>
  A peer that trickles only part of a frame is cut off: whatever proper prefix has arrived when
  the deadline passes, the read ends with \<open>Timeout\<close>, and with the I/O error when the peer closed
  the stream instead.
\<close>

theorem partial_frame_times_out:
  assumes "DriftFrame_to_bytes crc f = Ok (p @ q)" and "q \<noteq> []"
  shows "fst (read_with_timeout crc \<lparr>rd_arrived = p, rd_end = Stalled\<rparr>) = Err Timeout
    \<and> fst (read_with_timeout crc \<lparr>rd_arrived = p, rd_end = Closed e\<rparr>) = Err (IoError e)"
  using read_with_timeout_truncated [OF assms(1) refl assms(2)] by simp

theorem partial_frame_times_out_witness:
  "fst (read_with_timeout (\<lambda>_. 0) \<lparr>rd_arrived = [3, 0, 1, 7], rd_end = Stalled\<rparr>) = Err Timeout"
  using partial_frame_times_out [of "\<lambda>_. 0" "\<lparr>df_frame_type = Data, df_payload = [7, 8]\<rparr>" "[3, 0, 1, 7]" "[8, 0, 0, 0, 0]"]
  by (simp add: DriftFrame_to_bytes_def u16_to_le_def u32_to_le_def)

end
