(* ===== verification/Drift_Sync.thy ===== *)
theory Drift_Sync
  imports Drift_Store Drift_Frame
begin

text \<open>
  The synchronization protocol of \<open>core/src/drift/sync.rs\<close>: the messages with their version wrapper,
  and the session that offers a sketch of a store, answers an offer with the envelopes the other
  side lacks, and completes.  A method returns its result and the session it leaves behind, since
  the code changes the session before some of its error returns.

  The bincode serializer of the messages is the pair of arguments \<open>ser\<close> and \<open>des\<close>, that of the
  envelopes is in \<open>store_libs\<close>; BLAKE3, the hex encoder and the clock are arguments.
\<close>

section \<open>Messages\<close>

definition SYNC_SCHEMA_VERSION :: u32 where "SYNC_SCHEMA_VERSION = 1"

text \<open>
  The fields in the order of the source: an offer has the sketch, the message count, the number of
  cells, the proof of state and the time; a response the sketch, the message count and the missing
  envelopes.
\<close>

datatype sync_message =
    SyncOffer bytes u32 u32 string u64
  | SyncResponse bytes u32 "bytes list"
  | SyncComplete "bytes list"

record versioned_sync_message =
  vs_schema_version :: u32
  vs_payload :: sync_message

definition VersionedSyncMessage_new :: "sync_message \<Rightarrow> versioned_sync_message" where
  "VersionedSyncMessage_new p = \<lparr>vs_schema_version = SYNC_SCHEMA_VERSION, vs_payload = p\<rparr>"

datatype version_mismatch = VersionMismatch (expected: u32) (received: u32)

definition VersionMismatch_to_string :: "version_mismatch \<Rightarrow> string" where
  "VersionMismatch_to_string e =
     ''sync protocol version mismatch: got '' @ show_nat (unat (received e))
     @ '', expected '' @ show_nat (unat (expected e))"

definition VersionedSyncMessage_validate :: "versioned_sync_message \<Rightarrow> (version_mismatch, unit) result" where
  "VersionedSyncMessage_validate m =
     (if vs_schema_version m \<noteq> SYNC_SCHEMA_VERSION
      then Err (VersionMismatch SYNC_SCHEMA_VERSION (vs_schema_version m)) else Ok ())"

definition VersionedSyncMessage_to_bytes ::
  "(versioned_sync_message \<Rightarrow> string + bytes) \<Rightarrow> versioned_sync_message \<Rightarrow> (drift_error, bytes) result" where
  "VersionedSyncMessage_to_bytes ser m =
     (case ser m of Inr bs \<Rightarrow> Ok bs | Inl e \<Rightarrow> Err (DecompressionFailed e))"

definition VersionedSyncMessage_from_bytes ::
  "(bytes \<Rightarrow> string + versioned_sync_message) \<Rightarrow> bytes \<Rightarrow> (drift_error, versioned_sync_message) result" where
  "VersionedSyncMessage_from_bytes des data =
     and_then (case des data of Inr m \<Rightarrow> Ok m | Inl e \<Rightarrow> Err (DecompressionFailed e)) (\<lambda>msg.
     and_then (map_err (\<lambda>e. DecompressionFailed (VersionMismatch_to_string e)) (VersionedSyncMessage_validate msg)) (\<lambda>_.
     Ok msg))"

definition SyncMessage_frame_type :: "sync_message \<Rightarrow> frame_type" where
  "SyncMessage_frame_type m =
     (case m of SyncOffer _ _ _ _ _ \<Rightarrow> SyncReq | SyncResponse _ _ _ \<Rightarrow> SyncResp | SyncComplete _ \<Rightarrow> SyncResp)"

section \<open>Sessions\<close>

datatype sync_state = SReady | AwaitingResponse | ProcessingResponse | SComplete | SFailed

record sync_session =
  ss_state :: sync_state
  ss_our_iblt :: "iblt option"
  ss_peer_iblt :: "iblt option"
  ss_peer_missing :: "message_id list"
  ss_our_missing :: "message_id list"
  ss_peer_message_count :: u32

definition SyncSession_new :: sync_session where
  "SyncSession_new = \<lparr>ss_state = SReady, ss_our_iblt = None, ss_peer_iblt = None,
     ss_peer_missing = [], ss_our_missing = [], ss_peer_message_count = 0\<rparr>"

definition SyncSession_initiate ::
  "(bytes \<Rightarrow> bytes) \<Rightarrow> (bytes \<Rightarrow> string) \<Rightarrow> u64 \<Rightarrow> 's mesh_store \<Rightarrow> sync_session
   \<Rightarrow> (drift_error, sync_message) result \<times> sync_session" where
  "SyncSession_initiate b3 hex_encode now st ss =
     (if ss_state ss \<noteq> SReady then (Err (DecompressionFailed ''SyncSession already initiated''), ss) else
      let message_count = (of_nat (MeshStore_len st) :: u32);
          iblt_capacity = max (unat message_count * 4 + 8) 1 in
      or_return (insert_all b3 (message_ids st) (IBLT_new iblt_capacity)) ss (\<lambda>iblt.
      or_return (IBLT_to_bytes iblt) ss (\<lambda>iblt_data.
      let sketch_capacity = of_nat (iblt_num_cells iblt); peer_proof = generate_proof b3 hex_encode st;
          ss = ss\<lparr>ss_our_iblt := Some iblt, ss_state := AwaitingResponse\<rparr> in
      (Ok (SyncOffer iblt_data message_count sketch_capacity peer_proof now), ss))))"

text \<open>The envelopes of a list of identifiers, serialized; unknown ones are left out.\<close>

definition gather_envelopes :: "'s store_libs \<Rightarrow> 's mesh_store \<Rightarrow> message_id list \<Rightarrow> bytes list" where
  "gather_envelopes L st ids =
     List.map_filter (\<lambda>mid. case MeshStore_get mid st of
        Some e \<Rightarrow> (case sl_serialize L e of Inr v \<Rightarrow> Some v | Inl _ \<Rightarrow> None) | None \<Rightarrow> None) ids"

definition SyncSession_respond ::
  "(bytes \<Rightarrow> bytes) \<Rightarrow> 's store_libs \<Rightarrow> 's mesh_store \<Rightarrow> sync_message \<Rightarrow> sync_session
   \<Rightarrow> (drift_error, sync_message \<times> stored_envelope list) result \<times> sync_session" where
  "SyncSession_respond b3 L st offer ss =
     (if ss_state ss \<noteq> SReady then (Err (DecompressionFailed ''SyncSession in wrong state for respond''), ss) else
      case offer of
        SyncOffer iblt_data peer_msg_count _ _ _ \<Rightarrow>
          or_return (IBLT_from_bytes iblt_data) ss (\<lambda>peer_iblt.
          let ss = ss\<lparr>ss_peer_iblt := Some peer_iblt, ss_peer_message_count := peer_msg_count\<rparr> in
          or_return (insert_all b3 (message_ids st) (IBLT_with_cells (iblt_num_cells peer_iblt))) ss (\<lambda>our_iblt.
          or_return (IBLT_subtract our_iblt peer_iblt) ss (\<lambda>diff.
          or_return (IBLT_decode b3 diff) ss (\<lambda>(they_have_not, they_have_we_dont).
          let ss = ss\<lparr>ss_peer_missing := they_have_not, ss_our_missing := they_have_we_dont\<rparr> in
          or_return (IBLT_to_bytes our_iblt) ss (\<lambda>our_iblt_data.
          let ss = ss\<lparr>ss_our_iblt := Some our_iblt\<rparr>;
              missing_envelopes = gather_envelopes L st they_have_not;
              ss = ss\<lparr>ss_state := ProcessingResponse\<rparr> in
          (Ok (SyncResponse our_iblt_data (of_nat (MeshStore_len st)) missing_envelopes,
               List.map_filter (\<lambda>mid. MeshStore_get mid st) (ss_our_missing ss)), ss))))))
      | _ \<Rightarrow> (Err (DecompressionFailed ''Expected SyncOffer message''), ss))"

definition SyncSession_complete ::
  "(bytes \<Rightarrow> bytes) \<Rightarrow> 's store_libs \<Rightarrow> 's mesh_store \<Rightarrow> sync_message \<Rightarrow> sync_session
   \<Rightarrow> (drift_error, sync_message \<times> stored_envelope list) result \<times> sync_session" where
  "SyncSession_complete b3 L st response ss =
     (if ss_state ss \<noteq> AwaitingResponse then (Err (DecompressionFailed ''SyncSession not awaiting response''), ss) else
      case response of
        SyncResponse iblt_data _ their_envelopes \<Rightarrow>
          or_return (IBLT_from_bytes iblt_data) ss (\<lambda>peer_iblt.
          or_return (case ss_our_iblt ss of Some t \<Rightarrow> Ok t | None \<Rightarrow> Err (DecompressionFailed ''No local IBLT stored'')) ss (\<lambda>our_iblt.
          or_return (IBLT_subtract our_iblt peer_iblt) ss (\<lambda>diff.
          or_return (IBLT_decode b3 diff) ss (\<lambda>(we_have_only, they_have_only).
          let ss = ss\<lparr>ss_peer_missing := we_have_only, ss_our_missing := they_have_only\<rparr>;
              missing_envelopes = gather_envelopes L st we_have_only;
              ss = ss\<lparr>ss_state := SComplete\<rparr>;
              their_missing_envelopes = List.map_filter (\<lambda>v. case sl_deserialize L v of
                Inr e \<Rightarrow> Some e | Inl _ \<Rightarrow> None) their_envelopes in
          (Ok (SyncComplete missing_envelopes, their_missing_envelopes), ss)))))
      | _ \<Rightarrow> (Err (DecompressionFailed ''Expected SyncResponse message''), ss))"

fun merge_envelopes ::
  "'s store_libs \<Rightarrow> (stored_envelope \<Rightarrow> real) \<Rightarrow> stored_envelope list \<Rightarrow> 's mesh_store \<Rightarrow> nat \<times> 's mesh_store" where
  "merge_envelopes L score [] st = (0, st)"
| "merge_envelopes L score (e # es) st =
     (case MeshStore_insert L score e st of (new, st) \<Rightarrow>
      case merge_envelopes L score es st of (n, st) \<Rightarrow> ((if new then n + 1 else n), st))"

section \<open>Sketches on the wire\<close>

text \<open>No cell is hit often enough for its counter to be cut on the wire.\<close>

definition fits_bytes :: "(bytes \<Rightarrow> bytes) \<Rightarrow> nat \<Rightarrow> message_id list \<Rightarrow> bool" where
  "fits_bytes b3 n xs \<longleftrightarrow> (\<forall>i<n. length (in_cell b3 n xs i) < 256)"

lemma fits_bytes_small: "HASH_COUNT * length xs < 256 \<Longrightarrow> fits_bytes b3 n xs"
  unfolding fits_bytes_def using in_cell_length_le le_less_trans by blast

lemma sketch_on_wire:
  assumes "n \<le> 65535" and "valid_keys xs" and "fits_bytes b3 n xs"
  shows "\<exists>bs. IBLT_to_bytes (table_of b3 n 1 xs) = Ok bs \<and> IBLT_from_bytes bs = Ok (table_of b3 n 1 xs)"
proof -
  obtain bs where bs: "IBLT_to_bytes (table_of b3 n 1 xs) = Ok bs"
    using assms(1) by (simp add: IBLT_to_bytes_def table_of_def)
  have "truncate_count c = c" if "c \<in> set (table_rep b3 n 1 xs)" for c
  proof -
    from that obtain i where i: "i < n" "c = cell_rep 1 (in_cell b3 n xs i)" by (auto simp: table_rep_def)
    then have "length (in_cell b3 n xs i) < 256" using assms(3) by (simp add: fits_bytes_def)
    then have "unat (of_nat (length (in_cell b3 n xs i)) :: 32 word) < 256" by (subst unat_of_nat_u32) auto
    then show ?thesis using i by (simp add: truncate_count_id cell_rep_def)
  qed
  then have "truncate_counts (table_of b3 n 1 xs) = table_of b3 n 1 xs"
    by (simp add: truncate_counts_def table_of_def map_idI)
  then show ?thesis
    using bs iblt_from_to_bytes [OF table_of_wf [OF assms(2)] bs] by simp
qed

lemma decode_one_sided:
  assumes "0 < n" and "valid_keys ds" and "small_keys ds" and "no_stopping_set b3 n ds" and "length ds < n * 10"
  shows "\<exists>xs. IBLT_decode b3 (table_of b3 n 1 ds) = Ok (xs, []) \<and> mset xs = mset ds"
    and "\<exists>xs. IBLT_decode b3 (table_of b3 n (- 1) ds) = Ok ([], xs) \<and> mset xs = mset ds"
proof -
  have ne: "(1 :: 32 word) \<noteq> - 1" by simp
  note peel = decode_loop_peels [OF assms(1) _ assms(2,3), of _ b3 "n * 10" "[]" "[]", unfolded is_sign_def]
  show "\<exists>xs. IBLT_decode b3 (table_of b3 n 1 ds) = Ok (xs, []) \<and> mset xs = mset ds"
    using peel [of 1] assms(4,5) ne by (auto simp: IBLT_decode_def table_of_def peeled_to_def is_ok_iff)
  show "\<exists>xs. IBLT_decode b3 (table_of b3 n (- 1) ds) = Ok ([], xs) \<and> mset xs = mset ds"
    using peel [of "- 1"] assms(4,5) ne by (auto simp: IBLT_decode_def table_of_def peeled_to_def is_ok_iff)
qed

section \<open>Envelopes in transit\<close>

definition envelopes_of :: "'s mesh_store \<Rightarrow> message_id list \<Rightarrow> stored_envelope list" where
  "envelopes_of st ids = List.map_filter (\<lambda>mid. MeshStore_get mid st) ids"

lemma map_filter_Cons [simp]:
  "List.map_filter f (x # xs) = (case f x of None \<Rightarrow> List.map_filter f xs | Some y \<Rightarrow> y # List.map_filter f xs)"
  "List.map_filter f [] = []"
  by (auto simp: List.map_filter_def split: option.splits)

lemma gather_Nil [simp]: "gather_envelopes L st [] = []"
  by (simp add: gather_envelopes_def)

lemma gather_delivers:
  assumes "bincode_lossless L"
  shows "List.map_filter (\<lambda>v. case sl_deserialize L v of Inr e \<Rightarrow> Some e | Inl _ \<Rightarrow> None) (gather_envelopes L st ids)
    = envelopes_of st ids"
  by (induction ids)
    (use serializedD [OF assms] in \<open>auto simp: gather_envelopes_def envelopes_of_def split: option.splits\<close>)


lemma merge_envelopes_room:
  "\<lbrakk>store_wf st; store_wf src; distinct ids; length (mst_messages st) + length ids \<le> mst_max_messages st;
    \<And>mid. mid \<in> set ids \<Longrightarrow> MeshStore_contains mid src \<and> \<not> MeshStore_contains mid st\<rbrakk> \<Longrightarrow>
   \<exists>st'. merge_envelopes L score (envelopes_of src ids) st = (length ids, st')
     \<and> (\<forall>mid. MeshStore_get mid st' = (if mid \<in> set ids then MeshStore_get mid src else MeshStore_get mid st))"
proof (induction ids arbitrary: st)
  case (Cons k ids)
  obtain e where e: "MeshStore_get k src = Some e"
    using Cons.prems(5) [of k] by (auto simp: MeshStore_contains_def MeshStore_get_def hm_contains_def)
  then have k: "sv_message_id e = k"
    using Cons.prems(2) by (auto simp: store_wf_def MeshStore_get_def dest: map_of_SomeD)
  have new: "\<not> hm_contains (mst_messages st) (sv_message_id e)"
    using Cons.prems(5) [of k] by (simp add: k MeshStore_contains_def)
  let ?st = "with_message L e st"
  have ins: "MeshStore_insert L score e st = (True, ?st)"
    using insert_new [OF new, of L score] insert_room [OF new, of L score] Cons.prems(4) by simp
  have "\<exists>st'. merge_envelopes L score (envelopes_of src ids) ?st = (length ids, st')
     \<and> (\<forall>mid. MeshStore_get mid st' = (if mid \<in> set ids then MeshStore_get mid src else MeshStore_get mid ?st))"
  proof (rule Cons.IH)
    show "length (mst_messages ?st) + length ids \<le> mst_max_messages ?st"
      using Cons.prems(4) new by (simp add: with_message_simps)
    show "MeshStore_contains mid src \<and> \<not> MeshStore_contains mid ?st" if "mid \<in> set ids" for mid
      using Cons.prems(3,5) that k new by (auto simp: MeshStore_contains_def with_message_def hm_contains_def)
  qed (use Cons.prems with_message_wf [OF _ new] in auto)
  moreover have "MeshStore_get mid ?st = (if mid = k then Some e else MeshStore_get mid st)" for mid
    using k by (simp add: MeshStore_get_def with_message_def)
  ultimately show ?case
    using e ins Cons.prems(3) by (auto simp: envelopes_of_def)
qed (simp add: envelopes_of_def)

section \<open>A whole exchange\<close>

definition sketch_cells :: "'s mesh_store \<Rightarrow> nat" where
  "sketch_cells st = max (unat (of_nat (MeshStore_len st) :: u32) * 4 + 8) 1 * CELLS_PER_DIFF"

lemma initiate_result:
  assumes "valid_keys (message_ids st)" and "sketch_cells st \<le> 65535" and "fits_bytes b3 (sketch_cells st) (message_ids st)"
  shows "\<exists>bs. IBLT_from_bytes bs = Ok (table_of b3 (sketch_cells st) 1 (message_ids st))
    \<and> SyncSession_initiate b3 hex now st SyncSession_new =
      (Ok (SyncOffer bs (of_nat (MeshStore_len st)) (of_nat (sketch_cells st)) (generate_proof b3 hex st) now),
       SyncSession_new\<lparr>ss_our_iblt := Some (table_of b3 (sketch_cells st) 1 (message_ids st)), ss_state := AwaitingResponse\<rparr>)"
proof -
  let ?t = "table_of b3 (sketch_cells st) 1 (message_ids st)"
  obtain bs where bs: "IBLT_to_bytes ?t = Ok bs" "IBLT_from_bytes bs = Ok ?t"
    using sketch_on_wire [OF assms(2,1,3)] by blast
  have "insert_all b3 (message_ids st) (IBLT_new (max (unat (of_nat (MeshStore_len st) :: u32) * 4 + 8) 1)) = Ok ?t"
    using insert_all_new(1) [OF assms(1), of b3 "max (unat (of_nat (MeshStore_len st) :: u32) * 4 + 8) 1"]
    by (simp add: sketch_cells_def max.assoc)
  moreover have "iblt_num_cells ?t = sketch_cells st" by (simp add: table_of_def)
  ultimately show ?thesis
    using bs by (intro exI [of _ bs]) (simp add: SyncSession_initiate_def SyncSession_new_def Let_def)
qed

lemma respond_result:
  assumes "IBLT_from_bytes bs = Ok (table_of b3 n 1 ids)" and "0 < n" "n \<le> 65535"
    and "valid_keys (message_ids st)" and "fits_bytes b3 n (message_ids st)"
    and "IBLT_subtract (table_of b3 n 1 (message_ids st)) (table_of b3 n 1 ids) = Ok diff"
    and "IBLT_decode b3 diff = Ok (xs, ys)"
  shows "\<exists>cs ss. IBLT_from_bytes cs = Ok (table_of b3 n 1 (message_ids st)) \<and> ss_state ss = ProcessingResponse
    \<and> SyncSession_respond b3 L st (SyncOffer bs m c p t) SyncSession_new =
      (Ok (SyncResponse cs (of_nat (MeshStore_len st)) (gather_envelopes L st xs), envelopes_of st ys), ss)"
proof -
  obtain cs where cs: "IBLT_to_bytes (table_of b3 n 1 (message_ids st)) = Ok cs"
    "IBLT_from_bytes cs = Ok (table_of b3 n 1 (message_ids st))"
    using sketch_on_wire [OF assms(3,4,5)] by blast
  have "insert_all b3 (message_ids st) (IBLT_with_cells n) = Ok (table_of b3 n 1 (message_ids st))"
    using insert_all_new(2) [OF assms(4), of b3 n] max_absorb1 [of 1 n] assms(2) by simp
  moreover have "iblt_num_cells (table_of b3 n 1 ids) = n" by (simp add: table_of_def)
  ultimately show ?thesis
    using assms cs by (intro exI [of _ cs])
      (simp add: SyncSession_respond_def SyncSession_new_def Let_def envelopes_of_def)
qed

lemma complete_result:
  assumes "IBLT_from_bytes cs = Ok t" and "ss_state ss = AwaitingResponse" and "ss_our_iblt ss = Some u"
    and "IBLT_subtract u t = Ok diff" and "IBLT_decode b3 diff = Ok (xs, ys)"
  shows "\<exists>ss'. ss_state ss' = SComplete
    \<and> SyncSession_complete b3 L st (SyncResponse cs m vs) ss =
      (Ok (SyncComplete (gather_envelopes L st xs),
           List.map_filter (\<lambda>v. case sl_deserialize L v of Inr e \<Rightarrow> Some e | Inl _ \<Rightarrow> None) vs), ss')"
  using assms by (simp add: SyncSession_complete_def Let_def)

text \<open>The hypotheses of an exchange: \<open>large\<close> holds the identifiers of \<open>small\<close> and \<open>ds\<close>.\<close>

definition exchange_ok ::
  "(bytes \<Rightarrow> bytes) \<Rightarrow> nat \<Rightarrow> 's mesh_store \<Rightarrow> 's mesh_store \<Rightarrow> message_id list \<Rightarrow> bool" where
  "exchange_ok b3 n small large ds \<longleftrightarrow>
     store_inv small \<and> store_inv large \<and> valid_keys (message_ids large)
     \<and> mset (message_ids large) = mset (message_ids small) + mset ds
     \<and> 0 < n \<and> n \<le> 65535 \<and> fits_bytes b3 n (message_ids small) \<and> fits_bytes b3 n (message_ids large)
     \<and> no_stopping_set b3 n ds \<and> length ds < n * 10"

lemma exchange_facts:
  assumes "exchange_ok b3 n small large ds"
  shows "valid_keys (message_ids small)" "valid_keys ds" "small_keys ds" "distinct ds"
    and "\<And>mid. mid \<in> set ds \<longleftrightarrow> MeshStore_contains mid large \<and> \<not> MeshStore_contains mid small"
    and "\<And>mid. MeshStore_contains mid large \<longleftrightarrow> MeshStore_contains mid small \<or> mid \<in> set ds"
proof -
  have m: "mset (message_ids large) = mset (message_ids small @ ds)" and v: "valid_keys (message_ids large)"
    and n: "length ds < n * 10" "n \<le> 65535"
    using assms by (simp_all add: exchange_ok_def)
  have d: "distinct (message_ids large)"
    using assms by (simp add: exchange_ok_def store_inv_def store_wf_def hm_wf_def message_ids_def)
  then have d': "distinct (message_ids small @ ds)" by (rule mset_eq_imp_distinct_iff [OF m, THEN iffD1])
  from valid_keys_mset [OF m] v show "valid_keys (message_ids small)" "valid_keys ds" by simp_all
  show "small_keys ds" using n by (simp add: small_keys_def HASH_COUNT_def)
  show "distinct ds" using d' by simp
  have s: "set (message_ids large) = set (message_ids small) \<union> set ds" using mset_eq_setD [OF m] by simp
  have c: "MeshStore_contains mid st \<longleftrightarrow> mid \<in> set (message_ids st)" for mid and st :: "'a mesh_store"
    by (simp add: MeshStore_contains_def hm_contains_iff message_ids_def)
  show "mid \<in> set ds \<longleftrightarrow> MeshStore_contains mid large \<and> \<not> MeshStore_contains mid small" for mid
    unfolding c s using d' by auto
  show "MeshStore_contains mid large \<longleftrightarrow> MeshStore_contains mid small \<or> mid \<in> set ds" for mid
    unfolding c s by auto
qed

lemma exchange_decodes:
  assumes "exchange_ok b3 n small large ds"
  obtains xs ys where "mset xs = mset ds" "mset ys = mset ds"
    "IBLT_subtract (table_of b3 n 1 (message_ids large)) (table_of b3 n 1 (message_ids small)) = Ok (table_of b3 n 1 ds)"
    "IBLT_decode b3 (table_of b3 n 1 ds) = Ok (xs, [])"
    "IBLT_subtract (table_of b3 n 1 (message_ids small)) (table_of b3 n 1 (message_ids large)) = Ok (table_of b3 n (- 1) ds)"
    "IBLT_decode b3 (table_of b3 n (- 1) ds) = Ok ([], ys)"
proof -
  have n: "0 < n" and m: "mset (message_ids large) = mset (message_ids small @ ds)"
    and s: "no_stopping_set b3 n ds" "length ds < n * 10"
    using assms by (simp_all add: exchange_ok_def)
  note f = exchange_facts [OF assms]
  show ?thesis
    using that subtract_tables [OF n f(1,2) m, of b3] decode_one_sided [OF n f(2,3) s] by blast
qed

section \<open>The session as a state machine\<close>

inductive session_step :: "'s store_libs \<Rightarrow> sync_session \<Rightarrow> sync_session \<Rightarrow> bool"
  for L :: "'s store_libs" where
  initiate: "SyncSession_initiate b3 hex now (st :: 's mesh_store) ss = (r, ss') \<Longrightarrow> session_step L ss ss'"
| respond: "SyncSession_respond b3 L st msg ss = (r', ss') \<Longrightarrow> session_step L ss ss'"
| complete: "SyncSession_complete b3 L st msg ss = (r', ss') \<Longrightarrow> session_step L ss ss'"

lemma or_return_snd:
  "snd (or_return r s f) = (case r of Ok x \<Rightarrow> snd (f x) | Err e \<Rightarrow> s | Panic \<Rightarrow> s)"
  by (cases r) simp_all

lemma initiate_state:
  "SyncSession_initiate b3 hex now st ss = (r, ss') \<Longrightarrow>
   ss' = ss \<or> (ss_state ss = SReady \<and> ss_state ss' = AwaitingResponse)"
  by (drule arg_cong [of _ _ snd])
    (auto simp: SyncSession_initiate_def Let_def or_return_snd split: result.splits if_splits)

lemma respond_state:
  "SyncSession_respond b3 L st msg ss = (r, ss') \<Longrightarrow>
   ss' = ss \<or> (ss_state ss = SReady \<and> ss_state ss' \<in> {SReady, ProcessingResponse})"
  by (drule arg_cong [of _ _ snd])
    (auto simp: SyncSession_respond_def Let_def or_return_snd split: result.splits if_splits sync_message.splits)

lemma complete_state:
  "SyncSession_complete b3 L st msg ss = (r, ss') \<Longrightarrow>
   ss' = ss \<or> (ss_state ss = AwaitingResponse \<and> ss_state ss' = SComplete)"
  by (drule arg_cong [of _ _ snd])
    (auto simp: SyncSession_complete_def Let_def or_return_snd split: result.splits if_splits sync_message.splits)

lemma session_step_state:
  assumes "session_step L ss ss'"
  shows "ss' = ss \<or> (ss_state ss = SReady \<and> ss_state ss' \<in> {SReady, AwaitingResponse, ProcessingResponse})
    \<or> (ss_state ss = AwaitingResponse \<and> ss_state ss' = SComplete)"
  using assms by cases (auto dest: initiate_state respond_state complete_state)

section \<open>Properties\<close>

text \<open>
  C14. A node that lacks messages gets them.  When the responder holds everything the initiator
  holds and more, the difference contains no stopping set and the sketch is within the format's
  limits, the exchange succeeds: the offer is answered with exactly the missing envelopes, the
  initiator completes with nothing to send back, and after merging what it received it holds the
  same identifiers as the responder, with the responder's envelopes for the new ones.
\<close>

theorem sync_delivers_to_initiator:
  assumes "exchange_ok b3 (sketch_cells a) a b ds" and "bincode_lossless L"
    and "MeshStore_len a + length ds \<le> mst_max_messages a"
  shows "\<exists>offer sa response sb envs sa' a'.
    SyncSession_initiate b3 hex now a SyncSession_new = (Ok offer, sa)
    \<and> SyncSession_respond b3 L b offer SyncSession_new = (Ok (response, []), sb)
    \<and> SyncSession_complete b3 L a response sa = (Ok (SyncComplete [], envs), sa')
    \<and> merge_envelopes L score envs a = (length ds, a') \<and> ss_state sa' = SComplete
    \<and> (\<forall>mid. MeshStore_contains mid a' \<longleftrightarrow> MeshStore_contains mid b)
    \<and> (\<forall>mid. \<not> MeshStore_contains mid a \<longrightarrow> MeshStore_get mid a' = MeshStore_get mid b)"
proof -
  let ?n = "sketch_cells a"
  have ex: "0 < ?n" "?n \<le> 65535" "valid_keys (message_ids b)" "fits_bytes b3 ?n (message_ids a)"
    "fits_bytes b3 ?n (message_ids b)" "store_wf a" "store_wf b"
    using assms(1) by (simp_all add: exchange_ok_def store_inv_def)
  note f = exchange_facts [OF assms(1)]
  obtain xs ys where d: "mset xs = mset ds"
    "IBLT_subtract (table_of b3 ?n 1 (message_ids b)) (table_of b3 ?n 1 (message_ids a)) = Ok (table_of b3 ?n 1 ds)"
    "IBLT_decode b3 (table_of b3 ?n 1 ds) = Ok (xs, [])"
    "IBLT_subtract (table_of b3 ?n 1 (message_ids a)) (table_of b3 ?n 1 (message_ids b)) = Ok (table_of b3 ?n (- 1) ds)"
    "IBLT_decode b3 (table_of b3 ?n (- 1) ds) = Ok ([], ys)"
    using exchange_decodes [OF assms(1)] by metis
  obtain offer sa bs where i: "SyncSession_initiate b3 hex now a SyncSession_new = (Ok offer, sa)"
    "offer = SyncOffer bs (of_nat (MeshStore_len a)) (of_nat ?n) (generate_proof b3 hex a) now"
    "IBLT_from_bytes bs = Ok (table_of b3 ?n 1 (message_ids a))"
    "ss_state sa = AwaitingResponse" "ss_our_iblt sa = Some (table_of b3 ?n 1 (message_ids a))"
    using initiate_result [OF f(1) ex(2,4), of hex now] by auto
  obtain cs sb where r: "IBLT_from_bytes cs = Ok (table_of b3 ?n 1 (message_ids b))"
    "SyncSession_respond b3 L b offer SyncSession_new =
      (Ok (SyncResponse cs (of_nat (MeshStore_len b)) (gather_envelopes L b xs), []), sb)"
    using respond_result [OF i(3) ex(1,2,3,5) d(2,3)] i(2) by (fastforce simp: envelopes_of_def)
  obtain sa' where c: "ss_state sa' = SComplete"
    "SyncSession_complete b3 L a (SyncResponse cs (of_nat (MeshStore_len b)) (gather_envelopes L b xs)) sa =
      (Ok (SyncComplete [], envelopes_of b xs), sa')"
    using complete_result [OF r(1) i(4,5) d(4,5), where L = L and st = a and vs = "gather_envelopes L b xs"]
    by (auto simp: gather_delivers [OF assms(2)])
  have x: "set xs = set ds" "distinct xs" "length xs = length ds"
    using d(1) f(4) mset_eq_setD [OF d(1)] mset_eq_imp_distinct_iff [OF d(1)] mset_eq_length [OF d(1)] by auto
  obtain a' where m: "merge_envelopes L score (envelopes_of b xs) a = (length xs, a')"
    "\<And>mid. MeshStore_get mid a' = (if mid \<in> set xs then MeshStore_get mid b else MeshStore_get mid a)"
    using merge_envelopes_room [OF ex(6,7) x(2), of L score] assms(3) x f(5) by (auto simp: MeshStore_len_def)
  have k: "MeshStore_contains mid st \<longleftrightarrow> MeshStore_get mid st \<noteq> None" for mid and st :: "'a mesh_store"
    by (simp add: MeshStore_contains_def MeshStore_get_def hm_contains_def)
  have "\<forall>mid. MeshStore_contains mid a' \<longleftrightarrow> MeshStore_contains mid b"
    using f(5,6) m(2) x(1) unfolding k by metis
  moreover have "\<forall>mid. \<not> MeshStore_contains mid a \<longrightarrow> MeshStore_get mid a' = MeshStore_get mid b"
    using f(5,6) m(2) x(1) unfolding k by metis
  ultimately show ?thesis using i(1) r(2) c m(1) x(3) by metis
qed

theorem sync_delivers_to_initiator_witness:
  "\<exists>offer sa response sb envs sa' a'.
    SyncSession_initiate spread_hash (\<lambda>_. ''proof'') 7 (sample_store 9 []) SyncSession_new = (Ok offer, sa)
    \<and> SyncSession_respond spread_hash sample_store_libs (sample_store 9 [sample_stored 1 10]) offer SyncSession_new = (Ok (response, []), sb)
    \<and> SyncSession_complete spread_hash sample_store_libs (sample_store 9 []) response sa = (Ok (SyncComplete [], envs), sa')
    \<and> merge_envelopes sample_store_libs sample_score envs (sample_store 9 []) = (1, a')
    \<and> MeshStore_contains (replicate 16 1) a'"
proof -
  let ?a = "sample_store 9 []" and ?b = "sample_store 9 [sample_stored 1 10]" and ?ds = "[replicate 16 (1 :: byte)]"
  have n: "sketch_cells ?a = 24" by (simp add: sketch_cells_def sample_store_def MeshStore_len_def CELLS_PER_DIFF_def)
  have "no_stopping_set spread_hash 24 ?ds"
    by (rule no_stopping_single [of 0]) (simp_all add: spread_hits)
  then have ex: "exchange_ok spread_hash (sketch_cells ?a) ?a ?b ?ds"
    unfolding exchange_ok_def n
    by (simp add: sample_store_def sample_stored_def store_inv_def store_wf_def within_budget_def message_ids_def
        fits_bytes_small HASH_COUNT_def)
  have "MeshStore_len ?a + length ?ds \<le> mst_max_messages ?a" by (simp add: sample_store_def MeshStore_len_def)
  note ex = sync_delivers_to_initiator [OF ex sample_store_libs_ok(2) this, of "\<lambda>_. ''proof''" 7 sample_score]
  have "MeshStore_contains (replicate 16 1) ?b"
    by (simp add: sample_store_def sample_stored_def MeshStore_contains_def hm_contains_def)
  with ex show ?thesis by auto
qed



text \<open>
  A store of more than 5459 messages cannot start an exchange: twelve cells per message exceed
  what the sketch format can count, and \<open>initiate\<close> returns an error, although a store holds up to
  10,000 messages.
\<close>

theorem sync_large_store_fails:
  assumes "5460 \<le> MeshStore_len st" and "MeshStore_len st \<le> MAX_MESSAGES" and "valid_keys (message_ids st)"
  shows "SyncSession_initiate b3 hex now st SyncSession_new =
    (Err (BufferTooShort (12 * MeshStore_len st + 24) 65535), SyncSession_new)"
proof -
  have u: "unat (of_nat (MeshStore_len st) :: u32) = MeshStore_len st"
    using assms(2) by (intro unat_of_nat_u32) (simp add: MAX_MESSAGES_def)
  have "insert_all b3 (message_ids st) (IBLT_new (MeshStore_len st * 4 + 8)) =
      Ok (table_of b3 (12 * MeshStore_len st + 24) 1 (message_ids st))"
    using insert_all_new(1) [OF assms(3), of b3 "MeshStore_len st * 4 + 8"]
    by (simp add: CELLS_PER_DIFF_def max_def algebra_simps)
  then show ?thesis
    using assms(1) u
    by (simp add: SyncSession_initiate_def SyncSession_new_def Let_def IBLT_to_bytes_def table_of_def max_def)
qed

definition crowded_store :: "memory_storage mesh_store" where
  "crowded_store = \<lparr>mst_messages = map (\<lambda>i. (u32_to_le (of_nat i) @ replicate 12 0, sample_stored 1 10)) [0..<6000],
     mst_max_messages = MAX_MESSAGES, mst_backend = None\<rparr>"

theorem sync_large_store_fails_witness:
  "SyncSession_initiate spread_hash (\<lambda>_. ''proof'') 7 crowded_store SyncSession_new =
    (Err (BufferTooShort 72024 65535), SyncSession_new)"
proof -
  have "MeshStore_len crowded_store = 6000" by (simp add: crowded_store_def MeshStore_len_def)
  moreover have "valid_keys (message_ids crowded_store)"
    by (simp add: crowded_store_def message_ids_def valid_keys_def list_all_iff)
  ultimately show ?thesis
    using sync_large_store_fails [of crowded_store spread_hash "\<lambda>_. ''proof''" 7] by (simp add: MAX_MESSAGES_def)
qed

text \<open>
  The states of a session.  Whatever a session is asked to do, it never reaches the failed
  state, and a responder that has answered stays where it is: no operation takes a session out of
  \<open>ProcessingResponse\<close>, so the responding side never becomes complete.
\<close>

theorem sync_session_states:
  assumes "(session_step L)\<^sup>*\<^sup>* SyncSession_new ss"
  shows "ss_state ss \<noteq> SFailed \<and>
    (ss_state ss \<in> {ProcessingResponse, SComplete} \<longrightarrow> (\<forall>ss'. (session_step L)\<^sup>*\<^sup>* ss ss' \<longrightarrow> ss' = ss))"
proof -
  have "ss_state ss \<noteq> SFailed"
    using assms
  proof (induction rule: rtranclp_induct)
    case base
    show ?case by (simp add: SyncSession_new_def)
  next
    case (step ss ss')
    then show ?case using session_step_state [OF step(2)] by auto
  qed
  moreover have "ss' = ss" if "ss_state ss \<in> {ProcessingResponse, SComplete}" "(session_step L)\<^sup>*\<^sup>* ss ss'" for ss'
    using that(2)
  proof (induction rule: rtranclp_induct)
    case (step s s')
    then show ?case using session_step_state [OF step(2)] that(1) by auto
  qed simp
  ultimately show ?thesis by blast
qed

theorem sync_session_states_witness:
  "\<exists>ss. ss_state ss = ProcessingResponse \<and> (session_step sample_store_libs)\<^sup>*\<^sup>* SyncSession_new ss
     \<and> (\<forall>ss'. (session_step sample_store_libs)\<^sup>*\<^sup>* ss ss' \<longrightarrow> ss' = ss)"
proof -
  let ?a = "sample_store 9 []"
  have n: "sketch_cells ?a = 24" by (simp add: sketch_cells_def sample_store_def MeshStore_len_def CELLS_PER_DIFF_def)
  have ids: "message_ids ?a = []" by (simp add: sample_store_def message_ids_def)
  have ex: "exchange_ok spread_hash 24 ?a ?a []"
    by (simp add: exchange_ok_def message_ids_def sample_store_def store_inv_def store_wf_def within_budget_def
        no_stopping_set_def fits_bytes_def)
  obtain xs ys where d: "IBLT_subtract (table_of spread_hash 24 1 []) (table_of spread_hash 24 1 []) = Ok (table_of spread_hash 24 1 [])"
    "IBLT_decode spread_hash (table_of spread_hash 24 1 []) = Ok (xs, [])"
    using exchange_decodes [OF ex] unfolding ids by metis
  obtain bs where bs: "IBLT_from_bytes bs = Ok (table_of spread_hash 24 1 (message_ids ?a))"
    using initiate_result [of ?a spread_hash] by (auto simp: n ids fits_bytes_def)
  obtain ss where ss: "ss_state ss = ProcessingResponse"
    "session_step sample_store_libs SyncSession_new ss"
    using respond_result [OF bs, where st = ?a and ys = "[]" and L = sample_store_libs and
        m = 0 and c = 0 and p = "[]" and t = 0] d ids
    by (fastforce simp: fits_bytes_def intro: session_step.respond)
  then have "(session_step sample_store_libs)\<^sup>*\<^sup>* SyncSession_new ss" by blast
  with ss sync_session_states [OF this] show ?thesis by auto
qed

text \<open>
  Version control: a message is accepted with the current schema version and comes back
  unchanged; under any other version it is refused with an error that names both versions.
\<close>

theorem sync_version_checked:
  assumes "ser m = Inr bs" and "des bs = Inr m"
  shows "VersionedSyncMessage_to_bytes ser m = Ok bs \<and>
    VersionedSyncMessage_from_bytes des bs =
      (if vs_schema_version m = SYNC_SCHEMA_VERSION then Ok m
       else Err (DecompressionFailed (''sync protocol version mismatch: got ''
         @ show_nat (unat (vs_schema_version m)) @ '', expected 1'')))"
  using assms
  by (auto simp: VersionedSyncMessage_to_bytes_def VersionedSyncMessage_from_bytes_def
      VersionedSyncMessage_validate_def VersionMismatch_to_string_def SYNC_SCHEMA_VERSION_def show_nat.simps char_of_def bit_Suc_0_iff)

theorem sync_version_checked_witness:
  "VersionedSyncMessage_from_bytes (\<lambda>_. Inr \<lparr>vs_schema_version = 2, vs_payload = SyncComplete []\<rparr>) [5] =
    Err (DecompressionFailed ''sync protocol version mismatch: got 2, expected 1'')"
  using sync_version_checked [of "\<lambda>_. Inr [5]" "\<lparr>vs_schema_version = 2, vs_payload = SyncComplete []\<rparr>" "[5]"
      "\<lambda>_. Inr \<lparr>vs_schema_version = 2, vs_payload = SyncComplete []\<rparr>"]
  by (simp add: SYNC_SCHEMA_VERSION_def show_nat.simps char_of_def bit_Suc_0_iff)

end
