(* ===== verification/Drift_Relay.thy ===== *)
theory Drift_Relay
  imports Drift_Store
begin

text \<open>
  The relay engine of \<open>core/src/drift/relay.rs\<close>: the decision for every incoming envelope, the rate
  limit, the network toggle, maintenance and the sending side.

  One operation reads the clock once, in milliseconds.  The verdict of a reputation manager on a peer
  (abusive with a spam confidence above 0.8) is a function held by the engine.  The scheduler of cover
  traffic and the audit pipeline do not take part in these operations and are left out of the state.
\<close>

section \<open>Configuration and decisions\<close>

datatype network_state = Active | Dormant

record relay_config =
  rc_max_relay_per_hour :: u32
  rc_max_hop_count :: byte
  rc_min_relay_priority :: byte
  rc_battery_floor_percent :: byte
  rc_relay_opaque :: bool

definition RelayConfig_default :: relay_config where
  "RelayConfig_default = \<lparr>rc_max_relay_per_hour = 1000, rc_max_hop_count = 16, rc_min_relay_priority = 0,
     rc_battery_floor_percent = 20, rc_relay_opaque = True\<rparr>"

datatype drop_reason = Expired | MaxHopsExceeded | RateLimited | NetworkDormant | LowPriority | StoreFull

datatype relay_decision =
    DeliverLocal message_id
  | StoreAndRelay message_id
  | Duplicate message_id
  | Dropped message_id drop_reason

datatype relay_error = RNetworkDormant | SerializationFailed string | InvalidEnvelope string

record maintenance_report =
  mr_expired_removed :: nat
  mr_store_size :: nat
  mr_evictions :: nat

section \<open>The engine\<close>

record 's relay_engine =
  re_state :: network_state
  re_config :: relay_config
  re_store :: "'s mesh_store"
  re_local_hint :: bytes
  re_relay_count_this_hour :: u32
  re_hour_start :: u64
  re_reputation_manager :: "(string \<Rightarrow> bool) option"
  re_shared_reputation_manager :: "(string \<Rightarrow> bool) option"

definition RelayEngine_new :: "drift_libs \<Rightarrow> u64 \<Rightarrow> bytes \<Rightarrow> relay_config \<Rightarrow> 's relay_engine" where
  "RelayEngine_new D now_ms local_public_key config =
     \<lparr>re_state = Dormant, re_config = config, re_store = MeshStore_new,
      re_local_hint = hint_from_public_key D local_public_key, re_relay_count_this_hour = 0,
      re_hour_start = now_ms, re_reputation_manager = None, re_shared_reputation_manager = None\<rparr>"

definition set_network_state :: "network_state \<Rightarrow> 's relay_engine \<Rightarrow> 's relay_engine" where
  "set_network_state s r = r\<lparr>re_state := s\<rparr>"

definition apply_policy_config :: "relay_config \<Rightarrow> 's relay_engine \<Rightarrow> 's relay_engine" where
  "apply_policy_config c r = r\<lparr>re_config := c\<rparr>"

definition set_reputation_manager :: "(string \<Rightarrow> bool) \<Rightarrow> 's relay_engine \<Rightarrow> 's relay_engine" where
  "set_reputation_manager m r = r\<lparr>re_reputation_manager := Some m\<rparr>"

definition set_shared_reputation_manager :: "(string \<Rightarrow> bool) \<Rightarrow> 's relay_engine \<Rightarrow> 's relay_engine" where
  "set_shared_reputation_manager m r = r\<lparr>re_shared_reputation_manager := Some m\<rparr>"

definition HOUR_MS :: u64 where "HOUR_MS = 3600 * 1000"

text \<open>The difference of the clock readings is unsigned and wraps when the clock runs backwards.\<close>

definition check_rate_limit :: "u64 \<Rightarrow> 's relay_engine \<Rightarrow> 's relay_engine" where
  "check_rate_limit now_ms r =
     (if now_ms - re_hour_start r > HOUR_MS
      then r\<lparr>re_relay_count_this_hour := 0, re_hour_start := now_ms\<rparr> else r)"

definition sender_abusive :: "'s relay_engine \<Rightarrow> string option \<Rightarrow> bool" where
  "sender_abusive r sender =
     (case sender of None \<Rightarrow> False
      | Some peer \<Rightarrow>
          (case re_shared_reputation_manager r of Some m \<Rightarrow> m peer
           | None \<Rightarrow> (case re_reputation_manager r of Some m \<Rightarrow> m peer | None \<Rightarrow> False)))"

definition stored_from :: "u64 \<Rightarrow> bytes \<Rightarrow> drift_envelope \<Rightarrow> stored_envelope" where
  "stored_from now_secs data e =
     \<lparr>sv_envelope_data = data, sv_message_id = de_message_id e, sv_recipient_hint = de_recipient_hint e,
      sv_created_at = de_created_at e, sv_ttl_expiry = de_ttl_expiry e, sv_hop_count = de_hop_count e,
      sv_priority = de_priority e, sv_received_at = now_secs\<rparr>"

text \<open>The decision for a parsed envelope.\<close>

definition route_envelope ::
  "'s store_libs \<Rightarrow> (stored_envelope \<Rightarrow> real) \<Rightarrow> u64 \<Rightarrow> bytes \<Rightarrow> drift_envelope \<Rightarrow> string option
   \<Rightarrow> 's relay_engine \<Rightarrow> relay_decision \<times> 's relay_engine" where
  "route_envelope L score now_ms data e sender r =
     (let mid = de_message_id e; now_secs = now_ms div 1000;
          is_cover_traffic = (de_envelope_type e = CoverTraffic);
          is_onion = (de_envelope_type e = OnionMessage) in
      if sender_abusive r sender then (Dropped mid RateLimited, r)
      else if is_expired now_secs e then (Dropped mid Expired, r)
      else if MeshStore_contains mid (re_store r) then (Duplicate mid, r)
      else if de_recipient_hint e = re_local_hint r then
        (if is_onion \<or> \<not> is_cover_traffic then (DeliverLocal mid, r) else (Dropped mid Expired, r))
      else if re_state r = Dormant then (Dropped mid NetworkDormant, r)
      else if de_hop_count e \<ge> rc_max_hop_count (re_config r) then (Dropped mid MaxHopsExceeded, r)
      else if de_priority e < rc_min_relay_priority (re_config r) then (Dropped mid LowPriority, r)
      else
        let r = (if is_cover_traffic then r else check_rate_limit now_ms r) in
        if \<not> is_cover_traffic \<and> rc_max_relay_per_hour (re_config r) > 0
           \<and> re_relay_count_this_hour r \<ge> rc_max_relay_per_hour (re_config r)
        then (Dropped mid RateLimited, r)
        else
          case MeshStore_insert L score (stored_from now_secs data e) (re_store r) of (inserted, st) \<Rightarrow>
          let r = r\<lparr>re_store := st\<rparr> in
          if \<not> inserted then (Duplicate mid, r)
          else
            let r = (if is_cover_traffic then r
                     else r\<lparr>re_relay_count_this_hour := re_relay_count_this_hour r + 1\<rparr>) in
            (StoreAndRelay mid, r))"

definition process_incoming_from ::
  "drift_libs \<Rightarrow> 's store_libs \<Rightarrow> (stored_envelope \<Rightarrow> real) \<Rightarrow> u64 \<Rightarrow> bytes \<Rightarrow> string option
   \<Rightarrow> 's relay_engine \<Rightarrow> (drift_error, relay_decision) result \<times> 's relay_engine" where
  "process_incoming_from D L score now_ms data sender r =
     or_return (DriftEnvelope_from_bytes D data) r (\<lambda>e.
       case route_envelope L score now_ms data e sender r of (d, r) \<Rightarrow> (Ok d, r))"

definition process_incoming ::
  "drift_libs \<Rightarrow> 's store_libs \<Rightarrow> (stored_envelope \<Rightarrow> real) \<Rightarrow> u64 \<Rightarrow> bytes
   \<Rightarrow> 's relay_engine \<Rightarrow> (drift_error, relay_decision) result \<times> 's relay_engine" where
  "process_incoming D L score now_ms data r = process_incoming_from D L score now_ms data None r"

text \<open>The debug text of a serialization error is the argument \<open>show_error\<close>.\<close>

definition prepare_outgoing ::
  "drift_libs \<Rightarrow> (drift_error \<Rightarrow> string) \<Rightarrow> drift_envelope \<Rightarrow> 's relay_engine \<Rightarrow> (relay_error, bytes) result" where
  "prepare_outgoing D show_error e r =
     (if re_state r = Dormant then Err RNetworkDormant
      else map_err (\<lambda>err. SerializationFailed (''Failed to serialize envelope: '' @ show_error err))
             (DriftEnvelope_to_bytes D e))"

definition messages_for_sync :: "(stored_envelope \<Rightarrow> real) \<Rightarrow> nat \<Rightarrow> 's relay_engine \<Rightarrow> stored_envelope list" where
  "messages_for_sync score max_count r = take max_count (by_priority score (re_store r))"

definition RelayEngine_messages_for_recipient :: "bytes \<Rightarrow> 's relay_engine \<Rightarrow> stored_envelope list" where
  "RelayEngine_messages_for_recipient hint r = messages_for_recipient hint (re_store r)"

definition maintenance :: "'s store_libs \<Rightarrow> u64 \<Rightarrow> 's relay_engine \<Rightarrow> maintenance_report \<times> 's relay_engine" where
  "maintenance L now_secs r =
     (case remove_expired L now_secs (re_store r) of (expired_removed, st) \<Rightarrow>
        (\<lparr>mr_expired_removed = expired_removed, mr_store_size = MeshStore_len st, mr_evictions = 0\<rparr>,
         r\<lparr>re_store := st\<rparr>))"

section \<open>What a decision means\<close>

text \<open>The conditions under which an envelope is kept for relaying.\<close>

definition relayable :: "u64 \<Rightarrow> drift_envelope \<Rightarrow> string option \<Rightarrow> 's relay_engine \<Rightarrow> bool" where
  "relayable now_ms e sender r \<longleftrightarrow>
     \<not> sender_abusive r sender \<and> \<not> is_expired (now_ms div 1000) e
     \<and> \<not> MeshStore_contains (de_message_id e) (re_store r) \<and> de_recipient_hint e \<noteq> re_local_hint r
     \<and> re_state r = Active \<and> de_hop_count e < rc_max_hop_count (re_config r)
     \<and> rc_min_relay_priority (re_config r) \<le> de_priority e"


definition after_window :: "u64 \<Rightarrow> drift_envelope \<Rightarrow> 's relay_engine \<Rightarrow> 's relay_engine" where
  "after_window now_ms e r = (if de_envelope_type e = CoverTraffic then r else check_rate_limit now_ms r)"

lemma check_rate_limit_simps [simp]:
  "re_config (check_rate_limit now_ms r) = re_config r" "re_store (check_rate_limit now_ms r) = re_store r"
  "re_state (check_rate_limit now_ms r) = re_state r" "re_local_hint (check_rate_limit now_ms r) = re_local_hint r"
  by (simp_all add: check_rate_limit_def)

lemma after_window_simps [simp]:
  "re_config (after_window now_ms e r) = re_config r" "re_store (after_window now_ms e r) = re_store r"
  "re_state (after_window now_ms e r) = re_state r"
  by (simp_all add: after_window_def)

lemma network_state_cases: "s \<noteq> Dormant \<longleftrightarrow> s = Active"
  by (cases s) simp_all



lemma route_not_relayable:
  assumes "\<not> relayable now_ms e sender r"
  shows "snd (route_envelope L score now_ms data e sender r) = r
    \<and> fst (route_envelope L score now_ms data e sender r) =
      (if sender_abusive r sender then Dropped (de_message_id e) RateLimited
       else if is_expired (now_ms div 1000) e then Dropped (de_message_id e) Expired
       else if MeshStore_contains (de_message_id e) (re_store r) then Duplicate (de_message_id e)
       else if de_recipient_hint e = re_local_hint r then
         (if de_envelope_type e = CoverTraffic then Dropped (de_message_id e) Expired else DeliverLocal (de_message_id e))
       else if re_state r = Dormant then Dropped (de_message_id e) NetworkDormant
       else if rc_max_hop_count (re_config r) \<le> de_hop_count e then Dropped (de_message_id e) MaxHopsExceeded
       else Dropped (de_message_id e) LowPriority)"
  using assms by (auto simp: route_envelope_def relayable_def Let_def network_state_cases not_less not_le)

lemma process_parsed:
  "DriftEnvelope_from_bytes D data = Ok e \<Longrightarrow> process_incoming_from D L score now_ms data sender r =
   (Ok (fst (route_envelope L score now_ms data e sender r)), snd (route_envelope L score now_ms data e sender r))"
  by (simp add: process_incoming_from_def split_def)

lemma process_unparsed:
  "\<not> is_ok (DriftEnvelope_from_bytes D data) \<Longrightarrow>
   snd (process_incoming_from D L score now_ms data sender r) = r
   \<and> \<not> is_ok (fst (process_incoming_from D L score now_ms data sender r))"
  by (cases "DriftEnvelope_from_bytes D data") (simp_all add: process_incoming_from_def)

section \<open>The hourly limit\<close>






section \<open>The store of the engine\<close>




section \<open>Properties of the relay engine\<close>

definition sample_engine :: "network_state \<Rightarrow> u32 \<Rightarrow> memory_storage relay_engine" where
  "sample_engine s limit = (RelayEngine_new sample_libs 5000 (replicate 32 7) (RelayConfig_default\<lparr>rc_max_relay_per_hour := limit\<rparr>))
     \<lparr>re_state := s, re_local_hint := [9, 9, 9, 9]\<rparr>"





text \<open>
  The network toggle couples both directions of relaying: while the engine is dormant nothing
  goes out and nothing is kept for others, and no incoming envelope changes the engine.  Messages
  for the node itself are still delivered.
\<close>

theorem relay_dormant_coupling:
  assumes "re_state r = Dormant" and "process_incoming_from D L score now_ms data sender r = (res, r')"
  shows "prepare_outgoing D show_error out r = Err RNetworkDormant \<and> r' = r \<and> (\<forall>mid. res \<noteq> Ok (StoreAndRelay mid))
    \<and> (\<forall>e. DriftEnvelope_from_bytes D data = Ok e \<and> \<not> sender_abusive r sender \<and> \<not> is_expired (now_ms div 1000) e
         \<and> \<not> MeshStore_contains (de_message_id e) (re_store r) \<and> de_recipient_hint e = re_local_hint r
         \<and> de_envelope_type e \<noteq> CoverTraffic \<longrightarrow> res = Ok (DeliverLocal (de_message_id e)))"
proof (cases "is_ok (DriftEnvelope_from_bytes D data)")
  case True
  then obtain e where e: "DriftEnvelope_from_bytes D data = Ok e" by (auto simp: is_ok_iff)
  have no: "\<not> relayable now_ms e sender r" for e using assms(1) by (simp add: relayable_def)
  show ?thesis
    using process_parsed [OF e, of L score now_ms sender r] route_not_relayable [OF no, where L = L and score = score and data = data] assms e
    by (auto simp: prepare_outgoing_def)
next
  case False
  with process_unparsed [OF False, of L score now_ms sender r] assms show ?thesis
    by (auto simp: prepare_outgoing_def is_ok_iff)
qed

theorem relay_dormant_coupling_witness:
  "snd (process_incoming_from sample_libs sample_store_libs sample_score 5000 [1, 2, 3] None (sample_engine Dormant 2)) = sample_engine Dormant 2"
  using relay_dormant_coupling [OF _ prod.collapse [symmetric], where r = "sample_engine Dormant 2" and D = sample_libs
      and L = sample_store_libs and score = sample_score and now_ms = 5000 and data = "[1, 2, 3]" and sender = None]
  by (simp add: sample_engine_def)

end
