(* ===== verification/Drift_Policy.thy ===== *)
theory Drift_Policy
  imports Drift_Relay
begin

text \<open>
  The policy engine of \<open>core/src/drift/policy.rs\<close>, which turns the state of the device and the
  overrides of the user into the configuration of the relay engine.
\<close>

record device_state =
  dv_battery_percent :: byte
  dv_is_charging :: bool
  dv_has_wifi :: bool
  dv_is_moving :: bool
  dv_timestamp :: u64

datatype relay_profile = Maximum | High | Standard | Reduced | Minimal


record policy_engine =
  pe_scan_interval_override :: "u64 option"
  pe_relay_budget_override :: "u32 option"
  pe_battery_floor_override :: "byte option"
  pe_current_profile :: relay_profile




definition scan_interval_ms :: "policy_engine \<Rightarrow> u64" where
  "scan_interval_ms p =
     (case pe_scan_interval_override p of Some ms \<Rightarrow> ms
      | None \<Rightarrow> (case pe_current_profile p of Maximum \<Rightarrow> 500 | High \<Rightarrow> 1000 | Standard \<Rightarrow> 5000 | Reduced \<Rightarrow> 15000 | Minimal \<Rightarrow> 60000))"






definition should_reduce :: "policy_engine \<Rightarrow> bool" where
  "should_reduce p \<longleftrightarrow> pe_current_profile p \<in> {Reduced, Minimal}"

section \<open>Reachable policies\<close>



section \<open>Property\<close>



end
