(* ===== verification/Outbox.thy ===== *)
theory Outbox
  imports Storage_Backend
begin

text \<open>
  The queue of outgoing messages of \<open>core/src/store/outbox.rs\<close>, with its two backends: queues in
  memory, one per recipient, or entries of a storage backend under the prefix \<open>outbox_\<close>.

  Bincode and the maintenance of the storage manager, which works on the history and the logs and
  not on the outbox, are operations of \<open>outbox_libs\<close>.  Clock readings are arguments.
\<close>

section \<open>Messages\<close>

datatype message_state = Enqueued | Sent | Failed

record queued_message =
  qm_version :: byte
  qm_message_id :: string
  qm_recipient_id :: string
  qm_envelope_data :: bytes
  qm_queued_at :: u64
  qm_attempts :: u32
  qm_next_retry_at :: "u64 option"
  qm_in_custody :: bool
  qm_custody_established_at :: u64
  qm_state :: message_state

record legacy_queued_message =
  lq_message_id :: string
  lq_recipient_id :: string
  lq_envelope_data :: bytes
  lq_queued_at :: u64
  lq_attempts :: u32
  lq_next_retry_at :: "u64 option"
  lq_in_custody :: bool
  lq_custody_established_at :: u64
  lq_state :: message_state

definition MAX_QUEUE_PER_PEER :: nat where "MAX_QUEUE_PER_PEER = 1000"

definition MAX_TOTAL_QUEUED :: nat where "MAX_TOTAL_QUEUED = 10000"

definition MAX_DELIVERY_ATTEMPTS :: u32 where "MAX_DELIVERY_ATTEMPTS = 12"

definition QUEUE_PREFIX :: bytes where "QUEUE_PREFIX = as_bytes ''outbox_''"

record ('s, 'm) outbox_libs =
  ol_vtable :: "'s storage_vtable"
  ol_serialize :: "queued_message \<Rightarrow> string + bytes"
  ol_deserialize :: "bytes \<Rightarrow> string + queued_message"
  ol_deserialize_legacy :: "bytes \<Rightarrow> string + legacy_queued_message"
  ol_perform_maintenance :: "'m \<Rightarrow> 'm"

definition from_legacy :: "legacy_queued_message \<Rightarrow> queued_message" where
  "from_legacy l =
     \<lparr>qm_version = 1, qm_message_id = lq_message_id l, qm_recipient_id = lq_recipient_id l,
      qm_envelope_data = lq_envelope_data l, qm_queued_at = lq_queued_at l, qm_attempts = lq_attempts l,
      qm_next_retry_at = lq_next_retry_at l, qm_in_custody = lq_in_custody l,
      qm_custody_established_at = lq_custody_established_at l, qm_state = lq_state l\<rparr>"

text \<open>The first byte tells the current format from the older one.\<close>

definition deserialize_queued_message :: "('s, 'm) outbox_libs \<Rightarrow> bytes \<Rightarrow> queued_message option" where
  "deserialize_queued_message L data =
     (case data of [] \<Rightarrow> None
      | b # _ \<Rightarrow>
          if b = 1 then (case ol_deserialize L data of Inr m \<Rightarrow> Some m | Inl _ \<Rightarrow> None)
          else (case ol_deserialize_legacy L data of Inr l \<Rightarrow> Some (from_legacy l) | Inl _ \<Rightarrow> None))"

section \<open>The outbox\<close>

type_synonym queues = "(string, queued_message list) hmap"

datatype 's outbox_backend = Memory queues nat | Persistent 's

record ('s, 'm) outbox =
  ob_backend :: "'s outbox_backend"
  ob_storage_manager :: "'m option"

definition Outbox_new :: "('s, 'm) outbox" where
  "Outbox_new = \<lparr>ob_backend = Memory [] 0, ob_storage_manager = None\<rparr>"

definition Outbox_persistent_with_storage :: "'s \<Rightarrow> 'm \<Rightarrow> ('s, 'm) outbox" where
  "Outbox_persistent_with_storage b m = \<lparr>ob_backend = Persistent b, ob_storage_manager = Some m\<rparr>"

definition Outbox_persistent :: "'s \<Rightarrow> ('s, 'm) outbox" where
  "Outbox_persistent b = \<lparr>ob_backend = Persistent b, ob_storage_manager = None\<rparr>"

definition trigger_maintenance :: "('s, 'm) outbox_libs \<Rightarrow> ('s, 'm) outbox \<Rightarrow> ('s, 'm) outbox" where
  "trigger_maintenance L ob =
     ob\<lparr>ob_storage_manager := map_option (ol_perform_maintenance L) (ob_storage_manager ob)\<rparr>"

definition outbox_full :: string where
  "outbox_full = ''Outbox full ('' @ show_nat MAX_TOTAL_QUEUED @ '' messages)''"

definition queue_full :: "string \<Rightarrow> string" where
  "queue_full recipient = ''Queue full for peer '' @ recipient @ '' ('' @ show_nat MAX_QUEUE_PER_PEER @ '' messages)''"

definition peer_prefix :: "string \<Rightarrow> bytes" where
  "peer_prefix recipient = QUEUE_PREFIX @ as_bytes recipient @ as_bytes ''_''"

definition queue_key :: "queued_message \<Rightarrow> bytes" where
  "queue_key m = QUEUE_PREFIX @ as_bytes (qm_recipient_id m) @ as_bytes ''_'' @ as_bytes (qm_message_id m)"

definition queue_of :: "string \<Rightarrow> queues \<Rightarrow> queued_message list" where
  "queue_of recipient queues = (case hm_get queues recipient of Some q \<Rightarrow> q | None \<Rightarrow> [])"

text \<open>\<open>entry(..).or_default()\<close> creates the queue of the recipient before its length is tested.\<close>

definition enqueue_memory ::
  "queued_message \<Rightarrow> queues \<Rightarrow> nat \<Rightarrow> (string, unit) result \<times> queues \<times> nat" where
  "enqueue_memory m queues tot =
     (if tot \<ge> MAX_TOTAL_QUEUED then (Err outbox_full, queues, tot)
      else let queue = queue_of (qm_recipient_id m) queues in
        if length queue \<ge> MAX_QUEUE_PER_PEER
        then (Err (queue_full (qm_recipient_id m)), hm_insert (qm_recipient_id m) queue queues, tot)
        else (Ok (), hm_insert (qm_recipient_id m) (queue @ [m]) queues, tot + 1))"

definition enqueue_persistent ::
  "('s, 'm) outbox_libs \<Rightarrow> queued_message \<Rightarrow> 's \<Rightarrow> (string, unit) result \<times> 's" where
  "enqueue_persistent L m db =
     (let vt = ol_vtable L in
      if ok_or (vt_count_prefix vt QUEUE_PREFIX db) 0 \<ge> MAX_TOTAL_QUEUED then (Err outbox_full, db)
      else if ok_or (vt_count_prefix vt (peer_prefix (qm_recipient_id m)) db) 0 \<ge> MAX_QUEUE_PER_PEER
      then (Err (queue_full (qm_recipient_id m)), db)
      else
        case ol_serialize L m of
          Inl _ \<Rightarrow> (Ok (), db)
        | Inr value \<Rightarrow>
            (case vt_put vt (queue_key m) value db of (r, db) \<Rightarrow>
               or_return r db (\<lambda>_. vt_flush vt db)))"

definition enqueue ::
  "('s, 'm) outbox_libs \<Rightarrow> queued_message \<Rightarrow> ('s, 'm) outbox \<Rightarrow> (string, unit) result \<times> ('s, 'm) outbox" where
  "enqueue L m ob =
     (case ob_backend ob of
        Memory queues tot \<Rightarrow>
          (case enqueue_memory m queues tot of (r, queues, tot) \<Rightarrow>
             let ob = ob\<lparr>ob_backend := Memory queues tot\<rparr> in
             or_return r ob (\<lambda>_. (Ok (), trigger_maintenance L ob)))
      | Persistent db \<Rightarrow>
          (case enqueue_persistent L m db of (r, db) \<Rightarrow>
             let ob = ob\<lparr>ob_backend := Persistent db\<rparr> in
             or_return r ob (\<lambda>_. (Ok (), trigger_maintenance L ob))))"

text \<open>The entries of a backend that hold a message, with their keys, in the order of the scan.\<close>

definition stored_messages :: "('s, 'm) outbox_libs \<Rightarrow> bytes \<Rightarrow> 's \<Rightarrow> (bytes \<times> queued_message) list" where
  "stored_messages L prefix db =
     (case vt_scan_prefix (ol_vtable L) prefix db of
        Ok results \<Rightarrow> List.map_filter (\<lambda>(key, value). map_option (Pair key) (deserialize_queued_message L value)) results
      | _ \<Rightarrow> [])"

definition peek_for_peer :: "('s, 'm) outbox_libs \<Rightarrow> string \<Rightarrow> ('s, 'm) outbox \<Rightarrow> queued_message list" where
  "peek_for_peer L recipient ob =
     (case ob_backend ob of
        Memory queues tot \<Rightarrow> queue_of recipient queues
      | Persistent db \<Rightarrow> map snd (stored_messages L (peer_prefix recipient) db))"

definition pending :: "('s, 'm) outbox_libs \<Rightarrow> ('s, 'm) outbox \<Rightarrow> queued_message list" where
  "pending L ob =
     filter (\<lambda>m. qm_state m = Enqueued)
       (case ob_backend ob of
          Memory queues tot \<Rightarrow> concat (map snd queues)
        | Persistent db \<Rightarrow> map snd (stored_messages L QUEUE_PREFIX db))"

section \<open>Operations on one message\<close>

text \<open>The first message with an identifier: in memory, in the first queue that has one.\<close>

definition has_id :: "string \<Rightarrow> queued_message \<Rightarrow> bool" where
  "has_id mid m \<longleftrightarrow> qm_message_id m = mid"

primrec on_first :: "string \<Rightarrow> (queued_message \<Rightarrow> queued_message option) \<Rightarrow> queued_message list \<Rightarrow> queued_message list" where
  "on_first mid f [] = []"
| "on_first mid f (m # ms) =
     (if has_id mid m then (case f m of Some m' \<Rightarrow> m' # ms | None \<Rightarrow> ms) else m # on_first mid f ms)"

fun on_queues :: "string \<Rightarrow> (queued_message \<Rightarrow> queued_message option) \<Rightarrow> queues \<Rightarrow> queues" where
  "on_queues mid f [] = []"
| "on_queues mid f ((rid, q) # qs) =
     (if List.find (has_id mid) q \<noteq> None then (rid, on_first mid f q) # qs else (rid, q) # on_queues mid f qs)"

definition find_queued :: "string \<Rightarrow> queues \<Rightarrow> queued_message option" where
  "find_queued mid queues = List.find (has_id mid) (concat (map snd queues))"

definition find_stored :: "('s, 'm) outbox_libs \<Rightarrow> string \<Rightarrow> 's \<Rightarrow> (bytes \<times> queued_message) option" where
  "find_stored L mid db = List.find (\<lambda>(key, m). has_id mid m) (stored_messages L QUEUE_PREFIX db)"

text \<open>\<open>let _ = db.put(..); let _ = db.flush();\<close> once the message has been serialized.\<close>

definition write_back :: "('s, 'm) outbox_libs \<Rightarrow> bytes \<Rightarrow> queued_message \<Rightarrow> 's \<Rightarrow> 's" where
  "write_back L key m db =
     (case ol_serialize L m of
        Inr value \<Rightarrow> snd (vt_flush (ol_vtable L) (snd (vt_put (ol_vtable L) key value db)))
      | Inl _ \<Rightarrow> db)"

definition Outbox_remove :: "('s, 'm) outbox_libs \<Rightarrow> string \<Rightarrow> ('s, 'm) outbox \<Rightarrow> bool \<times> ('s, 'm) outbox" where
  "Outbox_remove L mid ob =
     (case ob_backend ob of
        Memory queues tot \<Rightarrow>
          (case find_queued mid queues of
             Some m \<Rightarrow> (True, ob\<lparr>ob_backend := Memory (on_queues mid (\<lambda>_. None) queues) (tot - 1)\<rparr>)
           | None \<Rightarrow> (False, ob))
      | Persistent db \<Rightarrow>
          (case find_stored L mid db of
             Some (key, m) \<Rightarrow>
               (True, ob\<lparr>ob_backend := Persistent (snd (vt_flush (ol_vtable L) (snd (vt_remove (ol_vtable L) key db))))\<rparr>)
           | None \<Rightarrow> (False, ob)))"

text \<open>The shared shape of the operations that change one message.\<close>

definition update_message ::
  "('s, 'm) outbox_libs \<Rightarrow> string \<Rightarrow> (queued_message \<Rightarrow> queued_message) \<Rightarrow> ('s, 'm) outbox \<Rightarrow> bool \<times> ('s, 'm) outbox" where
  "update_message L mid f ob =
     (case ob_backend ob of
        Memory queues tot \<Rightarrow>
          (case find_queued mid queues of
             Some m \<Rightarrow> (True, ob\<lparr>ob_backend := Memory (on_queues mid (\<lambda>m. Some (f m)) queues) tot\<rparr>)
           | None \<Rightarrow> (False, ob))
      | Persistent db \<Rightarrow>
          (case find_stored L mid db of
             Some (key, m) \<Rightarrow> (True, ob\<lparr>ob_backend := Persistent (write_back L key (f m) db)\<rparr>)
           | None \<Rightarrow> (False, ob)))"

definition find_message :: "('s, 'm) outbox_libs \<Rightarrow> string \<Rightarrow> ('s, 'm) outbox \<Rightarrow> queued_message option" where
  "find_message L mid ob =
     (case ob_backend ob of Memory queues tot \<Rightarrow> find_queued mid queues
      | Persistent db \<Rightarrow> map_option snd (find_stored L mid db))"

definition record_attempt :: "('s, 'm) outbox_libs \<Rightarrow> string \<Rightarrow> ('s, 'm) outbox \<Rightarrow> bool \<times> ('s, 'm) outbox" where
  "record_attempt L mid ob =
     (case find_message L mid ob of
        None \<Rightarrow> (False, ob)
      | Some m \<Rightarrow>
          if qm_in_custody m then (False, ob)
          else let attempts = sat_add (qm_attempts m) 1 in
            (attempts \<ge> MAX_DELIVERY_ATTEMPTS, snd (update_message L mid (qm_attempts_update (\<lambda>_. attempts)) ob)))"

definition mark_in_custody :: "('s, 'm) outbox_libs \<Rightarrow> string \<Rightarrow> u64 \<Rightarrow> ('s, 'm) outbox \<Rightarrow> bool \<times> ('s, 'm) outbox" where
  "mark_in_custody L mid at ob = update_message L mid (\<lambda>m. m\<lparr>qm_in_custody := True, qm_custody_established_at := at\<rparr>) ob"

definition mark_not_in_custody :: "('s, 'm) outbox_libs \<Rightarrow> string \<Rightarrow> ('s, 'm) outbox \<Rightarrow> bool \<times> ('s, 'm) outbox" where
  "mark_not_in_custody L mid ob = update_message L mid (\<lambda>m. m\<lparr>qm_in_custody := False, qm_custody_established_at := 0\<rparr>) ob"

definition is_in_custody :: "('s, 'm) outbox_libs \<Rightarrow> string \<Rightarrow> ('s, 'm) outbox \<Rightarrow> bool" where
  "is_in_custody L mid ob = (case find_message L mid ob of Some m \<Rightarrow> qm_in_custody m | None \<Rightarrow> False)"

definition mark_sent :: "('s, 'm) outbox_libs \<Rightarrow> string \<Rightarrow> ('s, 'm) outbox \<Rightarrow> bool \<times> ('s, 'm) outbox" where
  "mark_sent L mid ob = update_message L mid (qm_state_update (\<lambda>_. Sent)) ob"

definition mark_failed :: "('s, 'm) outbox_libs \<Rightarrow> string \<Rightarrow> ('s, 'm) outbox \<Rightarrow> bool \<times> ('s, 'm) outbox" where
  "mark_failed L mid ob = update_message L mid (qm_state_update (\<lambda>_. Failed)) ob"

section \<open>Operations on many messages\<close>

fun remove_keys :: "('s, 'm) outbox_libs \<Rightarrow> bytes list \<Rightarrow> 's \<Rightarrow> 's" where
  "remove_keys L [] db = snd (vt_flush (ol_vtable L) db)"
| "remove_keys L (key # keys) db = remove_keys L keys (snd (vt_remove (ol_vtable L) key db))"

definition drain_for_peer :: "('s, 'm) outbox_libs \<Rightarrow> string \<Rightarrow> ('s, 'm) outbox \<Rightarrow> queued_message list \<times> ('s, 'm) outbox" where
  "drain_for_peer L recipient ob =
     (case ob_backend ob of
        Memory queues tot \<Rightarrow>
          (case hm_get queues recipient of
             None \<Rightarrow> ([], ob)
           | Some queue \<Rightarrow>
               (filter (\<lambda>m. \<not> qm_in_custody m) queue,
                ob\<lparr>ob_backend := Memory (hm_remove recipient queues) (tot - length queue)\<rparr>))
      | Persistent db \<Rightarrow>
          let taken = filter (\<lambda>(key, m). \<not> qm_in_custody m) (stored_messages L (peer_prefix recipient) db) in
          (map snd taken, ob\<lparr>ob_backend := Persistent (remove_keys L (map fst taken) db)\<rparr>))"

text \<open>A retry time above 10,000,000,000 is taken for milliseconds.\<close>

definition is_due :: "u64 \<Rightarrow> u64 option \<Rightarrow> bool" where
  "is_due now_ms next_retry =
     (case next_retry of None \<Rightarrow> True
      | Some t \<Rightarrow> if t > 10000000000 then t \<le> now_ms else t \<le> now_ms div 1000)"

definition deliverable :: "u64 \<Rightarrow> queued_message \<Rightarrow> bool" where
  "deliverable now_ms m \<longleftrightarrow> \<not> (qm_in_custody m \<or> qm_state m \<noteq> Enqueued) \<and> is_due now_ms (qm_next_retry_at m)"

definition flush_peer_messages ::
  "('s, 'm) outbox_libs \<Rightarrow> u64 \<Rightarrow> string \<Rightarrow> ('s, 'm) outbox \<Rightarrow> queued_message list \<times> ('s, 'm) outbox" where
  "flush_peer_messages L now_ms recipient ob =
     (case ob_backend ob of
        Memory queues tot \<Rightarrow>
          (case hm_get queues recipient of
             None \<Rightarrow> ([], ob)
           | Some queue \<Rightarrow>
               let drained = filter (deliverable now_ms) queue;
                   remaining = filter (\<lambda>m. \<not> deliverable now_ms m) queue;
                   queues = (if remaining = [] then hm_remove recipient queues else hm_insert recipient remaining queues) in
               (drained, ob\<lparr>ob_backend := Memory queues (tot - length drained)\<rparr>))
      | Persistent db \<Rightarrow>
          let taken = filter (\<lambda>(key, m). deliverable now_ms m) (stored_messages L (peer_prefix recipient) db) in
          (map snd taken, ob\<lparr>ob_backend := Persistent (remove_keys L (map fst taken) db)\<rparr>))"

definition too_old :: "u64 \<Rightarrow> u64 \<Rightarrow> queued_message \<Rightarrow> bool" where
  "too_old now max_age m \<longleftrightarrow> sat_sub now (qm_queued_at m) \<ge> max_age"

definition Outbox_remove_expired ::
  "('s, 'm) outbox_libs \<Rightarrow> u64 \<Rightarrow> u64 \<Rightarrow> ('s, 'm) outbox \<Rightarrow> nat \<times> ('s, 'm) outbox" where
  "Outbox_remove_expired L now max_age ob =
     (case ob_backend ob of
        Memory queues tot \<Rightarrow>
          let kept = map (\<lambda>(rid, q). (rid, filter (\<lambda>m. \<not> too_old now max_age m) q)) queues;
              removed = sum_list (map (length \<circ> snd) queues) - sum_list (map (length \<circ> snd) kept) in
          (removed, ob\<lparr>ob_backend := Memory (filter (\<lambda>(rid, q). q \<noteq> []) kept) (tot - removed)\<rparr>)
      | Persistent db \<Rightarrow>
          let keys = map fst (filter (\<lambda>(key, m). too_old now max_age m) (stored_messages L QUEUE_PREFIX db)) in
          (length keys, ob\<lparr>ob_backend := Persistent (remove_keys L keys db)\<rparr>))"

definition total_count :: "('s, 'm) outbox_libs \<Rightarrow> ('s, 'm) outbox \<Rightarrow> nat" where
  "total_count L ob =
     (case ob_backend ob of Memory queues tot \<Rightarrow> tot
      | Persistent db \<Rightarrow> ok_or (vt_count_prefix (ol_vtable L) QUEUE_PREFIX db) 0)"

definition peer_count :: "('s, 'm) outbox_libs \<Rightarrow> ('s, 'm) outbox \<Rightarrow> nat" where
  "peer_count L ob =
     (case ob_backend ob of Memory queues tot \<Rightarrow> length queues
      | Persistent db \<Rightarrow> card (qm_recipient_id ` snd ` set (stored_messages L QUEUE_PREFIX db)))"

section \<open>Retry policy\<close>

record retry_policy =
  rp_max_retries :: u32
  rp_initial_delay_ms :: u64
  rp_backoff_factor :: u32
  rp_suppress_on_custody :: bool

definition RetryPolicy_default :: retry_policy where
  "RetryPolicy_default = \<lparr>rp_max_retries = 3, rp_initial_delay_ms = 100, rp_backoff_factor = 2, rp_suppress_on_custody = True\<rparr>"

text \<open>The delay in milliseconds; \<open>attempt - 2\<close> wraps for attempt 0.\<close>

definition delay_for_attempt :: "retry_policy \<Rightarrow> u32 \<Rightarrow> u64 option" where
  "delay_for_attempt p attempt =
     (if attempt > rp_max_retries p then None
      else if attempt = 1 then Some 0
      else let power = attempt - 2;
               multiplier = sat_pow (ucast (rp_backoff_factor p)) (unat power) in
        Some (sat_mul (rp_initial_delay_ms p) multiplier))"

definition can_retry :: "retry_policy \<Rightarrow> u32 \<Rightarrow> bool" where
  "can_retry p attempt \<longleftrightarrow> attempt < rp_max_retries p"

end
