(* ===== verification/Outbox_Refinement.thy ===== *)
theory Outbox_Refinement
  imports Outbox
begin

text \<open>
  What the outbox promises, as operations on a set of messages with distinct identifiers, and that
  both of its backends implement it.  The promise is the locale \<open>outbox_contract\<close>; the queues in
  memory and the entries of a storage backend are its two interpretations.
\<close>

section \<open>The specification\<close>

definition acceptable :: "queued_message \<Rightarrow> bool" where
  "acceptable m \<longleftrightarrow> qm_version m = 1 \<and> CHR ''_'' \<notin> set (qm_recipient_id m)"

definition fresh_in :: "queued_message \<Rightarrow> queued_message set \<Rightarrow> bool" where
  "fresh_in m S \<longleftrightarrow> (\<forall>x \<in> S. \<not> has_id (qm_message_id m) x)"

definition spec_enqueue :: "queued_message \<Rightarrow> queued_message set \<Rightarrow> bool \<times> queued_message set" where
  "spec_enqueue m S =
     (if card S \<ge> MAX_TOTAL_QUEUED \<or> card {x \<in> S. qm_recipient_id x = qm_recipient_id m} \<ge> MAX_QUEUE_PER_PEER
      then (False, S) else (True, insert m S))"

definition spec_update :: "string \<Rightarrow> (queued_message \<Rightarrow> queued_message) \<Rightarrow> queued_message set \<Rightarrow> bool \<times> queued_message set" where
  "spec_update mid f S = (\<exists>m \<in> S. has_id mid m, (\<lambda>m. if has_id mid m then f m else m) ` S)"

definition spec_remove :: "string \<Rightarrow> queued_message set \<Rightarrow> bool \<times> queued_message set" where
  "spec_remove mid S = (\<exists>m \<in> S. has_id mid m, {m \<in> S. \<not> has_id mid m})"

definition spec_take :: "(queued_message \<Rightarrow> bool) \<Rightarrow> queued_message set \<Rightarrow> queued_message set \<times> queued_message set" where
  "spec_take P S = ({m \<in> S. P m}, {m \<in> S. \<not> P m})"

definition same_key :: "(queued_message \<Rightarrow> queued_message) \<Rightarrow> bool" where
  "same_key f \<longleftrightarrow> (\<forall>m. qm_message_id (f m) = qm_message_id m \<and> qm_recipient_id (f m) = qm_recipient_id m
     \<and> qm_version (f m) = qm_version m)"

definition due_for :: "u64 \<Rightarrow> string \<Rightarrow> queued_message \<Rightarrow> bool" where
  "due_for now_ms rid m \<longleftrightarrow> qm_recipient_id m = rid \<and> deliverable now_ms m"

lemma spec_update_id_set:
  assumes "inj_on qm_message_id S" and "same_key f"
  shows "inj_on qm_message_id (snd (spec_update mid f S))"
proof -
  have "qm_message_id \<circ> (\<lambda>m. if has_id mid m then f m else m) = qm_message_id"
    using assms(2) by (simp add: fun_eq_iff same_key_def)
  with assms(1) show ?thesis unfolding spec_update_def snd_conv by (intro inj_on_imageI) simp
qed

lemma inj_on_id: "inj_on qm_message_id S \<Longrightarrow> m \<in> S \<Longrightarrow> x \<in> S \<Longrightarrow> has_id (qm_message_id m) x \<longleftrightarrow> x = m"
  by (auto simp: has_id_def inj_on_def)

text \<open>An update of the one message with an identifier.\<close>

lemma spec_update_one:
  assumes "inj_on qm_message_id S" and "m \<in> S"
  shows "spec_update (qm_message_id m) f S = (True, insert (f m) (S - {m}))"
proof -
  have "(\<lambda>x. if has_id (qm_message_id m) x then f x else x) ` S = (\<lambda>x. if x = m then f m else x) ` S"
    using inj_on_id [OF assms] by (intro image_cong refl) simp
  also have "\<dots> = insert (f m) (S - {m})" using assms(2) by auto
  finally have eq: "(\<lambda>x. if has_id (qm_message_id m) x then f x else x) ` S = insert (f m) (S - {m})" .
  have "\<exists>x \<in> S. has_id (qm_message_id m) x" using assms(2) by (auto simp: has_id_def)
  then show ?thesis unfolding spec_update_def eq by simp
qed

lemma spec_remove_one:
  assumes "inj_on qm_message_id S" and "m \<in> S"
  shows "spec_remove (qm_message_id m) S = (True, S - {m})"
  using assms(2) inj_on_id [OF assms] by (auto simp: spec_remove_def has_id_def)

lemma spec_absent:
  assumes "\<And>m. m \<in> S \<Longrightarrow> \<not> has_id mid m"
  shows "spec_update mid f S = (False, S)" "spec_remove mid S = (False, S)"
proof -
  have "(\<lambda>m. if has_id mid m then f m else m) ` S = (\<lambda>m. m) ` S" using assms by (intro image_cong refl) simp
  then show "spec_update mid f S = (False, S)" using assms by (simp add: spec_update_def)
  show "spec_remove mid S = (False, S)" using assms by (auto simp: spec_remove_def)
qed

section \<open>Runs\<close>

definition spec_attempt :: "string \<Rightarrow> queued_message set \<Rightarrow> bool \<times> queued_message set" where
  "spec_attempt mid S =
     (\<exists>m \<in> S. has_id mid m \<and> \<not> qm_in_custody m \<and> MAX_DELIVERY_ATTEMPTS \<le> sat_add (qm_attempts m) 1,
      (\<lambda>m. if has_id mid m \<and> \<not> qm_in_custody m then m\<lparr>qm_attempts := sat_add (qm_attempts m) 1\<rparr> else m) ` S)"

datatype outbox_op =
    OpEnqueue queued_message
  | OpRemove string
  | OpAttempt string
  | OpCustody string u64
  | OpRelease string
  | OpSent string
  | OpFailed string
  | OpFlush u64 string
  | OpExpire u64 u64

text \<open>What an operation returns; the order of a batch is not part of the promise.\<close>

datatype outcome = OFlag bool | OBatch "queued_message set" | OCount nat

primrec outbox_step :: "('s, 'm) outbox_libs \<Rightarrow> outbox_op \<Rightarrow> ('s, 'm) outbox \<Rightarrow> outcome \<times> ('s, 'm) outbox" where
  "outbox_step L (OpEnqueue m) ob = map_prod (OFlag \<circ> is_ok) id (enqueue L m ob)"
| "outbox_step L (OpRemove mid) ob = map_prod OFlag id (Outbox_remove L mid ob)"
| "outbox_step L (OpAttempt mid) ob = map_prod OFlag id (record_attempt L mid ob)"
| "outbox_step L (OpCustody mid at) ob = map_prod OFlag id (mark_in_custody L mid at ob)"
| "outbox_step L (OpRelease mid) ob = map_prod OFlag id (mark_not_in_custody L mid ob)"
| "outbox_step L (OpSent mid) ob = map_prod OFlag id (mark_sent L mid ob)"
| "outbox_step L (OpFailed mid) ob = map_prod OFlag id (mark_failed L mid ob)"
| "outbox_step L (OpFlush now_ms rid) ob = map_prod (OBatch \<circ> set) id (flush_peer_messages L now_ms rid ob)"
| "outbox_step L (OpExpire now max_age) ob = map_prod OCount id (Outbox_remove_expired L now max_age ob)"

primrec spec_step :: "outbox_op \<Rightarrow> queued_message set \<Rightarrow> outcome \<times> queued_message set" where
  "spec_step (OpEnqueue m) S = map_prod OFlag id (spec_enqueue m S)"
| "spec_step (OpRemove mid) S = map_prod OFlag id (spec_remove mid S)"
| "spec_step (OpAttempt mid) S = map_prod OFlag id (spec_attempt mid S)"
| "spec_step (OpCustody mid at) S =
     map_prod OFlag id (spec_update mid (\<lambda>m. m\<lparr>qm_in_custody := True, qm_custody_established_at := at\<rparr>) S)"
| "spec_step (OpRelease mid) S =
     map_prod OFlag id (spec_update mid (\<lambda>m. m\<lparr>qm_in_custody := False, qm_custody_established_at := 0\<rparr>) S)"
| "spec_step (OpSent mid) S = map_prod OFlag id (spec_update mid (qm_state_update (\<lambda>_. Sent)) S)"
| "spec_step (OpFailed mid) S = map_prod OFlag id (spec_update mid (qm_state_update (\<lambda>_. Failed)) S)"
| "spec_step (OpFlush now_ms rid) S = map_prod OBatch id (spec_take (due_for now_ms rid) S)"
| "spec_step (OpExpire now max_age) S =
     (OCount (card {m \<in> S. too_old now max_age m}), {m \<in> S. \<not> too_old now max_age m})"

fun outbox_run :: "('s, 'm) outbox_libs \<Rightarrow> outbox_op list \<Rightarrow> ('s, 'm) outbox \<Rightarrow> outcome list \<times> ('s, 'm) outbox" where
  "outbox_run L [] ob = ([], ob)"
| "outbox_run L (x # xs) ob =
     (case outbox_step L x ob of (r, ob) \<Rightarrow> case outbox_run L xs ob of (rs, ob) \<Rightarrow> (r # rs, ob))"

fun spec_run :: "outbox_op list \<Rightarrow> queued_message set \<Rightarrow> outcome list \<times> queued_message set" where
  "spec_run [] S = ([], S)"
| "spec_run (x # xs) S = (case spec_step x S of (r, S) \<Rightarrow> case spec_run xs S of (rs, S) \<Rightarrow> (r # rs, S))"

text \<open>Message identifiers are not reused while a message is queued, and peer identifiers have no underscore.\<close>

primrec admissible_op :: "outbox_op \<Rightarrow> queued_message set \<Rightarrow> bool" where
  "admissible_op (OpEnqueue m) S \<longleftrightarrow> acceptable m \<and> fresh_in m S"
| "admissible_op (OpFlush now_ms rid) S \<longleftrightarrow> CHR ''_'' \<notin> set rid"
| "admissible_op (OpRemove mid) S \<longleftrightarrow> True"
| "admissible_op (OpAttempt mid) S \<longleftrightarrow> True"
| "admissible_op (OpCustody mid at) S \<longleftrightarrow> True"
| "admissible_op (OpRelease mid) S \<longleftrightarrow> True"
| "admissible_op (OpSent mid) S \<longleftrightarrow> True"
| "admissible_op (OpFailed mid) S \<longleftrightarrow> True"
| "admissible_op (OpExpire now max_age) S \<longleftrightarrow> True"

fun admissible :: "outbox_op list \<Rightarrow> queued_message set \<Rightarrow> bool" where
  "admissible [] S \<longleftrightarrow> True"
| "admissible (x # xs) S \<longleftrightarrow> admissible_op x S \<and> admissible xs (snd (spec_step x S))"

lemma same_key_updates:
  "same_key (\<lambda>m. m\<lparr>qm_in_custody := b, qm_custody_established_at := at\<rparr>)"
  "same_key (qm_state_update (\<lambda>_. st))" "same_key (qm_attempts_update (\<lambda>_. n))"
  by (simp_all add: same_key_def)

lemma map_prod_flag: "(b, S) = p \<Longrightarrow> (OFlag b, S) = map_prod OFlag id p"
  by auto

lemma spec_attempt_one:
  assumes "inj_on qm_message_id S" and "m \<in> S"
  shows "spec_attempt (qm_message_id m) S =
    (if qm_in_custody m then (False, S)
     else (MAX_DELIVERY_ATTEMPTS \<le> sat_add (qm_attempts m) 1, insert (m\<lparr>qm_attempts := sat_add (qm_attempts m) 1\<rparr>) (S - {m})))"
proof -
  let ?mid = "qm_message_id m" and ?g = "\<lambda>x :: queued_message. x\<lparr>qm_attempts := sat_add (qm_attempts x) 1\<rparr>"
  have "(\<lambda>x. if has_id ?mid x \<and> \<not> qm_in_custody x then ?g x else x) ` S = (\<lambda>x. if x = m \<and> \<not> qm_in_custody m then ?g m else x) ` S"
    using inj_on_id [OF assms] by (intro image_cong refl) auto
  also have "\<dots> = (if qm_in_custody m then S else insert (?g m) (S - {m}))" using assms(2) by auto
  finally have eq: "(\<lambda>x. if has_id ?mid x \<and> \<not> qm_in_custody x then ?g x else x) ` S =
      (if qm_in_custody m then S else insert (?g m) (S - {m}))" .
  have "(\<exists>x \<in> S. has_id ?mid x \<and> \<not> qm_in_custody x \<and> MAX_DELIVERY_ATTEMPTS \<le> sat_add (qm_attempts x) 1) \<longleftrightarrow>
      \<not> qm_in_custody m \<and> MAX_DELIVERY_ATTEMPTS \<le> sat_add (qm_attempts m) 1"
    using inj_on_id [OF assms] assms(2) by auto
  then show ?thesis unfolding spec_attempt_def eq by simp
qed

section \<open>The contract\<close>

locale outbox_contract =
  fixes L :: "('s, 'm) outbox_libs"
    and held :: "('s, 'm) outbox \<Rightarrow> queued_message set"
    and inv :: "('s, 'm) outbox \<Rightarrow> bool"
  assumes held_ok: "inv ob \<Longrightarrow> finite (held ob) \<and> inj_on qm_message_id (held ob) \<and> (\<forall>m \<in> held ob. acceptable m)"
    and enqueue_law: "inv ob \<Longrightarrow> acceptable m \<Longrightarrow> fresh_in m (held ob) \<Longrightarrow>
      \<exists>r ob'. enqueue L m ob = (r, ob') \<and> inv ob' \<and> (is_ok r, held ob') = spec_enqueue m (held ob)"
    and find_law: "inv ob \<Longrightarrow> find_message L mid ob = Some m \<longleftrightarrow> m \<in> held ob \<and> has_id mid m"
    and update_law: "inv ob \<Longrightarrow> same_key f \<Longrightarrow>
      \<exists>b ob'. update_message L mid f ob = (b, ob') \<and> inv ob' \<and> (b, held ob') = spec_update mid f (held ob)"
    and remove_law: "inv ob \<Longrightarrow>
      \<exists>b ob'. Outbox_remove L mid ob = (b, ob') \<and> inv ob' \<and> (b, held ob') = spec_remove mid (held ob)"
    and flush_law: "inv ob \<Longrightarrow> CHR ''_'' \<notin> set rid \<Longrightarrow>
      \<exists>ms ob'. flush_peer_messages L now_ms rid ob = (ms, ob') \<and> inv ob'
        \<and> distinct ms \<and> (set ms, held ob') = spec_take (due_for now_ms rid) (held ob)"
    and expire_law: "inv ob \<Longrightarrow>
      \<exists>n ob'. Outbox_remove_expired L now max_age ob = (n, ob') \<and> inv ob'
        \<and> n = card {m \<in> held ob. too_old now max_age m} \<and> held ob' = {m \<in> held ob. \<not> too_old now max_age m}"
    and count_law: "inv ob \<Longrightarrow> total_count L ob = card (held ob)"
begin

lemma attempt_law:
  assumes "inv ob"
  shows "\<exists>b ob'. record_attempt L mid ob = (b, ob') \<and> inv ob' \<and> (b, held ob') = spec_attempt mid (held ob)"
proof (cases "find_message L mid ob")
  case None
  then have "\<forall>m \<in> held ob. \<not> has_id mid m" using find_law [OF assms, of mid] by auto
  then have "(\<lambda>m. if has_id mid m \<and> \<not> qm_in_custody m then m\<lparr>qm_attempts := sat_add (qm_attempts m) 1\<rparr> else m) ` held ob = (\<lambda>m. m) ` held ob"
    by (intro image_cong refl) simp
  then have "spec_attempt mid (held ob) = (False, held ob)"
    using \<open>\<forall>m \<in> held ob. \<not> has_id mid m\<close> unfolding spec_attempt_def by simp
  then show ?thesis using None assms by (auto simp: record_attempt_def)
next
  case (Some m)
  then have m: "m \<in> held ob" "has_id mid m" using find_law [OF assms, of mid m] by simp_all
  have inj: "inj_on qm_message_id (held ob)" using held_ok [OF assms] by blast
  let ?n = "sat_add (qm_attempts m) 1"
  obtain b ob' where u: "update_message L mid (qm_attempts_update (\<lambda>_. ?n)) ob = (b, ob')" "inv ob'"
      "(b, held ob') = spec_update mid (qm_attempts_update (\<lambda>_. ?n)) (held ob)"
    using update_law [OF assms same_key_updates(3)] by blast
  have "snd (spec_update mid (qm_attempts_update (\<lambda>_. ?n)) (held ob)) = insert (m\<lparr>qm_attempts := ?n\<rparr>) (held ob - {m})"
    using spec_update_one [OF inj m(1)] m(2) by (simp add: has_id_def)
  with u(3) have "held ob' = insert (m\<lparr>qm_attempts := ?n\<rparr>) (held ob - {m})" by (metis snd_conv)
  then show ?thesis
    using u(1,2) assms spec_attempt_one [OF inj m(1)] m(2) Some by (auto simp: record_attempt_def has_id_def Let_def)
qed

lemma step_refines:
  assumes "inv ob" and "admissible_op x (held ob)"
  shows "\<exists>r ob'. outbox_step L x ob = (r, ob') \<and> inv ob' \<and> (r, held ob') = spec_step x (held ob)"
proof (cases x)
  case (OpEnqueue m)
  then obtain r ob' where "enqueue L m ob = (r, ob')" "inv ob'" "spec_enqueue m (held ob) = (is_ok r, held ob')"
    using assms(2) enqueue_law [OF assms(1), of m] by auto
  with OpEnqueue show ?thesis by auto
next
  case (OpRemove mid)
  with remove_law [OF assms(1), of mid] show ?thesis by (auto intro: map_prod_flag)
next
  case (OpAttempt mid)
  with attempt_law [OF assms(1), of mid] show ?thesis by (auto intro: map_prod_flag)
next
  case (OpCustody mid at)
  with update_law [OF assms(1) same_key_updates(1) [where b = True and at = at], of mid] show ?thesis by (auto simp: mark_in_custody_def intro: map_prod_flag)
next
  case (OpRelease mid)
  with update_law [OF assms(1) same_key_updates(1) [where b = False and at = 0], of mid] show ?thesis by (auto simp: mark_not_in_custody_def intro: map_prod_flag)
next
  case (OpSent mid)
  with update_law [OF assms(1) same_key_updates(2) [of Sent], of mid] show ?thesis by (auto simp: mark_sent_def intro: map_prod_flag)
next
  case (OpFailed mid)
  with update_law [OF assms(1) same_key_updates(2) [of Failed], of mid] show ?thesis by (auto simp: mark_failed_def intro: map_prod_flag)
next
  case (OpFlush now_ms rid)
  with flush_law [OF assms(1), of rid now_ms] assms(2) show ?thesis by (auto simp: spec_take_def)
next
  case (OpExpire now max_age)
  with expire_law [OF assms(1), of now max_age] show ?thesis by auto
qed

lemma run_refines:
  "inv ob \<Longrightarrow> admissible xs (held ob) \<Longrightarrow>
   \<exists>rs ob'. outbox_run L xs ob = (rs, ob') \<and> inv ob' \<and> (rs, held ob') = spec_run xs (held ob)"
proof (induction xs arbitrary: ob)
  case (Cons x xs)
  obtain r ob1 where s: "outbox_step L x ob = (r, ob1)" "inv ob1" "spec_step x (held ob) = (r, held ob1)"
    using step_refines [OF Cons.prems(1), of x] Cons.prems(2) by force
  with Cons.IH [OF s(2)] Cons.prems(2) obtain rs ob2 where
    "outbox_run L xs ob1 = (rs, ob2)" "inv ob2" "spec_run xs (held ob1) = (rs, held ob2)" by force
  with s show ?case by auto
qed simp

end

section \<open>Queues in memory\<close>

definition queued :: "queues \<Rightarrow> queued_message list" where
  "queued queues = concat (map snd queues)"

definition memory_held :: "('s, 'm) outbox \<Rightarrow> queued_message set" where
  "memory_held ob = (case ob_backend ob of Memory queues tot \<Rightarrow> set (queued queues) | Persistent db \<Rightarrow> {})"

definition queues_wf :: "queues \<Rightarrow> bool" where
  "queues_wf queues \<longleftrightarrow> hm_wf queues \<and> (\<forall>(rid, q) \<in> set queues. \<forall>m \<in> set q. qm_recipient_id m = rid)
     \<and> distinct (map qm_message_id (queued queues)) \<and> (\<forall>m \<in> set (queued queues). acceptable m)"

definition memory_inv :: "('s, 'm) outbox \<Rightarrow> bool" where
  "memory_inv ob \<longleftrightarrow> (case ob_backend ob of
     Memory queues tot \<Rightarrow> queues_wf queues \<and> tot = length (queued queues) | Persistent db \<Rightarrow> False)"

lemma queued_simps [simp]: "queued [] = []" "queued ((rid, q) # qs) = q @ queued qs" "queued (xs @ ys) = queued xs @ queued ys"
  by (simp_all add: queued_def)

lemma queues_wf_Cons:
  "queues_wf ((rid, q) # qs) \<longleftrightarrow> rid \<notin> fst ` set qs \<and> (\<forall>m \<in> set q. qm_recipient_id m = rid \<and> acceptable m)
     \<and> distinct (map qm_message_id q) \<and> qm_message_id ` set q \<inter> qm_message_id ` set (queued qs) = {} \<and> queues_wf qs"
  by (auto simp: queues_wf_def)

lemma queues_wf_Nil [simp]: "queues_wf []"
  by (simp add: queues_wf_def)

lemma queued_recipient: "queues_wf queues \<Longrightarrow> m \<in> set (queued queues) \<Longrightarrow> qm_recipient_id m \<in> fst ` set queues"
  by (induction queues) (auto simp: queues_wf_Cons)

lemma absent_id:
  assumes "\<forall>m \<in> set q. \<not> has_id mid m"
  shows "filter (\<lambda>m. \<not> has_id mid m) q = q" "map (\<lambda>m. if has_id mid m then f m else m) q = q"
  using assms by (simp_all add: filter_id_conv map_idI)

lemma absent_queues:
  "\<forall>m \<in> set (queued queues). \<not> has_id mid m \<Longrightarrow> map (\<lambda>(rid, q). (rid, filter (\<lambda>m. \<not> has_id mid m) q)) queues = queues"
  "\<forall>m \<in> set (queued queues). \<not> has_id mid m \<Longrightarrow>
     map (\<lambda>(rid, q). (rid, map (\<lambda>m. if has_id mid m then f m else m) q)) queues = queues"
  by (induction queues) (auto simp: absent_id)

text \<open>With distinct identifiers, acting on the first match is acting on every match.\<close>

lemma distinct_absent: "distinct (map qm_message_id (m # q)) \<Longrightarrow> has_id mid m \<Longrightarrow> \<forall>x \<in> set q. \<not> has_id mid x"
  by (auto simp: has_id_def image_iff)

lemma on_first_remove:
  "distinct (map qm_message_id q) \<Longrightarrow> on_first mid (\<lambda>_. None) q = filter (\<lambda>m. \<not> has_id mid m) q"
proof (induction q)
  case (Cons m q)
  then show ?case using distinct_absent [of m q mid] by (simp add: absent_id)
qed simp

lemma on_first_update:
  "distinct (map qm_message_id q) \<Longrightarrow> on_first mid (\<lambda>m. Some (f m)) q = map (\<lambda>m. if has_id mid m then f m else m) q"
proof (induction q)
  case (Cons m q)
  then show ?case using distinct_absent [of m q mid] by (simp add: absent_id)
qed simp

lemma wf_absent_rest:
  "queues_wf ((rid, q) # qs) \<Longrightarrow> \<exists>m \<in> set q. has_id mid m \<Longrightarrow> \<forall>m \<in> set (queued qs). \<not> has_id mid m"
  unfolding queues_wf_Cons has_id_def by blast

lemma on_queues_remove:
  "queues_wf queues \<Longrightarrow> on_queues mid (\<lambda>_. None) queues = map (\<lambda>(rid, q). (rid, filter (\<lambda>m. \<not> has_id mid m) q)) queues"
proof (induction queues)
  case (Cons p qs)
  obtain rid q where p: "p = (rid, q)" by (cases p)
  show ?case
  proof (cases "\<exists>m \<in> set q. has_id mid m")
    case True
    then have "List.find (has_id mid) q \<noteq> None" by (auto simp: find_None_iff)
    with True Cons.prems wf_absent_rest [of rid q qs mid] show ?thesis
      by (simp add: p queues_wf_Cons on_first_remove absent_queues)
  next
    case False
    then have "List.find (has_id mid) q = None" by (simp add: find_None_iff)
    with False Cons show ?thesis by (simp add: p queues_wf_Cons absent_id)
  qed
qed simp

lemma on_queues_update:
  "queues_wf queues \<Longrightarrow>
   on_queues mid (\<lambda>m. Some (f m)) queues = map (\<lambda>(rid, q). (rid, map (\<lambda>m. if has_id mid m then f m else m) q)) queues"
proof (induction queues)
  case (Cons p qs)
  obtain rid q where p: "p = (rid, q)" by (cases p)
  show ?case
  proof (cases "\<exists>m \<in> set q. has_id mid m")
    case True
    then have "List.find (has_id mid) q \<noteq> None" by (auto simp: find_None_iff)
    with True Cons.prems wf_absent_rest [of rid q qs mid] show ?thesis
      by (simp add: p queues_wf_Cons on_first_update absent_queues)
  next
    case False
    then have "List.find (has_id mid) q = None" by (simp add: find_None_iff)
    with False Cons show ?thesis by (simp add: p queues_wf_Cons absent_id)
  qed
qed simp

lemma queues_wf_map:
  assumes "queues_wf queues" and "\<And>rid q m. (rid, q) \<in> set queues \<Longrightarrow> m \<in> set (g q) \<Longrightarrow> qm_recipient_id m = rid"
    and "distinct (map qm_message_id (queued (map (\<lambda>(rid, q). (rid, g q)) queues)))"
    and "\<And>m. m \<in> set (queued (map (\<lambda>(rid, q). (rid, g q)) queues)) \<Longrightarrow> acceptable m"
  shows "queues_wf (map (\<lambda>(rid, q). (rid, g q)) queues)"
proof -
  have "distinct (map fst (map (\<lambda>(rid, q). (rid, g q)) queues))"
    using assms(1) by (simp add: queues_wf_def hm_wf_def comp_def split_def)
  moreover have "\<forall>(rid, q) \<in> set (map (\<lambda>(rid, q). (rid, g q)) queues). \<forall>m \<in> set q. qm_recipient_id m = rid"
    using assms(2) by auto
  ultimately show ?thesis using assms(3,4) unfolding queues_wf_def hm_wf_def by blast
qed

lemma queues_recipient: "queues_wf queues \<Longrightarrow> (rid, q) \<in> set queues \<Longrightarrow> m \<in> set q \<Longrightarrow> qm_recipient_id m = rid"
  by (auto simp: queues_wf_def)

lemma queues_wf_map_update:
  assumes "queues_wf queues" and "same_key f"
  shows "queues_wf (map (\<lambda>(rid, q). (rid, map (\<lambda>m. if has_id mid m then f m else m) q)) queues)"
    and "queued (map (\<lambda>(rid, q). (rid, map (\<lambda>m. if has_id mid m then f m else m) q)) queues)
      = map (\<lambda>m. if has_id mid m then f m else m) (queued queues)"
proof -
  let ?g = "\<lambda>m. if has_id mid m then f m else m"
  show q: "queued (map (\<lambda>(rid, q). (rid, map ?g q)) queues) = map ?g (queued queues)"
    by (induction queues) auto
  have g: "qm_message_id (?g m) = qm_message_id m" "qm_recipient_id (?g m) = qm_recipient_id m"
    "acceptable (?g m) = acceptable m" for m
    using assms(2) by (auto simp: same_key_def acceptable_def)
  show "queues_wf (map (\<lambda>(rid, q). (rid, map ?g q)) queues)"
  proof (rule queues_wf_map [OF assms(1)])
    show "qm_recipient_id m = rid" if "(rid, q) \<in> set queues" "m \<in> set (map ?g q)" for rid q m
    proof -
      from that(2) obtain x where "x \<in> set q" "m = ?g x" unfolding set_map by (rule imageE)
      with queues_recipient [OF assms(1) that(1)] show ?thesis by (simp only: g)
    qed
    have "qm_message_id \<circ> ?g = qm_message_id" using g(1) by (simp only: fun_eq_iff comp_def simp_thms)
    then show "distinct (map qm_message_id (queued (map (\<lambda>(rid, q). (rid, map ?g q)) queues)))"
      using assms(1) unfolding q map_map by (simp add: queues_wf_def)
    show "acceptable m" if "m \<in> set (queued (map (\<lambda>(rid, q). (rid, map ?g q)) queues))" for m
    proof -
      from that obtain x where "x \<in> set (queued queues)" "m = ?g x" unfolding q set_map by (rule imageE)
      with assms(1) show ?thesis by (simp only: g queues_wf_def)
    qed
  qed
qed

text \<open>Keeping only some of the messages, and then only the queues that are not empty.\<close>

lemma queues_wf_filter:
  assumes "queues_wf queues"
  shows "queues_wf (map (\<lambda>(rid, q). (rid, filter P q)) queues)"
    and "queued (map (\<lambda>(rid, q). (rid, filter P q)) queues) = filter P (queued queues)"
proof -
  show q: "queued (map (\<lambda>(rid, q). (rid, filter P q)) queues) = filter P (queued queues)"
    by (induction queues) auto
  show "queues_wf (map (\<lambda>(rid, q). (rid, filter P q)) queues)"
    using assms by (intro queues_wf_map) (auto simp: q queues_wf_def distinct_map_filter)
qed

lemma queues_wf_drop_empty:
  assumes "queues_wf queues"
  shows "queues_wf (filter (\<lambda>(rid, q). q \<noteq> []) queues)" and "queued (filter (\<lambda>(rid, q). q \<noteq> []) queues) = queued queues"
proof -
  show q: "queued (filter (\<lambda>(rid, q). q \<noteq> []) queues) = queued queues"
    by (induction queues) auto
  show "queues_wf (filter (\<lambda>(rid, q). q \<noteq> []) queues)"
    using assms unfolding queues_wf_def q by auto
qed

lemma queues_wf_inj: "queues_wf queues \<Longrightarrow> inj_on qm_message_id (set (queued queues))"
  by (simp add: queues_wf_def distinct_map)

lemma queues_wf_distinct: "queues_wf queues \<Longrightarrow> distinct (queued queues)"
  by (simp add: queues_wf_def distinct_map)

lemma queues_wf_card: "queues_wf queues \<Longrightarrow> card (set (queued queues)) = length (queued queues)"
  by (simp add: distinct_card queues_wf_distinct)

text \<open>The queue of a recipient holds exactly the queued messages for it.\<close>

lemma queue_of_set: "queues_wf queues \<Longrightarrow> set (queue_of rid queues) = {m \<in> set (queued queues). qm_recipient_id m = rid}"
proof (induction queues)
  case (Cons p qs)
  obtain r q where p: "p = (r, q)" by (cases p)
  from Cons.prems have wf: "queues_wf qs" "r \<notin> fst ` set qs" and q: "\<And>m. m \<in> set q \<Longrightarrow> qm_recipient_id m = r"
    by (auto simp: p queues_wf_Cons)
  have none: "qm_recipient_id m \<noteq> r" if "m \<in> set (queued qs)" for m
    using queued_recipient [OF wf(1) that] wf(2) by auto
  have "queue_of rid ((r, q) # qs) = (if rid = r then q else queue_of rid qs)" by (auto simp: queue_of_def)
  then show ?case using Cons.IH [OF wf(1)] q none by (auto simp: p)
qed (simp add: queue_of_def)

lemma queue_of_distinct: "queues_wf queues \<Longrightarrow> distinct (queue_of rid queues)"
proof (induction queues)
  case (Cons p qs)
  then show ?case by (cases p) (auto simp: queues_wf_Cons queue_of_def distinct_map split: option.splits)
qed (simp add: queue_of_def)

text \<open>Replacing or removing the queue of a recipient.\<close>

lemma queued_insert:
  "length (queued (hm_insert rid q' queues)) + length (queue_of rid queues) = length (queued queues) + length q'"
  by (induction queues) (auto simp: queue_of_def split: option.splits)

lemma queues_wf_insert:
  assumes "queues_wf queues" and "\<forall>m \<in> set q'. qm_recipient_id m = rid \<and> acceptable m" and "distinct (map qm_message_id q')"
    and "\<And>m x. m \<in> set q' \<Longrightarrow> x \<in> set (queued queues) \<Longrightarrow> qm_recipient_id x \<noteq> rid \<Longrightarrow> qm_message_id x \<noteq> qm_message_id m"
  shows "queues_wf (hm_insert rid q' queues)
    \<and> set (queued (hm_insert rid q' queues)) = {x \<in> set (queued queues). qm_recipient_id x \<noteq> rid} \<union> set q'"
  using assms(1,4)
proof (induction queues)
  case Nil
  then show ?case using assms(2,3) by (simp add: queues_wf_Cons)
next
  case (Cons p qs)
  obtain r q where p: "p = (r, q)" by (cases p)
  from Cons.prems(1) have wf: "queues_wf qs" "r \<notin> fst ` set qs" and q: "\<forall>m \<in> set q. qm_recipient_id m = r \<and> acceptable m"
    and d: "distinct (map qm_message_id q)" "qm_message_id ` set q \<inter> qm_message_id ` set (queued qs) = {}"
    by (auto simp: p queues_wf_Cons)
  have rest: "\<forall>m \<in> set (queued qs). qm_recipient_id m \<noteq> r"
    using queued_recipient [OF wf(1)] wf(2) by auto
  show ?case
  proof (cases "rid = r")
    case True
    have "qm_message_id ` set q' \<inter> qm_message_id ` set (queued qs) = {}"
      using Cons.prems(2) rest by (fastforce simp: p True)
    then show ?thesis using assms(2,3) wf q rest by (auto simp: p True queues_wf_Cons)
  next
    case False
    have IH: "queues_wf (hm_insert rid q' qs)"
      "set (queued (hm_insert rid q' qs)) = {x \<in> set (queued qs). qm_recipient_id x \<noteq> rid} \<union> set q'"
      using Cons.IH [OF wf(1)] Cons.prems(2) by (simp_all add: p)
    have "qm_message_id ` set q \<inter> qm_message_id ` set (queued (hm_insert rid q' qs)) = {}"
      using d(2) Cons.prems(2) q False unfolding IH(2) p by fastforce
    moreover have "r \<notin> fst ` set (hm_insert rid q' qs)" using wf(2) False by (simp add: dom_update)
    ultimately show ?thesis using IH q d(1) False by (auto simp: p queues_wf_Cons)
  qed
qed

lemma queued_remove:
  assumes "queues_wf queues"
  shows "length (queued (hm_remove rid queues)) + length (queue_of rid queues) = length (queued queues)
    \<and> queues_wf (hm_remove rid queues)
    \<and> set (queued (hm_remove rid queues)) = {x \<in> set (queued queues). qm_recipient_id x \<noteq> rid}"
  using assms
proof (induction queues)
  case (Cons p qs)
  obtain r q where p: "p = (r, q)" by (cases p)
  from Cons.prems have wf: "queues_wf qs" "r \<notin> fst ` set qs" and q: "\<forall>m \<in> set q. qm_recipient_id m = r \<and> acceptable m"
    and d: "distinct (map qm_message_id q)" "qm_message_id ` set q \<inter> qm_message_id ` set (queued qs) = {}"
    by (auto simp: p queues_wf_Cons)
  note IH = Cons.IH [OF wf(1)]
  show ?case
  proof (cases "rid = r")
    case True
    then have "hm_get qs rid = None" using wf(2) by (simp add: map_of_eq_None_iff)
    then have "hm_remove rid qs = qs" "queue_of rid qs = []"
      using wf(2) True by (simp_all add: queue_of_def)
    with IH q wf(1) show ?thesis by (auto simp: p True queue_of_def AList.delete_eq)
  next
    case False
    have "queue_of rid (p # qs) = queue_of rid qs" using False by (simp add: p queue_of_def)
    moreover have "r \<notin> fst ` set (hm_remove rid qs)" using wf(2) by (auto simp: hm_remove_filter)
    ultimately show ?thesis using IH q d False by (auto simp: p queues_wf_Cons)
  qed
qed (simp add: queue_of_def)

subsection \<open>The queues in memory meet the contract\<close>

lemma memory_inv_cases:
  assumes "memory_inv ob"
  obtains queues where "ob_backend ob = Memory queues (length (queued queues))" "queues_wf queues"
    "memory_held ob = set (queued queues)"
  using assms that by (auto simp: memory_inv_def memory_held_def split: outbox_backend.splits)

lemma memory_inv_update [simp]:
  "memory_inv (ob\<lparr>ob_backend := Memory queues n\<rparr>) \<longleftrightarrow> queues_wf queues \<and> n = length (queued queues)"
  "memory_held (ob\<lparr>ob_backend := Memory queues n\<rparr>) = set (queued queues)"
  by (simp_all add: memory_inv_def memory_held_def)

lemma trigger_maintenance_simps [simp]:
  "memory_inv (trigger_maintenance L ob) = memory_inv ob" "memory_held (trigger_maintenance L ob) = memory_held ob"
  "ob_backend (trigger_maintenance L ob) = ob_backend ob"
  by (simp_all add: trigger_maintenance_def memory_inv_def memory_held_def)

lemma find_SomeD: "List.find P xs = Some x \<Longrightarrow> x \<in> set xs \<and> P x"
  by (auto simp: find_Some_iff)

lemma find_unique:
  assumes "inj_on qm_message_id (set ms)"
  shows "List.find (has_id mid) ms = Some m \<longleftrightarrow> m \<in> set ms \<and> has_id mid m"
proof
  assume "List.find (has_id mid) ms = Some m"
  then show "m \<in> set ms \<and> has_id mid m" by (rule find_SomeD)
next
  assume m: "m \<in> set ms \<and> has_id mid m"
  then obtain x where x: "List.find (has_id mid) ms = Some x" by (cases "List.find (has_id mid) ms") (auto simp: find_None_iff)
  then have "x \<in> set ms" "has_id mid x" by (auto dest: find_SomeD)
  with m assms have "x = m" by (auto simp: has_id_def inj_on_def)
  with x show "List.find (has_id mid) ms = Some m" by simp
qed

lemma memory_enqueue:
  assumes "memory_inv ob" and "acceptable m" and "fresh_in m (memory_held ob)"
  shows "\<exists>r ob'. enqueue L m ob = (r, ob') \<and> memory_inv ob' \<and> (is_ok r, memory_held ob') = spec_enqueue m (memory_held ob)"
proof -
  obtain queues where ob: "ob_backend ob = Memory queues (length (queued queues))" and wf: "queues_wf queues"
    and held: "memory_held ob = set (queued queues)" using assms(1) by (rule memory_inv_cases)
  let ?rid = "qm_recipient_id m" and ?q = "queue_of (qm_recipient_id m) queues"
  have q: "set ?q = {x \<in> set (queued queues). qm_recipient_id x = ?rid}" "distinct ?q"
    using wf by (simp_all add: queue_of_set queue_of_distinct)
  have card: "card {x \<in> set (queued queues). qm_recipient_id x = ?rid} = length ?q"
    using distinct_card [OF q(2)] by (simp add: q(1))
  have fresh: "\<forall>x \<in> set (queued queues). qm_message_id x \<noteq> qm_message_id m"
    using assms(3) by (simp add: fresh_in_def held has_id_def)
  have inj: "inj_on qm_message_id (set (queued queues))" using wf by (rule queues_wf_inj)
  have same: "queues_wf (hm_insert ?rid ?q queues) \<and> set (queued (hm_insert ?rid ?q queues)) = set (queued queues)
      \<and> length (queued (hm_insert ?rid ?q queues)) = length (queued queues)"
  proof -
    have "queues_wf (hm_insert ?rid ?q queues)
      \<and> set (queued (hm_insert ?rid ?q queues)) = {x \<in> set (queued queues). qm_recipient_id x \<noteq> ?rid} \<union> set ?q"
    proof (rule queues_wf_insert [OF wf])
      show "\<forall>m' \<in> set ?q. qm_recipient_id m' = ?rid \<and> acceptable m'" using wf by (auto simp: q(1) queues_wf_def)
      show "distinct (map qm_message_id ?q)" using q inj by (simp add: distinct_map inj_on_def)
    qed (use inj q(1) in \<open>auto simp: inj_on_def\<close>)
    with queued_insert [of ?rid ?q queues] show ?thesis by (auto simp: q(1))
  qed
  have added: "queues_wf (hm_insert ?rid (?q @ [m]) queues) \<and> set (queued (hm_insert ?rid (?q @ [m]) queues)) = insert m (set (queued queues))
      \<and> length (queued (hm_insert ?rid (?q @ [m]) queues)) = length (queued queues) + 1"
  proof -
    have "queues_wf (hm_insert ?rid (?q @ [m]) queues)
      \<and> set (queued (hm_insert ?rid (?q @ [m]) queues)) = {x \<in> set (queued queues). qm_recipient_id x \<noteq> ?rid} \<union> set (?q @ [m])"
    proof (rule queues_wf_insert [OF wf])
      show "\<forall>m' \<in> set (?q @ [m]). qm_recipient_id m' = ?rid \<and> acceptable m'" using wf assms(2) by (auto simp: q(1) queues_wf_def)
      show "distinct (map qm_message_id (?q @ [m]))" using q inj fresh by (auto simp: distinct_map inj_on_def)
    qed (use inj q(1) fresh in \<open>auto simp: inj_on_def\<close>)
    with queued_insert [of ?rid "?q @ [m]" queues] show ?thesis by (auto simp: q(1))
  qed
  show ?thesis
    using wf same added by (simp add: enqueue_def ob enqueue_memory_def spec_enqueue_def held card queues_wf_card [OF wf] Let_def)
qed

lemma memory_find:
  "memory_inv ob \<Longrightarrow> find_message L mid ob = Some m \<longleftrightarrow> m \<in> memory_held ob \<and> has_id mid m"
  by (erule memory_inv_cases)
    (simp add: find_message_def find_queued_def find_unique queues_wf_inj flip: queued_def)

lemma find_queued_None: "find_queued mid queues = None \<longleftrightarrow> (\<forall>m \<in> set (queued queues). \<not> has_id mid m)"
  by (auto simp: find_queued_def find_None_iff simp flip: queued_def)

lemma memory_update:
  assumes "memory_inv ob" and "same_key f"
  shows "\<exists>b ob'. update_message L mid f ob = (b, ob') \<and> memory_inv ob' \<and> (b, memory_held ob') = spec_update mid f (memory_held ob)"
proof -
  obtain queues where ob: "ob_backend ob = Memory queues (length (queued queues))" and wf: "queues_wf queues"
    and held: "memory_held ob = set (queued queues)" using assms(1) by (rule memory_inv_cases)
  show ?thesis
  proof (cases "find_queued mid queues")
    case None
    then have "spec_update mid f (set (queued queues)) = (False, set (queued queues))"
      by (intro spec_absent) (simp add: find_queued_None)
    then show ?thesis using None assms(1) by (auto simp: update_message_def ob held)
  next
    case (Some m)
    then have ex: "\<exists>m \<in> set (queued queues). has_id mid m" using find_queued_None [of mid queues] by auto
    let ?qs = "map (\<lambda>(rid, q). (rid, map (\<lambda>m. if has_id mid m then f m else m) q)) queues"
    have "update_message L mid f ob = (True, ob\<lparr>ob_backend := Memory ?qs (length (queued queues))\<rparr>)"
      by (simp only: update_message_def ob outbox_backend.case Some option.case on_queues_update [OF wf])
    moreover have "memory_inv (ob\<lparr>ob_backend := Memory ?qs (length (queued queues))\<rparr>)"
      using queues_wf_map_update [OF wf assms(2), of mid] by (simp only: memory_inv_update length_map simp_thms)
    moreover have "(True, memory_held (ob\<lparr>ob_backend := Memory ?qs (length (queued queues))\<rparr>)) = spec_update mid f (memory_held ob)"
      using ex by (simp only: memory_inv_update queues_wf_map_update [OF wf assms(2)] spec_update_def held set_map simp_thms)
    ultimately show ?thesis by blast
  qed
qed

lemma memory_remove:
  assumes "memory_inv ob"
  shows "\<exists>b ob'. Outbox_remove L mid ob = (b, ob') \<and> memory_inv ob' \<and> (b, memory_held ob') = spec_remove mid (memory_held ob)"
proof -
  obtain queues where ob: "ob_backend ob = Memory queues (length (queued queues))" and wf: "queues_wf queues"
    and held: "memory_held ob = set (queued queues)" using assms(1) by (rule memory_inv_cases)
  show ?thesis
  proof (cases "find_queued mid queues")
    case None
    then have "spec_remove mid (set (queued queues)) = (False, set (queued queues))"
      by (intro spec_absent) (simp add: find_queued_None)
    then show ?thesis using None assms(1) by (auto simp: Outbox_remove_def ob held)
  next
    case (Some m)
    then have m: "m \<in> set (queued queues)" "has_id mid m"
      using find_unique [OF queues_wf_inj [OF wf], of mid m] by (simp_all add: find_queued_def flip: queued_def)
    have kept: "set (filter (\<lambda>x. \<not> has_id mid x) (queued queues)) = set (queued queues) - {m}"
      using inj_on_id [OF queues_wf_inj [OF wf] m(1)] m(2) by (auto simp: has_id_def)
    then have "length (filter (\<lambda>x. \<not> has_id mid x) (queued queues)) = length (queued queues) - 1"
      using distinct_card [of "filter (\<lambda>x. \<not> has_id mid x) (queued queues)"] queues_wf_distinct [OF wf] m(1) queues_wf_card [OF wf]
      by simp
    then show ?thesis
      using queues_wf_filter [OF wf, of "\<lambda>x. \<not> has_id mid x"] m Some
      by (auto simp: Outbox_remove_def ob on_queues_remove [OF wf] held spec_remove_def)
  qed
qed

lemma memory_flush:
  assumes "memory_inv ob"
  shows "\<exists>ms ob'. flush_peer_messages L now_ms rid ob = (ms, ob') \<and> memory_inv ob'
     \<and> distinct ms \<and> (set ms, memory_held ob') = spec_take (due_for now_ms rid) (memory_held ob)"
proof -
  obtain queues where ob: "ob_backend ob = Memory queues (length (queued queues))" and wf: "queues_wf queues"
    and held: "memory_held ob = set (queued queues)" using assms(1) by (rule memory_inv_cases)
  note q = queue_of_set [OF wf, of rid] queue_of_distinct [OF wf, of rid]
  show ?thesis
  proof (cases "hm_get queues rid")
    case None
    then have "queue_of rid queues = []" by (simp add: queue_of_def)
    then have "qm_recipient_id m \<noteq> rid" if "m \<in> set (queued queues)" for m using q(1) that by auto
    then show ?thesis using None assms
      by (auto simp: flush_peer_messages_def ob held spec_take_def due_for_def)
  next
    case (Some queue)
    then have queue: "queue = queue_of rid queues" by (simp add: queue_of_def)
    let ?out = "filter (deliverable now_ms) queue" and ?rest = "filter (\<lambda>m. \<not> deliverable now_ms m) queue"
    have len: "length ?out + length ?rest = length queue" by (rule sum_length_filter_compl)
    have part: "{m \<in> set (queued queues). \<not> due_for now_ms rid m} = {x \<in> set (queued queues). qm_recipient_id x \<noteq> rid} \<union> set ?rest"
      "{m \<in> set (queued queues). due_for now_ms rid m} = set ?out"
      using q(1) by (auto simp: due_for_def queue)
    have rest: "queues_wf (hm_insert rid ?rest queues)
      \<and> set (queued (hm_insert rid ?rest queues)) = {x \<in> set (queued queues). qm_recipient_id x \<noteq> rid} \<union> set ?rest"
    proof (rule queues_wf_insert [OF wf])
      show "\<forall>m \<in> set ?rest. qm_recipient_id m = rid \<and> acceptable m" using wf q(1) by (auto simp: queue queues_wf_def)
      show "distinct (map qm_message_id ?rest)"
        using q queues_wf_inj [OF wf] by (auto simp: queue distinct_map inj_on_def)
    qed (use queues_wf_inj [OF wf] q(1) in \<open>auto simp: queue inj_on_def\<close>)
    have rm: "length (queued (hm_remove rid queues)) + length queue = length (queued queues)"
      using queued_remove [OF wf, of rid] by (simp add: queue)
    have n: "length (queued queues) - length ?out = length (queued (hm_insert rid ?rest queues))"
      using queued_insert [of rid ?rest queues] len by (simp only: queue)
    have n': "length (queued queues) - length ?out = length (queued (hm_remove rid queues))" if "?rest = []"
      using rm len unfolding that by simp
    let ?qs = "if ?rest = [] then hm_remove rid queues else hm_insert rid ?rest queues"
    have res: "flush_peer_messages L now_ms rid ob = (?out, ob\<lparr>ob_backend := Memory ?qs (length (queued queues) - length ?out)\<rparr>)"
      by (simp add: flush_peer_messages_def ob Some Let_def)
    have "queues_wf ?qs \<and> length (queued queues) - length ?out = length (queued ?qs)
      \<and> set (queued ?qs) = {m \<in> set (queued queues). \<not> due_for now_ms rid m}"
    proof (cases "?rest = []")
      case True
      then show ?thesis using n' [OF True] queued_remove [OF wf, of rid] unfolding part(1) True by simp
    next
      case False
      then show ?thesis using n rest unfolding part(1) by (simp only: if_False simp_thms)
    qed
    moreover have "distinct ?out" using q(2) by (simp add: queue)
    ultimately show ?thesis unfolding res memory_inv_update held spec_take_def part(2) by auto
  qed
qed

lemma queued_length: "sum_list (map (length \<circ> snd) queues) = length (queued queues)"
  by (induction queues) auto

lemma memory_expire:
  assumes "memory_inv ob"
  shows "\<exists>n ob'. Outbox_remove_expired L now max_age ob = (n, ob') \<and> memory_inv ob'
     \<and> n = card {m \<in> memory_held ob. too_old now max_age m} \<and> memory_held ob' = {m \<in> memory_held ob. \<not> too_old now max_age m}"
proof -
  obtain queues where ob: "ob_backend ob = Memory queues (length (queued queues))" and wf: "queues_wf queues"
    and held: "memory_held ob = set (queued queues)" using assms(1) by (rule memory_inv_cases)
  let ?kept = "map (\<lambda>(rid, q). (rid, filter (\<lambda>m. \<not> too_old now max_age m) q)) queues"
  note kept = queues_wf_filter [OF wf, of "\<lambda>m. \<not> too_old now max_age m"]
  note dropped = queues_wf_drop_empty [OF kept(1)]
  have "card {m \<in> set (queued queues). too_old now max_age m} = length (filter (too_old now max_age) (queued queues))"
    using distinct_card [of "filter (too_old now max_age) (queued queues)"] queues_wf_distinct [OF wf] by simp
  moreover have "length (filter (too_old now max_age) (queued queues)) + length (queued ?kept) = length (queued queues)"
    by (simp only: kept(2) sum_length_filter_compl)
  ultimately show ?thesis
    using dropped kept
    by (auto simp: Outbox_remove_expired_def ob held queued_length Let_def)
qed

interpretation in_memory: outbox_contract L memory_held memory_inv for L :: "('s, 'm) outbox_libs"
proof
  fix ob :: "('s, 'm) outbox" and m :: queued_message and mid rid :: string and f now_ms now max_age
  assume inv: "memory_inv ob"
  from inv show "finite (memory_held ob) \<and> inj_on qm_message_id (memory_held ob) \<and> (\<forall>m \<in> memory_held ob. acceptable m)"
    by (rule memory_inv_cases) (simp add: queues_wf_inj queues_wf_def)
  from inv show "total_count L ob = card (memory_held ob)"
    by (rule memory_inv_cases) (simp add: total_count_def queues_wf_card)
qed (simp_all add: memory_enqueue memory_find memory_update memory_remove memory_flush memory_expire)

end
