(* ===== verification/Outbox_Stored.thy ===== *)
theory Outbox_Stored
  imports Outbox_Refinement Sample_Codec
begin

text \<open>
  The persistent outbox meets the contract of the outbox: the entries under the prefix \<open>outbox_\<close> of
  the storage backend are the serialized messages under their keys.
\<close>

section \<open>Keys\<close>

text \<open>Bincode writes the version byte first, and reads back what it wrote.\<close>

definition bincode_queued :: "('s, 'm) outbox_libs \<Rightarrow> bool" where
  "bincode_queued L \<longleftrightarrow> (\<forall>m. qm_version m = 1 \<longrightarrow>
     (\<exists>bs. ol_serialize L m = Inr (1 # bs) \<and> ol_deserialize L (1 # bs) = Inr m))"

definition wire :: "('s, 'm) outbox_libs \<Rightarrow> queued_message \<Rightarrow> bytes" where
  "wire L m = (case ol_serialize L m of Inr bs \<Rightarrow> bs | Inl _ \<Rightarrow> [])"

lemma wireD:
  assumes "bincode_queued L" and "acceptable m"
  shows "ol_serialize L m = Inr (wire L m)" "deserialize_queued_message L (wire L m) = Some m"
  using assms by (auto simp: bincode_queued_def acceptable_def wire_def deserialize_queued_message_def)

lemma starts_with_as_bytes [simp]: "starts_with (as_bytes s) (as_bytes p) = starts_with s p"
  by (induction s p rule: starts_with.induct) (simp_all add: as_bytes_def char_byte_inj)

lemma queue_key_string: "queue_key m = as_bytes (''outbox_'' @ qm_recipient_id m @ ''_'' @ qm_message_id m)"
  "peer_prefix rid = as_bytes (''outbox_'' @ rid @ ''_'')"
  by (simp_all only: queue_key_def peer_prefix_def QUEUE_PREFIX_def as_bytes_append)

lemma queue_key_prefix [simp]: "starts_with (queue_key m) QUEUE_PREFIX"
  by (simp add: queue_key_def)

text \<open>The recipient of a key is what stands before the first underscore after the prefix.\<close>

lemma underscore_split:
  "c \<notin> set r \<Longrightarrow> c \<notin> set r' \<Longrightarrow> r @ c # x = r' @ c # y \<longleftrightarrow> r = r' \<and> x = y"
proof (induction r arbitrary: r')
  case Nil
  then show ?case by (cases r') auto
next
  case (Cons a r)
  then show ?case by (cases r') auto
qed

lemma queue_key_inj:
  "acceptable m \<Longrightarrow> acceptable x \<Longrightarrow> queue_key m = queue_key x \<Longrightarrow>
   qm_recipient_id m = qm_recipient_id x \<and> qm_message_id m = qm_message_id x"
  by (simp add: queue_key_string acceptable_def underscore_split)

lemma peer_prefix_iff:
  "acceptable m \<Longrightarrow> CHR ''_'' \<notin> set rid \<Longrightarrow> starts_with (queue_key m) (peer_prefix rid) \<longleftrightarrow> qm_recipient_id m = rid"
  by (simp only: queue_key_string starts_with_as_bytes) (auto simp: starts_with_iff acceptable_def underscore_split)

section \<open>The content of the backend\<close>

definition stores :: "('s, 'm) outbox_libs \<Rightarrow> queued_message set \<Rightarrow> (bytes \<rightharpoonup> bytes) \<Rightarrow> bool" where
  "stores L S c \<longleftrightarrow> (\<forall>k v. starts_with k QUEUE_PREFIX \<longrightarrow> (c k = Some v \<longleftrightarrow> (\<exists>m \<in> S. k = queue_key m \<and> v = wire L m)))
     \<and> finite S \<and> inj_on qm_message_id S \<and> (\<forall>m \<in> S. acceptable m)"

definition stored_in :: "('s, 'm) outbox_libs \<Rightarrow> (bytes \<rightharpoonup> bytes) \<Rightarrow> queued_message set" where
  "stored_in L c = {m. \<exists>k v. starts_with k QUEUE_PREFIX \<and> c k = Some v \<and> deserialize_queued_message L v = Some m}"

lemma storesD:
  assumes "stores L S c"
  shows "starts_with k QUEUE_PREFIX \<Longrightarrow> c k = Some v \<longleftrightarrow> (\<exists>m \<in> S. k = queue_key m \<and> v = wire L m)"
    and "finite S" and "inj_on qm_message_id S" and "m \<in> S \<Longrightarrow> acceptable m"
  using assms by (simp_all add: stores_def)

lemma stores_stored_in:
  assumes "bincode_queued L" and "stores L S c"
  shows "stored_in L c = S"
proof (rule set_eqI, rule iffI)
  fix m assume "m \<in> stored_in L c"
  then obtain k v where kv: "starts_with k QUEUE_PREFIX" "c k = Some v" "deserialize_queued_message L v = Some m"
    unfolding stored_in_def by blast
  then obtain x where "x \<in> S" "v = wire L x" using storesD(1) [OF assms(2)] by blast
  with kv(3) wireD(2) [OF assms(1) storesD(4) [OF assms(2)]] show "m \<in> S" by auto
next
  fix m assume m: "m \<in> S"
  then have "c (queue_key m) = Some (wire L m)" using storesD(1) [OF assms(2) queue_key_prefix] by blast
  then show "m \<in> stored_in L c"
    using wireD(2) [OF assms(1) storesD(4) [OF assms(2) m]] queue_key_prefix unfolding stored_in_def by blast
qed

lemma stores_key_eq: "stores L S c \<Longrightarrow> m \<in> S \<Longrightarrow> x \<in> S \<Longrightarrow> queue_key m = queue_key x \<Longrightarrow> m = x"
  using queue_key_inj [of m x] storesD(3,4) [of L S c] by (simp add: inj_on_def)

lemma stores_put:
  assumes "stores L S c" and "acceptable m" and "fresh_in m S"
  shows "stores L (insert m S) (c(queue_key m \<mapsto> wire L m))"
proof -
  have new: "queue_key x \<noteq> queue_key m" "qm_message_id x \<noteq> qm_message_id m" if "x \<in> S" for x
    using assms(2,3) that queue_key_inj [of x m] storesD(4) [OF assms(1)] by (auto simp: fresh_in_def has_id_def)
  have "(c(queue_key m \<mapsto> wire L m)) k = Some v \<longleftrightarrow> (\<exists>x \<in> insert m S. k = queue_key x \<and> v = wire L x)"
    if "starts_with k QUEUE_PREFIX" for k v
    using new(1) storesD(1) [OF assms(1) that, of v] by (cases "k = queue_key m") auto
  moreover have "\<forall>x \<in> S. qm_message_id x \<noteq> qm_message_id m" using new(2) by blast
  then have "inj_on qm_message_id (insert m S)"
    using storesD(3) [OF assms(1)] by auto
  ultimately show ?thesis using assms(2) storesD(2,4) [OF assms(1)] unfolding stores_def by blast
qed

lemma stores_remove:
  assumes "stores L S c" and "m \<in> S"
  shows "stores L (S - {m}) (c(queue_key m := None))"
proof -
  have "(c(queue_key m := None)) k = Some v \<longleftrightarrow> (\<exists>x \<in> S - {m}. k = queue_key x \<and> v = wire L x)"
    if "starts_with k QUEUE_PREFIX" for k v
    using stores_key_eq [OF assms] storesD(1) [OF assms(1) that, of v] by (cases "k = queue_key m") auto
  moreover have "inj_on qm_message_id (S - {m})"
    using storesD(3) [OF assms(1)] by (rule inj_on_subset) blast
  ultimately show ?thesis using storesD(2,4) [OF assms(1)] unfolding stores_def by blast
qed

lemma stores_update:
  assumes "stores L S c" and "m \<in> S" and "same_key f"
  shows "stores L (insert (f m) (S - {m})) (c(queue_key m \<mapsto> wire L (f m)))"
proof -
  have key: "queue_key (f m) = queue_key m" using assms(3) by (simp add: queue_key_def same_key_def)
  have "acceptable (f m)" using assms(3) storesD(4) [OF assms(1,2)] by (simp add: same_key_def acceptable_def)
  moreover have "fresh_in (f m) (S - {m})"
    using assms(2,3) storesD(3) [OF assms(1)] by (auto simp: fresh_in_def has_id_def same_key_def inj_on_def)
  ultimately have "stores L (insert (f m) (S - {m})) ((c(queue_key m := None))(queue_key (f m) \<mapsto> wire L (f m)))"
    by (rule stores_put [OF stores_remove [OF assms(1,2)]])
  then show ?thesis by (simp add: key)
qed

section \<open>The operations of the backend\<close>

text \<open>A backend in a good state that holds the messages \<open>S\<close>.\<close>

definition holds ::
  "'s storage_vtable \<Rightarrow> ('s \<Rightarrow> bytes \<rightharpoonup> bytes) \<Rightarrow> ('s \<Rightarrow> bool) \<Rightarrow> ('s, 'm) outbox_libs \<Rightarrow> queued_message set \<Rightarrow> 's \<Rightarrow> bool" where
  "holds vt content good L S db \<longleftrightarrow> ol_vtable L = vt \<and> bincode_queued L \<and> good db \<and> stores L S (content db)"

context backend_contract
begin

lemma stored_messages_set:
  assumes "ol_vtable L = vt" and "bincode_queued L" and "good db" and "stores L S (content db)" and "starts_with p QUEUE_PREFIX"
  shows "set (stored_messages L p db) = {(queue_key m, m) | m. m \<in> S \<and> starts_with (queue_key m) p}"
    and "distinct (map fst (stored_messages L p db))"
    and "vt_count_prefix vt p db = Ok (length (stored_messages L p db))"
proof -
  obtain es where es: "vt_scan_prefix vt p db = Ok es" "distinct (map fst es)"
      "set es = {(k, v). content db k = Some v \<and> starts_with k p}"
    using scan_law [OF assms(3), of p] by blast
  have QP: "starts_with k QUEUE_PREFIX" if "starts_with k p" for k
    using that assms(5) by (auto simp: starts_with_iff)
  have ent: "(k, v) \<in> set es \<longleftrightarrow> (\<exists>m \<in> S. k = queue_key m \<and> v = wire L m) \<and> starts_with k p" for k v
    using storesD(1) [OF assms(4), of k v] QP [of k] by (auto simp: es(3))
  have des: "\<exists>m. m \<in> S \<and> deserialize_queued_message L v = Some m \<and> k = queue_key m \<and> starts_with k p" if "(k, v) \<in> set es" for k v
    using that ent [of k v] wireD(2) [OF assms(2) storesD(4) [OF assms(4)]] by blast
  have sm: "stored_messages L p db = map (\<lambda>(k, v). (k, the (deserialize_queued_message L v))) es"
    using des by (force simp: stored_messages_def assms(1) es(1) List.map_filter_def intro!: arg_cong [where f = "map _"]
        filter_True map_cong split: prod.splits)
  show "set (stored_messages L p db) = {(queue_key m, m) | m. m \<in> S \<and> starts_with (queue_key m) p}"
  proof (rule set_eqI, clarify)
    fix k m
    have "(k, m) \<in> set (stored_messages L p db) \<longleftrightarrow> (\<exists>v. (k, v) \<in> set es \<and> the (deserialize_queued_message L v) = m)"
      by (auto simp: sm)
    also have "\<dots> \<longleftrightarrow> m \<in> S \<and> k = queue_key m \<and> starts_with (queue_key m) p"
      using ent wireD(2) [OF assms(2) storesD(4) [OF assms(4)]] by fastforce
    finally show "(k, m) \<in> set (stored_messages L p db) \<longleftrightarrow> (k, m) \<in> {(queue_key m, m) | m. m \<in> S \<and> starts_with (queue_key m) p}"
      by blast
  qed
  have "map fst (stored_messages L p db) = map fst es" by (simp add: sm comp_def split_def)
  then show "distinct (map fst (stored_messages L p db))" using es(2) by simp
  show "vt_count_prefix vt p db = Ok (length (stored_messages L p db))"
    using count_law [OF assms(3) es(1)] by (simp add: sm)
qed

lemma holdsD:
  assumes "holds vt content good L S db"
  shows "ol_vtable L = vt" "bincode_queued L" "good db" "stores L S (content db)" "finite S" "inj_on qm_message_id S"
    and "m \<in> S \<Longrightarrow> acceptable m" and "stored_in L (content db) = S"
  using assms storesD(2-4) [of L S "content db"] by (simp_all add: holds_def stores_stored_in)

lemma holds_flush:
  assumes "holds vt content good L S db"
  shows "\<exists>db'. vt_flush vt db = (Ok (), db') \<and> holds vt content good L S db'"
  using flush_law [OF holdsD(3) [OF assms]] assms by (auto simp: holds_def)

lemma holds_put:
  assumes "holds vt content good L S db" and "acceptable m" and "fresh_in m S"
  shows "\<exists>db'. vt_put vt (queue_key m) (wire L m) db = (Ok (), db') \<and> holds vt content good L (insert m S) db'"
  using put_law [OF holdsD(3) [OF assms(1)], of "queue_key m" "wire L m"] assms stores_put [of L S "content db" m]
  by (auto simp: holds_def)

lemma holds_delete:
  assumes "holds vt content good L S db" and "m \<in> S"
  shows "holds vt content good L (S - {m}) (snd (vt_remove vt (queue_key m) db))"
proof -
  obtain db' where "vt_remove vt (queue_key m) db = (Ok (), db')" "good db'" "content db' = (content db)(queue_key m := None)"
    using remove_law [OF holdsD(3) [OF assms(1)], of "queue_key m"] by blast
  with stores_remove [OF holdsD(4) [OF assms(1)] assms(2)] assms(1) show ?thesis by (simp add: holds_def)
qed

lemma holds_write_back:
  assumes "holds vt content good L S db" and "m \<in> S" and "same_key f"
  shows "holds vt content good L (insert (f m) (S - {m})) (write_back L (queue_key m) (f m) db)"
proof -
  have acc: "acceptable (f m)" using assms(3) holdsD(7) [OF assms(1,2)] by (simp add: same_key_def acceptable_def)
  obtain db' where put: "vt_put vt (queue_key m) (wire L (f m)) db = (Ok (), db')" "good db'"
      "content db' = (content db)(queue_key m \<mapsto> wire L (f m))"
    using put_law [OF holdsD(3) [OF assms(1)], of "queue_key m" "wire L (f m)"] by blast
  with stores_update [OF holdsD(4) [OF assms(1)] assms(2,3)] assms(1)
  have "holds vt content good L (insert (f m) (S - {m})) db'" by (simp add: holds_def)
  from holds_flush [OF this] show ?thesis
    using put(1) holdsD(1) [OF assms(1)] wireD(1) [OF holdsD(2) [OF assms(1)] acc] by (auto simp: write_back_def)
qed

lemma holds_remove_keys:
  assumes "holds vt content good L S db" and "set ms \<subseteq> S" and "distinct ms"
  shows "holds vt content good L (S - set ms) (remove_keys L (map queue_key ms) db)"
  using assms
proof (induction ms arbitrary: S db)
  case Nil
  then show ?case using holds_flush [OF Nil(1)] holdsD(1) [OF Nil(1)] by auto
next
  case (Cons m ms)
  have "holds vt content good L (S - {m}) (snd (vt_remove vt (queue_key m) db))"
    using Cons.prems by (intro holds_delete) auto
  from Cons.IH [OF this] Cons.prems holdsD(1) [OF Cons.prems(1)] show ?case
    by (auto simp: Diff_insert2 [symmetric] set_diff_eq)
qed

lemma holds_find:
  assumes "holds vt content good L S db"
  shows "find_stored L mid db = Some (k, m) \<longleftrightarrow> m \<in> S \<and> has_id mid m \<and> k = queue_key m"
proof -
  note sm = stored_messages_set [OF holdsD(1-4) [OF assms], of QUEUE_PREFIX]
  have set: "(k, m) \<in> set (stored_messages L QUEUE_PREFIX db) \<longleftrightarrow> m \<in> S \<and> k = queue_key m" for k m
    using sm(1) starts_with_append [of QUEUE_PREFIX "[]"] by auto
  show ?thesis
  proof
    assume "find_stored L mid db = Some (k, m)"
    then show "m \<in> S \<and> has_id mid m \<and> k = queue_key m" using set by (auto simp: find_stored_def dest!: find_SomeD)
  next
    assume m: "m \<in> S \<and> has_id mid m \<and> k = queue_key m"
    then have "find_stored L mid db \<noteq> None" using set by (auto simp: find_stored_def find_None_iff)
    then obtain k' x where x: "find_stored L mid db = Some (k', x)" by auto
    then have "x \<in> S" "has_id mid x" "k' = queue_key x" using set by (auto simp: find_stored_def dest!: find_SomeD)
    with m holdsD(6) [OF assms] x show "find_stored L mid db = Some (k, m)" by (auto simp: has_id_def inj_on_def)
  qed
qed

lemma holds_find_None:
  assumes "holds vt content good L S db" and "find_stored L mid db = None" and "m \<in> S"
  shows "\<not> has_id mid m"
  using assms holds_find [OF assms(1), of mid "queue_key m" m] by auto

text \<open>The messages a scan for one recipient finds.\<close>

lemma holds_peer:
  assumes "holds vt content good L S db" and "CHR ''_'' \<notin> set rid"
  shows "set (stored_messages L (peer_prefix rid) db) = (\<lambda>m. (queue_key m, m)) ` {m \<in> S. qm_recipient_id m = rid}"
    and "distinct (map fst (stored_messages L (peer_prefix rid) db))"
    and "vt_count_prefix vt (peer_prefix rid) db = Ok (card {m \<in> S. qm_recipient_id m = rid})"
proof -
  have "starts_with (peer_prefix rid) QUEUE_PREFIX" by (simp add: peer_prefix_def)
  note sm = stored_messages_set [OF holdsD(1-4) [OF assms(1)] this]
  have "m \<in> S \<Longrightarrow> starts_with (queue_key m) (peer_prefix rid) \<longleftrightarrow> qm_recipient_id m = rid" for m
    using holdsD(7) [OF assms(1)] assms(2) by (simp add: peer_prefix_iff)
  then show set: "set (stored_messages L (peer_prefix rid) db) = (\<lambda>m. (queue_key m, m)) ` {m \<in> S. qm_recipient_id m = rid}"
    unfolding sm(1) by auto
  show "distinct (map fst (stored_messages L (peer_prefix rid) db))" by (rule sm(2))
  then have "length (stored_messages L (peer_prefix rid) db) = card ((\<lambda>m. (queue_key m, m)) ` {m \<in> S. qm_recipient_id m = rid})"
    using distinct_card [of "stored_messages L (peer_prefix rid) db"] by (simp add: set distinct_map)
  also have "\<dots> = card {m \<in> S. qm_recipient_id m = rid}" by (rule card_image) (simp add: inj_on_def)
  finally show "vt_count_prefix vt (peer_prefix rid) db = Ok (card {m \<in> S. qm_recipient_id m = rid})" using sm(3) by simp
qed

lemma holds_all:
  assumes "holds vt content good L S db"
  shows "set (stored_messages L QUEUE_PREFIX db) = (\<lambda>m. (queue_key m, m)) ` S"
    and "distinct (map fst (stored_messages L QUEUE_PREFIX db))"
    and "vt_count_prefix vt QUEUE_PREFIX db = Ok (card S)"
proof -
  have "starts_with QUEUE_PREFIX QUEUE_PREFIX" using starts_with_append [of QUEUE_PREFIX "[]"] by simp
  note sm = stored_messages_set [OF holdsD(1-4) [OF assms(1)] this]
  show set: "set (stored_messages L QUEUE_PREFIX db) = (\<lambda>m. (queue_key m, m)) ` S" unfolding sm(1) by auto
  show "distinct (map fst (stored_messages L QUEUE_PREFIX db))" by (rule sm(2))
  then have "length (stored_messages L QUEUE_PREFIX db) = card ((\<lambda>m. (queue_key m, m)) ` S)"
    using distinct_card [of "stored_messages L QUEUE_PREFIX db"] by (simp add: set distinct_map)
  also have "\<dots> = card S" by (rule card_image) (simp add: inj_on_def)
  finally show "vt_count_prefix vt QUEUE_PREFIX db = Ok (card S)" using sm(3) by simp
qed

text \<open>Taking some of the entries a scan found.\<close>

lemma holds_take:
  assumes "holds vt content good L S db" and es: "set es = (\<lambda>m. (queue_key m, m)) ` A" "A \<subseteq> S" "distinct (map fst es)"
  shows "holds vt content good L (S - {m \<in> A. P m}) (remove_keys L (map fst (filter (\<lambda>(k, m). P m) es)) db)"
    and "set (map snd (filter (\<lambda>(k, m). P m) es)) = {m \<in> A. P m}" and "distinct (map snd (filter (\<lambda>(k, m). P m) es))"
    and "length (map fst (filter (\<lambda>(k, m). P m) es)) = card {m \<in> A. P m}"
proof -
  let ?taken = "filter (\<lambda>(k, m). P m) es"
  have taken: "set ?taken = (\<lambda>m. (queue_key m, m)) ` {m \<in> A. P m}" unfolding set_filter es(1) by auto
  have "fst e = queue_key (snd e)" if "e \<in> set ?taken" for e using that unfolding taken by auto
  then have key: "map fst ?taken = map queue_key (map snd ?taken)" unfolding map_map by (intro map_cong refl) simp
  show set: "set (map snd ?taken) = {m \<in> A. P m}" unfolding set_map taken image_image by simp
  have "distinct (map fst ?taken)" using es(3) by (rule distinct_map_filter)
  then show dist: "distinct (map snd ?taken)" unfolding key distinct_map [of queue_key] by blast
  show "holds vt content good L (S - {m \<in> A. P m}) (remove_keys L (map fst ?taken) db)"
    using holds_remove_keys [OF assms(1) _ dist] es(2) unfolding key set by blast
  show "length (map fst ?taken) = card {m \<in> A. P m}" using distinct_card [OF dist] set by simp
qed

text \<open>The operations of the outbox on such a backend.\<close>

lemma stored_enqueue:
  assumes "holds vt content good L S db" and "acceptable m" and "fresh_in m S"
  shows "\<exists>r db'. enqueue_persistent L m db = (r, db') \<and> holds vt content good L (snd (spec_enqueue m S)) db'
    \<and> is_ok r = fst (spec_enqueue m S)"
proof -
  have clean: "CHR ''_'' \<notin> set (qm_recipient_id m)" using assms(2) by (simp add: acceptable_def)
  obtain db1 where put: "vt_put vt (queue_key m) (wire L m) db = (Ok (), db1)" "holds vt content good L (insert m S) db1"
    using holds_put [OF assms] by blast
  obtain db2 where "vt_flush vt db1 = (Ok (), db2)" "holds vt content good L (insert m S) db2"
    using holds_flush [OF put(2)] by blast
  with put assms(1) show ?thesis
    using holds_all(3) [OF assms(1)] holds_peer(3) [OF assms(1) clean] holdsD(1) [OF assms(1)]
      wireD(1) [OF holdsD(2) [OF assms(1)] assms(2)]
    by (auto simp: enqueue_persistent_def spec_enqueue_def Let_def)
qed

lemma stored_update:
  assumes "holds vt content good L S db" and "same_key f"
  shows "case find_stored L mid db of
      None \<Rightarrow> spec_update mid f S = (False, S)
    | Some (k, m) \<Rightarrow> fst (spec_update mid f S) \<and> holds vt content good L (snd (spec_update mid f S)) (write_back L k (f m) db)"
proof (cases "find_stored L mid db")
  case None
  then show ?thesis using holds_find_None [OF assms(1) None] by (simp add: spec_absent)
next
  case (Some km)
  obtain k m where km: "km = (k, m)" by (cases km)
  with Some have m: "m \<in> S" "has_id mid m" "k = queue_key m" using holds_find [OF assms(1), of mid k m] by simp_all
  then have "spec_update mid f S = (True, insert (f m) (S - {m}))"
    using spec_update_one [OF holdsD(6) [OF assms(1)] m(1), of f] by (simp add: has_id_def)
  then show ?thesis using holds_write_back [OF assms(1) m(1) assms(2)] Some km m(3) by simp
qed

lemma stored_remove:
  assumes "holds vt content good L S db"
  shows "case find_stored L mid db of
      None \<Rightarrow> spec_remove mid S = (False, S)
    | Some (k, m) \<Rightarrow> fst (spec_remove mid S)
        \<and> holds vt content good L (snd (spec_remove mid S)) (snd (vt_flush vt (snd (vt_remove vt k db))))"
proof (cases "find_stored L mid db")
  case None
  then show ?thesis using holds_find_None [OF assms(1) None] by (simp add: spec_absent)
next
  case (Some km)
  obtain k m where km: "km = (k, m)" by (cases km)
  with Some have m: "m \<in> S" "has_id mid m" "k = queue_key m" using holds_find [OF assms(1), of mid k m] by simp_all
  then have "spec_remove mid S = (True, S - {m})"
    using spec_remove_one [OF holdsD(6) [OF assms(1)] m(1)] by (simp add: has_id_def)
  then show ?thesis using holds_flush [OF holds_delete [OF assms(1) m(1)]] Some km m(3) by auto
qed

end

section \<open>The persistent outbox meets the contract\<close>

definition persistent_held :: "('s, 'm) outbox_libs \<Rightarrow> ('s \<Rightarrow> bytes \<rightharpoonup> bytes) \<Rightarrow> ('s, 'm) outbox \<Rightarrow> queued_message set" where
  "persistent_held L content ob = (case ob_backend ob of Persistent db \<Rightarrow> stored_in L (content db) | Memory queues tot \<Rightarrow> {})"

definition persistent_inv ::
  "'s storage_vtable \<Rightarrow> ('s \<Rightarrow> bytes \<rightharpoonup> bytes) \<Rightarrow> ('s \<Rightarrow> bool) \<Rightarrow> ('s, 'm) outbox_libs \<Rightarrow> ('s, 'm) outbox \<Rightarrow> bool" where
  "persistent_inv vt content good L ob \<longleftrightarrow> (case ob_backend ob of
     Persistent db \<Rightarrow> \<exists>S. holds vt content good L S db | Memory queues tot \<Rightarrow> False)"

lemma persistent_simps [simp]:
  "persistent_held L content (ob\<lparr>ob_backend := Persistent db\<rparr>) = stored_in L (content db)"
  "persistent_inv vt content good L (ob\<lparr>ob_backend := Persistent db\<rparr>) \<longleftrightarrow> (\<exists>S. holds vt content good L S db)"
  "persistent_held L content (trigger_maintenance L' ob) = persistent_held L content ob"
  "persistent_inv vt content good L (trigger_maintenance L' ob) = persistent_inv vt content good L ob"
  by (simp_all add: persistent_held_def persistent_inv_def trigger_maintenance_def)

context backend_contract
begin

lemma persistent_cases:
  assumes "persistent_inv vt content good L ob"
  obtains db S where "ob_backend ob = Persistent db" "holds vt content good L S db" "persistent_held L content ob = S"
proof -
  obtain db S where "ob_backend ob = Persistent db" "holds vt content good L S db"
    using assms by (auto simp: persistent_inv_def split: outbox_backend.splits)
  moreover from this holdsD(8) have "persistent_held L content ob = S" by (simp add: persistent_held_def)
  ultimately show thesis by (rule that)
qed

text \<open>A backend that holds \<open>S\<close> gives an outbox that meets the invariant and holds \<open>S\<close>.\<close>

lemma persistent_intro:
  "holds vt content good L S db \<Longrightarrow> persistent_inv vt content good L (ob\<lparr>ob_backend := Persistent db\<rparr>)
     \<and> persistent_held L content (ob\<lparr>ob_backend := Persistent db\<rparr>) = S"
  using holdsD(8) by auto

lemma persistent_enqueue:
  assumes "persistent_inv vt content good L ob" and "acceptable m" and "fresh_in m (persistent_held L content ob)"
  shows "\<exists>r ob'. enqueue L m ob = (r, ob') \<and> persistent_inv vt content good L ob'
    \<and> (is_ok r, persistent_held L content ob') = spec_enqueue m (persistent_held L content ob)"
proof -
  obtain db S where ob: "ob_backend ob = Persistent db" "holds vt content good L S db" "persistent_held L content ob = S"
    using assms(1) by (rule persistent_cases)
  obtain r db' where r: "enqueue_persistent L m db = (r, db')" "holds vt content good L (snd (spec_enqueue m S)) db'"
      "is_ok r = fst (spec_enqueue m S)"
    using stored_enqueue [OF ob(2) assms(2)] assms(3) ob(3) by blast
  let ?ob = "ob\<lparr>ob_backend := Persistent db'\<rparr>"
  have "\<exists>ob'. enqueue L m ob = (r, ob') \<and> (ob' = ?ob \<or> ob' = trigger_maintenance L ?ob)"
    by (cases r) (simp_all add: enqueue_def ob(1) r(1))
  then obtain ob' where ob': "enqueue L m ob = (r, ob')" "ob' = ?ob \<or> ob' = trigger_maintenance L ?ob" by blast
  have "persistent_inv vt content good L ob'" "persistent_held L content ob' = snd (spec_enqueue m S)"
    using ob'(2) persistent_intro [OF r(2), of ob] by (elim disjE; simp only: persistent_simps(3,4))+
  then show ?thesis using ob'(1) by (simp add: r(3) ob(3))
qed

lemma persistent_find:
  assumes "persistent_inv vt content good L ob"
  shows "find_message L mid ob = Some m \<longleftrightarrow> m \<in> persistent_held L content ob \<and> has_id mid m"
proof -
  obtain db S where ob: "ob_backend ob = Persistent db" "holds vt content good L S db" "persistent_held L content ob = S"
    using assms(1) by (rule persistent_cases)
  have "find_message L mid ob = Some m \<longleftrightarrow> (\<exists>k. find_stored L mid db = Some (k, m))"
    by (auto simp: find_message_def ob(1))
  then show ?thesis by (simp add: holds_find [OF ob(2)] ob(3))
qed

lemma persistent_update:
  assumes "persistent_inv vt content good L ob" and "same_key f"
  shows "\<exists>b ob'. update_message L mid f ob = (b, ob') \<and> persistent_inv vt content good L ob'
    \<and> (b, persistent_held L content ob') = spec_update mid f (persistent_held L content ob)"
proof -
  obtain db S where ob: "ob_backend ob = Persistent db" "holds vt content good L S db" "persistent_held L content ob = S"
    using assms(1) by (rule persistent_cases)
  show ?thesis
  proof (cases "find_stored L mid db")
    case None
    with stored_update [OF ob(2) assms(2), of mid] have "spec_update mid f S = (False, S)" by simp
    then show ?thesis using None assms(1) ob by (auto simp: update_message_def)
  next
    case (Some km)
    obtain k m where km: "km = (k, m)" by (cases km)
    from stored_update [OF ob(2) assms(2), of mid] Some km
    have f: "fst (spec_update mid f S)" and h: "holds vt content good L (snd (spec_update mid f S)) (write_back L k (f m) db)" by simp_all
    let ?ob = "ob\<lparr>ob_backend := Persistent (write_back L k (f m) db)\<rparr>"
    have "update_message L mid f ob = (True, ?ob)"
      by (simp add: update_message_def ob(1) Some km)
    moreover from f have "(True, snd (spec_update mid f S)) = spec_update mid f S" by (simp add: prod_eq_iff)
    ultimately show ?thesis using persistent_intro [OF h, of ob] unfolding ob(3)
      by (intro exI [of _ True] exI [of _ ?ob] conjI; simp only: simp_thms)
  qed
qed

lemma persistent_remove:
  assumes "persistent_inv vt content good L ob"
  shows "\<exists>b ob'. Outbox_remove L mid ob = (b, ob') \<and> persistent_inv vt content good L ob'
    \<and> (b, persistent_held L content ob') = spec_remove mid (persistent_held L content ob)"
proof -
  obtain db S where ob: "ob_backend ob = Persistent db" "holds vt content good L S db" "persistent_held L content ob = S"
    using assms(1) by (rule persistent_cases)
  show ?thesis
  proof (cases "find_stored L mid db")
    case None
    with stored_remove [OF ob(2), of mid] have "spec_remove mid S = (False, S)" by simp
    then show ?thesis using None assms(1) ob by (auto simp: Outbox_remove_def)
  next
    case (Some km)
    obtain k m where km: "km = (k, m)" by (cases km)
    from stored_remove [OF ob(2), of mid] Some km
    have f: "fst (spec_remove mid S)"
      and h: "holds vt content good L (snd (spec_remove mid S)) (snd (vt_flush vt (snd (vt_remove vt k db))))" by simp_all
    let ?ob = "ob\<lparr>ob_backend := Persistent (snd (vt_flush vt (snd (vt_remove vt k db))))\<rparr>"
    have "Outbox_remove L mid ob = (True, ?ob)"
      by (simp add: Outbox_remove_def ob(1) Some km holdsD(1) [OF ob(2)])
    moreover from f have "(True, snd (spec_remove mid S)) = spec_remove mid S" by (simp add: prod_eq_iff)
    ultimately show ?thesis using persistent_intro [OF h, of ob] unfolding ob(3)
      by (intro exI [of _ True] exI [of _ ?ob] conjI; simp only: simp_thms)
  qed
qed

lemma persistent_flush:
  assumes "persistent_inv vt content good L ob" and "CHR ''_'' \<notin> set rid"
  shows "\<exists>ms ob'. flush_peer_messages L now_ms rid ob = (ms, ob') \<and> persistent_inv vt content good L ob'
     \<and> distinct ms \<and> (set ms, persistent_held L content ob') = spec_take (due_for now_ms rid) (persistent_held L content ob)"
proof -
  obtain db S where ob: "ob_backend ob = Persistent db" "holds vt content good L S db" "persistent_held L content ob = S"
    using assms(1) by (rule persistent_cases)
  let ?A = "{m \<in> S. qm_recipient_id m = rid}" and ?es = "stored_messages L (peer_prefix rid) db"
  have sub: "?A \<subseteq> S" by blast
  note take = holds_take [OF ob(2) holds_peer(1) [OF ob(2) assms(2)] sub holds_peer(2) [OF ob(2) assms(2)], of "deliverable now_ms"]
  have part: "{m \<in> ?A. deliverable now_ms m} = {m \<in> S. due_for now_ms rid m}"
    "S - {m \<in> S. due_for now_ms rid m} = {m \<in> S. \<not> due_for now_ms rid m}" by (auto simp: due_for_def)
  have "flush_peer_messages L now_ms rid ob = (map snd (filter (\<lambda>(k, m). deliverable now_ms m) ?es),
      ob\<lparr>ob_backend := Persistent (remove_keys L (map fst (filter (\<lambda>(k, m). deliverable now_ms m) ?es)) db)\<rparr>)"
    by (simp add: flush_peer_messages_def ob(1) Let_def)
  with persistent_intro [OF take(1), of ob] take(2,3) show ?thesis unfolding part ob(3) spec_take_def by simp
qed

lemma persistent_expire:
  assumes "persistent_inv vt content good L ob"
  shows "\<exists>n ob'. Outbox_remove_expired L now max_age ob = (n, ob') \<and> persistent_inv vt content good L ob'
     \<and> n = card {m \<in> persistent_held L content ob. too_old now max_age m}
     \<and> persistent_held L content ob' = {m \<in> persistent_held L content ob. \<not> too_old now max_age m}"
proof -
  obtain db S where ob: "ob_backend ob = Persistent db" "holds vt content good L S db" "persistent_held L content ob = S"
    using assms(1) by (rule persistent_cases)
  let ?es = "stored_messages L QUEUE_PREFIX db"
  note take = holds_take [OF ob(2) holds_all(1) [OF ob(2)] subset_refl holds_all(2) [OF ob(2)], of "too_old now max_age"]
  have part: "S - {m \<in> S. too_old now max_age m} = {m \<in> S. \<not> too_old now max_age m}" by auto
  have "Outbox_remove_expired L now max_age ob = (length (map fst (filter (\<lambda>(k, m). too_old now max_age m) ?es)),
      ob\<lparr>ob_backend := Persistent (remove_keys L (map fst (filter (\<lambda>(k, m). too_old now max_age m) ?es)) db)\<rparr>)"
    by (simp add: Outbox_remove_expired_def ob(1) Let_def)
  with persistent_intro [OF take(1), of ob] take(4) show ?thesis unfolding part ob(3) by simp
qed

lemma persistent_contract:
  "outbox_contract L (persistent_held L content) (persistent_inv vt content good L)"
proof
  fix ob and m :: queued_message and mid rid :: string and f now_ms now max_age
  assume inv: "persistent_inv vt content good L ob"
  then obtain db S where ob: "ob_backend ob = Persistent db" "holds vt content good L S db" "persistent_held L content ob = S"
    by (rule persistent_cases)
  from holdsD(5-7) [OF ob(2)]
  show "finite (persistent_held L content ob) \<and> inj_on qm_message_id (persistent_held L content ob)
      \<and> (\<forall>m \<in> persistent_held L content ob. acceptable m)" unfolding ob(3) by blast
  show "total_count L ob = card (persistent_held L content ob)"
    using holds_all(3) [OF ob(2)] holdsD(1) [OF ob(2)] by (simp add: total_count_def ob)
qed (simp_all add: persistent_enqueue persistent_find persistent_update persistent_remove persistent_flush persistent_expire)

end

interpretation in_storage: outbox_contract L "persistent_held L memory_content" "persistent_inv memory_vtable memory_content memory_good L"
  for L :: "(memory_storage, 'm) outbox_libs"
  by (rule memory.persistent_contract)

section \<open>Limits\<close>








section \<open>Draining\<close>

lemma memory_drain:
  assumes "memory_inv ob" and "drain_for_peer L rid ob = (ms, ob')"
  shows "set ms = {m \<in> memory_held ob. qm_recipient_id m = rid \<and> \<not> qm_in_custody m}
    \<and> memory_held ob' = {m \<in> memory_held ob. qm_recipient_id m \<noteq> rid}"
proof -
  obtain queues where ob: "ob_backend ob = Memory queues (length (queued queues))" and wf: "queues_wf queues"
    and held: "memory_held ob = set (queued queues)" using assms(1) by (rule memory_inv_cases)
  note q = queue_of_set [OF wf, of rid]
  show ?thesis
  proof (cases "hm_get queues rid")
    case None
    then have "queue_of rid queues = []" by (simp add: queue_of_def)
    then have "\<forall>m \<in> memory_held ob. qm_recipient_id m \<noteq> rid" using q by (auto simp: held)
    moreover have "ms = []" "ob' = ob" using None assms(2) by (simp_all add: drain_for_peer_def ob)
    ultimately show ?thesis by auto
  next
    case (Some queue)
    then have queue: "queue = queue_of rid queues" by (simp add: queue_of_def)
    have "ms = filter (\<lambda>m. \<not> qm_in_custody m) queue" "memory_held ob' = set (queued (hm_remove rid queues))"
      using Some assms(2) by (auto simp: drain_for_peer_def ob)
    then show ?thesis using queued_remove [OF wf, of rid] by (simp add: q queue held)
  qed
qed

context backend_contract
begin

lemma persistent_drain:
  assumes "persistent_inv vt content good L ob" and "CHR ''_'' \<notin> set rid" and "drain_for_peer L rid ob = (ms, ob')"
  shows "set ms = {m \<in> persistent_held L content ob. qm_recipient_id m = rid \<and> \<not> qm_in_custody m}
    \<and> persistent_held L content ob' = persistent_held L content ob - set ms"
proof -
  obtain db S where ob: "ob_backend ob = Persistent db" "holds vt content good L S db" "persistent_held L content ob = S"
    using assms(1) by (rule persistent_cases)
  let ?A = "{m \<in> S. qm_recipient_id m = rid}" and ?es = "stored_messages L (peer_prefix rid) db"
  have sub: "?A \<subseteq> S" by blast
  note take = holds_take [OF ob(2) holds_peer(1) [OF ob(2) assms(2)] sub holds_peer(2) [OF ob(2) assms(2)], of "\<lambda>m. \<not> qm_in_custody m"]
  have part: "{m \<in> ?A. \<not> qm_in_custody m} = {m \<in> S. qm_recipient_id m = rid \<and> \<not> qm_in_custody m}" by auto
  have "drain_for_peer L rid ob = (map snd (filter (\<lambda>(k, m). \<not> qm_in_custody m) ?es),
      ob\<lparr>ob_backend := Persistent (remove_keys L (map fst (filter (\<lambda>(k, m). \<not> qm_in_custody m) ?es)) db)\<rparr>)"
    by (simp add: drain_for_peer_def ob(1) Let_def)
  with assms(3) persistent_intro [OF take(1), of ob] take(2) show ?thesis unfolding part ob(3) by auto
qed

end

section \<open>Retry delays\<close>

lemma unat_sat_mul: "unat (sat_mul a b :: 'n::len word) = min (2 ^ LENGTH('n) - 1) (unat a * unat b)"
  by (auto simp: sat_mul_def unat_minus_1 unat_word_ariths min_def)

lemma unat_power_word: "unat (a :: 'n::len word) ^ k < 2 ^ LENGTH('n) \<Longrightarrow> unat (a ^ k) = unat a ^ k"
proof (induction k)
  case (Suc k)
  show ?case
  proof (cases "unat a = 0")
    case False
    then have "unat a ^ k \<le> unat a ^ Suc k" by simp
    with Suc have "unat (a ^ k) = unat a ^ k" by (meson le_less_trans)
    with Suc.prems show ?thesis by (simp add: unat_word_ariths)
  next
    case True
    then have "a = 0" by (simp add: unat_eq_0)
    then show ?thesis by simp
  qed
qed simp

lemma unat_sat_pow: "unat (sat_pow a k :: 'n::len word) = min (2 ^ LENGTH('n) - 1) (unat a ^ k)"
  by (auto simp: sat_pow_def unat_minus_1 unat_power_word min_def)

lemma min_mult_min: "min (M :: nat) (i * min M x) = min M (i * x)"
proof (cases "i = 0 \<or> x \<le> M")
  case False
  then have i: "1 \<le> i" and x: "M \<le> x" by auto
  have "M \<le> i * M" "M \<le> i * x" using mult_le_mono [OF i le_refl, of M] mult_le_mono [OF i x] by simp_all
  with x show ?thesis by (simp add: min_def)
qed auto

section \<open>Properties of the outbox\<close>

definition sample_queued :: "string \<Rightarrow> string \<Rightarrow> queued_message" where
  "sample_queued rid mid = \<lparr>qm_version = 1, qm_message_id = mid, qm_recipient_id = rid, qm_envelope_data = [1, 2],
     qm_queued_at = 1000, qm_attempts = 0, qm_next_retry_at = None, qm_in_custody = False,
     qm_custody_established_at = 0, qm_state = Enqueued\<rparr>"

definition enc_queued :: "queued_message \<Rightarrow> bytes" where
  "enc_queued m = qm_version m # enc_fields [as_bytes (qm_message_id m), as_bytes (qm_recipient_id m), qm_envelope_data m,
     u64_bytes (qm_queued_at m), u32_to_le (qm_attempts m), option_bytes u64_bytes (qm_next_retry_at m),
     bool_bytes (qm_in_custody m), u64_bytes (qm_custody_established_at m),
     bool_bytes (qm_state m = Sent), bool_bytes (qm_state m = Failed)]"

definition dec_queued :: "bytes \<Rightarrow> queued_message" where
  "dec_queued v = (let f = dec_fields 10 (tl v) in
     \<lparr>qm_version = hd v, qm_message_id = bytes_string (f ! 0), qm_recipient_id = bytes_string (f ! 1),
      qm_envelope_data = f ! 2, qm_queued_at = bytes_u64 (f ! 3), qm_attempts = bytes_u32 (f ! 4),
      qm_next_retry_at = bytes_option bytes_u64 (f ! 5), qm_in_custody = bytes_bool (f ! 6),
      qm_custody_established_at = bytes_u64 (f ! 7),
      qm_state = (if bytes_bool (f ! 8) then Sent else if bytes_bool (f ! 9) then Failed else Enqueued)\<rparr>)"

lemma dec_enc_queued: "dec_queued (enc_queued m) = m"
  by (cases "qm_state m") (simp_all add: dec_queued_def enc_queued_def dec_enc_fields)

definition sample_outbox_libs :: "(memory_storage, unit) outbox_libs" where
  "sample_outbox_libs = \<lparr>ol_vtable = memory_vtable, ol_serialize = (\<lambda>m. Inr (enc_queued m)),
     ol_deserialize = (\<lambda>bs. Inr (dec_queued bs)), ol_deserialize_legacy = (\<lambda>bs. Inl ''unused''),
     ol_perform_maintenance = id\<rparr>"

lemma sample_outbox_libs_ok: "ol_vtable sample_outbox_libs = memory_vtable" "bincode_queued sample_outbox_libs"
proof -
  show "bincode_queued sample_outbox_libs"
    unfolding bincode_queued_def
  proof (intro allI impI exI conjI)
    fix m :: queued_message assume "qm_version m = 1"
    then have "enc_queued m = 1 # tl (enc_queued m)" by (simp add: enc_queued_def)
    then show "ol_serialize sample_outbox_libs m = Inr (1 # tl (enc_queued m))"
      "ol_deserialize sample_outbox_libs (1 # tl (enc_queued m)) = Inr m"
      by (simp_all add: sample_outbox_libs_def dec_enc_queued)
  qed
qed (simp add: sample_outbox_libs_def)

lemma outbox_new_ok: "memory_inv Outbox_new" "memory_held Outbox_new = {}"
  by (simp_all add: memory_inv_def memory_held_def Outbox_new_def)

lemma outbox_persistent_ok:
  assumes "ol_vtable L = memory_vtable" and "bincode_queued L"
  shows "persistent_inv memory_vtable memory_content memory_good L (Outbox_persistent MemoryStorage_new)"
    and "persistent_held L memory_content (Outbox_persistent MemoryStorage_new) = {}"
proof -
  have "holds memory_vtable memory_content memory_good L {} MemoryStorage_new"
    using assms by (simp add: holds_def memory_new_good stores_def)
  then show "persistent_inv memory_vtable memory_content memory_good L (Outbox_persistent MemoryStorage_new)"
    by (auto simp: persistent_inv_def Outbox_persistent_def)
  show "persistent_held L memory_content (Outbox_persistent MemoryStorage_new) = {}"
    by (simp add: persistent_held_def Outbox_persistent_def memory_new_good stored_in_def)
qed

text \<open>
  C7. The two backends of the outbox are interchangeable: on any sequence of enqueueing, removal,
  delivery attempts, custody changes, state changes, flushes and expiries, the outbox in memory and
  the persistent one return the same answers, those of the specification on sets of messages, and
  hold the same messages.
\<close>

theorem outbox_backends_agree:
  assumes "ol_vtable L = memory_vtable" and "bincode_queued L" and "admissible xs {}"
    and "outbox_run M xs Outbox_new = (rs, ob)" and "outbox_run L xs (Outbox_persistent MemoryStorage_new) = (rs', ob')"
  shows "rs = fst (spec_run xs {}) \<and> rs' = rs
    \<and> memory_held ob = snd (spec_run xs {}) \<and> persistent_held L memory_content ob' = memory_held ob"
proof -
  have "(rs, memory_held ob) = spec_run xs {}"
    using in_memory.run_refines [OF outbox_new_ok(1), of xs M] assms(3,4) by (simp add: outbox_new_ok(2))
  moreover have "(rs', persistent_held L memory_content ob') = spec_run xs {}"
    using in_storage.run_refines [OF outbox_persistent_ok(1) [OF assms(1,2)], of xs] assms(3,5)
    by (simp add: outbox_persistent_ok(2) [OF assms(1,2)])
  ultimately show ?thesis by (metis fst_conv snd_conv)
qed

definition sample_ops :: "outbox_op list" where
  "sample_ops = [OpEnqueue (sample_queued ''alice'' ''m1''), OpEnqueue (sample_queued ''bob'' ''m2''),
     OpCustody ''m1'' 7, OpSent ''m3'', OpFlush 5000 ''alice'', OpFlush 5000 ''bob'']"

lemma sample_ops_ok: "admissible sample_ops {}"
  by (simp add: sample_ops_def acceptable_def fresh_in_def sample_queued_def spec_enqueue_def spec_update_def
      has_id_def MAX_TOTAL_QUEUED_def MAX_QUEUE_PER_PEER_def)

theorem outbox_backends_agree_witness:
  "fst (outbox_run sample_outbox_libs sample_ops (Outbox_persistent MemoryStorage_new)) =
   fst (outbox_run sample_outbox_libs sample_ops Outbox_new)"
  using outbox_backends_agree [OF sample_outbox_libs_ok sample_ops_ok prod.collapse [symmetric] prod.collapse [symmetric],
    where M = sample_outbox_libs] by blast



text \<open>
  Draining the queue of a peer, where the backends differ.  Both return the messages for the
  peer that are not in custody, but the outbox in memory also forgets the ones that are in custody of
  a relay, while the persistent one keeps them.
\<close>

theorem outbox_drain_custody:
  assumes "memory_inv a" and "drain_for_peer M rid a = (ms, a')"
    and "persistent_inv memory_vtable memory_content memory_good L b" and "CHR ''_'' \<notin> set rid" and "drain_for_peer L rid b = (ms', b')"
  shows "set ms = {m \<in> memory_held a. qm_recipient_id m = rid \<and> \<not> qm_in_custody m}
    \<and> memory_held a' = {m \<in> memory_held a. qm_recipient_id m \<noteq> rid}
    \<and> set ms' = {m \<in> persistent_held L memory_content b. qm_recipient_id m = rid \<and> \<not> qm_in_custody m}
    \<and> persistent_held L memory_content b' = {m \<in> persistent_held L memory_content b. qm_recipient_id m \<noteq> rid \<or> qm_in_custody m}"
  using memory_drain [OF assms(1,2)] memory.persistent_drain [OF assms(3-5)] by auto

theorem outbox_drain_custody_witness:
  "memory_held (snd (drain_for_peer sample_outbox_libs ''alice''
     (Outbox_new\<lparr>ob_backend := Memory [(''alice'', [(sample_queued ''alice'' ''m1'')\<lparr>qm_in_custody := True\<rparr>])] 1\<rparr>))) = {}"
proof -
  let ?a = "Outbox_new\<lparr>ob_backend := Memory [(''alice'', [(sample_queued ''alice'' ''m1'')\<lparr>qm_in_custody := True\<rparr>])] 1\<rparr>
    :: (memory_storage, unit) outbox"
  have "memory_inv ?a" by (simp add: queues_wf_Cons acceptable_def sample_queued_def)
  from outbox_drain_custody [OF this prod.collapse [symmetric] outbox_persistent_ok(1) [OF sample_outbox_libs_ok] _ prod.collapse [symmetric],
      where rid = "''alice''" and M = sample_outbox_libs]
  show ?thesis by (simp add: sample_queued_def)
qed

text \<open>
  Retry delays: no delay for the first attempt, then the initial delay times a power of the
  backoff factor, cut off at the largest 64-bit number, and none at all after the last attempt.  Attempt 0
  is not caught: its exponent wraps around and gives the largest delay.
\<close>

theorem retry_delays:
  assumes "2 \<le> unat (rp_backoff_factor p)" and "rp_initial_delay_ms p \<noteq> 0"
  shows "(delay_for_attempt p a = None \<longleftrightarrow> rp_max_retries p < a)
    \<and> (1 \<le> rp_max_retries p \<longrightarrow> delay_for_attempt p 1 = Some 0)
    \<and> (2 \<le> a \<and> a \<le> rp_max_retries p \<longrightarrow> map_option unat (delay_for_attempt p a) =
         Some (min (2 ^ 64 - 1) (unat (rp_initial_delay_ms p) * unat (rp_backoff_factor p) ^ (unat a - 2))))
    \<and> delay_for_attempt p 0 = Some (- 1)"
proof -
  let ?i = "rp_initial_delay_ms p" and ?f = "rp_backoff_factor p"
  have f: "unat (ucast ?f :: u64) = unat ?f"
    using unsigned_less [of ?f, where 'a = nat] by (simp add: unsigned_ucast_eq take_bit_nat_eq_self)
  have val: "unat (sat_mul ?i (sat_pow (ucast ?f) k)) = min (2 ^ 64 - 1) (unat ?i * unat ?f ^ k)" for k
    by (simp only: unat_sat_mul unat_sat_pow f min_mult_min len_bit0 len_num1) simp
  have "2 \<le> a \<Longrightarrow> unat (a - 2) = unat a - 2" by (simp add: unat_sub)
  moreover have "a \<noteq> 1" if "2 \<le> a" using that by (auto simp: word_le_nat_alt)
  ultimately have big: "2 \<le> a \<and> a \<le> rp_max_retries p \<longrightarrow> map_option unat (delay_for_attempt p a) =
      Some (min (2 ^ 64 - 1) (unat ?i * unat ?f ^ (unat a - 2)))"
    using val by (auto simp: delay_for_attempt_def Let_def)
  have "sat_mul ?i (sat_pow (ucast ?f) k) = - 1" if "64 \<le> k" for k
  proof -
    have "(2 :: nat) ^ 64 \<le> 2 ^ k" using that by (intro power_increasing) auto
    also have "\<dots> \<le> unat ?f ^ k" using assms(1) by (intro power_mono) auto
    also have "\<dots> \<le> unat ?i * unat ?f ^ k" using assms(2) by (simp add: unat_gt_0 Suc_leI)
    finally have "unat (sat_mul ?i (sat_pow (ucast ?f) k)) = unat (- 1 :: u64)" by (simp add: val unat_minus_1)
    then show ?thesis by (simp only: word_unat_eq_iff)
  qed
  moreover have "64 \<le> unat (0 - 2 :: u32)" by simp
  ultimately have "delay_for_attempt p 0 = Some (- 1)" by (simp only: delay_for_attempt_def Let_def) simp
  with big show ?thesis by (auto simp: delay_for_attempt_def Let_def)
qed

theorem retry_delays_witness:
  "map_option unat (delay_for_attempt RetryPolicy_default 3) = Some 200 \<and> delay_for_attempt RetryPolicy_default 4 = None"
  using retry_delays [of RetryPolicy_default 3] retry_delays [of RetryPolicy_default 4]
  by (simp add: RetryPolicy_default_def)

end
