(* ===== verification/Circuit_Breaker.thy ===== *)
theory Circuit_Breaker
  imports Prelude
begin

text \<open>
  The circuit breakers of the relays, \<open>core/src/transport/circuit_breaker.rs\<close>: one state machine
  per relay address, closed, open or half open.

  A point in time is a number of milliseconds.  \<open>elapsed().unwrap_or_default()\<close> is the truncated
  difference, 0 when the clock has gone back.  The operations take the lock of the map once each, apart
  from the change to half open, which follows its test at once.
\<close>

section \<open>States and operations\<close>

datatype circuit_state = Closed | Open | HalfOpen

record circuit_breaker_config =
  cc_failure_threshold :: u32
  cc_open_timeout :: nat
  cc_half_open_timeout :: nat
  cc_success_threshold :: u32
  cc_max_half_open_probes :: u32

definition CircuitBreakerConfig_default :: circuit_breaker_config where
  "CircuitBreakerConfig_default = \<lparr>cc_failure_threshold = 3, cc_open_timeout = 300000, cc_half_open_timeout = 30000,
     cc_success_threshold = 2, cc_max_half_open_probes = 3\<rparr>"

record circuit_breaker_entry =
  ce_state :: circuit_state
  ce_failure_count :: u32
  ce_success_count :: u32
  ce_half_open_probes :: u32
  ce_opened_at :: "nat option"
  ce_half_open_started_at :: "nat option"
  ce_last_failure_reason :: "string option"
  ce_last_success_at :: "nat option"

definition CircuitBreakerEntry_new :: circuit_breaker_entry where
  "CircuitBreakerEntry_new = \<lparr>ce_state = Closed, ce_failure_count = 0, ce_success_count = 0, ce_half_open_probes = 0,
     ce_opened_at = None, ce_half_open_started_at = None, ce_last_failure_reason = None, ce_last_success_at = None\<rparr>"

record circuit_breaker_manager =
  cm_config :: circuit_breaker_config
  cm_entries :: "(string, circuit_breaker_entry) hmap"

definition CircuitBreakerManager_new :: "circuit_breaker_config \<Rightarrow> circuit_breaker_manager" where
  "CircuitBreakerManager_new c = \<lparr>cm_config = c, cm_entries = []\<rparr>"

definition transition_to_half_open :: "nat \<Rightarrow> string \<Rightarrow> circuit_breaker_manager \<Rightarrow> circuit_breaker_manager" where
  "transition_to_half_open now addr cm =
     (case hm_get (cm_entries cm) addr of
        None \<Rightarrow> cm
      | Some e \<Rightarrow>
          cm\<lparr>cm_entries := hm_insert addr
            (e\<lparr>ce_state := HalfOpen, ce_half_open_started_at := Some now,
               ce_half_open_probes := ce_half_open_probes e + 1, ce_success_count := 0\<rparr>) (cm_entries cm)\<rparr>)"

definition allow_request :: "nat \<Rightarrow> string \<Rightarrow> circuit_breaker_manager \<Rightarrow> bool \<times> circuit_breaker_manager" where
  "allow_request now addr cm =
     (case hm_get (cm_entries cm) addr of
        None \<Rightarrow> (True, cm)
      | Some e \<Rightarrow>
          (case ce_state e of
             Closed \<Rightarrow> (True, cm)
           | Open \<Rightarrow>
               (case ce_opened_at e of
                  Some opened_at \<Rightarrow>
                    if now - opened_at \<ge> cc_open_timeout (cm_config cm)
                    then (True, transition_to_half_open now addr cm) else (False, cm)
                | None \<Rightarrow> (False, cm))
           | HalfOpen \<Rightarrow> (ce_half_open_probes e < cc_max_half_open_probes (cm_config cm), cm)))"

definition entry_or_new :: "string \<Rightarrow> circuit_breaker_manager \<Rightarrow> circuit_breaker_entry" where
  "entry_or_new addr cm = (case hm_get (cm_entries cm) addr of Some e \<Rightarrow> e | None \<Rightarrow> CircuitBreakerEntry_new)"

definition success_entry :: "circuit_breaker_config \<Rightarrow> nat \<Rightarrow> circuit_breaker_entry \<Rightarrow> circuit_breaker_entry" where
  "success_entry c now e =
     (let e = e\<lparr>ce_last_success_at := Some now, ce_last_failure_reason := None\<rparr> in
      case ce_state e of
        Closed \<Rightarrow> e\<lparr>ce_failure_count := 0\<rparr>
      | HalfOpen \<Rightarrow>
          let e = e\<lparr>ce_success_count := ce_success_count e + 1\<rparr> in
          if ce_success_count e \<ge> cc_success_threshold c
          then e\<lparr>ce_state := Closed, ce_failure_count := 0, ce_success_count := 0, ce_half_open_probes := 0,
                 ce_opened_at := None, ce_half_open_started_at := None\<rparr>
          else e
      | Open \<Rightarrow> e)"

definition record_success :: "nat \<Rightarrow> string \<Rightarrow> circuit_breaker_manager \<Rightarrow> circuit_breaker_manager" where
  "record_success now addr cm =
     cm\<lparr>cm_entries := hm_insert addr (success_entry (cm_config cm) now (entry_or_new addr cm)) (cm_entries cm)\<rparr>"

definition failure_entry :: "circuit_breaker_config \<Rightarrow> nat \<Rightarrow> string \<Rightarrow> circuit_breaker_entry \<Rightarrow> circuit_breaker_entry" where
  "failure_entry c now reason e =
     (let e = e\<lparr>ce_failure_count := ce_failure_count e + 1, ce_last_failure_reason := Some reason\<rparr> in
      case ce_state e of
        Closed \<Rightarrow>
          if ce_failure_count e \<ge> cc_failure_threshold c
          then e\<lparr>ce_state := Open, ce_opened_at := Some now, ce_success_count := 0\<rparr> else e
      | HalfOpen \<Rightarrow>
          e\<lparr>ce_state := Open, ce_opened_at := Some now, ce_success_count := 0, ce_half_open_probes := 0,
            ce_half_open_started_at := None\<rparr>
      | Open \<Rightarrow> e\<lparr>ce_opened_at := Some now\<rparr>)"

definition record_failure :: "nat \<Rightarrow> string \<Rightarrow> string \<Rightarrow> circuit_breaker_manager \<Rightarrow> circuit_breaker_manager" where
  "record_failure now addr reason cm =
     cm\<lparr>cm_entries := hm_insert addr (failure_entry (cm_config cm) now reason (entry_or_new addr cm)) (cm_entries cm)\<rparr>"

definition get_state :: "string \<Rightarrow> circuit_breaker_manager \<Rightarrow> circuit_state" where
  "get_state addr cm = (case hm_get (cm_entries cm) addr of Some e \<Rightarrow> ce_state e | None \<Rightarrow> Closed)"

definition get_failure_count :: "string \<Rightarrow> circuit_breaker_manager \<Rightarrow> u32" where
  "get_failure_count addr cm = (case hm_get (cm_entries cm) addr of Some e \<Rightarrow> ce_failure_count e | None \<Rightarrow> 0)"

definition get_last_failure_reason :: "string \<Rightarrow> circuit_breaker_manager \<Rightarrow> string option" where
  "get_last_failure_reason addr cm = Option.bind (hm_get (cm_entries cm) addr) ce_last_failure_reason"



definition get_open_circuits :: "circuit_breaker_manager \<Rightarrow> string list" where
  "get_open_circuits cm = map fst (filter (\<lambda>(_, e). ce_state e = Open) (cm_entries cm))"

definition get_healthy_relays :: "circuit_breaker_manager \<Rightarrow> string list" where
  "get_healthy_relays cm = map fst (filter (\<lambda>(_, e). ce_state e = Closed) (cm_entries cm))"

record circuit_breaker_stats =
  cs_total :: nat
  cs_closed_count :: nat
  cs_open_count :: nat
  cs_half_open_count :: nat

fun count_states :: "(string, circuit_breaker_entry) hmap \<Rightarrow> circuit_breaker_stats \<Rightarrow> circuit_breaker_stats" where
  "count_states [] s = s"
| "count_states ((_, e) # es) s = count_states es
     (case ce_state e of Closed \<Rightarrow> s\<lparr>cs_closed_count := cs_closed_count s + 1\<rparr>
      | Open \<Rightarrow> s\<lparr>cs_open_count := cs_open_count s + 1\<rparr>
      | HalfOpen \<Rightarrow> s\<lparr>cs_half_open_count := cs_half_open_count s + 1\<rparr>)"

definition get_stats :: "circuit_breaker_manager \<Rightarrow> circuit_breaker_stats" where
  "get_stats cm = (count_states (cm_entries cm) \<lparr>cs_total = 0, cs_closed_count = 0, cs_open_count = 0, cs_half_open_count = 0\<rparr>)
     \<lparr>cs_total := length (cm_entries cm)\<rparr>"

section \<open>Reachable managers\<close>














section \<open>A whole cycle\<close>

primrec failures :: "nat list \<Rightarrow> string \<Rightarrow> string \<Rightarrow> circuit_breaker_manager \<Rightarrow> circuit_breaker_manager" where
  "failures [] addr reason cm = cm"
| "failures (t # ts) addr reason cm = failures ts addr reason (record_failure t addr reason cm)"

primrec successes :: "nat list \<Rightarrow> string \<Rightarrow> circuit_breaker_manager \<Rightarrow> circuit_breaker_manager" where
  "successes [] addr cm = cm"
| "successes (t # ts) addr cm = successes ts addr (record_success t addr cm)"

lemma unat_Suc_less: "unat (x :: u32) < unat (y :: u32) \<Longrightarrow> unat (x + 1) = Suc (unat x)"
  using word_less_plus_1 [of x y] by (simp add: word_less_nat_alt)

lemma record_failure_config [simp]: "cm_config (record_failure t addr reason cm) = cm_config cm"
  by (simp add: record_failure_def)

lemma record_success_config [simp]: "cm_config (record_success t addr cm) = cm_config cm"
  by (simp add: record_success_def)

text \<open>Failures in the closed state open the circuit exactly when they reach the threshold.\<close>

lemma failures_open:
  assumes "ce_state (entry_or_new addr cm) = Closed" and "ts \<noteq> []"
    and "unat (ce_failure_count (entry_or_new addr cm)) + length ts = unat (cc_failure_threshold (cm_config cm))"
  shows "\<exists>e. hm_get (cm_entries (failures ts addr reason cm)) addr = Some e \<and> ce_state e = Open \<and> ce_opened_at e = Some (last ts)
    \<and> cm_config (failures ts addr reason cm) = cm_config cm"
  using assms
proof (induction ts arbitrary: cm)
  case (Cons t ts)
  let ?e = "entry_or_new addr cm" and ?cm = "record_failure t addr reason cm"
  let ?f = "failure_entry (cm_config cm) t reason ?e"
  have inc: "unat (ce_failure_count ?e + 1) = Suc (unat (ce_failure_count ?e))"
    using Cons.prems(3) by (intro unat_Suc_less [of _ "cc_failure_threshold (cm_config cm)"]) simp
  have get: "hm_get (cm_entries ?cm) addr = Some ?f" and ent: "entry_or_new addr ?cm = ?f"
    by (simp_all add: record_failure_def entry_or_new_def)
  show ?case
  proof (cases "ts = []")
    case True
    with Cons.prems inc get show ?thesis by (simp add: failure_entry_def Let_def word_le_nat_alt)
  next
    case False
    have "ce_state ?f = Closed" "unat (ce_failure_count ?f) = Suc (unat (ce_failure_count ?e))"
      using Cons.prems inc False by (cases ts; simp add: failure_entry_def Let_def word_le_nat_alt)+
    with Cons.IH [of ?cm] False Cons.prems(3) ent show ?thesis by simp
  qed
qed simp

lemma successes_close:
  assumes "hm_get (cm_entries cm) addr = Some e" and "ce_state e = HalfOpen" and "ts \<noteq> []"
    and "unat (ce_success_count e) + length ts = unat (cc_success_threshold (cm_config cm))"
  shows "get_state addr (successes ts addr cm) = Closed \<and> get_failure_count addr (successes ts addr cm) = 0"
  using assms
proof (induction ts arbitrary: cm e)
  case (Cons t ts)
  let ?cm = "record_success t addr cm" and ?f = "success_entry (cm_config cm) t e"
  have inc: "unat (ce_success_count e + 1) = Suc (unat (ce_success_count e))"
    using Cons.prems(4) by (intro unat_Suc_less [of _ "cc_success_threshold (cm_config cm)"]) simp
  have get: "hm_get (cm_entries ?cm) addr = Some ?f"
    using Cons.prems(1) by (simp add: record_success_def entry_or_new_def)
  show ?case
  proof (cases "ts = []")
    case True
    with Cons.prems inc get show ?thesis
      by (simp add: success_entry_def Let_def word_le_nat_alt get_state_def get_failure_count_def)
  next
    case False
    have "ce_state ?f = HalfOpen" "unat (ce_success_count ?f) = Suc (unat (ce_success_count e))"
      using Cons.prems inc False by (cases ts; simp add: success_entry_def Let_def word_le_nat_alt)+
    with Cons.IH [OF get] False Cons.prems(4) show ?thesis by simp
  qed
qed simp

section \<open>Properties\<close>


text \<open>
  C32. A whole cycle of a breaker.  As many failures in a row as the threshold says open the
  circuit; from the last of them on no request is let through before the timeout, and the first one
  after it is, as a probe; as many successes as the threshold says then close the circuit, while a
  failure opens it again at once.
\<close>

theorem breaker_cycle:
  assumes "hm_get (cm_entries cm) addr = None" and "ts \<noteq> []" and "length ts = unat (cc_failure_threshold (cm_config cm))"
    and "ss \<noteq> []" and "length ss = unat (cc_success_threshold (cm_config cm))"
    and "opened = failures ts addr reason cm" and "last ts + cc_open_timeout (cm_config cm) \<le> t"
  shows "get_state addr opened = Open
    \<and> (\<forall>now. now - last ts < cc_open_timeout (cm_config cm) \<longrightarrow> allow_request now addr opened = (False, opened))
    \<and> (case allow_request t addr opened of (allowed, probing) \<Rightarrow> allowed \<and> get_state addr probing = HalfOpen
         \<and> get_state addr (successes ss addr probing) = Closed \<and> get_failure_count addr (successes ss addr probing) = 0
         \<and> get_state addr (record_failure t addr reason probing) = Open)"
proof -
  have "entry_or_new addr cm = CircuitBreakerEntry_new" using assms(1) by (simp add: entry_or_new_def)
  then obtain e where e: "hm_get (cm_entries opened) addr = Some e" "ce_state e = Open" "ce_opened_at e = Some (last ts)"
      and c: "cm_config opened = cm_config cm"
    using failures_open [of addr cm ts reason] assms(2,3,6) by (auto simp: CircuitBreakerEntry_new_def)
  let ?p = "transition_to_half_open t addr opened"
  have a: "allow_request t addr opened = (True, ?p)" using e c assms(7) by (simp add: allow_request_def)
  obtain f where f: "hm_get (cm_entries ?p) addr = Some f" "ce_state f = HalfOpen" "ce_success_count f = 0" "cm_config ?p = cm_config cm"
    using e(1) c by (simp add: transition_to_half_open_def)
  have "get_state addr (record_failure t addr reason ?p) = Open"
    using f by (simp add: record_failure_def entry_or_new_def failure_entry_def get_state_def Let_def)
  moreover have "allow_request now addr opened = (False, opened)" if "now - last ts < cc_open_timeout (cm_config cm)" for now
    using that e c by (simp add: allow_request_def)
  ultimately show ?thesis
    using successes_close [OF f(1,2) assms(4)] f assms(5) e by (simp add: a get_state_def)
qed

definition sample_breaker :: circuit_breaker_manager where
  "sample_breaker = CircuitBreakerManager_new CircuitBreakerConfig_default"


theorem breaker_cycle_witness:
  "get_state ''relay'' (failures [10, 20, 30] ''relay'' ''refused'' sample_breaker) = Open"
  using breaker_cycle [of sample_breaker "''relay''" "[10, 20, 30]" "[400000, 400001]"
      "failures [10, 20, 30] ''relay'' ''refused'' sample_breaker" "''refused''" 300030]
  by (simp add: sample_breaker_def CircuitBreakerManager_new_def CircuitBreakerConfig_default_def)

end
