(* ===== verification/Rate_Limiter.thy ===== *)
theory Rate_Limiter
  imports Prelude
begin

text \<open>
  The limiter of sync requests, \<open>core/src/drift/rate_limit.rs\<close>: per peer the times of the requests
  granted in the current window.  An instant is a number of milliseconds, and \<open>duration_since\<close> is the
  truncated difference.
\<close>

record sync_rate_limiter =
  rl_limits :: "(string, nat list) hmap"
  rl_window :: nat
  rl_max_per_window :: nat

definition SyncRateLimiter_new :: "nat \<Rightarrow> nat \<Rightarrow> sync_rate_limiter" where
  "SyncRateLimiter_new window max_per_window = \<lparr>rl_limits = [], rl_window = window, rl_max_per_window = max_per_window\<rparr>"

definition recent :: "nat \<Rightarrow> nat \<Rightarrow> nat list \<Rightarrow> nat list" where
  "recent window now ts = filter (\<lambda>t. now - t < window) ts"

definition allow_sync_at :: "string \<Rightarrow> nat \<Rightarrow> sync_rate_limiter \<Rightarrow> bool \<times> sync_rate_limiter" where
  "allow_sync_at peer now rl =
     (let ts = recent (rl_window rl) now (case hm_get (rl_limits rl) peer of Some ts \<Rightarrow> ts | None \<Rightarrow> []) in
      if length ts \<ge> rl_max_per_window rl
      then (False, rl\<lparr>rl_limits := hm_insert peer ts (rl_limits rl)\<rparr>)
      else (True, rl\<lparr>rl_limits := hm_insert peer (ts @ [now]) (rl_limits rl)\<rparr>))"

definition cleanup_expired :: "nat \<Rightarrow> sync_rate_limiter \<Rightarrow> sync_rate_limiter" where
  "cleanup_expired now rl =
     rl\<lparr>rl_limits := filter (\<lambda>(_, ts). ts \<noteq> []) (map (\<lambda>(peer, ts). (peer, recent (rl_window rl) now ts)) (rl_limits rl))\<rparr>"

definition tracked_peer_count :: "sync_rate_limiter \<Rightarrow> nat" where
  "tracked_peer_count rl = length (rl_limits rl)"

definition peer_sync_count :: "string \<Rightarrow> sync_rate_limiter \<Rightarrow> nat" where
  "peer_sync_count peer rl = (case hm_get (rl_limits rl) peer of Some ts \<Rightarrow> length ts | None \<Rightarrow> 0)"

section \<open>Runs\<close>

datatype rl_event = Ask string nat | Clean nat

primrec event_time :: "rl_event \<Rightarrow> nat" where
  "event_time (Ask peer now) = now"
| "event_time (Clean now) = now"

primrec rl_step :: "rl_event \<Rightarrow> sync_rate_limiter \<Rightarrow> (string \<times> nat) list \<times> sync_rate_limiter" where
  "rl_step (Ask peer now) rl =
     (case allow_sync_at peer now rl of (granted, rl) \<Rightarrow> (if granted then [(peer, now)] else [], rl))"
| "rl_step (Clean now) rl = ([], cleanup_expired now rl)"

text \<open>The requests granted in a run, in order.\<close>

fun rl_run :: "rl_event list \<Rightarrow> sync_rate_limiter \<Rightarrow> (string \<times> nat) list \<times> sync_rate_limiter" where
  "rl_run [] rl = ([], rl)"
| "rl_run (x # xs) rl = (case rl_step x rl of (g, rl) \<Rightarrow> case rl_run xs rl of (gs, rl) \<Rightarrow> (g @ gs, rl))"

definition times_of :: "string \<Rightarrow> (string \<times> nat) list \<Rightarrow> nat list" where
  "times_of peer gs = map snd (filter (\<lambda>(p, _). p = peer) gs)"

definition kept_for :: "string \<Rightarrow> sync_rate_limiter \<Rightarrow> nat list" where
  "kept_for peer rl = (case hm_get (rl_limits rl) peer of Some ts \<Rightarrow> ts | None \<Rightarrow> [])"

definition in_window :: "nat \<Rightarrow> nat \<Rightarrow> nat list \<Rightarrow> nat list" where
  "in_window window a ts = filter (\<lambda>t. a \<le> t \<and> t < a + window) ts"

text \<open>
  The limiter remembers every granted request that can still matter at time \<open>now\<close> or later, and no
  window contains more than the maximum.
\<close>

definition rl_inv :: "(string \<times> nat) list \<Rightarrow> nat \<Rightarrow> sync_rate_limiter \<Rightarrow> bool" where
  "rl_inv gs t0 rl \<longleftrightarrow> hm_wf (rl_limits rl)
     \<and> (\<forall>peer now. t0 \<le> now \<longrightarrow> recent (rl_window rl) now (kept_for peer rl) = recent (rl_window rl) now (times_of peer gs))
     \<and> (\<forall>peer a. length (in_window (rl_window rl) a (times_of peer gs)) \<le> rl_max_per_window rl)"

lemma times_of_append [simp]: "times_of peer (gs @ hs) = times_of peer gs @ times_of peer hs"
  by (simp add: times_of_def)

lemma times_of_one [simp]: "times_of peer [(p, t)] = (if p = peer then [t] else [])"
  by (simp add: times_of_def)

lemma recent_recent: "now \<le> later \<Longrightarrow> recent w later (recent w now ts) = recent w later ts"
  unfolding recent_def filter_filter by (rule filter_cong) auto

lemma recent_Nil [simp]: "recent w now [] = []"
  by (simp add: recent_def)

lemma cleanup_simps [simp]:
  "rl_window (cleanup_expired now rl) = rl_window rl" "rl_max_per_window (cleanup_expired now rl) = rl_max_per_window rl"
  by (simp_all add: cleanup_expired_def)

lemma recent_append [simp]: "recent w now (ts @ us) = recent w now ts @ recent w now us"
  by (simp add: recent_def)

lemma kept_for_insert [simp]:
  "kept_for peer (rl\<lparr>rl_limits := hm_insert p ts (rl_limits rl)\<rparr>) = (if p = peer then ts else kept_for peer rl)"
  by (simp add: kept_for_def)

lemma kept_for_clean:
  assumes "hm_wf (rl_limits rl)"
  shows "kept_for peer (cleanup_expired now rl) = recent (rl_window rl) now (kept_for peer rl)"
proof -
  let ?f = "\<lambda>ts. recent (rl_window rl) now ts"
  have "map_of (filter (\<lambda>(_, ts). ts \<noteq> []) (map (\<lambda>(p, ts). (p, ?f ts)) m)) peer =
      (case map_of m peer of Some ts \<Rightarrow> if ?f ts = [] then None else Some (?f ts) | None \<Rightarrow> None)"
    if "hm_wf m" for m
    using that
  proof (induction m)
    case (Cons x m)
    obtain p ts where x: "x = (p, ts)" by (cases x)
    have "map_of m p = None" using Cons.prems by (simp add: x map_of_eq_None_iff)
    with Cons show ?case by (auto simp: x)
  qed simp
  from this [OF assms] show ?thesis
    by (auto simp: kept_for_def cleanup_expired_def recent_def split: option.splits)
qed

lemma rl_wf_clean: "hm_wf (rl_limits rl) \<Longrightarrow> hm_wf (rl_limits (cleanup_expired now rl))"
proof -
  assume "hm_wf (rl_limits rl)"
  then have "hm_wf (map (\<lambda>(peer, ts). (peer, recent (rl_window rl) now ts)) (rl_limits rl))"
    by (simp add: hm_wf_def comp_def split_def)
  then show ?thesis by (simp add: cleanup_expired_def)
qed

lemma in_window_recent:
  assumes "a \<le> now" and "now < a + w"
  shows "length (in_window w a ts) \<le> length (recent w now ts)"
  unfolding in_window_def recent_def using assms by (induction ts) auto

lemma ask_inv:
  assumes "rl_inv gs t0 rl" and "t0 \<le> now" and "rl_step (Ask p now) rl = (hs, rl')"
  shows "rl_inv (gs @ hs) now rl' \<and> rl_window rl' = rl_window rl \<and> rl_max_per_window rl' = rl_max_per_window rl"
proof -
  let ?w = "rl_window rl" and ?ts = "recent (rl_window rl) now (kept_for p rl)"
  have wf: "hm_wf (rl_limits rl)"
    and rec: "\<And>peer later. now \<le> later \<Longrightarrow> recent ?w later (kept_for peer rl) = recent ?w later (times_of peer gs)"
    and bound: "\<And>peer a. length (in_window ?w a (times_of peer gs)) \<le> rl_max_per_window rl"
    using assms(1,2) by (auto simp: rl_inv_def)
  show ?thesis
  proof (cases "length ?ts \<ge> rl_max_per_window rl")
    case True
    then have "hs = []" "rl' = rl\<lparr>rl_limits := hm_insert p ?ts (rl_limits rl)\<rparr>"
      using assms(3) by (auto simp: allow_sync_at_def kept_for_def Let_def)
    with wf rec bound show ?thesis by (auto simp: rl_inv_def recent_recent)
  next
    case False
    then have hs: "hs = [(p, now)]" and rl': "rl' = rl\<lparr>rl_limits := hm_insert p (?ts @ [now]) (rl_limits rl)\<rparr>"
      using assms(3) by (auto simp: allow_sync_at_def kept_for_def Let_def)
    have "length (in_window ?w a (times_of p gs @ [now])) \<le> rl_max_per_window rl" for a
    proof (cases "a \<le> now \<and> now < a + ?w")
      case True
      then have "length (in_window ?w a (times_of p gs)) \<le> length ?ts"
        using in_window_recent [of a now ?w "times_of p gs"] rec [of now p] by simp
      with False True show ?thesis by (simp add: in_window_def)
    next
      case False
      then have "in_window ?w a (times_of p gs @ [now]) = in_window ?w a (times_of p gs)" by (auto simp: in_window_def)
      with bound show ?thesis by simp
    qed
    with wf rec bound show ?thesis by (auto simp: rl_inv_def hs rl' recent_recent)
  qed
qed

lemma clean_inv:
  assumes "rl_inv gs t0 rl" and "t0 \<le> now"
  shows "rl_inv gs now (cleanup_expired now rl)"
  using assms by (auto simp: rl_inv_def rl_wf_clean kept_for_clean recent_recent)

lemma limiter_run_inv:
  assumes "rl_inv gs t0 rl" and "sorted (t0 # map event_time xs)" and "rl_run xs rl = (hs, rl')"
  shows "\<exists>t1. rl_inv (gs @ hs) t1 rl' \<and> rl_window rl' = rl_window rl \<and> rl_max_per_window rl' = rl_max_per_window rl"
  using assms
proof (induction xs arbitrary: gs t0 rl hs)
  case Nil
  then show ?case by auto
next
  case (Cons x xs)
  obtain h1 rl1 where s: "rl_step x rl = (h1, rl1)" by (cases "rl_step x rl")
  obtain h2 where h: "rl_run xs rl1 = (h2, rl')" "hs = h1 @ h2" using Cons.prems(3) s by (auto split: prod.splits)
  have "rl_inv (gs @ h1) (event_time x) rl1 \<and> rl_window rl1 = rl_window rl \<and> rl_max_per_window rl1 = rl_max_per_window rl"
  proof (cases x)
    case (Ask p now)
    with ask_inv [OF Cons.prems(1), of now p h1 rl1] Cons.prems(2) s show ?thesis by simp
  next
    case (Clean now)
    with clean_inv [OF Cons.prems(1), of now] Cons.prems(2) s show ?thesis by auto
  qed
  with Cons.IH [of "gs @ h1" "event_time x" rl1 h2] h Cons.prems(2) show ?case by auto
qed

section \<open>Property\<close>

text \<open>
  C33. The limit of the sliding window.  However requests and clean-ups are interleaved, and
  whichever stretch of time as long as the window is looked at, no more requests of a peer in it are
  granted than the maximum.
\<close>

theorem sync_window_bounded:
  assumes "sorted (map event_time xs)" and "rl_run xs (SyncRateLimiter_new window max_per_window) = (gs, rl)"
  shows "length (filter (\<lambda>(p, t). p = peer \<and> a \<le> t \<and> t < a + window) gs) \<le> max_per_window"
proof -
  let ?rl = "SyncRateLimiter_new window max_per_window"
  have "rl_inv [] 0 ?rl" by (simp add: rl_inv_def SyncRateLimiter_new_def kept_for_def times_of_def recent_def in_window_def)
  from limiter_run_inv [OF this, of xs gs rl] assms obtain t1 where
    "rl_inv gs t1 rl" "rl_window rl = window" "rl_max_per_window rl = max_per_window"
    by (auto simp: SyncRateLimiter_new_def)
  then have "length (in_window window a (times_of peer gs)) \<le> max_per_window" by (auto simp: rl_inv_def)
  moreover have "length (in_window window a (times_of peer gs)) = length (filter (\<lambda>(p, t). p = peer \<and> a \<le> t \<and> t < a + window) gs)"
    by (simp add: in_window_def times_of_def filter_map comp_def split_def conj_commute)
  ultimately show ?thesis by simp
qed

theorem sync_window_bounded_witness:
  "length (filter (\<lambda>(p, t). p = ''a'' \<and> 1 \<le> t \<and> t < 1 + 60)
     (fst (rl_run [Ask ''a'' 1, Ask ''a'' 2, Clean 3, Ask ''a'' 4] (SyncRateLimiter_new 60 2)))) \<le> 2"
  using sync_window_bounded [OF _ prod.collapse [symmetric], where xs = "[Ask ''a'' 1, Ask ''a'' 2, Clean 3, Ask ''a'' 4]"
      and window = 60 and max_per_window = 2 and peer = "''a''" and a = 1] by simp

end
