(* ===== verification/Core_Storage.thy ===== *)
theory Core_Storage
  imports Storage_Backend Rust_Strings
begin

text \<open>
  What the stores of \<open>core/src/store\<close> share: the error type of the core, the calls of the backend
  whose errors become \<open>StorageError\<close>, and the loops over the rows of a scan.  Every store keeps its rows
  under a key prefix of one shared backend; \<open>serde_json\<close> is a pair of functions per row type.

  The lemmas describe the rows of a store as a set of records: a backend that keeps its contract
  (locale \<open>backend_contract\<close>) returns from a scan each row once.
\<close>

section \<open>Errors\<close>

text \<open>\<open>IronCoreError\<close> of \<open>core/src/lib.rs\<close>.\<close>

datatype iron_core_error = NotInitialized | AlreadyRunning | StorageError | CryptoError | NetworkError | InvalidInput
  | Blocked | ConsentRequired | Internal | CorruptionDetected | DialSelf | NoAddresses | ConnectionLimit
  | MultiaddrNotSupported | IoError | OnionRoutingDisabled

section \<open>Serialized rows\<close>

record 'a serde =
  to_vec :: "'a \<Rightarrow> bytes option"
  from_slice :: "bytes \<Rightarrow> 'a option"

definition serde_correct :: "'a serde \<Rightarrow> bool" where
  "serde_correct J \<longleftrightarrow> (\<forall>x. \<exists>b. to_vec J x = Some b \<and> from_slice J b = Some x)"

definition encode_row :: "'a serde \<Rightarrow> 'a \<Rightarrow> (iron_core_error, bytes) result" where
  "encode_row J x = (case to_vec J x of Some b \<Rightarrow> Ok b | None \<Rightarrow> Err Internal)"

definition decode_row :: "'a serde \<Rightarrow> bytes \<Rightarrow> (iron_core_error, 'a) result" where
  "decode_row J b = (case from_slice J b of Some x \<Rightarrow> Ok x | None \<Rightarrow> Err Internal)"

lemma encode_row_ok:
  assumes "serde_correct J"
  obtains b where "encode_row J x = Ok b" "from_slice J b = Some x"
proof -
  from assms obtain b where "to_vec J x = Some b" "from_slice J b = Some x" unfolding serde_correct_def by blast
  then show thesis by (intro that [of b]) (simp_all add: encode_row_def)
qed

lemma decode_row_eq: "decode_row J b = Ok x \<longleftrightarrow> from_slice J b = Some x"
  "decode_row J b = Err e \<longleftrightarrow> from_slice J b = None \<and> e = Internal" "decode_row J b \<noteq> Panic"
  by (auto simp: decode_row_def split: option.splits)

section \<open>Calls of the backend\<close>

definition core_put :: "'s storage_vtable \<Rightarrow> bytes \<Rightarrow> bytes \<Rightarrow> 's \<Rightarrow> (iron_core_error, unit) result \<times> 's" where
  "core_put vt key v st = (case vt_put vt key v st of (r, st') \<Rightarrow> (map_err (\<lambda>_. StorageError) r, st'))"

definition core_remove :: "'s storage_vtable \<Rightarrow> bytes \<Rightarrow> 's \<Rightarrow> (iron_core_error, unit) result \<times> 's" where
  "core_remove vt key st = (case vt_remove vt key st of (r, st') \<Rightarrow> (map_err (\<lambda>_. StorageError) r, st'))"

definition core_get :: "'s storage_vtable \<Rightarrow> bytes \<Rightarrow> 's \<Rightarrow> (iron_core_error, bytes option) result" where
  "core_get vt key st = map_err (\<lambda>_. StorageError) (vt_get vt key st)"

definition core_scan :: "'s storage_vtable \<Rightarrow> bytes \<Rightarrow> 's \<Rightarrow> (iron_core_error, scan_result) result" where
  "core_scan vt prefix st = map_err (\<lambda>_. StorageError) (vt_scan_prefix vt prefix st)"

text \<open>A sequence of removals ends at the first error; the rows removed before stay removed.\<close>

fun core_remove_all :: "'s storage_vtable \<Rightarrow> bytes list \<Rightarrow> 's \<Rightarrow> (iron_core_error, unit) result \<times> 's" where
  "core_remove_all vt [] st = (Ok (), st)"
| "core_remove_all vt (key # keys) st =
     (case core_remove vt key st of (r, st') \<Rightarrow> or_return r st' (\<lambda>_. core_remove_all vt keys st'))"

text \<open>\<open>let _ = backend.remove(\<dots>)\<close>: the outcome is ignored.\<close>

definition ignore_put :: "'s storage_vtable \<Rightarrow> bytes \<Rightarrow> bytes \<Rightarrow> 's \<Rightarrow> 's" where
  "ignore_put vt key v st = snd (vt_put vt key v st)"

definition ignore_remove :: "'s storage_vtable \<Rightarrow> bytes \<Rightarrow> 's \<Rightarrow> 's" where
  "ignore_remove vt key st = snd (vt_remove vt key st)"

definition ignore_flush :: "'s storage_vtable \<Rightarrow> 's \<Rightarrow> 's" where
  "ignore_flush vt st = snd (vt_flush vt st)"

text \<open>The loop that reads every row of a scan and gives up at the first that does not parse.\<close>

fun read_rows :: "'a serde \<Rightarrow> scan_result \<Rightarrow> (iron_core_error, 'a list) result" where
  "read_rows J [] = Ok []"
| "read_rows J ((key, v) # es) =
     and_then (decode_row J v) (\<lambda>x. and_then (read_rows J es) (\<lambda>xs. Ok (x # xs)))"

section \<open>The rows of a store\<close>

text \<open>
  \<open>rows_wf\<close>: every row under the prefix parses and is stored under the key of its record;
  \<open>rows\<close>: the records of the store.
\<close>

definition rows_wf :: "(bytes \<rightharpoonup> bytes) \<Rightarrow> 'a serde \<Rightarrow> bytes \<Rightarrow> ('a \<Rightarrow> bytes) \<Rightarrow> bool" where
  "rows_wf c J p key_of \<longleftrightarrow>
     (\<forall>k v. c k = Some v \<and> starts_with k p \<longrightarrow> (\<exists>x. from_slice J v = Some x \<and> key_of x = k))"

definition rows :: "(bytes \<rightharpoonup> bytes) \<Rightarrow> 'a serde \<Rightarrow> bytes \<Rightarrow> 'a set" where
  "rows c J p = {x. \<exists>k v. c k = Some v \<and> starts_with k p \<and> from_slice J v = Some x}"

lemma rows_wfD:
  "rows_wf c J p key_of \<Longrightarrow> c k = Some v \<Longrightarrow> starts_with k p \<Longrightarrow> from_slice J v = Some x \<Longrightarrow> key_of x = k"
  unfolding rows_wf_def by fastforce

lemma rows_key:
  assumes "rows_wf c J p key_of" and "x \<in> rows c J p"
  obtains v where "c (key_of x) = Some v" "from_slice J v = Some x" "starts_with (key_of x) p"
  using assms rows_wfD [OF assms(1)] unfolding rows_def by blast

lemma rows_unique:
  assumes "rows_wf c J p key_of" "x \<in> rows c J p" "y \<in> rows c J p" "key_of x = key_of y"
  shows "x = y"
  using assms by (elim rows_key [OF assms(1), of x] rows_key [OF assms(1), of y]) auto

text \<open>A row is written, rows are removed, and a change under another prefix.\<close>

lemma rows_put:
  assumes "rows_wf c J p key_of" and "from_slice J v = Some x" and "starts_with (key_of x) p"
  shows "rows_wf (c(key_of x \<mapsto> v)) J p key_of" "rows (c(key_of x \<mapsto> v)) J p = {y \<in> rows c J p. key_of y \<noteq> key_of x} \<union> {x}"
proof -
  show "rows_wf (c(key_of x \<mapsto> v)) J p key_of" using assms by (auto simp: rows_wf_def)
  show "rows (c(key_of x \<mapsto> v)) J p = {y \<in> rows c J p. key_of y \<noteq> key_of x} \<union> {x}"
  proof (rule set_eqI)
    fix y
    show "y \<in> rows (c(key_of x \<mapsto> v)) J p \<longleftrightarrow> y \<in> {y \<in> rows c J p. key_of y \<noteq> key_of x} \<union> {x}"
      using assms(2,3) rows_wfD [OF assms(1), of _ _ y] by (auto simp: rows_def)
  qed
qed

lemma rows_remove:
  assumes "rows_wf c J p key_of"
  shows "rows_wf (\<lambda>k. if k \<in> K then None else c k) J p key_of"
    "rows (\<lambda>k. if k \<in> K then None else c k) J p = {x \<in> rows c J p. key_of x \<notin> K}"
proof -
  show "rows_wf (\<lambda>k. if k \<in> K then None else c k) J p key_of" using assms by (auto simp: rows_wf_def)
  show "rows (\<lambda>k. if k \<in> K then None else c k) J p = {x \<in> rows c J p. key_of x \<notin> K}"
  proof (rule set_eqI)
    fix y
    show "y \<in> rows (\<lambda>k. if k \<in> K then None else c k) J p \<longleftrightarrow> y \<in> {x \<in> rows c J p. key_of x \<notin> K}"
      using rows_wfD [OF assms, of _ _ y] by (auto simp: rows_def)
  qed
qed

lemma rows_other:
  assumes "\<And>k. starts_with k p \<Longrightarrow> c' k = c k"
  shows "rows_wf c' J p key_of = rows_wf c J p key_of" "rows c' J p = rows c J p"
proof -
  have "c' k = Some v \<and> starts_with k p \<longleftrightarrow> c k = Some v \<and> starts_with k p" for k v using assms by auto
  then have "c' k = Some v \<and> starts_with k p \<and> Q \<longleftrightarrow> c k = Some v \<and> starts_with k p \<and> Q" for k v Q by blast
  then show "rows c' J p = rows c J p" by (simp only: rows_def)
  show "rows_wf c' J p key_of = rows_wf c J p key_of"
    by (simp only: rows_wf_def \<open>\<And>k v. (c' k = Some v \<and> starts_with k p) = (c k = Some v \<and> starts_with k p)\<close>)
qed

lemma rows_wf_empty [simp]: "rows_wf Map.empty J p key_of" "rows Map.empty J p = {}"
  by (simp_all add: rows_wf_def rows_def)

lemma read_rows_ok:
  "\<forall>(k, v) \<in> set es. \<exists>x. from_slice J v = Some x \<and> key_of x = k \<Longrightarrow>
     \<exists>xs. read_rows J es = Ok xs \<and> map key_of xs = map fst es \<and> list_all2 (\<lambda>(k, v) x. from_slice J v = Some x) es xs"
  by (induction es) (auto simp: decode_row_def)

lemma read_rows_fails: "read_rows J es = Err e \<Longrightarrow> e = Internal \<and> (\<exists>(k, v) \<in> set es. from_slice J v = None)"
  by (induction es) (auto simp: and_then_eq_Err decode_row_eq)

lemma read_rows_error: "(k, v) \<in> set es \<Longrightarrow> from_slice J v = None \<Longrightarrow> read_rows J es = Err Internal"
proof (induction es)
  case (Cons e es)
  obtain k' v' where e: "e = (k', v')" by (cases e)
  show ?case using Cons by (cases "from_slice J v'") (auto simp: e decode_row_def)
qed simp

text \<open>The rest of the backend is left alone.\<close>

definition same_outside :: "bytes \<Rightarrow> (bytes \<rightharpoonup> bytes) \<Rightarrow> (bytes \<rightharpoonup> bytes) \<Rightarrow> bool" where
  "same_outside p c c' \<longleftrightarrow> (\<forall>k. \<not> starts_with k p \<longrightarrow> c' k = c k)"

lemma same_outside_refl [simp]: "same_outside p c c"
  by (simp add: same_outside_def)

lemma same_outside_trans: "same_outside p c c' \<Longrightarrow> same_outside p c' c'' \<Longrightarrow> same_outside p c c''"
  by (simp add: same_outside_def)

lemma same_outside_upd: "starts_with k p \<Longrightarrow> same_outside p c (c(k := v))"
  by (auto simp: same_outside_def)

lemma same_outside_drop: "\<forall>k \<in> K. starts_with k p \<Longrightarrow> same_outside p c (\<lambda>k. if k \<in> K then None else c k)"
  by (auto simp: same_outside_def)

lemma prefixes_disjoint: "starts_with k p \<Longrightarrow> \<not> starts_with p q \<Longrightarrow> \<not> starts_with q p \<Longrightarrow> \<not> starts_with k q"
  by (auto simp: starts_with_iff append_eq_append_conv2)

lemma same_outside_rows:
  assumes "same_outside q c c'" and "\<not> starts_with p q" and "\<not> starts_with q p"
  shows "rows_wf c' J p key_of = rows_wf c J p key_of" "rows c' J p = rows c J p"
  by (rule rows_other; use assms prefixes_disjoint in \<open>auto simp: same_outside_def\<close>)+

section \<open>On a backend that keeps its contract\<close>

context backend_contract begin

lemma core_put_ok:
  "good s \<Longrightarrow> \<exists>s'. core_put vt k v s = (Ok (), s') \<and> good s' \<and> content s' = (content s)(k \<mapsto> v)"
  using put_law [of s k v] by (auto simp: core_put_def)

lemma core_remove_ok:
  "good s \<Longrightarrow> \<exists>s'. core_remove vt k s = (Ok (), s') \<and> good s' \<and> content s' = (content s)(k := None)"
  using remove_law [of s k] by (auto simp: core_remove_def)

lemma core_get_ok: "good s \<Longrightarrow> core_get vt k s = Ok (content s k)"
  by (simp add: core_get_def get_law)

lemma core_scan_ok:
  "good s \<Longrightarrow> \<exists>es. core_scan vt p s = Ok es \<and> vt_scan_prefix vt p s = Ok es \<and> distinct (map fst es)
     \<and> set es = {(k, v). content s k = Some v \<and> starts_with k p}"
  using scan_law [of s p] by (auto simp: core_scan_def)

lemma ignore_laws:
  assumes "good s"
  shows "good (ignore_put vt k v s)" "content (ignore_put vt k v s) = (content s)(k \<mapsto> v)"
    "good (ignore_remove vt k s)" "content (ignore_remove vt k s) = (content s)(k := None)"
    "good (ignore_flush vt s)" "content (ignore_flush vt s) = content s"
  using put_law [OF assms, of k v] remove_law [OF assms, of k] flush_law [OF assms]
  by (auto simp: ignore_put_def ignore_remove_def ignore_flush_def)

lemma core_remove_all_ok:
  "good s \<Longrightarrow> \<exists>s'. core_remove_all vt ks s = (Ok (), s') \<and> good s' \<and> content s' = (\<lambda>k. if k \<in> set ks then None else content s k)"
proof (induction ks arbitrary: s)
  case (Cons k ks)
  from core_remove_ok [OF Cons.prems, of k] obtain s1 where s1: "core_remove vt k s = (Ok (), s1)" "good s1"
    "content s1 = (content s)(k := None)" by blast
  from Cons.IH [OF s1(2)] s1 show ?case by fastforce
qed simp

text \<open>What a scan of a well-formed store reads.\<close>

lemma scan_rows:
  assumes "good s" and "rows_wf (content s) J p key_of"
  obtains es xs where "core_scan vt p s = Ok es" "vt_scan_prefix vt p s = Ok es" "read_rows J es = Ok xs" "map fst es = map key_of xs"
    "distinct (map key_of xs)" "set xs = rows (content s) J p" "list_all2 (\<lambda>(k, v) x. from_slice J v = Some x) es xs"
proof -
  from core_scan_ok [OF assms(1), of p] obtain es where es: "core_scan vt p s = Ok es" "vt_scan_prefix vt p s = Ok es"
    "distinct (map fst es)" "set es = {(k, v). content s k = Some v \<and> starts_with k p}" by blast
  have "\<forall>(k, v) \<in> set es. \<exists>x. from_slice J v = Some x \<and> key_of x = k"
    using assms(2) by (auto simp: es(4) rows_wf_def)
  from read_rows_ok [OF this] obtain xs where xs: "read_rows J es = Ok xs" "map key_of xs = map fst es"
    "list_all2 (\<lambda>(k, v) x. from_slice J v = Some x) es xs" by blast
  have "set xs = {x. \<exists>(k, v) \<in> set es. from_slice J v = Some x}"
    using xs(3) by (induction rule: list_all2_induct) auto
  also have "\<dots> = rows (content s) J p" by (auto simp: es(4) rows_def)
  finally show thesis using es xs by (intro that [of es xs]) simp_all
qed

end

end
