(* ===== verification/History.thy ===== *)
theory History
  imports Core_Storage
begin

text \<open>
  The message history (\<open>core/src/store/history.rs\<close>): one row per message under the key \<open>msg_\<close> and its
  id, in the backend that the whole core shares.  The clock and fresh UUIDs are arguments; the conversion
  of rows (\<open>serde_json\<close>) and the Unicode tables behind \<open>to_lowercase\<close> are fields of \<open>history_libs\<close>.

  The lemmas of the context \<open>backend_contract\<close> read the history as a finite set of records with distinct
  ids and give the effect of every operation on that set.
\<close>

section \<open>Records\<close>

datatype message_direction = Sent | Received

record message_record =
  mr_id :: string
  mr_direction :: message_direction
  mr_peer_id :: string
  mr_content :: string
  mr_timestamp :: u64
  mr_sender_timestamp :: u64
  mr_delivered :: bool
  mr_hidden :: bool

definition adjust_legacy_timestamps :: "message_record \<Rightarrow> message_record" where
  "adjust_legacy_timestamps r =
     (if mr_sender_timestamp r = 0 then r\<lparr>mr_sender_timestamp := mr_timestamp r\<rparr> else r)"

definition MessageRecord_new_sent :: "string \<Rightarrow> u64 \<Rightarrow> string \<Rightarrow> string \<Rightarrow> message_record" where
  "MessageRecord_new_sent uuid now peer_id content =
     \<lparr>mr_id = uuid, mr_direction = Sent, mr_peer_id = peer_id, mr_content = content, mr_timestamp = now,
      mr_sender_timestamp = now, mr_delivered = False, mr_hidden = False\<rparr>"

definition MessageRecord_new_received :: "string \<Rightarrow> u64 \<Rightarrow> string \<Rightarrow> string \<Rightarrow> u64 \<Rightarrow> message_record" where
  "MessageRecord_new_received uuid now peer_id content sender_timestamp =
     \<lparr>mr_id = uuid, mr_direction = Received, mr_peer_id = peer_id, mr_content = content, mr_timestamp = now,
      mr_sender_timestamp = sender_timestamp, mr_delivered = True, mr_hidden = False\<rparr>"

record history_stats =
  hs_total_messages :: u32
  hs_sent_count :: u32
  hs_received_count :: u32
  hs_undelivered_count :: u32

text \<open>\<open>str::eq_ignore_ascii_case\<close>.\<close>

definition ascii_lower :: "char \<Rightarrow> char" where
  "ascii_lower c = (if 65 \<le> (of_char c :: nat) \<and> (of_char c :: nat) \<le> 90 then char_of ((of_char c :: nat) + 32) else c)"

definition eq_ignore_ascii_case :: "string \<Rightarrow> string \<Rightarrow> bool" where
  "eq_ignore_ascii_case a b \<longleftrightarrow> map ascii_lower a = map ascii_lower b"

section \<open>The manager\<close>

record 's history_libs =
  hl_vtable :: "'s storage_vtable"
  hl_json :: "message_record serde"
  hl_lowercase :: "string \<Rightarrow> string"

definition MSG_PREFIX :: bytes where "MSG_PREFIX = as_bytes ''msg_''"

definition msg_key :: "string \<Rightarrow> bytes" where "msg_key i = as_bytes (''msg_'' @ i)"

abbreviation record_key :: "message_record \<Rightarrow> bytes" where "record_key r \<equiv> msg_key (mr_id r)"

definition History_add :: "'s history_libs \<Rightarrow> message_record \<Rightarrow> 's \<Rightarrow> (iron_core_error, unit) result \<times> 's" where
  "History_add L r st =
     or_return (encode_row (hl_json L) r) st (\<lambda>v. core_put (hl_vtable L) (record_key r) v st)"

definition History_get :: "'s history_libs \<Rightarrow> string \<Rightarrow> 's \<Rightarrow> (iron_core_error, message_record option) result" where
  "History_get L i st =
     and_then (core_get (hl_vtable L) (msg_key i) st) (\<lambda>found.
       (case found of
          None \<Rightarrow> Ok None
        | Some v \<Rightarrow> and_then (decode_row (hl_json L) v) (\<lambda>r. Ok (Some (adjust_legacy_timestamps r)))))"

text \<open>The loops of \<open>recent_internal\<close> and \<open>search\<close>: rows are parsed one by one and kept by a test.\<close>

fun collect_records :: "message_record serde \<Rightarrow> (message_record \<Rightarrow> bool) \<Rightarrow> scan_result \<Rightarrow> (iron_core_error, message_record list) result" where
  "collect_records J keep [] = Ok []"
| "collect_records J keep ((key, v) # es) =
     and_then (decode_row J v) (\<lambda>r.
     and_then (collect_records J keep es) (\<lambda>rs.
       let r = adjust_legacy_timestamps r in Ok (if keep r then r # rs else rs)))"

definition newest_first :: "u32 \<Rightarrow> message_record list \<Rightarrow> message_record list" where
  "newest_first limit rs =
     (let sorted = sort_key (\<lambda>r. - uint (mr_timestamp r)) rs in
      if length sorted > unat limit then take (unat limit) sorted else sorted)"

definition recent_internal ::
  "'s history_libs \<Rightarrow> string option \<Rightarrow> u32 \<Rightarrow> bool \<Rightarrow> 's \<Rightarrow> (iron_core_error, message_record list) result" where
  "recent_internal L peer_filter limit include_hidden st =
     and_then (core_scan (hl_vtable L) MSG_PREFIX st) (\<lambda>all_rows.
     and_then (collect_records (hl_json L) (\<lambda>r.
         if mr_hidden r \<and> \<not> include_hidden then False
         else (case peer_filter of Some peer \<Rightarrow> eq_ignore_ascii_case (mr_peer_id r) peer | None \<Rightarrow> True)) all_rows) (\<lambda>records.
       Ok (newest_first limit records)))"

definition History_recent :: "'s history_libs \<Rightarrow> string option \<Rightarrow> u32 \<Rightarrow> 's \<Rightarrow> (iron_core_error, message_record list) result" where
  "History_recent L peer_filter limit st = recent_internal L peer_filter limit False st"

definition recent_including_hidden ::
  "'s history_libs \<Rightarrow> string option \<Rightarrow> u32 \<Rightarrow> 's \<Rightarrow> (iron_core_error, message_record list) result" where
  "recent_including_hidden L peer_filter limit st = recent_internal L peer_filter limit True st"

definition History_conversation :: "'s history_libs \<Rightarrow> string \<Rightarrow> u32 \<Rightarrow> 's \<Rightarrow> (iron_core_error, message_record list) result" where
  "History_conversation L peer_id limit st = History_recent L (Some peer_id) limit st"

text \<open>
  \<open>hide_messages_for_peer\<close> (\<open>hide\<close> is \<open>True\<close>) and \<open>unhide_messages_for_peer\<close> share their loop: each row
  whose flag differs is written back under the key of its id; the count wraps at 32 bits.
\<close>

fun set_hidden_rows :: "'s history_libs \<Rightarrow> bool \<Rightarrow> string \<Rightarrow> scan_result \<Rightarrow> u32 \<Rightarrow> 's \<Rightarrow> (iron_core_error, u32) result \<times> 's" where
  "set_hidden_rows L hide peer_id [] n st = (Ok n, st)"
| "set_hidden_rows L hide peer_id ((key, v) # es) n st =
     or_return (decode_row (hl_json L) v) st (\<lambda>r.
       if mr_hidden r \<noteq> hide \<and> eq_ignore_ascii_case (mr_peer_id r) peer_id
       then let r' = r\<lparr>mr_hidden := hide\<rparr> in
            or_return (encode_row (hl_json L) r') st (\<lambda>updated.
              (case core_put (hl_vtable L) (record_key r') updated st of (q, st') \<Rightarrow>
                 or_return q st' (\<lambda>_. set_hidden_rows L hide peer_id es (n + 1) st')))
       else set_hidden_rows L hide peer_id es n st)"

definition unhide_messages_for_peer :: "'s history_libs \<Rightarrow> string \<Rightarrow> 's \<Rightarrow> (iron_core_error, u32) result \<times> 's" where
  "unhide_messages_for_peer L peer_id st =
     or_return (core_scan (hl_vtable L) MSG_PREFIX st) st (\<lambda>all_rows. set_hidden_rows L False peer_id all_rows 0 st)"

definition hide_messages_for_peer :: "'s history_libs \<Rightarrow> string \<Rightarrow> 's \<Rightarrow> (iron_core_error, u32) result \<times> 's" where
  "hide_messages_for_peer L peer_id st =
     or_return (core_scan (hl_vtable L) MSG_PREFIX st) st (\<lambda>all_rows. set_hidden_rows L True peer_id all_rows 0 st)"

definition History_search :: "'s history_libs \<Rightarrow> string \<Rightarrow> u32 \<Rightarrow> 's \<Rightarrow> (iron_core_error, message_record list) result" where
  "History_search L query limit st =
     (let query_lower = hl_lowercase L query in
      and_then (core_scan (hl_vtable L) MSG_PREFIX st) (\<lambda>all_rows.
      and_then (collect_records (hl_json L) (\<lambda>r. \<not> mr_hidden r \<and> str_contains (hl_lowercase L (mr_content r)) query_lower) all_rows) (\<lambda>records.
        Ok (newest_first limit records))))"

text \<open>
  The loop of \<open>remove_conversation\<close> and \<open>prune_before\<close>: rows are parsed and removed one by one, so a row
  that does not parse ends it after the rows before it are gone.
\<close>

fun remove_rows_if :: "'s history_libs \<Rightarrow> (message_record \<Rightarrow> bool) \<Rightarrow> scan_result \<Rightarrow> u32 \<Rightarrow> 's \<Rightarrow> (iron_core_error, u32) result \<times> 's" where
  "remove_rows_if L drop_it [] n st = (Ok n, st)"
| "remove_rows_if L drop_it ((key, v) # es) n st =
     or_return (decode_row (hl_json L) v) st (\<lambda>r.
       if drop_it r
       then (case core_remove (hl_vtable L) key st of (q, st') \<Rightarrow>
               or_return q st' (\<lambda>_. remove_rows_if L drop_it es (n + 1) st'))
       else remove_rows_if L drop_it es n st)"

definition remove_conversation :: "'s history_libs \<Rightarrow> string \<Rightarrow> 's \<Rightarrow> (iron_core_error, unit) result \<times> 's" where
  "remove_conversation L peer_id st =
     or_return (core_scan (hl_vtable L) MSG_PREFIX st) st (\<lambda>all_rows.
       (case remove_rows_if L (\<lambda>r. eq_ignore_ascii_case (mr_peer_id (adjust_legacy_timestamps r)) peer_id) all_rows 0 st of
          (q, st') \<Rightarrow> (and_then q (\<lambda>_. Ok ()), st')))"

definition mark_delivered :: "'s history_libs \<Rightarrow> string \<Rightarrow> 's \<Rightarrow> (iron_core_error, unit) result \<times> 's" where
  "mark_delivered L i st =
     or_return (History_get L i st) st (\<lambda>found.
       (case found of Some r \<Rightarrow> History_add L (r\<lparr>mr_delivered := True\<rparr>) st | None \<Rightarrow> (Ok (), st)))"

definition History_clear :: "'s history_libs \<Rightarrow> 's \<Rightarrow> (iron_core_error, unit) result \<times> 's" where
  "History_clear L st =
     or_return (core_scan (hl_vtable L) MSG_PREFIX st) st (\<lambda>all_rows. core_remove_all (hl_vtable L) (map fst all_rows) st)"

definition History_delete :: "'s history_libs \<Rightarrow> string \<Rightarrow> 's \<Rightarrow> (iron_core_error, unit) result \<times> 's" where
  "History_delete L i st = core_remove (hl_vtable L) (msg_key i) st"

definition count_record :: "message_record \<Rightarrow> history_stats \<Rightarrow> history_stats" where
  "count_record r s =
     (let s = s\<lparr>hs_total_messages := hs_total_messages s + 1\<rparr> in
      case mr_direction r of
        Sent \<Rightarrow>
          let s = s\<lparr>hs_sent_count := hs_sent_count s + 1\<rparr> in
          if \<not> mr_delivered r then s\<lparr>hs_undelivered_count := hs_undelivered_count s + 1\<rparr> else s
      | Received \<Rightarrow> s\<lparr>hs_received_count := hs_received_count s + 1\<rparr>)"

definition History_stats :: "'s history_libs \<Rightarrow> 's \<Rightarrow> (iron_core_error, history_stats) result" where
  "History_stats L st =
     and_then (core_scan (hl_vtable L) MSG_PREFIX st) (\<lambda>all_rows.
     and_then (read_rows (hl_json L) all_rows) (\<lambda>rs.
       Ok (fold (\<lambda>r. count_record (adjust_legacy_timestamps r)) rs
         \<lparr>hs_total_messages = 0, hs_sent_count = 0, hs_received_count = 0, hs_undelivered_count = 0\<rparr>)))"

definition History_count :: "'s history_libs \<Rightarrow> 's \<Rightarrow> u32" where
  "History_count L st = of_nat (ok_or (vt_count_prefix (hl_vtable L) MSG_PREFIX st) 0)"

text \<open>Rows that do not parse are left out of the retention sweep; the sort is stable.\<close>

definition parsed_rows :: "message_record serde \<Rightarrow> scan_result \<Rightarrow> (bytes \<times> message_record) list" where
  "parsed_rows J es = List.map_filter (\<lambda>(k, v). map_option (\<lambda>r. (k, r)) (from_slice J v)) es"

definition enforce_retention :: "'s history_libs \<Rightarrow> u32 \<Rightarrow> 's \<Rightarrow> (iron_core_error, u32) result \<times> 's" where
  "enforce_retention L max_messages st =
     or_return (core_scan (hl_vtable L) MSG_PREFIX st) st (\<lambda>all_rows.
       if length all_rows \<le> unat max_messages then (Ok 0, st)
       else let records = sort_key (\<lambda>a. mr_timestamp (snd a)) (parsed_rows (hl_json L) all_rows);
                to_remove = length records - unat max_messages in
            (case core_remove_all (hl_vtable L) (map fst (take to_remove records)) st of
               (q, st') \<Rightarrow> or_return q st' (\<lambda>_. (Ok (of_nat to_remove), st'))))"

definition History_prune_before :: "'s history_libs \<Rightarrow> u64 \<Rightarrow> 's \<Rightarrow> (iron_core_error, u32) result \<times> 's" where
  "History_prune_before L before_timestamp st =
     or_return (core_scan (hl_vtable L) MSG_PREFIX st) st (\<lambda>all_rows.
       remove_rows_if L (\<lambda>r. mr_timestamp r < before_timestamp) all_rows 0 st)"

definition History_flush :: "'s history_libs \<Rightarrow> 's \<Rightarrow> 's" where
  "History_flush L st = ignore_flush (hl_vtable L) st"

section \<open>The history as a set of records\<close>

lemma msg_key_simps [simp]: "msg_key i = msg_key j \<longleftrightarrow> i = j" "starts_with (msg_key i) MSG_PREFIX"
  unfolding msg_key_def MSG_PREFIX_def as_bytes_append by simp_all

definition history_state :: "('s \<Rightarrow> bytes \<rightharpoonup> bytes) \<Rightarrow> ('s \<Rightarrow> bool) \<Rightarrow> 's history_libs \<Rightarrow> message_record set \<Rightarrow> 's \<Rightarrow> bool" where
  "history_state content good L H st \<longleftrightarrow>
     good st \<and> rows_wf (content st) (hl_json L) MSG_PREFIX record_key \<and> rows (content st) (hl_json L) MSG_PREFIX = H"

text \<open>At most one record has an id.\<close>

lemma history_ids_unique:
  "history_state content good L H st \<Longrightarrow> x \<in> H \<Longrightarrow> y \<in> H \<Longrightarrow> mr_id x = mr_id y \<Longrightarrow> x = y"
  unfolding history_state_def using rows_unique by fastforce

lemma image_by_id:
  assumes "x \<in> H" and "\<And>z. z \<in> H \<Longrightarrow> mr_id x = mr_id z \<Longrightarrow> x = z"
  shows "{z \<in> H. mr_id z \<noteq> mr_id x} \<union> {f x} = (\<lambda>z. if mr_id z = mr_id x then f z else z) ` H" (is "?A = ?g ` H")
proof
  have "?g x = f x" by simp
  then show "?A \<subseteq> ?g ` H" using assms(1) by (auto simp: image_iff split: if_splits)
  show "?g ` H \<subseteq> ?A"
  proof (rule image_subsetI)
    fix z
    assume z: "z \<in> H"
    show "?g z \<in> ?A"
    proof (cases "mr_id z = mr_id x")
      case True
      with assms(2) [OF z] have "z = x" by simp
      then show ?thesis by simp
    qed (use z in simp)
  qed
qed

lemma image_id_away: "i \<notin> mr_id ` H \<Longrightarrow> (\<lambda>z. if mr_id z = i then f z else z) ` H = H"
  by force

definition set_hidden :: "bool \<Rightarrow> string \<Rightarrow> message_record \<Rightarrow> message_record" where
  "set_hidden hide peer r = (if eq_ignore_ascii_case (mr_peer_id r) peer then r\<lparr>mr_hidden := hide\<rparr> else r)"

text \<open>What a query returns: the newest matches, newest first.\<close>

definition newest_of :: "nat \<Rightarrow> message_record set \<Rightarrow> message_record list \<Rightarrow> bool" where
  "newest_of limit M rs \<longleftrightarrow> distinct (map mr_id rs) \<and> set rs \<subseteq> M \<and> length rs = min limit (card M)
     \<and> sorted_wrt (\<lambda>x y. mr_timestamp y \<le> mr_timestamp x) rs
     \<and> (\<forall>x \<in> M - set rs. \<forall>y \<in> set rs. mr_timestamp x \<le> mr_timestamp y)"

lemma newest_first_of:
  assumes "distinct (map mr_id rs)"
  shows "newest_of (unat limit) (set rs) (newest_first limit rs)"
proof -
  let ?s = "sort_key (\<lambda>r. - uint (mr_timestamp r)) rs" and ?n = "unat limit"
  have nf: "newest_first limit rs = take ?n ?s" by (simp add: newest_first_def Let_def)
  have dist: "distinct (map mr_id ?s)" using assms by (simp add: distinct_map)
  have sorted: "sorted_wrt (\<lambda>x y. mr_timestamp y \<le> mr_timestamp x) ?s"
    using sorted_sort_key [of "\<lambda>r. - uint (mr_timestamp r)" rs] by (simp add: sorted_map word_le_def)
  have "card (set rs) = length rs" using assms by (simp add: distinct_card distinct_map)
  moreover have "mr_timestamp x \<le> mr_timestamp y" if "x \<in> set rs - set (take ?n ?s)" "y \<in> set (take ?n ?s)" for x y
  proof -
    have "x \<in> set (drop ?n ?s)" using that(1) set_append [of "take ?n ?s" "drop ?n ?s"] by auto
    with that(2) show ?thesis
      using sorted sorted_wrt_append [of "\<lambda>x y. mr_timestamp y \<le> mr_timestamp x" "take ?n ?s" "drop ?n ?s"] by auto
  qed
  moreover have "set (take ?n ?s) \<subseteq> set rs" using set_take_subset [of ?n ?s] by simp
  moreover have "distinct (map mr_id (take ?n ?s))" using dist by (metis distinct_take take_map)
  ultimately show ?thesis using sorted by (auto simp: newest_of_def nf min.commute intro: sorted_wrt_take)
qed

lemma adjust_simps [simp]: "mr_id (adjust_legacy_timestamps r) = mr_id r" "mr_peer_id (adjust_legacy_timestamps r) = mr_peer_id r"
  "mr_hidden (adjust_legacy_timestamps r) = mr_hidden r" "mr_timestamp (adjust_legacy_timestamps r) = mr_timestamp r"
  "mr_content (adjust_legacy_timestamps r) = mr_content r" "mr_direction (adjust_legacy_timestamps r) = mr_direction r"
  "mr_delivered (adjust_legacy_timestamps r) = mr_delivered r"
  by (simp_all add: adjust_legacy_timestamps_def)

lemma collect_records_eq:
  "collect_records J keep es = and_then (read_rows J es) (\<lambda>rs. Ok (filter keep (map adjust_legacy_timestamps rs)))"
proof (induction es)
  case (Cons e es)
  obtain k v where e: "e = (k, v)" by (cases e)
  show ?case by (cases "decode_row J v"; cases "read_rows J es") (simp_all add: e Cons Let_def)
qed simp

text \<open>The retention sweep keeps the newest.\<close>

lemma map_sort_key_pair: "sort_key (\<lambda>a. f (snd a)) (map (\<lambda>r. (g r, r)) rs) = map (\<lambda>r. (g r, r)) (sort_key f rs)"
proof (induction rs)
  case (Cons r rs)
  have "insort_key (\<lambda>a. f (snd a)) (g r, r) (map (\<lambda>r. (g r, r)) xs) = map (\<lambda>r. (g r, r)) (insort_key f r xs)" for xs
    by (induction xs) auto
  with Cons show ?case by simp
qed simp

lemma parsed_rows_eq:
  "list_all2 (\<lambda>(k, v) x. from_slice J v = Some x) es rs \<Longrightarrow> map fst es = map record_key rs \<Longrightarrow>
     parsed_rows J es = map (\<lambda>r. (record_key r, r)) rs"
  by (induction rule: list_all2_induct) (auto simp: parsed_rows_def List.map_filter_simps)

definition keeps_newest :: "nat \<Rightarrow> message_record set \<Rightarrow> message_record set \<Rightarrow> bool" where
  "keeps_newest n H H' \<longleftrightarrow> H' \<subseteq> H \<and> card H' = min n (card H) \<and> (\<forall>x \<in> H - H'. \<forall>y \<in> H'. mr_timestamp x \<le> mr_timestamp y)"

lemma take_sorted_keeps_newest:
  assumes "distinct (map mr_id rs)" and "n \<le> length rs"
  shows "keeps_newest n (set rs) {x \<in> set rs. mr_id x \<notin> mr_id ` set (take (length rs - n) (sort_key mr_timestamp rs))}"
proof -
  let ?s = "sort_key mr_timestamp rs" and ?m = "length rs - n"
  have inj: "inj_on mr_id (set rs)" and d: "distinct rs" using assms(1) by (simp_all add: distinct_map)
  have set: "set rs = set (take ?m ?s) \<union> set (drop ?m ?s)" using set_append [of "take ?m ?s" "drop ?m ?s"] by simp
  have disj: "set (take ?m ?s) \<inter> set (drop ?m ?s) = {}" using d by (intro set_take_disj_set_drop_if_distinct) simp_all
  have rest: "{x \<in> set rs. mr_id x \<notin> mr_id ` set (take ?m ?s)} = set (drop ?m ?s)"
    using inj disj unfolding set inj_on_def by blast
  have "card (set (drop ?m ?s)) = n" using d assms(2) by (simp add: distinct_card)
  moreover have "mr_timestamp x \<le> mr_timestamp y" if "x \<in> set (take ?m ?s)" "y \<in> set (drop ?m ?s)" for x y
    using sorted_sort_key [of mr_timestamp rs] that
      sorted_wrt_append [of "\<lambda>x y. mr_timestamp x \<le> mr_timestamp y" "take ?m ?s" "drop ?m ?s"] by (simp add: sorted_map)
  moreover have "card (set rs) = length rs" using d by (simp add: distinct_card)
  ultimately show ?thesis unfolding keeps_newest_def rest using assms(2) set by auto
qed

context backend_contract begin

lemma history_scan:
  assumes "history_state content good L H s" and "hl_vtable L = vt"
  obtains es rs where "core_scan (hl_vtable L) MSG_PREFIX s = Ok es" "vt_count_prefix (hl_vtable L) MSG_PREFIX s = Ok (length es)"
    "read_rows (hl_json L) es = Ok rs" "map fst es = map record_key rs" "distinct (map mr_id rs)" "set rs = H"
    "list_all2 (\<lambda>(k, v) x. from_slice (hl_json L) v = Some x) es rs"
proof -
  from assms have g: "good s" "rows_wf (content s) (hl_json L) MSG_PREFIX record_key" "rows (content s) (hl_json L) MSG_PREFIX = H"
    by (simp_all add: history_state_def)
  from scan_rows [OF g(1,2)] obtain es rs where "core_scan vt MSG_PREFIX s = Ok es" "vt_scan_prefix vt MSG_PREFIX s = Ok es"
      "read_rows (hl_json L) es = Ok rs" "map fst es = map record_key rs" "distinct (map record_key rs)" "set rs = H"
      "list_all2 (\<lambda>(k, v) x. from_slice (hl_json L) v = Some x) es rs" unfolding g(3) by blast
  then show thesis using count_law [OF g(1)] by (intro that [of es rs]) (simp_all add: assms(2) distinct_map inj_on_def)
qed

lemma history_scan_ex:
  assumes "history_state content good L H s" and "hl_vtable L = vt"
  shows "\<exists>es rs. core_scan (hl_vtable L) MSG_PREFIX s = Ok es \<and> vt_count_prefix (hl_vtable L) MSG_PREFIX s = Ok (length es)
    \<and> read_rows (hl_json L) es = Ok rs \<and> map fst es = map record_key rs \<and> distinct (map mr_id rs) \<and> set rs = H"
  by (rule history_scan [OF assms]) (intro exI conjI)

lemma history_finite: "history_state content good L H s \<Longrightarrow> hl_vtable L = vt \<Longrightarrow> finite H"
  by (erule history_scan) auto

lemma history_count:
  assumes "history_state content good L H s" and "hl_vtable L = vt"
  shows "History_count L s = of_nat (card H)"
proof -
  obtain es :: scan_result and rs where *: "vt_count_prefix (hl_vtable L) MSG_PREFIX s = Ok (length es)"
    "map fst es = map record_key rs" "distinct (map mr_id rs)" "set rs = H" using history_scan_ex [OF assms] by blast
  have "length es = length rs" using arg_cong [OF *(2), of length] by simp
  also have "\<dots> = card H" using *(3) distinct_card [of rs] by (simp add: distinct_map *(4))
  finally show ?thesis by (simp add: History_count_def *(1))
qed

lemma history_add:
  assumes "history_state content good L H s" and "hl_vtable L = vt" and "serde_correct (hl_json L)"
  shows "\<exists>s'. History_add L r s = (Ok (), s') \<and> history_state content good L ({x \<in> H. mr_id x \<noteq> mr_id r} \<union> {r}) s'
    \<and> same_outside MSG_PREFIX (content s) (content s')"
proof -
  from encode_row_ok [OF assms(3)] obtain v where v: "encode_row (hl_json L) r = Ok v" "from_slice (hl_json L) v = Some r" .
  from assms(1) have g: "good s" "rows_wf (content s) (hl_json L) MSG_PREFIX record_key" "rows (content s) (hl_json L) MSG_PREFIX = H"
    by (simp_all add: history_state_def)
  from core_put_ok [OF g(1), of "record_key r" v] obtain s' where s': "core_put vt (record_key r) v s = (Ok (), s')" "good s'"
    "content s' = (content s)(record_key r \<mapsto> v)" by blast
  from rows_put [OF g(2) v(2)] show ?thesis
    by (intro exI [of _ s']) (simp add: History_add_def v(1) s' assms(2) history_state_def g(3) same_outside_upd)
qed

lemma history_get:
  assumes "history_state content good L H s" and "hl_vtable L = vt"
  shows "x \<in> H \<Longrightarrow> History_get L (mr_id x) s = Ok (Some (adjust_legacy_timestamps x))"
    and "i \<notin> mr_id ` H \<Longrightarrow> History_get L i s = Ok None"
proof -
  from assms(1) have g: "good s" "rows_wf (content s) (hl_json L) MSG_PREFIX record_key" "rows (content s) (hl_json L) MSG_PREFIX = H"
    by (simp_all add: history_state_def)
  note get = core_get_ok [OF g(1)]
  show "History_get L (mr_id x) s = Ok (Some (adjust_legacy_timestamps x))" if x: "x \<in> H"
  proof -
    obtain v where "content s (record_key x) = Some v" "from_slice (hl_json L) v = Some x"
      by (rule rows_key [OF g(2)]) (use x g(3) in auto)
    then show ?thesis by (simp add: History_get_def assms(2) get decode_row_def)
  qed
  show "History_get L i s = Ok None" if i: "i \<notin> mr_id ` H"
  proof (cases "content s (msg_key i)")
    case (Some v)
    with g(2) obtain x where x: "from_slice (hl_json L) v = Some x" "record_key x = msg_key i" unfolding rows_wf_def using msg_key_simps(2) by blast
    with Some g(3) have "x \<in> H" unfolding rows_def using msg_key_simps(2) by blast
    with x(2) i have False by auto
    then show ?thesis ..
  qed (simp add: History_get_def assms(2) get)
qed

lemma history_drop:
  assumes "history_state content good L H s" and "core_remove_all vt (map record_key rs) s = (r, s')"
  shows "r = Ok () \<and> history_state content good L {x \<in> H. mr_id x \<notin> mr_id ` set rs} s' \<and> same_outside MSG_PREFIX (content s) (content s')"
proof -
  from assms(1) have g: "good s" "rows_wf (content s) (hl_json L) MSG_PREFIX record_key" "rows (content s) (hl_json L) MSG_PREFIX = H"
    by (simp_all add: history_state_def)
  from core_remove_all_ok [OF g(1), of "map record_key rs"] assms(2) have s': "r = Ok ()" "good s'"
    "content s' = (\<lambda>k. if k \<in> set (map record_key rs) then None else content s k)" by auto
  have "record_key x \<notin> set (map record_key rs) \<longleftrightarrow> mr_id x \<notin> mr_id ` set rs" for x by auto
  then show ?thesis using rows_remove [OF g(2), of "set (map record_key rs)"]
    by (simp only: history_state_def s' g(3)) (auto intro!: same_outside_drop)
qed

text \<open>Removing the records with a property, one by one.\<close>

lemma remove_rows_if_eq:
  assumes "good s" and "hl_vtable L = vt" and "list_all2 (\<lambda>(k, v) x. from_slice (hl_json L) v = Some x) es rs" and "map fst es = map record_key rs"
  shows "remove_rows_if L P es n s = (case core_remove_all vt (map record_key (filter P rs)) s of (r, s') \<Rightarrow> (Ok (n + of_nat (length (filter P rs))), s'))"
  using assms(3,1,4)
proof (induction arbitrary: n s rule: list_all2_induct)
  case (Cons e es x rs)
  obtain k v where e: "e = (k, v)" by (cases e)
  from Cons e have v: "from_slice (hl_json L) v = Some x" "k = record_key x" by auto
  show ?case
  proof (cases "P x")
    case True
    from core_remove_ok [OF Cons.prems(1), of k] obtain s1 where s1: "core_remove vt k s = (Ok (), s1)" "good s1" by blast
    from Cons.IH [OF s1(2), of "n + 1"] Cons.prems(2) show ?thesis
      by (simp add: e v decode_row_def True assms(2) s1(1) [unfolded v(2)] split: prod.split)
  next
    case False
    with Cons.IH [OF Cons.prems(1), of n] Cons.prems(2) show ?thesis by (simp add: e v decode_row_def split: prod.split)
  qed
qed simp

lemma history_remove_if:
  assumes "history_state content good L H s" and "hl_vtable L = vt" and "core_scan (hl_vtable L) MSG_PREFIX s = Ok es"
  shows "\<exists>s'. remove_rows_if L P es 0 s = (Ok (of_nat (card {x \<in> H. P x})), s') \<and> history_state content good L {x \<in> H. \<not> P x} s'
    \<and> same_outside MSG_PREFIX (content s) (content s')"
proof -
  obtain rs where rs: "map fst es = map record_key rs" "distinct (map mr_id rs)" "set rs = H"
    "list_all2 (\<lambda>(k, v) x. from_slice (hl_json L) v = Some x) es rs"
    by (rule history_scan [OF assms(1,2)]) (use assms(3) in simp)
  obtain r s' where s': "core_remove_all vt (map record_key (filter P rs)) s = (r, s')" by fastforce
  from history_drop [OF assms(1) s'] have d: "history_state content good L {x \<in> H. mr_id x \<notin> mr_id ` set (filter P rs)} s'"
    "same_outside MSG_PREFIX (content s) (content s')" by auto
  have "{x \<in> H. mr_id x \<notin> mr_id ` set (filter P rs)} = {x \<in> H. \<not> P x}"
    using history_ids_unique [OF assms(1)] by (auto simp: rs(3))
  moreover have "length (filter P rs) = card {x \<in> H. P x}"
    using rs(2) distinct_card [of "filter P rs"] by (simp add: distinct_map rs(3))
  moreover have "good s" using assms(1) by (simp add: history_state_def)
  ultimately show ?thesis using d remove_rows_if_eq [OF _ assms(2) rs(4,1), of s P 0] s' by simp
qed

text \<open>Queries.\<close>

lemma history_query:
  assumes "history_state content good L H s" and "hl_vtable L = vt"
  shows "\<exists>es rs. core_scan (hl_vtable L) MSG_PREFIX s = Ok es \<and> collect_records (hl_json L) keep es = Ok rs
    \<and> newest_of (unat limit) {x \<in> adjust_legacy_timestamps ` H. keep x} (newest_first limit rs)"
proof -
  obtain es rs where es: "core_scan (hl_vtable L) MSG_PREFIX s = Ok es" "read_rows (hl_json L) es = Ok rs"
    "distinct (map mr_id rs)" "set rs = H" using history_scan_ex [OF assms] by blast
  let ?rs = "filter keep (map adjust_legacy_timestamps rs)"
  have "distinct (map mr_id ?rs)" using es(3) by (auto simp: distinct_map comp_def filter_map intro: distinct_filter inj_onI dest: inj_onD)
  moreover have "set ?rs = {x \<in> adjust_legacy_timestamps ` H. keep x}" using es(4) by auto
  ultimately show ?thesis using newest_first_of [of ?rs limit] es(1,2) by (auto simp: collect_records_eq)
qed

lemma history_recent:
  assumes "history_state content good L H s" and "hl_vtable L = vt"
  shows "\<exists>rs. recent_internal L peer limit include_hidden s = Ok rs
    \<and> newest_of (unat limit) {x \<in> adjust_legacy_timestamps ` H. (mr_hidden x \<longrightarrow> include_hidden)
        \<and> (\<forall>p. peer = Some p \<longrightarrow> eq_ignore_ascii_case (mr_peer_id x) p)} rs"
proof -
  let ?keep = "\<lambda>r. if mr_hidden r \<and> \<not> include_hidden then False
      else (case peer of Some p \<Rightarrow> eq_ignore_ascii_case (mr_peer_id r) p | None \<Rightarrow> True)"
  let ?K = "\<lambda>x. (mr_hidden x \<longrightarrow> include_hidden) \<and> (\<forall>p. peer = Some p \<longrightarrow> eq_ignore_ascii_case (mr_peer_id x) p)"
  have keep: "?keep = ?K" by (auto simp: fun_eq_iff split: option.splits)
  from history_query [OF assms, of ?K limit] obtain es rs where "core_scan (hl_vtable L) MSG_PREFIX s = Ok es"
    "collect_records (hl_json L) ?K es = Ok rs" "newest_of (unat limit) {x \<in> adjust_legacy_timestamps ` H. ?K x} (newest_first limit rs)" by blast
  then show ?thesis unfolding recent_internal_def keep by simp
qed

lemma history_search:
  assumes "history_state content good L H s" and "hl_vtable L = vt"
  shows "\<exists>rs. History_search L query limit s = Ok rs
    \<and> newest_of (unat limit) {x \<in> adjust_legacy_timestamps ` H. \<not> mr_hidden x
        \<and> str_contains (hl_lowercase L (mr_content x)) (hl_lowercase L query)} rs"
  using history_query [OF assms, of "\<lambda>x. \<not> mr_hidden x \<and> str_contains (hl_lowercase L (mr_content x)) (hl_lowercase L query)" limit]
  by (auto simp: History_search_def Let_def)

text \<open>Changes.\<close>

lemma history_delete:
  assumes "history_state content good L H s" and "hl_vtable L = vt"
  shows "\<exists>s'. History_delete L i s = (Ok (), s') \<and> history_state content good L {x \<in> H. mr_id x \<noteq> i} s'
    \<and> same_outside MSG_PREFIX (content s) (content s')"
proof -
  from assms(1) have g: "good s" "rows_wf (content s) (hl_json L) MSG_PREFIX record_key" "rows (content s) (hl_json L) MSG_PREFIX = H"
    by (simp_all add: history_state_def)
  from core_remove_ok [OF g(1), of "msg_key i"] obtain s' where s': "core_remove vt (msg_key i) s = (Ok (), s')" "good s'"
    "content s' = (content s)(msg_key i := None)" by blast
  have c: "content s' = (\<lambda>k. if k \<in> {msg_key i} then None else content s k)" by (auto simp: s'(3))
  from rows_remove [OF g(2), of "{msg_key i}"] s' show ?thesis
    by (simp add: History_delete_def assms(2) history_state_def c [unfolded s'(3)] g(3) same_outside_def)
qed

lemma history_clear:
  assumes "history_state content good L H s" and "hl_vtable L = vt"
  shows "\<exists>s'. History_clear L s = (Ok (), s') \<and> history_state content good L {} s' \<and> same_outside MSG_PREFIX (content s) (content s')"
proof -
  obtain es rs where es: "core_scan (hl_vtable L) MSG_PREFIX s = Ok es" "map fst es = map record_key rs" "set rs = H"
    using history_scan_ex [OF assms] by blast
  obtain r s' where s': "core_remove_all vt (map record_key rs) s = (r, s')" by fastforce
  have "{x \<in> H. mr_id x \<notin> mr_id ` set rs} = {}" by (auto simp: es(3))
  with history_drop [OF assms(1) s'] have "r = Ok ()" "history_state content good L {} s'" "same_outside MSG_PREFIX (content s) (content s')"
    by simp_all
  then show ?thesis using es by (simp add: History_clear_def assms(2) s')
qed

lemma history_mark_delivered:
  assumes "history_state content good L H s" and "hl_vtable L = vt" and "serde_correct (hl_json L)"
  shows "\<exists>s'. mark_delivered L i s = (Ok (), s') \<and> same_outside MSG_PREFIX (content s) (content s')
    \<and> history_state content good L ((\<lambda>x. if mr_id x = i then (adjust_legacy_timestamps x)\<lparr>mr_delivered := True\<rparr> else x) ` H) s'"
proof (cases "i \<in> mr_id ` H")
  case True
  then obtain x where x: "x \<in> H" "mr_id x = i" by blast
  let ?y = "(adjust_legacy_timestamps x)\<lparr>mr_delivered := True\<rparr>"
  have "{z \<in> H. mr_id z \<noteq> i} \<union> {?y} = (\<lambda>x. if mr_id x = i then (adjust_legacy_timestamps x)\<lparr>mr_delivered := True\<rparr> else x) ` H"
    using image_by_id [OF x(1), of "\<lambda>x. (adjust_legacy_timestamps x)\<lparr>mr_delivered := True\<rparr>"] history_ids_unique [OF assms(1) x(1)] by (simp add: x(2))
  with history_add [OF assms, of ?y] history_get(1) [OF assms(1,2) x(1)] x(2) show ?thesis by (auto simp: mark_delivered_def)
next
  case False
  with history_get(2) [OF assms(1,2) False] assms(1) image_id_away [OF False] show ?thesis by (simp add: mark_delivered_def)
qed

lemma history_prune:
  assumes "history_state content good L H s" and "hl_vtable L = vt"
  shows "\<exists>s'. History_prune_before L t s = (Ok (of_nat (card {x \<in> H. mr_timestamp x < t})), s')
    \<and> history_state content good L {x \<in> H. t \<le> mr_timestamp x} s' \<and> same_outside MSG_PREFIX (content s) (content s')"
proof -
  obtain es where es: "core_scan (hl_vtable L) MSG_PREFIX s = Ok es" using history_scan_ex [OF assms] by blast
  show ?thesis using history_remove_if [OF assms es, of "\<lambda>x. mr_timestamp x < t"]
    by (simp add: History_prune_before_def es not_less)
qed

lemma history_remove_conversation:
  assumes "history_state content good L H s" and "hl_vtable L = vt"
  shows "\<exists>s'. remove_conversation L p s = (Ok (), s')
    \<and> history_state content good L {x \<in> H. \<not> eq_ignore_ascii_case (mr_peer_id x) p} s' \<and> same_outside MSG_PREFIX (content s) (content s')"
proof -
  obtain es where es: "core_scan (hl_vtable L) MSG_PREFIX s = Ok es" using history_scan_ex [OF assms] by blast
  show ?thesis using history_remove_if [OF assms es, of "\<lambda>x. eq_ignore_ascii_case (mr_peer_id x) p"]
    by (auto simp: remove_conversation_def es)
qed

text \<open>Hiding and showing the messages of a peer.\<close>

lemma set_hidden_rows_eq:
  assumes "history_state content good L H s" and "hl_vtable L = vt" and "serde_correct (hl_json L)"
    and "list_all2 (\<lambda>(k, v) x. from_slice (hl_json L) v = Some x) es rs" and "distinct (map mr_id rs)" and "set rs \<subseteq> H"
  shows "\<exists>n' s'. set_hidden_rows L hide p es n s = (Ok n', s') \<and> same_outside MSG_PREFIX (content s) (content s')
    \<and> history_state content good L ((\<lambda>x. if mr_id x \<in> mr_id ` set rs then set_hidden hide p x else x) ` H) s'"
  using assms(4,1,5,6)
proof (induction arbitrary: n s H rule: list_all2_induct)
  case Nil
  then show ?case by simp
next
  case (Cons e es x rs)
  obtain k v where e: "e = (k, v)" by (cases e)
  from Cons e have v: "from_slice (hl_json L) v = Some x" by simp
  have x: "x \<in> H" "mr_id x \<notin> mr_id ` set rs" "distinct (map mr_id rs)" using Cons.prems by auto
  let ?x = "set_hidden hide p x"
  let ?H = "(\<lambda>z. if mr_id z = mr_id x then set_hidden hide p z else z) ` H"
  have id: "mr_id (set_hidden hide p z) = mr_id z" for z by (simp add: set_hidden_def)
  have eq: "{z \<in> H. mr_id z \<noteq> mr_id x} \<union> {?x} = ?H"
    by (rule image_by_id [OF x(1)]) (rule history_ids_unique [OF Cons.prems(1) x(1)])
  have sub: "set rs \<subseteq> ?H" using x(2) Cons.prems(3) by (force simp: image_iff)
  have comp: "(\<lambda>z. if mr_id z \<in> mr_id ` set rs then set_hidden hide p z else z) ` ?H
      = (\<lambda>z. if mr_id z \<in> mr_id ` set (x # rs) then set_hidden hide p z else z) ` H"
    unfolding image_image using x(2) by (intro image_cong refl) (auto simp: id)
  show ?case
  proof (cases "mr_hidden x \<noteq> hide \<and> eq_ignore_ascii_case (mr_peer_id x) p")
    case True
    then have x': "x\<lparr>mr_hidden := hide\<rparr> = ?x" by (simp add: set_hidden_def)
    from encode_row_ok [OF assms(3)] obtain w where w: "encode_row (hl_json L) ?x = Ok w" "from_slice (hl_json L) w = Some ?x" .
    from history_add [OF Cons.prems(1) assms(2,3), of ?x] obtain s1 where s1: "core_put vt (record_key ?x) w s = (Ok (), s1)"
        "history_state content good L ?H s1" "same_outside MSG_PREFIX (content s) (content s1)"
      by (auto simp: History_add_def w(1) assms(2) id eq [simplified])
    have "set_hidden_rows L hide p (e # es) n s = set_hidden_rows L hide p es (n + 1) s1"
      using True by (simp add: e decode_row_def v Let_def x' w(1) assms(2) s1(1))
    with Cons.IH [OF s1(2) x(3) sub, of "n + 1"] same_outside_trans [OF s1(3)] show ?thesis unfolding comp by fastforce
  next
    case False
    then have "?x = x" by (auto simp: set_hidden_def)
    have "z = x" if "z \<in> H" "mr_id z = mr_id x" for z using history_ids_unique [OF Cons.prems(1) x(1) that(1)] that(2) by simp
    then have "{z \<in> H. mr_id z \<noteq> mr_id x} \<union> {x} = H" using x(1) by fastforce
    with eq \<open>?x = x\<close> have "?H = H" by simp
    moreover have "set_hidden_rows L hide p (e # es) n s = set_hidden_rows L hide p es n s"
      using False by (auto simp: e decode_row_def v)
    ultimately show ?thesis using Cons.IH [OF Cons.prems(1) x(3), of n] sub comp by simp
  qed
qed

lemma history_set_hidden:
  assumes "history_state content good L H s" and "hl_vtable L = vt" and "serde_correct (hl_json L)"
  shows "\<exists>n s'. or_return (core_scan (hl_vtable L) MSG_PREFIX s) s (\<lambda>all_rows. set_hidden_rows L hide p all_rows 0 s) = (Ok n, s')
    \<and> history_state content good L (set_hidden hide p ` H) s' \<and> same_outside MSG_PREFIX (content s) (content s')"
proof (rule history_scan [OF assms(1,2)])
  fix es rs
  assume es: "core_scan (hl_vtable L) MSG_PREFIX s = Ok es" "set rs = H" "distinct (map mr_id rs)"
    "list_all2 (\<lambda>(k, v) x. from_slice (hl_json L) v = Some x) es rs"
  have "(\<lambda>x. if mr_id x \<in> mr_id ` set rs then set_hidden hide p x else x) ` H = set_hidden hide p ` H"
    by (rule image_cong) (auto simp: es(2))
  with set_hidden_rows_eq [OF assms es(4,3), of hide p 0] es(1,2) show ?thesis by fastforce
qed

lemma history_enforce_retention:
  assumes "history_state content good L H s" and "hl_vtable L = vt"
  shows "\<exists>H' s'. enforce_retention L m s = (Ok (of_nat (card H - unat m)), s') \<and> keeps_newest (unat m) H H'
    \<and> history_state content good L H' s' \<and> same_outside MSG_PREFIX (content s) (content s')"
proof (rule history_scan [OF assms])
  fix es rs
  assume es: "core_scan (hl_vtable L) MSG_PREFIX s = Ok es" "set rs = H" "distinct (map mr_id rs)" "map fst es = map record_key rs"
    "list_all2 (\<lambda>(k, v) x. from_slice (hl_json L) v = Some x) es rs"
  have len: "length es = length rs" using arg_cong [OF es(4), of length] by simp
  have card: "card H = length rs" using es(3) distinct_card [of rs] by (simp add: distinct_map es(2))
  show ?thesis
  proof (cases "length es \<le> unat m")
    case True
    then have "enforce_retention L m s = (Ok (of_nat (card H - unat m)), s)" by (simp add: enforce_retention_def es(1) len card)
    moreover have "keeps_newest (unat m) H H" using True by (simp add: keeps_newest_def len card)
    ultimately show ?thesis using assms(1) same_outside_refl by blast
  next
    case False
    let ?n = "length rs - unat m"
    let ?rows = "map (\<lambda>r. (record_key r, r)) rs"
    have "sort_key (\<lambda>a. mr_timestamp (snd a)) ?rows = map (\<lambda>r. (record_key r, r)) (sort_key mr_timestamp rs)"
      by (rule map_sort_key_pair [where f = mr_timestamp and g = record_key])
    then have keys: "map fst (take ?n (sort_key (\<lambda>a. mr_timestamp (snd a)) ?rows)) = map record_key (take ?n (sort_key mr_timestamp rs))"
      by (simp add: take_map comp_def)
    obtain r s' where s': "core_remove_all vt (map record_key (take ?n (sort_key mr_timestamp rs))) s = (r, s')" by fastforce
    from history_drop [OF assms(1) s'] have "r = Ok ()"
      "history_state content good L {x \<in> H. mr_id x \<notin> mr_id ` set (take ?n (sort_key mr_timestamp rs))} s'"
      "same_outside MSG_PREFIX (content s) (content s')" by simp_all
    moreover have "length (sort_key (\<lambda>a. mr_timestamp (snd a)) ?rows) = length rs" by simp
    then have "enforce_retention L m s = (Ok (of_nat (card H - unat m)), s')"
      using False \<open>r = Ok ()\<close> unfolding enforce_retention_def es(1) or_return.simps parsed_rows_eq [OF es(5,4)] Let_def
      by (simp only: keys assms(2) s' card if_False or_return.simps prod.case)
    moreover have "keeps_newest (unat m) H {x \<in> H. mr_id x \<notin> mr_id ` set (take ?n (sort_key mr_timestamp rs))}"
      using take_sorted_keeps_newest [OF es(3), of "unat m"] False len unfolding es(2) by simp
    ultimately show ?thesis by blast
  qed
qed

end

end
