(* ===== verification/Retention.thy ===== *)
theory Retention
  imports History
begin

text \<open>
  Log summaries (\<open>core/src/store/logs.rs\<close>) and the retention policy of the storage manager
  (\<open>core/src/store/storage.rs\<close>), which prunes the history and the logs.  The clock is an argument.  The
  hash of a log line is the unspecified hash of the standard library and a parameter.

  The two products with floating-point constants are integer divisions: \<open>0.9\<close> of a 32-bit count
  is rounded to a number whose integer part is \<open>9 n div 10\<close>, and \<open>0.2\<close> of a disk size has the integer part
  \<open>n div 5\<close> for every size below \<open>2 ^ 53\<close> bytes.
\<close>

section \<open>Logs\<close>

record log_summary =
  lg_content :: string
  lg_deltas :: "u32 list"

record log_manager =
  lm_install_time :: u64
  lm_cache :: "(u64, log_summary) hmap"

record 's log_libs =
  ll_vtable :: "'s storage_vtable"
  ll_json :: "log_summary serde"
  ll_export :: "log_summary list \<Rightarrow> string option"
  ll_hash :: "string \<Rightarrow> u64"

definition INSTALL_TIME_KEY :: bytes where "INSTALL_TIME_KEY = as_bytes ''metadata_install_time''"

definition LOG_PREFIX :: bytes where "LOG_PREFIX = as_bytes ''log_sum_''"

definition log_key :: "u64 \<Rightarrow> bytes" where "log_key h = as_bytes (''log_sum_'' @ show_nat (unat h))"

text \<open>\<open>str::parse::<u64>\<close>: an optional plus sign and at least one digit, without overflow.\<close>

definition digit_of :: "char \<Rightarrow> nat option" where
  "digit_of c = (let n = (of_char c :: nat) in if 48 \<le> n \<and> n \<le> 57 then Some (n - 48) else None)"

fun parse_digits :: "nat \<Rightarrow> string \<Rightarrow> nat option" where
  "parse_digits acc [] = Some acc"
| "parse_digits acc (c # cs) =
     (case digit_of c of
        None \<Rightarrow> None
      | Some d \<Rightarrow> if acc * 10 + d < 2 ^ 64 then parse_digits (acc * 10 + d) cs else None)"

definition parse_u64 :: "string \<Rightarrow> u64 option" where
  "parse_u64 s =
     (let ds = (case s of c # cs \<Rightarrow> if c = CHR ''+'' then cs else s | [] \<Rightarrow> []) in
      if ds = [] then None else map_option of_nat (parse_digits 0 ds))"

definition init_install_time :: "'s log_libs \<Rightarrow> u64 \<Rightarrow> 's \<Rightarrow> u64 \<times> 's" where
  "init_install_time L now st = (now, ignore_put (ll_vtable L) INSTALL_TIME_KEY (as_bytes (show_nat (unat now))) st)"

definition LogManager_new :: "'s log_libs \<Rightarrow> u64 \<Rightarrow> 's \<Rightarrow> log_manager \<times> 's" where
  "LogManager_new L now st =
     (case (case vt_get (ll_vtable L) INSTALL_TIME_KEY st of
              Ok (Some bs) \<Rightarrow>
                (case parse_u64 (string_from_utf8_lossy bs) of
                   Some t \<Rightarrow> (t, st)
                 | None \<Rightarrow> init_install_time L now st)
            | _ \<Rightarrow> init_install_time L now st) of
        (t, st') \<Rightarrow> (\<lparr>lm_install_time = t, lm_cache = []\<rparr>, st'))"

text \<open>The entry of a line: from the cache, else from the backend, else new.\<close>

definition log_entry :: "'s log_libs \<Rightarrow> string \<Rightarrow> 's \<Rightarrow> log_manager \<Rightarrow> log_summary" where
  "log_entry L line st m =
     (let h = ll_hash L line in
      case hm_get (lm_cache m) h of
        Some e \<Rightarrow> e
      | None \<Rightarrow>
          (case vt_get (ll_vtable L) (log_key h) st of
             Ok (Some v) \<Rightarrow> (case from_slice (ll_json L) v of Some e \<Rightarrow> e | None \<Rightarrow> \<lparr>lg_content = line, lg_deltas = []\<rparr>)
           | _ \<Rightarrow> \<lparr>lg_content = line, lg_deltas = []\<rparr>))"

definition last_abs :: "u64 \<Rightarrow> u32 list \<Rightarrow> u64" where
  "last_abs install ds = fold (\<lambda>d t. t + ucast d) ds install"

definition next_delta :: "u64 \<Rightarrow> u64 \<Rightarrow> u32 list \<Rightarrow> u32" where
  "next_delta install now ds =
     (if ds = [] then ucast (sat_sub now install) else ucast (sat_sub now (last_abs install ds)))"

text \<open>More than 1000 deltas: the first 501 become one.\<close>

definition compact_deltas :: "u32 list \<Rightarrow> u32 list" where
  "compact_deltas ds =
     (if length ds > 1000
      then of_nat (min (sum_list (map unat (take 501 ds))) (2 ^ 32 - 1)) # drop 501 ds
      else ds)"

definition record_log :: "'s log_libs \<Rightarrow> u64 \<Rightarrow> string \<Rightarrow> 's \<Rightarrow> log_manager \<Rightarrow> log_manager" where
  "record_log L now line st m =
     (let e = log_entry L line st m;
          ds = lg_deltas e @ [next_delta (lm_install_time m) now (lg_deltas e)] in
      m\<lparr>lm_cache := hm_insert (ll_hash L line) (e\<lparr>lg_deltas := compact_deltas ds\<rparr>) (lm_cache m)\<rparr>)"

text \<open>\<open>drain\<close> empties the cache also when writing an entry fails; the remaining entries are then lost.\<close>

fun flush_entries :: "'s log_libs \<Rightarrow> (u64, log_summary) hmap \<Rightarrow> 's \<Rightarrow> (iron_core_error, unit) result \<times> 's" where
  "flush_entries L [] st = (Ok (), st)"
| "flush_entries L ((h, e) # es) st =
     or_return (encode_row (ll_json L) e) st (\<lambda>v.
       (case core_put (ll_vtable L) (log_key h) v st of (r, st') \<Rightarrow> or_return r st' (\<lambda>_. flush_entries L es st')))"

definition LogManager_flush :: "'s log_libs \<Rightarrow> log_manager \<times> 's \<Rightarrow> (iron_core_error, unit) result \<times> log_manager \<times> 's" where
  "LogManager_flush L ms =
     (case ms of (m, st) \<Rightarrow>
        (case flush_entries L (lm_cache m) st of (r, st') \<Rightarrow>
           or_return r (m\<lparr>lm_cache := []\<rparr>, st') (\<lambda>_. (Ok (), m\<lparr>lm_cache := []\<rparr>, ignore_flush (ll_vtable L) st'))))"

text \<open>Unreadable summaries count as the oldest.\<close>

definition last_occurrence :: "'s log_libs \<Rightarrow> u64 \<Rightarrow> bytes \<Rightarrow> u64" where
  "last_occurrence L install v =
     (case from_slice (ll_json L) v of
        Some e \<Rightarrow> fold (\<lambda>d t. sat_add t (ucast d)) (lg_deltas e) install
      | None \<Rightarrow> 0)"

definition prune_oldest :: "'s log_libs \<Rightarrow> nat \<Rightarrow> log_manager \<times> 's \<Rightarrow> (iron_core_error, u32) result \<times> log_manager \<times> 's" where
  "prune_oldest L n ms =
     (case LogManager_flush L ms of (r, m, st) \<Rightarrow>
        or_return r (m, st) (\<lambda>_.
        or_return (core_scan (ll_vtable L) LOG_PREFIX st) (m, st) (\<lambda>all_rows.
          let entries = map (\<lambda>(key, v). (key, last_occurrence L (lm_install_time m) v)) all_rows;
              keys = map fst (take n (sort_key snd entries)) in
          (case core_remove_all (ll_vtable L) keys st of (q, st') \<Rightarrow>
             or_return q (m, st') (\<lambda>_. (Ok (of_nat (length keys)), m, st'))))))"

definition export_all :: "'s log_libs \<Rightarrow> log_manager \<times> 's \<Rightarrow> (iron_core_error, string) result \<times> log_manager \<times> 's" where
  "export_all L ms =
     (case LogManager_flush L ms of (r, m, st) \<Rightarrow>
        or_return r (m, st) (\<lambda>_.
          (and_then (core_scan (ll_vtable L) LOG_PREFIX st) (\<lambda>all_rows.
           and_then (read_rows (ll_json L) all_rows) (\<lambda>sums.
             (case ll_export L sums of Some t \<Rightarrow> Ok t | None \<Rightarrow> Err Internal))), m, st)))"

section \<open>The storage manager\<close>

record disk_stats =
  ds_total_bytes :: u64
  ds_free_bytes :: u64
  ds_app_data_bytes :: u64

record retention_config =
  rc_max_messages :: u32
  rc_max_age_days :: u32

definition RetentionConfig_default :: retention_config where
  "RetentionConfig_default = \<lparr>rc_max_messages = 50000, rc_max_age_days = 90\<rparr>"

record storage_manager =
  stm_stats :: disk_stats
  stm_retention :: retention_config

definition StorageManager_with_retention :: "retention_config \<Rightarrow> storage_manager" where
  "StorageManager_with_retention retention =
     \<lparr>stm_stats = \<lparr>ds_total_bytes = 0, ds_free_bytes = 0, ds_app_data_bytes = 0\<rparr>, stm_retention = retention\<rparr>"

definition StorageManager_new :: storage_manager where
  "StorageManager_new = StorageManager_with_retention RetentionConfig_default"

definition update_disk_stats :: "'s storage_vtable \<Rightarrow> u64 \<Rightarrow> u64 \<Rightarrow> 's \<Rightarrow> storage_manager \<Rightarrow> storage_manager" where
  "update_disk_stats vt total_bytes free_bytes st g =
     g\<lparr>stm_stats := \<lparr>ds_total_bytes = total_bytes, ds_free_bytes = free_bytes, ds_app_data_bytes = ok_or (vt_approximate_size vt st) 0\<rparr>\<rparr>"

definition retention_cutoff :: "u64 \<Rightarrow> retention_config \<Rightarrow> u64" where
  "retention_cutoff now c = sat_sub now (ucast (rc_max_age_days c) * 86400)"

definition prune_by_age :: "'s history_libs \<Rightarrow> u64 \<Rightarrow> retention_config \<Rightarrow> 's \<Rightarrow> (iron_core_error, unit) result \<times> 's" where
  "prune_by_age HL now c st =
     (if rc_max_age_days c > 0
      then (case History_prune_before HL (retention_cutoff now c) st of (r, st') \<Rightarrow> (and_then r (\<lambda>_. Ok ()), st'))
      else (Ok (), st))"

definition prune_by_count :: "'s history_libs \<Rightarrow> retention_config \<Rightarrow> 's \<Rightarrow> (iron_core_error, unit) result \<times> 's" where
  "prune_by_count HL c st =
     (if rc_max_messages c > 0 \<and> History_count HL st > rc_max_messages c
      then (case enforce_retention HL (rc_max_messages c) st of (r, st') \<Rightarrow> (and_then r (\<lambda>_. Ok ()), st'))
      else (Ok (), st))"

definition prune_emergency ::
  "'s history_libs \<Rightarrow> 's log_libs \<Rightarrow> disk_stats \<Rightarrow> log_manager \<times> 's \<Rightarrow> (iron_core_error, unit) result \<times> log_manager \<times> 's" where
  "prune_emergency HL LL d ms =
     (if ds_total_bytes d > 0 \<and> ds_free_bytes d < ds_total_bytes d div 5
      then (case prune_oldest LL 100 ms of (r, m, st) \<Rightarrow>
              or_return r (m, st) (\<lambda>_.
                if History_count HL st > 100
                then (case enforce_retention HL (of_nat (unat (History_count HL st) * 9 div 10)) st of
                        (q, st') \<Rightarrow> (and_then q (\<lambda>_. Ok ()), m, st'))
                else (Ok (), m, st)))
      else (Ok (), ms))"

definition perform_maintenance ::
  "'s history_libs \<Rightarrow> 's log_libs \<Rightarrow> u64 \<Rightarrow> storage_manager \<Rightarrow> log_manager \<times> 's
    \<Rightarrow> (iron_core_error, unit) result \<times> log_manager \<times> 's" where
  "perform_maintenance HL LL now g ms =
     (case ms of (m, st) \<Rightarrow>
        (case prune_by_age HL now (stm_retention g) st of (r, st1) \<Rightarrow>
           or_return r (m, st1) (\<lambda>_.
           (case prune_by_count HL (stm_retention g) st1 of (q, st2) \<Rightarrow>
              or_return q (m, st2) (\<lambda>_. prune_emergency HL LL (stm_stats g) (m, st2))))))"

section \<open>Log summaries\<close>

text \<open>
  The deltas of a summary add up to the time of the last occurrence; compaction keeps that sum and at most
  1000 deltas.
\<close>

lemma compact_deltas_sum:
  assumes "sum_list (map unat (take 501 ds)) < 2 ^ 32"
  shows "sum_list (map unat (compact_deltas ds)) = sum_list (map unat ds)"
proof -
  have "sum_list (map unat ds) = sum_list (map unat (take 501 ds)) + sum_list (map unat (drop 501 ds))"
    by (metis append_take_drop_id map_append sum_list_append)
  then show ?thesis using assms by (simp add: compact_deltas_def unat_of_nat_u32)
qed

lemma compact_deltas_length: "length ds \<le> 1001 \<Longrightarrow> length (compact_deltas ds) \<le> 1000"
  by (auto simp: compact_deltas_def)

lemma last_abs_sum:
  "unat install + sum_list (map unat ds) < 2 ^ 64 \<Longrightarrow> unat (last_abs install ds) = unat install + sum_list (map unat ds)"
proof (induction ds arbitrary: install)
  case (Cons d ds)
  have "unat (ucast d :: u64) = unat d"
    using unsigned_less [of d, where 'a = nat] by (simp add: unsigned_ucast_eq take_bit_nat_eq_self)
  then have "unat (install + ucast d) = unat install + unat d"
    using Cons.prems by (simp add: unat_word_ariths)
  with Cons.IH [of "install + ucast d"] Cons.prems show ?case by (simp add: last_abs_def)
qed (simp add: last_abs_def)

lemma log_records_last_time:
  assumes "unat (last_abs install ds) = unat install + sum_list (map unat ds)" and "last_abs install ds \<le> now"
    and "unat now - unat install < 2 ^ 32"
  shows "last_abs install (compact_deltas (ds @ [next_delta install now ds])) = now"
proof -
  let ?l = "last_abs install ds" and ?d = "next_delta install now ds"
  have le: "unat ?l \<le> unat now" using assms(2) by (simp add: word_le_nat_alt)
  have now: "unat now < 2 ^ 64" using unsigned_less [of now, where 'a = nat] by simp
  have "?d = ucast (sat_sub now ?l)" by (simp add: next_delta_def last_abs_def)
  moreover have "unat now - unat ?l < 2 ^ 32" using assms(1,3) by linarith
  ultimately have d: "unat ?d = unat now - unat ?l"
    by (simp add: unsigned_ucast_eq unat_sat_sub take_bit_nat_eq_self)
  let ?ds = "ds @ [?d]"
  have total: "unat install + sum_list (map unat ?ds) = unat now" using assms(1) d le by simp
  have "sum_list (map unat (take 501 ?ds)) \<le> sum_list (map unat ?ds)"
    by (metis append_take_drop_id le_add1 map_append sum_list_append)
  then have "sum_list (map unat (take 501 ?ds)) < 2 ^ 32" using total assms(3) by linarith
  from compact_deltas_sum [OF this] total now have "unat (last_abs install (compact_deltas ?ds)) = unat now"
    using last_abs_sum [of install "compact_deltas ?ds"] by simp
  then show ?thesis by (rule word_unat_eq_iff [THEN iffD2])
qed

section \<open>Maintenance\<close>

lemma log_key_prefix [simp]: "starts_with (log_key h) LOG_PREFIX"
  unfolding log_key_def LOG_PREFIX_def as_bytes_append by simp

lemma log_msg_prefixes [simp]: "\<not> starts_with MSG_PREFIX LOG_PREFIX" "\<not> starts_with LOG_PREFIX MSG_PREFIX"
  by code_simp+

text \<open>What is swept is named by \<open>P\<close> or is no newer than what is left.\<close>

definition swept :: "(message_record \<Rightarrow> bool) \<Rightarrow> message_record set \<Rightarrow> message_record set \<Rightarrow> bool" where
  "swept P H H' \<longleftrightarrow> H' \<subseteq> H \<and> (\<forall>x \<in> H - H'. P x \<or> (\<forall>y \<in> H'. mr_timestamp x \<le> mr_timestamp y))"

lemma swept_trans: "swept P H H1 \<Longrightarrow> swept P H1 H2 \<Longrightarrow> swept P H H2"
  unfolding swept_def by blast

lemma swept_refl [simp]: "swept P H H"
  by (simp add: swept_def)

lemma keeps_newest_swept: "keeps_newest n H H' \<Longrightarrow> swept P H H'"
  by (simp add: keeps_newest_def swept_def)

definition low_disk :: "disk_stats \<Rightarrow> bool" where
  "low_disk d \<longleftrightarrow> ds_total_bytes d > 0 \<and> ds_free_bytes d < ds_total_bytes d div 5"

lemma count_less: "n < 2 ^ 32 \<Longrightarrow> (of_nat n :: u32) > m \<longleftrightarrow> unat m < n"
  by (simp add: word_less_nat_alt unat_of_nat_u32)

context backend_contract begin

lemma flush_entries_ok:
  assumes "serde_correct (ll_json L)" and "ll_vtable L = vt"
  shows "good s \<Longrightarrow> \<exists>s'. flush_entries L es s = (Ok (), s') \<and> good s' \<and> same_outside LOG_PREFIX (content s) (content s')"
proof (induction es arbitrary: s)
  case (Cons e es)
  obtain h x where e: "e = (h, x)" by (cases e)
  from encode_row_ok [OF assms(1)] obtain v where v: "encode_row (ll_json L) x = Ok v" by metis
  from core_put_ok [OF Cons.prems, of "log_key h" v] obtain s1 where s1: "core_put vt (log_key h) v s = (Ok (), s1)" "good s1"
    "content s1 = (content s)(log_key h \<mapsto> v)" by blast
  have "same_outside LOG_PREFIX (content s) (content s1)" by (simp add: s1(3) same_outside_upd)
  with Cons.IH [OF s1(2)] s1(1) show ?case by (auto simp: e v assms(2) intro: same_outside_trans)
qed simp

lemma prune_oldest_ok:
  assumes "serde_correct (ll_json L)" and "ll_vtable L = vt" and "good s"
  shows "\<exists>n m' s'. prune_oldest L k (m, s) = (Ok n, m', s') \<and> good s' \<and> same_outside LOG_PREFIX (content s) (content s')"
proof -
  from flush_entries_ok [OF assms, of "lm_cache m"] obtain s1 where s1: "flush_entries L (lm_cache m) s = (Ok (), s1)" "good s1"
    "same_outside LOG_PREFIX (content s) (content s1)" by blast
  let ?s = "ignore_flush vt s1" and ?m = "m\<lparr>lm_cache := []\<rparr>"
  note fl = ignore_laws(5,6) [OF s1(2)]
  from core_scan_ok [OF fl(1), of LOG_PREFIX] obtain es where es: "core_scan vt LOG_PREFIX ?s = Ok es"
    "set es = {(k, v). content ?s k = Some v \<and> starts_with k LOG_PREFIX}" by blast
  let ?keys = "map fst (take k (sort_key snd (map (\<lambda>(key, v). (key, last_occurrence L (lm_install_time m) v)) es)))"
  have "set ?keys \<subseteq> fst ` set es" by (auto dest!: in_set_takeD simp: image_iff) (metis fst_conv)
  then have keys: "\<forall>k \<in> set ?keys. starts_with k LOG_PREFIX" using es(2) by fastforce
  from core_remove_all_ok [OF fl(1), of ?keys] obtain s2 where s2: "core_remove_all vt ?keys ?s = (Ok (), s2)" "good s2"
    "content s2 = (\<lambda>k. if k \<in> set ?keys then None else content ?s k)" by blast
  have "same_outside LOG_PREFIX (content s) (content s2)"
    using s1(3) same_outside_drop [OF keys, of "content s1"] unfolding s2(3) fl(2) by (rule same_outside_trans)
  then show ?thesis using s1(1) es(1) s2(1,2) by (simp add: prune_oldest_def LogManager_flush_def assms(2) Let_def comp_def)
qed

lemma prune_by_age_ok:
  assumes "history_state content good HL H s" and "hl_vtable HL = vt"
  shows "\<exists>H' s'. prune_by_age HL now c s = (Ok (), s') \<and> history_state content good HL H' s'
    \<and> H' = {x \<in> H. rc_max_age_days c > 0 \<longrightarrow> retention_cutoff now c \<le> mr_timestamp x}"
  using history_prune [OF assms, of "retention_cutoff now c"] assms(1) by (auto simp: prune_by_age_def)

lemma prune_by_count_ok:
  assumes "history_state content good HL H s" and "hl_vtable HL = vt" and "card H < 2 ^ 32"
  shows "\<exists>H' s'. prune_by_count HL c s = (Ok (), s') \<and> history_state content good HL H' s'
    \<and> swept P H H' \<and> card H' = (if rc_max_messages c > 0 then min (unat (rc_max_messages c)) (card H) else card H)"
proof (cases "rc_max_messages c > 0 \<and> unat (rc_max_messages c) < card H")
  case True
  from history_enforce_retention [OF assms(1,2), of "rc_max_messages c"] obtain H' s' where
    "enforce_retention HL (rc_max_messages c) s = (Ok (of_nat (card H - unat (rc_max_messages c))), s')"
    "keeps_newest (unat (rc_max_messages c)) H H'" "history_state content good HL H' s'" by blast
  with True show ?thesis
    by (intro exI [of _ H'] exI [of _ s'])
      (simp add: prune_by_count_def history_count [OF assms(1,2)] count_less [OF assms(3)] keeps_newest_def swept_def)
next
  case False
  then show ?thesis using assms(1)
    by (intro exI [of _ H] exI [of _ s]) (auto simp: prune_by_count_def history_count [OF assms(1,2)] count_less [OF assms(3)])
qed

lemma prune_emergency_ok:
  assumes "history_state content good HL H s" and "hl_vtable HL = vt" and "ll_vtable LL = vt" and "serde_correct (ll_json LL)" and "card H < 2 ^ 32"
  shows "\<exists>H' m' s'. prune_emergency HL LL d (m, s) = (Ok (), m', s') \<and> history_state content good HL H' s'
    \<and> swept P H H' \<and> card H' = (if low_disk d \<and> card H > 100 then card H * 9 div 10 else card H)"
proof (cases "low_disk d")
  case True
  have "good s" using assms(1) by (simp add: history_state_def)
  from prune_oldest_ok [OF assms(4,3) this] obtain n m1 s1 where s1: "prune_oldest LL 100 (m, s) = (Ok n, m1, s1)" "good s1"
    "same_outside LOG_PREFIX (content s) (content s1)" by blast
  have h1: "history_state content good HL H s1"
    using assms(1) s1(2) by (simp add: history_state_def same_outside_rows [OF s1(3), of MSG_PREFIX])
  have cnt: "History_count HL s1 > 100 \<longleftrightarrow> card H > 100" "unat (History_count HL s1) = card H"
    using assms(5) by (simp_all add: history_count [OF h1 assms(2)] count_less unat_of_nat_u32)
  let ?k = "of_nat (card H * 9 div 10) :: u32"
  have k: "unat ?k = card H * 9 div 10" using assms(5) by (intro unat_of_nat_u32) simp
  from history_enforce_retention [OF h1 assms(2), of ?k] obtain H' s' where
    r: "enforce_retention HL ?k s1 = (Ok (of_nat (card H - unat ?k)), s')" "keeps_newest (unat ?k) H H'" "history_state content good HL H' s'" by blast
  have e: "prune_emergency HL LL d (m, s) = (if card H > 100 then (Ok (), m1, s') else (Ok (), m1, s1))"
    using True by (simp add: prune_emergency_def low_disk_def s1(1) cnt r(1))
  have "card H' = card H * 9 div 10" using r(2) by (simp add: keeps_newest_def k)
  with True h1 r(3) keeps_newest_swept [OF r(2)] show ?thesis
    by (intro exI [of _ "if card H > 100 then H' else H"] exI [of _ m1] exI [of _ "if card H > 100 then s' else s1"]) (simp add: e)
next
  case False
  then show ?thesis using assms(1) by (intro exI [of _ H] exI [of _ m] exI [of _ s]) (auto simp: prune_emergency_def low_disk_def)
qed

lemma maintenance_ok:
  assumes "history_state content good HL H s" and "hl_vtable HL = vt" and "ll_vtable LL = vt" and "serde_correct (ll_json LL)" and "card H < 2 ^ 32"
  shows "\<exists>H1 H' m' s'. perform_maintenance HL LL now g (m, s) = (Ok (), m', s') \<and> history_state content good HL H' s'
    \<and> H1 = {x \<in> H. rc_max_age_days (stm_retention g) > 0 \<longrightarrow> retention_cutoff now (stm_retention g) \<le> mr_timestamp x}
    \<and> swept (\<lambda>_. False) H1 H'
    \<and> card H' = (let n = if rc_max_messages (stm_retention g) > 0 then min (unat (rc_max_messages (stm_retention g))) (card H1) else card H1 in
        if low_disk (stm_stats g) \<and> n > 100 then n * 9 div 10 else n)"
proof -
  from prune_by_age_ok [OF assms(1,2), of now "stm_retention g"] obtain H1 s1 where 1: "prune_by_age HL now (stm_retention g) s = (Ok (), s1)"
    "history_state content good HL H1 s1"
    "H1 = {x \<in> H. rc_max_age_days (stm_retention g) > 0 \<longrightarrow> retention_cutoff now (stm_retention g) \<le> mr_timestamp x}" by blast
  have "card H1 \<le> card H" unfolding 1(3) by (rule card_mono [OF history_finite [OF assms(1,2)]]) auto
  with assms(5) have c1: "card H1 < 2 ^ 32" by linarith
  from prune_by_count_ok [OF 1(2) assms(2) c1, of "stm_retention g" "\<lambda>_. False"] obtain H2 s2 where
    2: "prune_by_count HL (stm_retention g) s1 = (Ok (), s2)" "history_state content good HL H2 s2" "swept (\<lambda>_. False) H1 H2"
    "card H2 = (if rc_max_messages (stm_retention g) > 0 then min (unat (rc_max_messages (stm_retention g))) (card H1) else card H1)" by blast
  have c2: "card H2 < 2 ^ 32" using c1 2(4) by auto
  from prune_emergency_ok [OF 2(2) assms(2,3,4) c2, of "stm_stats g" m "\<lambda>_. False"] obtain H3 m' s3 where
    3: "prune_emergency HL LL (stm_stats g) (m, s2) = (Ok (), m', s3)" "history_state content good HL H3 s3" "swept (\<lambda>_. False) H2 H3"
    "card H3 = (if low_disk (stm_stats g) \<and> card H2 > 100 then card H2 * 9 div 10 else card H2)" by blast
  show ?thesis using 1 2(1) 3 swept_trans [OF 2(3) 3(3)]
    by (intro exI [of _ H1] exI [of _ H3] exI [of _ m'] exI [of _ s3]) (simp add: perform_maintenance_def Let_def 2(4))
qed

text \<open>A row that does not parse.\<close>

lemma remove_rows_fails:
  assumes "hl_vtable L = vt"
  shows "good s \<Longrightarrow> \<exists>(k, v) \<in> set es. from_slice (hl_json L) v = None \<Longrightarrow>
    \<exists>s' K. remove_rows_if L P es n s = (Err Internal, s') \<and> good s' \<and> content s' = (\<lambda>k. if k \<in> K then None else content s k)
      \<and> (\<forall>k \<in> K. \<exists>v x. (k, v) \<in> set es \<and> from_slice (hl_json L) v = Some x \<and> P x)"
proof (induction es arbitrary: n s)
  case (Cons e es)
  obtain k v where e: "e = (k, v)" by (cases e)
  show ?case
  proof (cases "from_slice (hl_json L) v")
    case None
    then show ?thesis using Cons.prems(1) by (intro exI [of _ s] exI [of _ "{}"]) (simp add: e decode_row_def)
  next
    case (Some x)
    with Cons.prems(2) e have bad: "\<exists>(k, v) \<in> set es. from_slice (hl_json L) v = None" by auto
    show ?thesis
    proof (cases "P x")
      case True
      from core_remove_ok [OF Cons.prems(1), of k] obtain s1 where s1: "core_remove vt k s = (Ok (), s1)" "good s1" "content s1 = (content s)(k := None)" by blast
      from Cons.IH [OF s1(2) bad, of "n + 1"] obtain s' K where IH: "remove_rows_if L P es (n + 1) s1 = (Err Internal, s')" "good s'"
        "content s' = (\<lambda>k. if k \<in> K then None else content s1 k)"
        "\<forall>k \<in> K. \<exists>v x. (k, v) \<in> set es \<and> from_slice (hl_json L) v = Some x \<and> P x" by blast
      show ?thesis using IH True Some
        by (intro exI [of _ s'] exI [of _ "insert k K"]) (auto simp: e decode_row_def assms s1(1,3) fun_eq_iff; blast)
    next
      case False
      with Cons.IH [OF Cons.prems(1) bad, of n] Some show ?thesis by (fastforce simp: e decode_row_def)
    qed
  qed
qed simp

lemma maintenance_fails:
  assumes "good s" and "hl_vtable HL = vt" and "content s k = Some v" and "starts_with k MSG_PREFIX" and "from_slice (hl_json HL) v = None"
    and "rc_max_age_days (stm_retention g) > 0"
  shows "\<exists>s'. perform_maintenance HL LL now g (m, s) = (Err Internal, m, s') \<and> good s'
    \<and> (\<forall>j w. content s j = Some w \<longrightarrow> content s' j = Some w
        \<or> (\<exists>x. from_slice (hl_json HL) w = Some x \<and> mr_timestamp x < retention_cutoff now (stm_retention g)))"
proof -
  from core_scan_ok [OF assms(1), of MSG_PREFIX] obtain es where es: "core_scan vt MSG_PREFIX s = Ok es"
    "set es = {(k, v). content s k = Some v \<and> starts_with k MSG_PREFIX}" by blast
  have "\<exists>(k, v) \<in> set es. from_slice (hl_json HL) v = None" using assms(3-5) by (intro bexI [of _ "(k, v)"]) (simp_all add: es(2))
  from remove_rows_fails [OF assms(2,1) this, of "\<lambda>r. mr_timestamp r < retention_cutoff now (stm_retention g)" 0] obtain s' K where
    r: "remove_rows_if HL (\<lambda>r. mr_timestamp r < retention_cutoff now (stm_retention g)) es 0 s = (Err Internal, s')" "good s'"
    "content s' = (\<lambda>k. if k \<in> K then None else content s k)"
    "\<forall>k \<in> K. \<exists>v x. (k, v) \<in> set es \<and> from_slice (hl_json HL) v = Some x \<and> mr_timestamp x < retention_cutoff now (stm_retention g)" by blast
  have "perform_maintenance HL LL now g (m, s) = (Err Internal, m, s')"
    using assms(6) by (simp add: perform_maintenance_def prune_by_age_def History_prune_before_def assms(2) es(1) r(1))
  moreover have "content s' j = Some w \<or> (\<exists>x. from_slice (hl_json HL) w = Some x \<and> mr_timestamp x < retention_cutoff now (stm_retention g))"
    if "content s j = Some w" for j w using r(4) that unfolding r(3) es(2) by fastforce
  ultimately show ?thesis using r(2) by blast
qed

end

end
