(* ===== verification/Sample_Stores.thy ===== *)
theory Sample_Stores
  imports Retention Sample_Codec
begin

text \<open>Concrete row formats for the stores, built from the sample serializer.\<close>

section \<open>History and logs\<close>

definition sample_record_json :: "message_record serde" where
  "sample_record_json =
     \<lparr>to_vec = (\<lambda>r. Some (enc_fields [as_bytes (mr_id r), bool_bytes (mr_direction r = Sent), as_bytes (mr_peer_id r), as_bytes (mr_content r),
         u64_bytes (mr_timestamp r), u64_bytes (mr_sender_timestamp r), bool_bytes (mr_delivered r), bool_bytes (mr_hidden r)])),
      from_slice = (\<lambda>b. if b = [] then None else (let f = dec_fields 8 b in
         Some \<lparr>mr_id = bytes_string (f ! 0), mr_direction = (if bytes_bool (f ! 1) then Sent else Received), mr_peer_id = bytes_string (f ! 2),
           mr_content = bytes_string (f ! 3), mr_timestamp = bytes_u64 (f ! 4), mr_sender_timestamp = bytes_u64 (f ! 5),
           mr_delivered = bytes_bool (f ! 6), mr_hidden = bytes_bool (f ! 7)\<rparr>))\<rparr>"

lemma enc_fields_nonempty [simp]: "enc_fields (f # fs) \<noteq> []"
  by (cases f) (simp_all add: enc_fields_def)

lemma sample_record_json_correct: "serde_correct sample_record_json"
proof -
  have "from_slice sample_record_json (the (to_vec sample_record_json r)) = Some r" for r
    by (cases r; cases "mr_direction r") (simp_all add: sample_record_json_def dec_enc_fields Let_def)
  then show ?thesis by (auto simp: serde_correct_def sample_record_json_def)
qed

fun bytes_u32s :: "bytes \<Rightarrow> u32 list" where
  "bytes_u32s (a # b # c # d # bs) = u32_from_le a b c d # bytes_u32s bs"
| "bytes_u32s bs = []"

lemma bytes_u32s_inverse [simp]: "bytes_u32s (concat (map u32_to_le ds)) = ds"
  by (induction ds) (simp_all add: u32_to_le_def u32_from_to_le)

definition sample_log_json :: "log_summary serde" where
  "sample_log_json =
     \<lparr>to_vec = (\<lambda>e. Some (enc_fields [as_bytes (lg_content e), concat (map u32_to_le (lg_deltas e))])),
      from_slice = (\<lambda>b. if b = [] then None else (let f = dec_fields 2 b in
         Some \<lparr>lg_content = bytes_string (f ! 0), lg_deltas = bytes_u32s (f ! 1)\<rparr>))\<rparr>"

lemma sample_log_json_correct: "serde_correct sample_log_json"
proof -
  have "from_slice sample_log_json (the (to_vec sample_log_json e)) = Some e" for e
    by (cases e) (simp add: sample_log_json_def dec_enc_fields Let_def)
  then show ?thesis by (auto simp: serde_correct_def sample_log_json_def)
qed

definition sample_history :: "memory_storage history_libs" where
  "sample_history = \<lparr>hl_vtable = memory_vtable, hl_json = sample_record_json, hl_lowercase = to_lowercase\<rparr>"

definition sample_logs :: "memory_storage log_libs" where
  "sample_logs = \<lparr>ll_vtable = memory_vtable, ll_json = sample_log_json, ll_export = (\<lambda>_. None), ll_hash = (\<lambda>s. of_nat (length s))\<rparr>"

definition sample_record :: "string \<Rightarrow> u64 \<Rightarrow> message_record" where
  "sample_record i t = MessageRecord_new_received i t ''peer'' ''hello'' t"

lemma sample_history_simps [simp]: "hl_vtable sample_history = memory_vtable" "hl_json sample_history = sample_record_json"
  "ll_vtable sample_logs = memory_vtable" "ll_json sample_logs = sample_log_json"
  by (simp_all add: sample_history_def sample_logs_def)

lemma empty_history: "history_state memory_content memory_good L {} MemoryStorage_new"
  by (simp add: history_state_def memory_new_good)

text \<open>Two messages, one old and one new.\<close>

lemma two_messages:
  "\<exists>st. history_state memory_content memory_good sample_history {sample_record ''a'' 10, sample_record ''b'' 9000000} st"
proof -
  from memory.history_add [OF empty_history, of sample_history "sample_record ''a'' 10"] obtain s1 where
    "history_state memory_content memory_good sample_history {sample_record ''a'' 10} s1" by (auto simp: sample_record_json_correct)
  from memory.history_add [OF this, of "sample_record ''b'' 9000000"] show ?thesis
    by (auto simp: sample_record_json_correct sample_record_def MessageRecord_new_received_def Collect_conv_if insert_commute)
qed

end
