(* ===== verification/History_Properties.thy ===== *)
theory History_Properties
  imports Sample_Stores
begin

text \<open>What the history promises its callers: the retention policy, and what a blocked peer's messages look like.\<close>

section \<open>Retention\<close>

text \<open>
  C22. Maintenance of a readable history always succeeds.  Afterwards no message is older than the maximal
  age and there are at most as many as the cap allows (each if it is set); when the disk is almost full
  and more than 100 are left, one tenth of them goes as well.  What is removed besides the expired
  messages is never newer than what is kept.
\<close>

theorem maintenance_retention:
  assumes "history_state memory_content memory_good HL H st" and "hl_vtable HL = memory_vtable" and "ll_vtable LL = memory_vtable"
    and "serde_correct (ll_json LL)" and "card H < 2 ^ 32"
  shows "\<exists>H1 H' m' st'. perform_maintenance HL LL now g (m, st) = (Ok (), m', st') \<and> history_state memory_content memory_good HL H' st'
    \<and> H1 = {x \<in> H. rc_max_age_days (stm_retention g) > 0 \<longrightarrow> retention_cutoff now (stm_retention g) \<le> mr_timestamp x}
    \<and> H' \<subseteq> H1 \<and> (\<forall>x \<in> H1 - H'. \<forall>y \<in> H'. mr_timestamp x \<le> mr_timestamp y)
    \<and> card H' = (let n = if rc_max_messages (stm_retention g) > 0 then min (unat (rc_max_messages (stm_retention g))) (card H1) else card H1 in
        if low_disk (stm_stats g) \<and> n > 100 then n * 9 div 10 else n)"
  using memory.maintenance_ok [OF assms, of now g m] unfolding swept_def by simp

text \<open>
  One row of the history that cannot be parsed disables the retention policy: with a maximal age set,
  maintenance fails at that row every time, before the cap on the number of messages and before the
  emergency pruning, so everything but expired messages stays, however many there are.
\<close>

theorem maintenance_unreadable_row:
  assumes "memory_good st" and "hl_vtable HL = memory_vtable" and "memory_content st k = Some v" and "starts_with k MSG_PREFIX"
    and "from_slice (hl_json HL) v = None" and "rc_max_age_days (stm_retention g) > 0"
  shows "\<exists>st'. perform_maintenance HL LL now g (m, st) = (Err Internal, m, st') \<and> memory_good st'
    \<and> (\<forall>j w. memory_content st j = Some w \<longrightarrow> memory_content st' j = Some w
        \<or> (\<exists>x. from_slice (hl_json HL) w = Some x \<and> mr_timestamp x < retention_cutoff now (stm_retention g)))"
  by (rule memory.maintenance_fails [OF assms])

theorem maintenance_retention_witness:
  "\<exists>st H' m' st'. history_state memory_content memory_good sample_history {sample_record ''a'' 10, sample_record ''b'' 9000000} st
     \<and> perform_maintenance sample_history sample_logs 9000000 StorageManager_new (\<lparr>lm_install_time = 0, lm_cache = []\<rparr>, st) = (Ok (), m', st')
     \<and> history_state memory_content memory_good sample_history H' st' \<and> H' \<subseteq> {sample_record ''b'' 9000000} \<and> card H' = 1"
proof -
  let ?a = "sample_record ''a'' 10" and ?b = "sample_record ''b'' 9000000"
  obtain st where st: "history_state memory_content memory_good sample_history {?a, ?b} st" using two_messages by blast
  have ts: "mr_timestamp ?a = 10" "mr_timestamp ?b = 9000000" by (simp_all add: sample_record_def MessageRecord_new_received_def)
  have ne: "?a \<noteq> ?b" using ts by auto
  have g: "rc_max_age_days (stm_retention StorageManager_new) = 90" "rc_max_messages (stm_retention StorageManager_new) = 50000"
    "retention_cutoff 9000000 (stm_retention StorageManager_new) = 1224000" "\<not> low_disk (stm_stats StorageManager_new)"
    by code_simp+
  have H1: "{x \<in> {?a, ?b}. (90 :: u32) > 0 \<longrightarrow> (1224000 :: u64) \<le> mr_timestamp x} = {?b}" using ts ne by (auto simp: word_le_nat_alt)
  from maintenance_retention [OF st, of sample_logs 9000000 StorageManager_new "\<lparr>lm_install_time = 0, lm_cache = []\<rparr>"] ne
  show ?thesis unfolding g H1 using st by (auto simp: sample_log_json_correct)
qed

theorem maintenance_unreadable_row_witness:
  "fst (perform_maintenance sample_history sample_logs 9000000 StorageManager_new (\<lparr>lm_install_time = 0, lm_cache = []\<rparr>,
     snd (MemoryStorage_put (msg_key ''a'') [] MemoryStorage_new))) = Err Internal"
proof -
  let ?st = "snd (MemoryStorage_put (msg_key ''a'') [] MemoryStorage_new)"
  have "memory_good ?st" "memory_content ?st (msg_key ''a'') = Some []"
    by (simp_all add: MemoryStorage_put_def ms_lock_def MemoryStorage_new_def memory_good_def memory_content_def hm_wf_def)
  then show ?thesis
    using maintenance_unreadable_row [of ?st sample_history "msg_key ''a''" "[]" StorageManager_new sample_logs 9000000 "\<lparr>lm_install_time = 0, lm_cache = []\<rparr>"]
    by (auto simp: sample_record_json_def StorageManager_new_def StorageManager_with_retention_def RetentionConfig_default_def)
qed

section \<open>Hidden messages\<close>

lemma set_hidden_twice: "set_hidden a p ` set_hidden b p ` H = set_hidden a p ` H"
  unfolding image_image by (rule image_cong) (simp_all add: set_hidden_def)

lemma hide_peer:
  assumes "history_state memory_content memory_good L H st" and "hl_vtable L = memory_vtable" and "serde_correct (hl_json L)"
  shows "\<exists>n st'. hide_messages_for_peer L p st = (Ok n, st') \<and> history_state memory_content memory_good L (set_hidden True p ` H) st'"
    and "\<exists>n st'. unhide_messages_for_peer L p st = (Ok n, st') \<and> history_state memory_content memory_good L (set_hidden False p ` H) st'"
  using memory.history_set_hidden [OF assms, of True p] memory.history_set_hidden [OF assms, of False p]
  by (auto simp: hide_messages_for_peer_def unhide_messages_for_peer_def)

lemma Collect_image: "{x \<in> g ` H. P x} = g ` {y \<in> H. P (g y)}"
  by blast

lemma visible_after_hide:
  "{x \<in> adjust_legacy_timestamps ` set_hidden b p ` H. (mr_hidden x \<longrightarrow> ih) \<and> (\<forall>q. Some p = Some q \<longrightarrow> eq_ignore_ascii_case (mr_peer_id x) q)}
     = (if b \<and> \<not> ih then {} else {x \<in> (\<lambda>x. (adjust_legacy_timestamps x)\<lparr>mr_hidden := b\<rparr>) ` H. eq_ignore_ascii_case (mr_peer_id x) p})"
proof -
  let ?g = "\<lambda>y. adjust_legacy_timestamps (set_hidden b p y)"
  have g: "?g y = (adjust_legacy_timestamps y)\<lparr>mr_hidden := b\<rparr>" if "eq_ignore_ascii_case (mr_peer_id y) p" for y
    using that by (simp add: set_hidden_def adjust_legacy_timestamps_def)
  have peer: "mr_peer_id (?g y) = mr_peer_id y" for y by (simp add: set_hidden_def)
  have "{x \<in> ?g ` H. (mr_hidden x \<longrightarrow> ih) \<and> eq_ignore_ascii_case (mr_peer_id x) p}
      = ?g ` {y \<in> H. (mr_hidden (?g y) \<longrightarrow> ih) \<and> eq_ignore_ascii_case (mr_peer_id y) p}" unfolding Collect_image peer ..
  also have "{y \<in> H. (mr_hidden (?g y) \<longrightarrow> ih) \<and> eq_ignore_ascii_case (mr_peer_id y) p} = {y \<in> H. (b \<longrightarrow> ih) \<and> eq_ignore_ascii_case (mr_peer_id y) p}"
    by (rule Collect_cong) (auto simp: set_hidden_def)
  also have "?g ` \<dots> = (\<lambda>x. (adjust_legacy_timestamps x)\<lparr>mr_hidden := b\<rparr>) ` {y \<in> H. (b \<longrightarrow> ih) \<and> eq_ignore_ascii_case (mr_peer_id y) p}"
    by (rule image_cong) (simp_all add: g)
  finally show ?thesis by (simp add: image_image Collect_image)
qed

lemma newest_of_empty: "newest_of n {} rs \<Longrightarrow> rs = []"
  by (simp add: newest_of_def)

text \<open>
  Blocking and unblocking a peer in the history: after \<open>hide_messages_for_peer\<close> the conversation with the
  peer is empty, although every message is still stored and shown by the query that includes hidden ones;
  \<open>unhide_messages_for_peer\<close> brings the newest of all of them back, also those that had been hidden before.
\<close>

theorem hidden_conversation:
  assumes "history_state memory_content memory_good L H st" and "hl_vtable L = memory_vtable" and "serde_correct (hl_json L)"
  shows "\<exists>n st1 n' st2. hide_messages_for_peer L p st = (Ok n, st1) \<and> unhide_messages_for_peer L p st1 = (Ok n', st2)
    \<and> (\<forall>limit. History_conversation L p limit st1 = Ok []
        \<and> (\<exists>rs. recent_including_hidden L (Some p) limit st1 = Ok rs
             \<and> newest_of (unat limit) {x \<in> (\<lambda>x. (adjust_legacy_timestamps x)\<lparr>mr_hidden := True\<rparr>) ` H. eq_ignore_ascii_case (mr_peer_id x) p} rs)
        \<and> (\<exists>rs. History_conversation L p limit st2 = Ok rs
             \<and> newest_of (unat limit) {x \<in> (\<lambda>x. (adjust_legacy_timestamps x)\<lparr>mr_hidden := False\<rparr>) ` H. eq_ignore_ascii_case (mr_peer_id x) p} rs))"
proof -
  from hide_peer(1) [OF assms, of p] obtain n st1 where 1: "hide_messages_for_peer L p st = (Ok n, st1)"
    "history_state memory_content memory_good L (set_hidden True p ` H) st1" by blast
  from hide_peer(2) [OF 1(2) assms(2,3), of p] obtain n' st2 where 2: "unhide_messages_for_peer L p st1 = (Ok n', st2)"
    "history_state memory_content memory_good L (set_hidden False p ` H) st2" unfolding set_hidden_twice by blast
  note vis = visible_after_hide [where p = p]
  have "History_conversation L p limit st1 = Ok []" for limit
    using memory.history_recent [OF 1(2) assms(2), of "Some p" limit False] newest_of_empty
    unfolding vis by (auto simp: History_conversation_def History_recent_def)
  moreover have "\<exists>rs. recent_including_hidden L (Some p) limit st1 = Ok rs
      \<and> newest_of (unat limit) {x \<in> (\<lambda>x. (adjust_legacy_timestamps x)\<lparr>mr_hidden := True\<rparr>) ` H. eq_ignore_ascii_case (mr_peer_id x) p} rs" for limit
    using memory.history_recent [OF 1(2) assms(2), of "Some p" limit True] unfolding vis by (simp add: recent_including_hidden_def)
  moreover have "\<exists>rs. History_conversation L p limit st2 = Ok rs
      \<and> newest_of (unat limit) {x \<in> (\<lambda>x. (adjust_legacy_timestamps x)\<lparr>mr_hidden := False\<rparr>) ` H. eq_ignore_ascii_case (mr_peer_id x) p} rs" for limit
    using memory.history_recent [OF 2(2) assms(2), of "Some p" limit False] unfolding vis by (simp add: History_conversation_def History_recent_def)
  ultimately show ?thesis using 1(1) 2(1) by blast
qed

theorem hidden_conversation_witness:
  "\<exists>n st st1. hide_messages_for_peer sample_history ''peer'' st = (Ok n, st1) \<and> History_conversation sample_history ''peer'' 10 st1 = Ok []
     \<and> history_state memory_content memory_good sample_history {sample_record ''a'' 10, sample_record ''b'' 9000000} st"
proof -
  obtain st where st: "history_state memory_content memory_good sample_history {sample_record ''a'' 10, sample_record ''b'' 9000000} st"
    using two_messages by blast
  from hidden_conversation [OF this, of "''peer''"] st show ?thesis unfolding sample_history_simps using sample_record_json_correct by blast
qed

end
