(* ===== verification/Hybrid_Kem.thy ===== *)
theory Hybrid_Kem
  imports Message_Types
begin

text \<open>
  The post-quantum key encapsulation of \<open>core/src/crypto/pq/mod.rs\<close>, its combination with X25519 in
  \<open>core/src/crypto/pq/hybrid.rs\<close>, the negotiation of a cipher suite in
  \<open>core/src/crypto/negotiation.rs\<close> and the key bundle of \<open>core/src/identity/keys.rs\<close>.

  The primitives come from other crates and are the fields of \<open>crypto_libs\<close>: X25519, Ed25519, SHA-512,
  BLAKE3, XChaCha20-Poly1305 and ML-KEM-768.  Bytes drawn from the operating system's generator are
  arguments.
\<close>

record crypto_libs =
  x25519_public :: "bytes \<Rightarrow> bytes"
  x25519_dh :: "bytes \<Rightarrow> bytes \<Rightarrow> bytes"
  was_contributory :: "bytes \<Rightarrow> bool"
  ed25519_public :: "bytes \<Rightarrow> bytes"
  ed25519_to_montgomery :: "bytes \<Rightarrow> bytes option"
  sha512 :: "bytes \<Rightarrow> bytes"
  b3_hash :: "bytes \<Rightarrow> bytes"
  b3_to_hex :: "bytes \<Rightarrow> string"
  b3_derive_key :: "string \<Rightarrow> bytes \<Rightarrow> bytes"
  xchacha_seal :: "bytes \<Rightarrow> bytes \<Rightarrow> bytes \<Rightarrow> bytes \<Rightarrow> bytes option"
  xchacha_open :: "bytes \<Rightarrow> bytes \<Rightarrow> bytes \<Rightarrow> bytes \<Rightarrow> bytes option"
  mlkem_generate :: "bytes \<Rightarrow> bytes \<times> bytes"
  mlkem_encapsulate :: "bytes \<Rightarrow> bytes \<Rightarrow> bytes \<times> bytes"
  mlkem_decapsulate :: "bytes \<Rightarrow> bytes \<Rightarrow> bytes"

text \<open>
  What the callers rely on.  Diffie-Hellman is symmetric in the two key pairs; the cipher opens what it
  sealed and accepts messages up to its limit of \<open>2 ^ 38 - 64\<close> bytes; a decapsulation with the private
  key that belongs to the encapsulation key gives the encapsulated secret.
\<close>

definition dh_symmetric :: "crypto_libs \<Rightarrow> bool" where
  "dh_symmetric L \<longleftrightarrow> (\<forall>x y. x25519_dh L x (x25519_public L y) = x25519_dh L y (x25519_public L x))
     \<and> (\<forall>x. length (x25519_public L x) = 32)"

definition aead_correct :: "crypto_libs \<Rightarrow> bool" where
  "aead_correct L \<longleftrightarrow> (\<forall>k n p a. length n = 24 \<and> length p \<le> 2 ^ 38 - 64 \<longrightarrow>
     (\<exists>c. xchacha_seal L k n p a = Some c \<and> xchacha_open L k n c a = Some p))"

definition mlkem_correct :: "crypto_libs \<Rightarrow> bool" where
  "mlkem_correct L \<longleftrightarrow> (\<forall>seed r. case mlkem_generate L seed of (pk, sk) \<Rightarrow> length pk = 1184 \<and>
     (case mlkem_encapsulate L pk r of (ct, ss) \<Rightarrow> length ct = 1088 \<and> mlkem_decapsulate L sk ct = ss))"

text \<open>The errors that the cryptographic layer reports as text.\<close>

datatype crypto_error =
    SendingChainNotInitialized | RatchetStepsExceeded | EncryptionFailed
  | InvalidDhPublicLength | SkippedKeyFailed | DecryptionFailed | ReceivingChainNotInitialized
  | BehindChainPosition | TooManySkipped | TrialFailed "crypto_error list"
  | GetMessageKeyFailed crypto_error
  | PqNotNegotiated | NoPqEncapsKey | PqStripping
  | BadEncapsKeyLength nat | BadKemCiphertextLength nat | AllZeroSharedSecret
  | InvalidEd25519Key | NoCommonSuite
  | MissingRatchetDhPublic | MissingRatchetNumber | InvalidNonceLength
  | InvalidEphemeralLength | InvalidSenderKeyLength | TranscriptMismatch
  | HybridCiphertextRequired byte | RequirePqRefused string | MissingX25519Secret string
  | NoSessionManager | MissingKeysForHybrid | NoActiveSession | SessionNotRetrievable
  | SerializeFailed | InvalidSignatureLength | SignatureMismatch | BadSession string

section \<open>ML-KEM-768\<close>

record mlkem768_key_pair =
  kp_pub_key :: bytes
  kp_priv_key :: bytes
  kp_seed :: bytes

text \<open>\<open>generate\<close> draws the seed and does what \<open>from_seed\<close> does with it.\<close>

definition mlkem_from_seed :: "crypto_libs \<Rightarrow> bytes \<Rightarrow> mlkem768_key_pair" where
  "mlkem_from_seed L seed = (case mlkem_generate L seed of (pub_key, priv_key) \<Rightarrow>
     \<lparr>kp_pub_key = pub_key, kp_priv_key = priv_key, kp_seed = seed\<rparr>)"

definition pq_generate :: "crypto_libs \<Rightarrow> bytes \<Rightarrow> mlkem768_key_pair" where
  "pq_generate L seed = (case mlkem_generate L seed of (pub_key, priv_key) \<Rightarrow>
     \<lparr>kp_pub_key = pub_key, kp_priv_key = priv_key, kp_seed = seed\<rparr>)"

definition pq_encapsulate :: "crypto_libs \<Rightarrow> bytes \<Rightarrow> bytes \<Rightarrow> (crypto_error, bytes \<times> bytes) result" where
  "pq_encapsulate L encap_rand encaps_key =
     (if length encaps_key \<noteq> 1184 then Err (BadEncapsKeyLength (length encaps_key))
      else Ok (mlkem_encapsulate L encaps_key encap_rand))"

definition pq_decapsulate :: "crypto_libs \<Rightarrow> mlkem768_key_pair \<Rightarrow> bytes \<Rightarrow> (crypto_error, bytes) result" where
  "pq_decapsulate L keypair ct =
     (if length ct \<noteq> 1088 then Err (BadKemCiphertextLength (length ct))
      else Ok (mlkem_decapsulate L (kp_priv_key keypair) ct))"

section \<open>The hybrid mechanism\<close>

record hybrid_ciphertext =
  hct_x25519_ephemeral_public :: bytes
  hct_mlkem_ciphertext :: bytes

definition HYBRID_KEM_CONTEXT :: string where
  "HYBRID_KEM_CONTEXT = ''iron-core hybrid-kem v1 X25519+MLKEM768 2026-07''"

definition hybrid_encapsulate ::
  "crypto_libs \<Rightarrow> bytes \<Rightarrow> bytes \<Rightarrow> bytes \<Rightarrow> bytes \<Rightarrow> (crypto_error, hybrid_ciphertext \<times> bytes) result" where
  "hybrid_encapsulate L ephemeral_secret encap_rand their_x25519 their_mlkem =
     (if length their_mlkem \<noteq> 1184 then Err (BadEncapsKeyLength (length their_mlkem))
      else let ephemeral_public = x25519_public L ephemeral_secret;
               ss_x25519 = x25519_dh L ephemeral_secret their_x25519 in
        if \<not> was_contributory L ss_x25519 then Err AllZeroSharedSecret
        else and_then (pq_encapsulate L encap_rand their_mlkem) (\<lambda>(mlkem_ciphertext, ss_mlkem).
          let ikm = ss_x25519 @ ss_mlkem @ ephemeral_public @ their_x25519 @ mlkem_ciphertext @ their_mlkem in
          Ok (\<lparr>hct_x25519_ephemeral_public = ephemeral_public, hct_mlkem_ciphertext = mlkem_ciphertext\<rparr>,
              b3_derive_key L HYBRID_KEM_CONTEXT ikm)))"

definition hybrid_decapsulate ::
  "crypto_libs \<Rightarrow> bytes \<Rightarrow> mlkem768_key_pair \<Rightarrow> hybrid_ciphertext \<Rightarrow> (crypto_error, bytes) result" where
  "hybrid_decapsulate L our_x25519_secret our_mlkem ct =
     (if length (hct_mlkem_ciphertext ct) \<noteq> 1088 then Err (BadKemCiphertextLength (length (hct_mlkem_ciphertext ct)))
      else let ss_x25519 = x25519_dh L our_x25519_secret (hct_x25519_ephemeral_public ct) in
        if \<not> was_contributory L ss_x25519 then Err AllZeroSharedSecret
        else and_then (pq_decapsulate L our_mlkem (hct_mlkem_ciphertext ct)) (\<lambda>ss_mlkem.
          let ikm = ss_x25519 @ ss_mlkem @ hct_x25519_ephemeral_public ct @ x25519_public L our_x25519_secret
                @ hct_mlkem_ciphertext ct @ kp_pub_key our_mlkem in
          Ok (b3_derive_key L HYBRID_KEM_CONTEXT ikm)))"

text \<open>Both sides of the mechanism derive the same secret.\<close>

lemma hybrid_agree:
  assumes "dh_symmetric L" and "mlkem_correct L"
    and "hybrid_encapsulate L e r (x25519_public L x) (kp_pub_key (mlkem_from_seed L seed)) = Ok (hct, ss)"
  shows "hybrid_decapsulate L x (mlkem_from_seed L seed) hct = Ok ss"
    and "hct_x25519_ephemeral_public hct = x25519_public L e" and "length (hct_mlkem_ciphertext hct) = 1088"
proof -
  obtain pk sk where g: "mlkem_generate L seed = (pk, sk)" by fastforce
  obtain ct k where c: "mlkem_encapsulate L pk r = (ct, k)" by fastforce
  have m: "length pk = 1184" "length ct = 1088" "mlkem_decapsulate L sk ct = k"
    using assms(2) [unfolded mlkem_correct_def, THEN spec [of _ seed], THEN spec [of _ r]] by (simp_all add: g c)
  have d: "x25519_dh L x (x25519_public L e) = x25519_dh L e (x25519_public L x)"
    using assms(1) by (simp add: dh_symmetric_def)
  from assms(3) m show "hybrid_decapsulate L x (mlkem_from_seed L seed) hct = Ok ss"
      "hct_x25519_ephemeral_public hct = x25519_public L e" "length (hct_mlkem_ciphertext hct) = 1088"
    by (auto simp: hybrid_encapsulate_def hybrid_decapsulate_def mlkem_from_seed_def pq_encapsulate_def pq_decapsulate_def
        g c d Let_def split: if_splits)
qed

section \<open>Key bundles and suites\<close>

record public_key_bundle =
  pb_ed25519_public :: bytes
  pb_x25519_public :: bytes
  pb_mlkem_encaps_key :: bytes
  pb_mldsa_public :: "bytes option"
  pb_created_at :: u64
  pb_supported_suites :: bytes
  pb_signature :: bytes
  pb_mldsa_signature :: "bytes option"

definition HYBRID_SUITE_IDS :: bytes where
  "HYBRID_SUITE_IDS = [0x02, 0x03]"

definition negotiate_suite ::
  "crypto_libs \<Rightarrow> bytes \<Rightarrow> bytes \<Rightarrow> bytes \<Rightarrow> bytes \<Rightarrow> (crypto_error, byte \<times> bytes) result" where
  "negotiate_suite L our_suites their_suites our_ed25519_pub their_ed25519_pub =
     (case filter (\<lambda>s. s \<in> set their_suites) our_suites of
        [] \<Rightarrow> Err NoCommonSuite
      | s # ss \<Rightarrow>
          let negotiated_suite = fold max ss s;
              material = our_suites @ [0xFF] @ their_suites @ [0xFF] @ [negotiated_suite] @ our_ed25519_pub @ their_ed25519_pub in
          Ok (negotiated_suite, b3_derive_key L ''iron-core suite-transcript v1'' material))"

lemma fold_max_Max: "fold max ss (s :: 'a :: linorder) = Max (set (s # ss))"
  using Max.set_eq_fold [of s ss] by simp

text \<open>The suite is the largest one that both sides support, whichever side computes it.\<close>

lemma negotiate_suite_max:
  assumes "negotiate_suite L a b p q = Ok (suite, h)"
  shows "suite = Max (set a \<inter> set b)"
proof -
  from assms obtain s ss where f: "filter (\<lambda>s. s \<in> set b) a = s # ss" and "suite = fold max ss s"
    by (auto simp: negotiate_suite_def Let_def split: list.splits)
  moreover have "set (s # ss) = set a \<inter> set b" unfolding f [symmetric] by auto
  ultimately show ?thesis by (simp only: fold_max_Max)
qed

lemma negotiate_suite_total:
  "(\<exists>suite h. negotiate_suite L a b p q = Ok (suite, h)) \<longleftrightarrow> set a \<inter> set b \<noteq> {}"
proof -
  have "filter (\<lambda>s. s \<in> set b) a = [] \<longleftrightarrow> set a \<inter> set b = {}" by (auto simp: filter_empty_conv)
  then show ?thesis by (cases "filter (\<lambda>s. s \<in> set b) a") (auto simp: negotiate_suite_def Let_def)
qed

end
