(* ===== verification/Ratchet.thy ===== *)
theory Ratchet
  imports Hybrid_Kem "HOL-Library.Product_Lexorder" "HOL-Library.List_Lexorder"
begin

text \<open>
  The double ratchet of \<open>core/src/crypto/ratchet.rs\<close>: symmetric chains of message keys, the
  Diffie-Hellman step that replaces both chains, skipped keys for messages out of order, and the
  post-quantum secrets that hybrid sessions mix into the root key.

  A method on \<open>&mut self\<close> returns its result together with the session it leaves behind.  Nonces, new
  secrets and seeds, which the code draws from the operating system, are arguments; \<open>fresh i\<close> is the
  secret drawn for the \<open>i\<close>-th candidate of a trial.  \<open>XNonce::from_slice\<close> panics on a slice that is not
  24 bytes long.
\<close>

section \<open>Constants and key derivation\<close>

definition RATCHET_KDF_CONTEXT :: string where
  "RATCHET_KDF_CONTEXT = ''iron-core ratchet v1 2026-04-15''"

definition ROOT_KDF_CONTEXT_V1 :: string where
  "ROOT_KDF_CONTEXT_V1 = ''iron-core root-chain v1 2026-04-15''"

definition ROOT_KDF_CONTEXT_V2 :: string where
  "ROOT_KDF_CONTEXT_V2 = ''iron-core root-chain v2 hybrid 2026-07''"

definition MAX_SKIP_KEYS :: nat where
  "MAX_SKIP_KEYS = 256"

definition MAX_RATCHET_STEPS :: u32 where
  "MAX_RATCHET_STEPS = 10000"

type_synonym ratchet_key = bytes

definition pq_ss_fingerprint :: "crypto_libs \<Rightarrow> bytes \<Rightarrow> bytes" where
  "pq_ss_fingerprint L ss = take 16 (b3_hash L ss)"

definition derive_key_with_info :: "crypto_libs \<Rightarrow> ratchet_key \<Rightarrow> string \<Rightarrow> ratchet_key" where
  "derive_key_with_info L key info =
     b3_derive_key L (RATCHET_KDF_CONTEXT @ '':'' @ b3_to_hex L (b3_hash L (as_bytes info))) key"

definition root_key_ratchet_v1 :: "crypto_libs \<Rightarrow> ratchet_key \<Rightarrow> bytes \<Rightarrow> ratchet_key \<times> ratchet_key" where
  "root_key_ratchet_v1 L root_key dh_output =
     (let combined = b3_derive_key L ROOT_KDF_CONTEXT_V1 (root_key @ dh_output) in
      (b3_derive_key L (ROOT_KDF_CONTEXT_V1 @ '':root'') combined,
       b3_derive_key L (ROOT_KDF_CONTEXT_V1 @ '':chain'') combined))"

definition root_key_ratchet_v2 ::
  "crypto_libs \<Rightarrow> ratchet_key \<Rightarrow> bytes \<Rightarrow> bytes option \<Rightarrow> ratchet_key \<times> ratchet_key" where
  "root_key_ratchet_v2 L root_key dh_output pq_ss =
     (let input = root_key @ dh_output @ (case pq_ss of Some ss_pq \<Rightarrow> ss_pq | None \<Rightarrow> []);
          combined = b3_derive_key L ROOT_KDF_CONTEXT_V2 input in
      (b3_derive_key L (ROOT_KDF_CONTEXT_V2 @ '':root'') combined,
       b3_derive_key L (ROOT_KDF_CONTEXT_V2 @ '':chain'') combined))"

definition derive_root_key_v1 :: "crypto_libs \<Rightarrow> ratchet_key \<Rightarrow> bytes \<Rightarrow> ratchet_key" where
  "derive_root_key_v1 L prior_root shared_secret = b3_derive_key L ROOT_KDF_CONTEXT_V1 (prior_root @ shared_secret)"

text \<open>\<open>ed25519_to_x25519_secret\<close> of \<open>core/src/crypto/encrypt.rs\<close>.\<close>

definition ed25519_to_x25519_secret :: "crypto_libs \<Rightarrow> bytes \<Rightarrow> bytes" where
  "ed25519_to_x25519_secret L signing_key = take 32 (sha512 L signing_key)"

section \<open>Chains and sessions\<close>

record chain =
  ch_chain_key :: ratchet_key
  ch_index :: u32

definition Chain_new :: "ratchet_key \<Rightarrow> chain" where
  "Chain_new chain_key = \<lparr>ch_chain_key = chain_key, ch_index = 0\<rparr>"

definition Chain_new_with_index :: "ratchet_key \<Rightarrow> u32 \<Rightarrow> chain" where
  "Chain_new_with_index chain_key index = \<lparr>ch_chain_key = chain_key, ch_index = index\<rparr>"

definition next_message_key :: "crypto_libs \<Rightarrow> chain \<Rightarrow> ratchet_key \<times> chain" where
  "next_message_key L c =
     (derive_key_with_info L (ch_chain_key c) ''message-key'',
      c\<lparr>ch_chain_key := derive_key_with_info L (ch_chain_key c) ''chain-key'', ch_index := ch_index c + 1\<rparr>)"

record pending_pq_secret =
  pp_ss :: ratchet_key
  pp_created_step :: u32

type_synonym skipped_keys = "(bytes \<times> u32, ratchet_key) hmap"

record ratchet_session =
  rs_our_dh_secret :: bytes
  rs_our_dh_public :: bytes
  rs_their_dh_public :: "bytes option"
  rs_root_key :: ratchet_key
  rs_sending_chain :: "chain option"
  rs_receiving_chain :: "chain option"
  rs_dh_step_count :: u32
  rs_skipped_keys :: skipped_keys
  rs_initialized :: bool
  rs_our_identity_secret :: "bytes option"
  rs_negotiated_suite :: "byte option"
  rs_transcript_hash :: "bytes option"
  rs_peer_confirmed :: bool
  rs_bootstrap_hct :: "hybrid_ciphertext option"
  rs_pq_our_keypair :: "mlkem768_key_pair option"
  rs_pq_prev_keypair :: "mlkem768_key_pair option"
  rs_pq_their_encaps_key :: "bytes option"
  rs_pq_pending_ct :: "bytes option"
  rs_pq_pending_sent :: "pending_pq_secret option"
  rs_pq_pending_recv :: "ratchet_key option"
  rs_pq_last_mixed_fp :: "bytes option"
  rs_transition_counter :: u64

record ratchet_encrypt_result =
  re_ciphertext :: bytes
  re_nonce :: bytes
  re_message_number :: u32
  re_our_dh_public :: bytes

definition is_pq_hybrid :: "ratchet_session \<Rightarrow> bool" where
  "is_pq_hybrid s \<longleftrightarrow> (case rs_negotiated_suite s of Some suite \<Rightarrow> suite \<in> set HYBRID_SUITE_IDS | None \<Rightarrow> False)"

definition sending_chain_state :: "ratchet_session \<Rightarrow> (bytes \<times> u32) option" where
  "sending_chain_state s = map_option (\<lambda>c. (ch_chain_key c, ch_index c)) (rs_sending_chain s)"

definition receiving_chain_state :: "ratchet_session \<Rightarrow> (bytes \<times> u32) option" where
  "receiving_chain_state s = map_option (\<lambda>c. (ch_chain_key c, ch_index c)) (rs_receiving_chain s)"

definition skipped_keys_snapshot :: "ratchet_session \<Rightarrow> (bytes \<times> u32 \<times> bytes) list" where
  "skipped_keys_snapshot s = map (\<lambda>((dh, idx), key). (dh, idx, key)) (rs_skipped_keys s)"

subsection \<open>Establishing a session\<close>

definition init_as_sender :: "crypto_libs \<Rightarrow> bytes \<Rightarrow> bytes \<Rightarrow> bytes \<Rightarrow> ratchet_session" where
  "init_as_sender L our_dh_secret our_signing_key their_identity_public =
     (let our_x25519 = ed25519_to_x25519_secret L our_signing_key;
          shared_secret = x25519_dh L our_x25519 their_identity_public;
          root_key = derive_root_key_v1 L (replicate 32 0) shared_secret;
          dh_output = x25519_dh L our_dh_secret their_identity_public;
          (new_root_key, sending_chain_key) = root_key_ratchet_v1 L root_key dh_output in
      \<lparr>rs_our_dh_secret = our_dh_secret, rs_our_dh_public = x25519_public L our_dh_secret,
       rs_their_dh_public = Some their_identity_public, rs_root_key = new_root_key,
       rs_sending_chain = Some (Chain_new sending_chain_key), rs_receiving_chain = None,
       rs_dh_step_count = 1, rs_skipped_keys = [], rs_initialized = True, rs_our_identity_secret = None,
       rs_negotiated_suite = None, rs_transcript_hash = None, rs_peer_confirmed = False, rs_bootstrap_hct = None,
       rs_pq_our_keypair = None, rs_pq_prev_keypair = None, rs_pq_their_encaps_key = None, rs_pq_pending_ct = None,
       rs_pq_pending_sent = None, rs_pq_pending_recv = None, rs_pq_last_mixed_fp = None, rs_transition_counter = 1\<rparr>)"

definition init_as_receiver :: "crypto_libs \<Rightarrow> bytes \<Rightarrow> bytes \<Rightarrow> bytes \<Rightarrow> ratchet_session" where
  "init_as_receiver L our_dh_secret our_signing_key sender_identity_public =
     (let our_x25519 = ed25519_to_x25519_secret L our_signing_key;
          shared_secret = x25519_dh L our_x25519 sender_identity_public;
          root_key = derive_root_key_v1 L (replicate 32 0) shared_secret in
      \<lparr>rs_our_dh_secret = our_dh_secret, rs_our_dh_public = x25519_public L our_dh_secret,
       rs_their_dh_public = None, rs_root_key = root_key,
       rs_sending_chain = None, rs_receiving_chain = None,
       rs_dh_step_count = 0, rs_skipped_keys = [], rs_initialized = False, rs_our_identity_secret = Some our_x25519,
       rs_negotiated_suite = None, rs_transcript_hash = None, rs_peer_confirmed = False, rs_bootstrap_hct = None,
       rs_pq_our_keypair = None, rs_pq_prev_keypair = None, rs_pq_their_encaps_key = None, rs_pq_pending_ct = None,
       rs_pq_pending_sent = None, rs_pq_pending_recv = None, rs_pq_last_mixed_fp = None, rs_transition_counter = 0\<rparr>)"

text \<open>
  The four hybrid constructors differ in the derivation of the first root key.  \<open>hybrid_sender_session\<close>
  and \<open>hybrid_receiver_session\<close> are what the two senders and the two receivers do after it.
\<close>

definition hybrid_sender_session ::
  "crypto_libs \<Rightarrow> bytes \<Rightarrow> bytes \<Rightarrow> byte \<Rightarrow> public_key_bundle \<Rightarrow> bytes \<Rightarrow> hybrid_ciphertext \<Rightarrow> bytes \<Rightarrow> ratchet_session" where
  "hybrid_sender_session L our_dh_secret seed suite their_bundle transcript_hash hct root_key_0 =
     (let dh_output = x25519_dh L our_dh_secret (pb_x25519_public their_bundle);
          (new_root_key, sending_chain_key) = root_key_ratchet_v2 L root_key_0 dh_output None in
      \<lparr>rs_our_dh_secret = our_dh_secret, rs_our_dh_public = x25519_public L our_dh_secret,
       rs_their_dh_public = Some (pb_x25519_public their_bundle), rs_root_key = new_root_key,
       rs_sending_chain = Some (Chain_new sending_chain_key), rs_receiving_chain = None,
       rs_dh_step_count = 1, rs_skipped_keys = [], rs_initialized = True, rs_our_identity_secret = None,
       rs_negotiated_suite = Some suite, rs_transcript_hash = Some transcript_hash, rs_peer_confirmed = False,
       rs_bootstrap_hct = Some hct, rs_pq_our_keypair = Some (pq_generate L seed), rs_pq_prev_keypair = None,
       rs_pq_their_encaps_key = Some (pb_mlkem_encaps_key their_bundle), rs_pq_pending_ct = None,
       rs_pq_pending_sent = None, rs_pq_pending_recv = None, rs_pq_last_mixed_fp = None, rs_transition_counter = 1\<rparr>)"

definition hybrid_receiver_session ::
  "crypto_libs \<Rightarrow> bytes \<Rightarrow> byte \<Rightarrow> bytes \<Rightarrow> mlkem768_key_pair \<Rightarrow> hybrid_ciphertext \<Rightarrow> bytes \<Rightarrow> bytes \<Rightarrow> ratchet_session" where
  "hybrid_receiver_session L our_dh_secret suite our_x25519_secret our_mlkem_keypair hct transcript_hash root_key_0 =
     \<lparr>rs_our_dh_secret = our_dh_secret, rs_our_dh_public = x25519_public L our_dh_secret,
      rs_their_dh_public = None, rs_root_key = root_key_0,
      rs_sending_chain = None, rs_receiving_chain = None,
      rs_dh_step_count = 0, rs_skipped_keys = [], rs_initialized = False, rs_our_identity_secret = Some our_x25519_secret,
      rs_negotiated_suite = Some suite, rs_transcript_hash = Some transcript_hash, rs_peer_confirmed = False,
      rs_bootstrap_hct = Some hct, rs_pq_our_keypair = Some our_mlkem_keypair, rs_pq_prev_keypair = None,
      rs_pq_their_encaps_key = Some (hct_mlkem_ciphertext hct), rs_pq_pending_ct = None,
      rs_pq_pending_sent = None, rs_pq_pending_recv = None, rs_pq_last_mixed_fp = None, rs_transition_counter = 0\<rparr>"

definition SESSION_ROOT_V3 :: string where
  "SESSION_ROOT_V3 = ''iron-core session-root v3 2026-08''"

definition SESSION_ROOT_V2 :: string where
  "SESSION_ROOT_V2 = ''iron-core session-root v2 2026-07''"

text \<open>\<open>rnd\<close> are the draws of a sender: its ratchet secret, the two inputs of the encapsulation and a seed.\<close>

record sender_randomness =
  rnd_dh_secret :: bytes
  rnd_ephemeral :: bytes
  rnd_encaps :: bytes
  rnd_seed :: bytes

definition init_as_sender_hybrid ::
  "crypto_libs \<Rightarrow> sender_randomness \<Rightarrow> bytes \<Rightarrow> public_key_bundle \<Rightarrow> bytes \<Rightarrow> (crypto_error, ratchet_session) result" where
  "init_as_sender_hybrid L rnd our_x25519_secret their_bundle transcript_hash =
     and_then (hybrid_encapsulate L (rnd_ephemeral rnd) (rnd_encaps rnd) (pb_x25519_public their_bundle)
         (pb_mlkem_encaps_key their_bundle)) (\<lambda>(hct, ss_hybrid).
       let dh_static = x25519_dh L our_x25519_secret (pb_x25519_public their_bundle);
           root_key_0 = b3_derive_key L SESSION_ROOT_V3 (ss_hybrid @ dh_static @ transcript_hash) in
       Ok (hybrid_sender_session L (rnd_dh_secret rnd) (rnd_seed rnd) 0x03 their_bundle transcript_hash hct root_key_0))"

definition init_as_receiver_hybrid ::
  "crypto_libs \<Rightarrow> bytes \<Rightarrow> bytes \<Rightarrow> mlkem768_key_pair \<Rightarrow> public_key_bundle \<Rightarrow> hybrid_ciphertext \<Rightarrow> bytes
    \<Rightarrow> (crypto_error, ratchet_session) result" where
  "init_as_receiver_hybrid L our_dh_secret our_x25519_secret our_mlkem_keypair sender_bundle hct transcript_hash =
     and_then (hybrid_decapsulate L our_x25519_secret our_mlkem_keypair hct) (\<lambda>ss_hybrid.
       let dh_static = x25519_dh L our_x25519_secret (pb_x25519_public sender_bundle);
           root_key_0 = b3_derive_key L SESSION_ROOT_V3 (ss_hybrid @ dh_static @ transcript_hash) in
       Ok (hybrid_receiver_session L our_dh_secret 0x03 our_x25519_secret our_mlkem_keypair hct transcript_hash root_key_0))"

definition init_as_sender_hybrid_suite02 ::
  "crypto_libs \<Rightarrow> sender_randomness \<Rightarrow> public_key_bundle \<Rightarrow> bytes \<Rightarrow> (crypto_error, ratchet_session) result" where
  "init_as_sender_hybrid_suite02 L rnd their_bundle transcript_hash =
     and_then (hybrid_encapsulate L (rnd_ephemeral rnd) (rnd_encaps rnd) (pb_x25519_public their_bundle)
         (pb_mlkem_encaps_key their_bundle)) (\<lambda>(hct, ss_hybrid).
       let root_key_0 = b3_derive_key L SESSION_ROOT_V2 (ss_hybrid @ transcript_hash) in
       Ok (hybrid_sender_session L (rnd_dh_secret rnd) (rnd_seed rnd) 0x02 their_bundle transcript_hash hct root_key_0))"

definition init_as_receiver_hybrid_suite02 ::
  "crypto_libs \<Rightarrow> bytes \<Rightarrow> bytes \<Rightarrow> mlkem768_key_pair \<Rightarrow> hybrid_ciphertext \<Rightarrow> bytes
    \<Rightarrow> (crypto_error, ratchet_session) result" where
  "init_as_receiver_hybrid_suite02 L our_dh_secret our_x25519_secret our_mlkem_keypair hct transcript_hash =
     and_then (hybrid_decapsulate L our_x25519_secret our_mlkem_keypair hct) (\<lambda>ss_hybrid.
       let root_key_0 = b3_derive_key L SESSION_ROOT_V2 (ss_hybrid @ transcript_hash) in
       Ok (hybrid_receiver_session L our_dh_secret 0x02 our_x25519_secret our_mlkem_keypair hct transcript_hash root_key_0))"

section \<open>Sending and receiving\<close>

definition RatchetSession_encrypt ::
  "crypto_libs \<Rightarrow> bytes \<Rightarrow> bytes \<Rightarrow> bytes \<Rightarrow> ratchet_session \<Rightarrow> (crypto_error, ratchet_encrypt_result) result \<times> ratchet_session" where
  "RatchetSession_encrypt L nonce_bytes plaintext aad s =
     (case rs_sending_chain s of
        None \<Rightarrow> (Err SendingChainNotInitialized, s)
      | Some chain \<Rightarrow>
          if MAX_RATCHET_STEPS \<le> rs_dh_step_count s then (Err RatchetStepsExceeded, s)
          else let (message_key, chain') = next_message_key L chain;
                   message_number = ch_index chain' - 1;
                   s' = s\<lparr>rs_sending_chain := Some chain'\<rparr> in
            (case xchacha_seal L message_key nonce_bytes plaintext aad of
               None \<Rightarrow> (Err EncryptionFailed, s')
             | Some ciphertext \<Rightarrow>
                 (Ok \<lparr>re_ciphertext = ciphertext, re_nonce = nonce_bytes, re_message_number = message_number,
                      re_our_dh_public = rs_our_dh_public s\<rparr>, s')))"

text \<open>\<open>XNonce::from_slice\<close> followed by \<open>cipher.decrypt\<close>.\<close>

definition open_message :: "crypto_libs \<Rightarrow> crypto_error \<Rightarrow> ratchet_key \<Rightarrow> bytes \<Rightarrow> bytes \<Rightarrow> bytes \<Rightarrow> (crypto_error, bytes) result" where
  "open_message L err message_key nonce ciphertext aad =
     (if length nonce \<noteq> 24 then Panic
      else case xchacha_open L message_key nonce ciphertext aad of None \<Rightarrow> Err err | Some plaintext \<Rightarrow> Ok plaintext)"

text \<open>\<open>self.skipped_keys.keys().min()\<close> and the eviction that follows it.\<close>

definition oldest_skipped :: "skipped_keys \<Rightarrow> (bytes \<times> u32) option" where
  "oldest_skipped m = (case map fst m of [] \<Rightarrow> None | k # ks \<Rightarrow> Some (fold min ks k))"

definition evict_skipped :: "skipped_keys \<Rightarrow> skipped_keys" where
  "evict_skipped m =
     (if MAX_SKIP_KEYS < length m then (case oldest_skipped m of Some oldest \<Rightarrow> hm_remove oldest m | None \<Rightarrow> m) else m)"

text \<open>The \<open>while\<close> loop of \<open>get_message_key\<close>.\<close>

function skip_keys :: "crypto_libs \<Rightarrow> bytes \<Rightarrow> u32 \<Rightarrow> chain \<Rightarrow> skipped_keys \<Rightarrow> chain \<times> skipped_keys" where
  "skip_keys L their_dh target_number chain skipped =
     (if ch_index chain < target_number
      then let (skipped_key, chain') = next_message_key L chain;
               skipped_number = ch_index chain' - 1 in
        skip_keys L their_dh target_number chain' (evict_skipped (hm_insert (their_dh, skipped_number) skipped_key skipped))
      else (chain, skipped))"
  by pat_completeness auto

termination
proof (relation "measure (\<lambda>(L, d, t, c, m). unat t - unat (ch_index c))")
  fix L :: crypto_libs and d t c m x k c' n
  assume less: "ch_index c < t" and x: "x = next_message_key L c" "(k, c') = x" and n: "n = ch_index c' - 1"
  have "unat (ch_index c + 1) = unat (ch_index c) + 1" using less by (rule word_less_plus_1)
  moreover have "ch_index c' = ch_index c + 1" using x by (simp add: next_message_key_def)
  moreover have "unat (ch_index c) < unat t" using less by (simp add: word_less_nat_alt)
  ultimately show "((L, d, t, c', evict_skipped (hm_insert (d, n) k m)), (L, d, t, c, m)) \<in> measure (\<lambda>(L, d, t, c, m). unat t - unat (ch_index c))"
    by simp
qed simp

declare skip_keys.simps [simp del]

definition get_message_key ::
  "crypto_libs \<Rightarrow> bytes \<Rightarrow> u32 \<Rightarrow> ratchet_session \<Rightarrow> (crypto_error, ratchet_key) result \<times> ratchet_session" where
  "get_message_key L their_dh target_number s =
     (case hm_get (rs_skipped_keys s) (their_dh, target_number) of
        Some key \<Rightarrow> (Ok key, s\<lparr>rs_skipped_keys := hm_remove (their_dh, target_number) (rs_skipped_keys s)\<rparr>)
      | None \<Rightarrow>
          (case rs_receiving_chain s of
             None \<Rightarrow> (Err ReceivingChainNotInitialized, s)
           | Some chain \<Rightarrow>
               if target_number < ch_index chain then (Err BehindChainPosition, s)
               else if MAX_SKIP_KEYS < unat (target_number - ch_index chain) then (Err TooManySkipped, s)
               else let (chain', skipped') = skip_keys L their_dh target_number chain (rs_skipped_keys s);
                        (message_key, chain'') = next_message_key L chain' in
                 (Ok message_key, s\<lparr>rs_receiving_chain := Some chain'', rs_skipped_keys := skipped'\<rparr>)))"

text \<open>The derivation of a Diffie-Hellman step, by the kind of the session.\<close>

definition root_key_ratchet ::
  "crypto_libs \<Rightarrow> ratchet_session \<Rightarrow> ratchet_key \<Rightarrow> bytes \<Rightarrow> ratchet_key option \<Rightarrow> ratchet_key \<times> ratchet_key" where
  "root_key_ratchet L s root_key dh_output pq_ss =
     (if is_pq_hybrid s then root_key_ratchet_v2 L root_key dh_output pq_ss else root_key_ratchet_v1 L root_key dh_output)"

definition dh_ratchet_step :: "crypto_libs \<Rightarrow> bytes \<Rightarrow> ratchet_key option \<Rightarrow> bytes \<Rightarrow> ratchet_session \<Rightarrow> ratchet_session" where
  "dh_ratchet_step L new_dh_secret candidate their_new_dh s =
     (let first_dh_secret = (case rs_our_identity_secret s of Some identity_secret \<Rightarrow> identity_secret | None \<Rightarrow> rs_our_dh_secret s);
          dh_output = x25519_dh L first_dh_secret their_new_dh;
          (new_root_key, receiving_chain_key) = root_key_ratchet L s (rs_root_key s) dh_output (rs_pq_pending_recv s);
          dh_output_2 = x25519_dh L new_dh_secret their_new_dh;
          (new_root_key_2, sending_chain_key) = root_key_ratchet L s new_root_key dh_output_2 candidate in
      s\<lparr>rs_our_identity_secret := None, rs_their_dh_public := Some their_new_dh,
        rs_receiving_chain := Some (Chain_new receiving_chain_key),
        rs_our_dh_secret := new_dh_secret, rs_our_dh_public := x25519_public L new_dh_secret,
        rs_root_key := new_root_key_2, rs_sending_chain := Some (Chain_new sending_chain_key),
        rs_dh_step_count := rs_dh_step_count s + 1, rs_initialized := True\<rparr>)"

definition handle_dh_ratchet :: "crypto_libs \<Rightarrow> bytes \<Rightarrow> bytes \<Rightarrow> ratchet_session \<Rightarrow> ratchet_session" where
  "handle_dh_ratchet L new_dh_secret their_new_dh s =
     dh_ratchet_step L new_dh_secret (map_option pp_ss (rs_pq_pending_sent s)) their_new_dh s"

text \<open>What a successful trial commits.\<close>

definition adopt_trial :: "crypto_libs \<Rightarrow> ratchet_key option \<Rightarrow> ratchet_session \<Rightarrow> ratchet_session" where
  "adopt_trial L candidate trial =
     (let t1 = (case candidate of Some _ \<Rightarrow> trial\<lparr>rs_pq_pending_sent := None, rs_pq_pending_ct := None\<rparr> | None \<Rightarrow> trial);
          t2 = (case rs_pq_pending_recv t1 of Some ss_recv \<Rightarrow> t1\<lparr>rs_pq_last_mixed_fp := Some (pq_ss_fingerprint L ss_recv)\<rparr> | None \<Rightarrow> t1) in
      t2\<lparr>rs_pq_pending_recv := None, rs_transition_counter := rs_transition_counter t2 + 2, rs_peer_confirmed := True\<rparr>)"

text \<open>The loop over the candidates; \<open>i\<close> counts the trials and \<open>errors\<close> collects what went wrong.\<close>

fun try_candidates ::
  "crypto_libs \<Rightarrow> (nat \<Rightarrow> bytes) \<Rightarrow> bytes \<Rightarrow> u32 \<Rightarrow> bytes \<Rightarrow> bytes \<Rightarrow> bytes \<Rightarrow> ratchet_session \<Rightarrow> nat
    \<Rightarrow> ratchet_key option list \<Rightarrow> crypto_error list \<Rightarrow> (crypto_error, bytes) result \<times> ratchet_session" where
  "try_candidates L fresh their_new_dh message_number nonce ciphertext aad s i [] errors = (Err (TrialFailed errors), s)"
| "try_candidates L fresh their_new_dh message_number nonce ciphertext aad s i (candidate # candidates) errors =
     (case get_message_key L their_new_dh message_number (dh_ratchet_step L (fresh i) candidate their_new_dh s) of
        (Err e, _) \<Rightarrow>
          try_candidates L fresh their_new_dh message_number nonce ciphertext aad s (Suc i) candidates (errors @ [GetMessageKeyFailed e])
      | (Panic, _) \<Rightarrow> (Panic, s)
      | (Ok message_key, trial) \<Rightarrow>
          (case open_message L DecryptionFailed message_key nonce ciphertext aad of
             Ok plaintext \<Rightarrow> (Ok plaintext, adopt_trial L candidate trial)
           | Err e \<Rightarrow> try_candidates L fresh their_new_dh message_number nonce ciphertext aad s (Suc i) candidates (errors @ [e])
           | Panic \<Rightarrow> (Panic, s)))"

definition handle_dh_ratchet_trial ::
  "crypto_libs \<Rightarrow> (nat \<Rightarrow> bytes) \<Rightarrow> bytes \<Rightarrow> u32 \<Rightarrow> bytes \<Rightarrow> bytes \<Rightarrow> bytes \<Rightarrow> ratchet_session
    \<Rightarrow> (crypto_error, bytes) result \<times> ratchet_session" where
  "handle_dh_ratchet_trial L fresh their_new_dh message_number nonce ciphertext aad s =
     try_candidates L fresh their_new_dh message_number nonce ciphertext aad s 0
       ((case rs_pq_pending_sent s of Some p \<Rightarrow> [Some (pp_ss p)] | None \<Rightarrow> []) @ [None]) []"

definition RatchetSession_decrypt ::
  "crypto_libs \<Rightarrow> (nat \<Rightarrow> bytes) \<Rightarrow> bytes \<Rightarrow> u32 \<Rightarrow> bytes \<Rightarrow> bytes \<Rightarrow> bytes \<Rightarrow> ratchet_session
    \<Rightarrow> (crypto_error, bytes) result \<times> ratchet_session" where
  "RatchetSession_decrypt L fresh their_dh message_number nonce ciphertext aad s =
     (if length their_dh \<noteq> 32 then (Err InvalidDhPublicLength, s)
      else case hm_get (rs_skipped_keys s) (their_dh, message_number) of
        Some message_key \<Rightarrow>
          (case open_message L SkippedKeyFailed message_key nonce ciphertext aad of
             Ok plaintext \<Rightarrow>
               (Ok plaintext, s\<lparr>rs_skipped_keys := hm_remove (their_dh, message_number) (rs_skipped_keys s), rs_peer_confirmed := True\<rparr>)
           | Err e \<Rightarrow> (Err e, s)
           | Panic \<Rightarrow> (Panic, s))
      | None \<Rightarrow>
          if rs_their_dh_public s \<noteq> Some their_dh
          then handle_dh_ratchet_trial L fresh their_dh message_number nonce ciphertext aad s
          else (case get_message_key L their_dh message_number s of
             (Err e, _) \<Rightarrow> (Err e, s)
           | (Panic, _) \<Rightarrow> (Panic, s)
           | (Ok message_key, cloned) \<Rightarrow>
               (case open_message L DecryptionFailed message_key nonce ciphertext aad of
                  Ok plaintext \<Rightarrow> (Ok plaintext, cloned\<lparr>rs_peer_confirmed := True\<rparr>)
                | Err e \<Rightarrow> (Err e, s)
                | Panic \<Rightarrow> (Panic, s))))"

section \<open>The post-quantum ratchet\<close>

definition perform_pq_ratchet_step ::
  "crypto_libs \<Rightarrow> bytes \<Rightarrow> bytes \<Rightarrow> ratchet_session \<Rightarrow> (crypto_error, bytes \<times> bytes) result \<times> ratchet_session" where
  "perform_pq_ratchet_step L encap_rand seed s =
     (if \<not> is_pq_hybrid s then (Err PqNotNegotiated, s)
      else case rs_pq_their_encaps_key s of
        None \<Rightarrow> (Err NoPqEncapsKey, s)
      | Some their_encaps_key \<Rightarrow>
          or_return (pq_encapsulate L encap_rand their_encaps_key) s (\<lambda>(ct, ss_pq).
            let new_keypair = pq_generate L seed in
            (Ok (ct, kp_pub_key new_keypair),
             s\<lparr>rs_pq_pending_sent := Some \<lparr>pp_ss = ss_pq, pp_created_step = rs_dh_step_count s\<rparr>,
               rs_pq_prev_keypair := rs_pq_our_keypair s, rs_pq_our_keypair := Some new_keypair,
               rs_pq_pending_ct := Some ct\<rparr>)))"

text \<open>The two attempts of \<open>handle_incoming_pq_fields\<close>; a later success replaces an earlier one.\<close>

definition try_decapsulate :: "crypto_libs \<Rightarrow> mlkem768_key_pair option \<Rightarrow> bytes \<Rightarrow> bytes option \<Rightarrow> bytes option" where
  "try_decapsulate L keypair ct found =
     (case keypair of None \<Rightarrow> found
      | Some kp \<Rightarrow> (case pq_decapsulate L kp ct of Ok ss \<Rightarrow> Some ss | _ \<Rightarrow> found))"

definition handle_incoming_pq_fields ::
  "crypto_libs \<Rightarrow> bytes \<Rightarrow> bytes \<Rightarrow> ratchet_session \<Rightarrow> (crypto_error, bytes) result \<times> ratchet_session" where
  "handle_incoming_pq_fields L pq_kem_ciphertext pq_encaps_key s =
     (if \<not> is_pq_hybrid s then (Err PqNotNegotiated, s)
      else case try_decapsulate L (rs_pq_prev_keypair s) pq_kem_ciphertext
                  (try_decapsulate L (rs_pq_our_keypair s) pq_kem_ciphertext None) of
        None \<Rightarrow> (Ok [], s)
      | Some ss_pq \<Rightarrow>
          let fp = pq_ss_fingerprint L ss_pq;
              is_duplicate = (rs_pq_last_mixed_fp s = Some fp
                \<or> map_option (pq_ss_fingerprint L) (rs_pq_pending_recv s) = Some fp);
              s' = (if is_duplicate then s else s\<lparr>rs_pq_pending_recv := Some ss_pq\<rparr>) in
          (Ok ss_pq, s'\<lparr>rs_pq_their_encaps_key := Some pq_encaps_key, rs_pq_pending_ct := None\<rparr>))"

definition validate_pq_fields_present :: "bool \<Rightarrow> ratchet_session \<Rightarrow> (crypto_error, unit) result" where
  "validate_pq_fields_present has_pq_fields s =
     (if is_pq_hybrid s \<and> rs_pq_their_encaps_key s \<noteq> None \<and> \<not> has_pq_fields then Err PqStripping else Ok ())"

definition clear_pq_pending_ct :: "ratchet_session \<Rightarrow> ratchet_session" where
  "clear_pq_pending_ct s = s\<lparr>rs_pq_pending_ct := None\<rparr>"

end
