(* ===== verification/Sample_Crypto.thy ===== *)
theory Sample_Crypto
  imports Hybrid_Kem
begin

text \<open>
  Concrete primitives that satisfy the laws the model asks of the cryptographic packages, for evaluating
  properties at a concrete input: keys are added byte by byte, a key derivation prepends its context, and a
  sealed message starts with the key, the nonce and the associated data.
\<close>

definition pad :: "nat \<Rightarrow> bytes \<Rightarrow> bytes" where
  "pad n bs = take n (bs @ replicate n 0)"

definition toy_crypto :: crypto_libs where
  "toy_crypto = \<lparr>x25519_public = pad 32, x25519_dh = (\<lambda>x p. map2 (+) (pad 32 x) p), was_contributory = (\<lambda>ss. take 1 ss \<noteq> [0]),
     ed25519_public = pad 32, ed25519_to_montgomery = (\<lambda>p. Some p), sha512 = pad 64,
     b3_hash = (\<lambda>bs. bs), b3_to_hex = map (\<lambda>b. char_of (unat b)), b3_derive_key = (\<lambda>context bs. as_bytes context @ bs),
     xchacha_seal = (\<lambda>k n p a. Some (k @ n @ a @ p)),
     xchacha_open = (\<lambda>k n c a. if take (length (k @ n @ a)) c = k @ n @ a then Some (drop (length (k @ n @ a)) c) else None),
     mlkem_generate = (\<lambda>seed. (pad 1184 seed, pad 1184 seed)),
     mlkem_encapsulate = (\<lambda>pk r. (pad 1088 r, take 32 pk @ pad 1088 r)),
     mlkem_decapsulate = (\<lambda>sk ct. take 32 sk @ ct)\<rparr>"

lemma length_pad [simp]: "length (pad n bs) = n"
  by (simp add: pad_def)

lemma toy_dh_symmetric: "dh_symmetric toy_crypto"
proof -
  have "map2 (+) xs ys = map2 (+) ys xs" for xs ys :: bytes
    by (induction xs ys rule: list_induct2') (simp_all add: add.commute)
  then show ?thesis by (simp add: dh_symmetric_def toy_crypto_def)
qed

lemma toy_aead_correct: "aead_correct toy_crypto"
  by (simp add: aead_correct_def toy_crypto_def)

lemma toy_mlkem_correct: "mlkem_correct toy_crypto"
  by (simp add: mlkem_correct_def toy_crypto_def)

end
