(* ===== verification/Ratchet_Conversation.thy ===== *)
theory Ratchet_Conversation
  imports Ratchet Sample_Crypto
begin

text \<open>
  Correctness of the double ratchet: whatever order, and however often, the messages of a turn arrive,
  each of them is decrypted exactly once, and the two sessions stay in step from turn to turn.

  \<open>chain_at\<close> is the chain after a number of steps from its first key.  The state of a receiver within a
  turn is given by the first key of the chain, the position of the chain and the set of the numbers
  received so far (\<open>received\<close>); between turns the sessions satisfy \<open>ready\<close>, which every way of
  establishing a pair of sessions makes true.
\<close>

section \<open>Chains\<close>

definition chain_key_at :: "crypto_libs \<Rightarrow> ratchet_key \<Rightarrow> nat \<Rightarrow> ratchet_key" where
  "chain_key_at L ck j = ((\<lambda>k. derive_key_with_info L k ''chain-key'') ^^ j) ck"

definition message_key_at :: "crypto_libs \<Rightarrow> ratchet_key \<Rightarrow> nat \<Rightarrow> ratchet_key" where
  "message_key_at L ck j = derive_key_with_info L (chain_key_at L ck j) ''message-key''"

definition chain_at :: "crypto_libs \<Rightarrow> ratchet_key \<Rightarrow> nat \<Rightarrow> chain" where
  "chain_at L ck j = \<lparr>ch_chain_key = chain_key_at L ck j, ch_index = of_nat j\<rparr>"

lemma Chain_new_at: "Chain_new ck = chain_at L ck 0"
  by (simp add: Chain_new_def chain_at_def chain_key_at_def)

lemma ch_index_at [simp]: "ch_index (chain_at L ck j) = of_nat j"
  by (simp add: chain_at_def)

lemma next_message_key_at [simp]:
  "next_message_key L (chain_at L ck j) = (message_key_at L ck j, chain_at L ck (Suc j))"
  by (simp add: next_message_key_def chain_at_def message_key_at_def chain_key_at_def)

lemma of_nat_u32_eq: "i < 4294967296 \<Longrightarrow> j < 4294967296 \<Longrightarrow> (of_nat i :: u32) = of_nat j \<longleftrightarrow> i = j"
  by (metis unat_of_nat_u32)

lemma of_nat_u32_less: "i < 4294967296 \<Longrightarrow> j < 4294967296 \<Longrightarrow> (of_nat i :: u32) < of_nat j \<longleftrightarrow> i < j"
  by (simp add: word_less_nat_alt unat_of_nat_u32)

lemma of_nat_u32_diff: "i \<le> j \<Longrightarrow> j < 4294967296 \<Longrightarrow> unat (of_nat j - of_nat i :: u32) = j - i"
  by (simp add: of_nat_diff [symmetric] unat_of_nat_u32 del: of_nat_diff)

definition skip_list :: "crypto_libs \<Rightarrow> bytes \<Rightarrow> ratchet_key \<Rightarrow> nat list \<Rightarrow> skipped_keys" where
  "skip_list L d ck js = map (\<lambda>j. ((d, of_nat j), message_key_at L ck j)) js"

lemma skip_list_append: "skip_list L d ck (is @ js) = skip_list L d ck is @ skip_list L d ck js"
  by (simp add: skip_list_def)

lemma skip_list_get:
  assumes "\<forall>j \<in> set js. j < 4294967296" and "i < 4294967296"
  shows "hm_get (skip_list L d ck js) (d, of_nat i) = (if i \<in> set js then Some (message_key_at L ck i) else None)"
  using assms by (induction js) (auto simp: skip_list_def of_nat_u32_eq)

lemma skip_list_remove:
  assumes "\<forall>j \<in> set js. j < 4294967296" and "i < 4294967296"
  shows "hm_remove (d, of_nat i) (skip_list L d ck js) = skip_list L d ck (filter (\<lambda>j. j \<noteq> i) js)"
  using assms by (induction js) (auto simp: skip_list_def of_nat_u32_eq)

text \<open>As long as the cache has room, skipping stores every key on the way.\<close>

lemma skip_keys_at:
  assumes "m \<le> t" and "t < 4294967296" and "length js + (t - m) \<le> MAX_SKIP_KEYS" and "\<forall>j \<in> set js. j < m"
  shows "skip_keys L d (of_nat t) (chain_at L ck m) (skip_list L d ck js) = (chain_at L ck t, skip_list L d ck (js @ [m..<t]))"
  using assms
proof (induction "t - m" arbitrary: m js)
  case 0
  then show ?case by (simp add: skip_keys.simps [where chain = "chain_at L ck m" for m] of_nat_u32_less)
next
  case (Suc n)
  then have m: "m < t" by simp
  have fresh: "(d, of_nat m) \<notin> fst ` set (skip_list L d ck js)"
  proof
    assume "(d, of_nat m) \<in> fst ` set (skip_list L d ck js)"
    then obtain j where "j \<in> set js" "(of_nat j :: u32) = of_nat m" by (auto simp: skip_list_def)
    then show False using Suc.prems m of_nat_u32_eq [of j m] by fastforce
  qed
  have "hm_insert (d, of_nat m) (message_key_at L ck m) (skip_list L d ck js) = skip_list L d ck (js @ [m])"
    unfolding hm_insert_fresh [OF fresh] by (simp add: skip_list_def)
  moreover have "\<not> MAX_SKIP_KEYS < length (skip_list L d ck (js @ [m]))" using Suc.prems m by (simp add: skip_list_def)
  ultimately have ins: "evict_skipped (hm_insert (d, of_nat m) (message_key_at L ck m) (skip_list L d ck js)) = skip_list L d ck (js @ [m])"
    by (simp add: evict_skipped_def)
  have "skip_keys L d (of_nat t) (chain_at L ck m) (skip_list L d ck js)
      = skip_keys L d (of_nat t) (chain_at L ck (Suc m)) (skip_list L d ck (js @ [m]))"
    using Suc.prems m ins by (subst skip_keys.simps) (simp add: of_nat_u32_less)
  also have "\<dots> = (chain_at L ck t, skip_list L d ck ((js @ [m]) @ [Suc m..<t]))"
    using Suc.prems Suc.hyps m by (intro Suc.hyps(1)) (auto simp: less_Suc_eq)
  finally show ?case using m by (simp add: upt_conv_Cons [of m t])
qed

section \<open>Receiving the messages of one chain\<close>

text \<open>The receiver's session when the numbers \<open>D\<close> of the chain with first key \<open>ck\<close> have arrived.\<close>

definition missing :: "nat \<Rightarrow> nat set \<Rightarrow> nat list" where
  "missing m D = filter (\<lambda>j. j \<notin> D) [0..<m]"

definition received :: "crypto_libs \<Rightarrow> bytes \<Rightarrow> ratchet_key \<Rightarrow> nat \<Rightarrow> nat set \<Rightarrow> ratchet_session \<Rightarrow> ratchet_session" where
  "received L d ck m D s = s\<lparr>rs_receiving_chain := Some (chain_at L ck m),
     rs_skipped_keys := skip_list L d ck (missing m D), rs_peer_confirmed := True\<rparr>"

lemma length_missing: "length (missing m D) \<le> m"
  using length_filter_le [of "\<lambda>j. j \<notin> D" "[0..<m]"] by (simp add: missing_def)

lemma missing_bound: "m \<le> 257 \<Longrightarrow> \<forall>j \<in> set (missing m D). j < 4294967296"
  by (auto simp: missing_def)

lemma missing_get:
  assumes "m \<le> 257" "i \<le> 256"
  shows "hm_get (skip_list L d ck (missing m D)) (d, of_nat i) = (if i < m \<and> i \<notin> D then Some (message_key_at L ck i) else None)"
  using skip_list_get [OF missing_bound [OF assms(1)], of i L d ck D] assms(2) by (simp add: missing_def)

lemma missing_step: "i < m \<Longrightarrow> filter (\<lambda>j. j \<noteq> i) (missing m D) = missing m (insert i D)"
  by (simp add: missing_def conj_commute cong: filter_cong)

lemma missing_skip:
  assumes "D \<subseteq> {..<m}" and "m \<le> i"
  shows "missing m D @ [m..<i] = missing (Suc i) (insert i D)"
proof -
  have "[0..<Suc i] = [0..<m] @ [m..<i] @ [i]" using assms(2) upt_add_eq_append [of 0 m "i - m"] by simp
  moreover have "filter (\<lambda>j. j \<notin> insert i D) [m..<i] = [m..<i]" using assms by (intro filter_True) auto
  moreover have "filter (\<lambda>j. j \<notin> insert i D) [0..<m] = filter (\<lambda>j. j \<notin> D) [0..<m]" using assms by (intro filter_cong) auto
  ultimately show ?thesis by (simp add: missing_def)
qed

text \<open>The key of any message that is missing is found, and of none that has arrived.\<close>

lemma get_message_key_received:
  assumes "D \<subseteq> {..<m}" "m \<le> 257" "i \<le> 256" "m \<le> i"
    and "rs_receiving_chain s = Some (chain_at L ck m)" "rs_skipped_keys s = skip_list L d ck (missing m D)"
  shows "get_message_key L d (of_nat i) s =
    (Ok (message_key_at L ck i), s\<lparr>rs_receiving_chain := Some (chain_at L ck (Suc i)), rs_skipped_keys := skip_list L d ck (missing (Suc i) (insert i D))\<rparr>)"
proof -
  have "hm_get (rs_skipped_keys s) (d, of_nat i) = None"
    using missing_get [OF assms(2,3), of L d ck D] assms(4,6) by simp
  moreover have "length (missing m D) + (i - m) \<le> MAX_SKIP_KEYS"
    using length_missing [of m D] assms(3,4) by (simp add: MAX_SKIP_KEYS_def)
  then have "skip_keys L d (of_nat i) (chain_at L ck m) (skip_list L d ck (missing m D)) = (chain_at L ck i, skip_list L d ck (missing m D @ [m..<i]))"
    using assms by (intro skip_keys_at) (auto simp: missing_def)
  ultimately show ?thesis
    using assms by (simp add: get_message_key_def of_nat_u32_less of_nat_u32_diff missing_skip MAX_SKIP_KEYS_def)
qed

lemma decrypt_received:
  assumes "D \<subseteq> {..<m}" "m \<le> 257" "i \<le> 256" "i \<notin> D" "length d = 32" "rs_their_dh_public s = Some d"
    and "length nonce = 24" "xchacha_open L (message_key_at L ck i) nonce c aad = Some p"
  shows "RatchetSession_decrypt L fresh d (of_nat i) nonce c aad (received L d ck m D s)
    = (Ok p, received L d ck (max m (Suc i)) (insert i D) s)"
proof (cases "i < m")
  case True
  then have "hm_get (skip_list L d ck (missing m D)) (d, of_nat i) = Some (message_key_at L ck i)"
    using missing_get [OF assms(2,3), of L d ck D] assms(4) by simp
  moreover have "hm_remove (d, of_nat i) (skip_list L d ck (missing m D)) = skip_list L d ck (missing m (insert i D))"
    using assms True by (simp add: skip_list_remove missing_bound missing_step)
  moreover have "max m (Suc i) = m" using True by simp
  ultimately show ?thesis using assms by (simp add: RatchetSession_decrypt_def received_def open_message_def)
next
  case False
  then have "hm_get (skip_list L d ck (missing m D)) (d, of_nat i) = None"
    using missing_get [OF assms(2,3), of L d ck D] by simp
  moreover have "max m (Suc i) = Suc i" using False by simp
  ultimately show ?thesis
    using assms False
    by (simp add: RatchetSession_decrypt_def received_def open_message_def get_message_key_received [of D m i _ L ck d])
qed

lemma decrypt_replay:
  assumes "D \<subseteq> {..<m}" "m \<le> 257" "i \<in> D" "length d = 32" "rs_their_dh_public s = Some d"
  shows "RatchetSession_decrypt L fresh d (of_nat i) nonce c aad (received L d ck m D s)
    = (Err BehindChainPosition, received L d ck m D s)"
proof -
  have "i < m" using assms by auto
  moreover have "hm_get (skip_list L d ck (missing m D)) (d, of_nat i) = None"
    using missing_get [of m i L d ck D] assms \<open>i < m\<close> by simp
  ultimately show ?thesis
    using assms by (simp add: RatchetSession_decrypt_def received_def get_message_key_def of_nat_u32_less)
qed

section \<open>Turns\<close>

text \<open>One side encrypts a list of messages, each with its nonce.\<close>

fun send_all :: "crypto_libs \<Rightarrow> bytes \<Rightarrow> (bytes \<times> bytes) list \<Rightarrow> ratchet_session
    \<Rightarrow> (crypto_error, ratchet_encrypt_result) result list \<times> ratchet_session" where
  "send_all L aad [] s = ([], s)"
| "send_all L aad ((nonce, plaintext) # ms) s =
     (case RatchetSession_encrypt L nonce plaintext aad s of (r, s') \<Rightarrow>
        case send_all L aad ms s' of (rs, s'') \<Rightarrow> (r # rs, s''))"

text \<open>The other side decrypts what arrives; \<open>secret\<close> is the ratchet secret it draws in this turn.\<close>

fun receive_all :: "crypto_libs \<Rightarrow> bytes \<Rightarrow> bytes \<Rightarrow> (crypto_error, ratchet_encrypt_result) result list \<Rightarrow> ratchet_session
    \<Rightarrow> (crypto_error, bytes) result list \<times> ratchet_session" where
  "receive_all L secret aad [] s = ([], s)"
| "receive_all L secret aad (Ok r # rs) s =
     (case RatchetSession_decrypt L (\<lambda>_. secret) (re_our_dh_public r) (re_message_number r) (re_nonce r) (re_ciphertext r) aad s of
        (out, s') \<Rightarrow> case receive_all L secret aad rs s' of (outs, s'') \<Rightarrow> (out # outs, s''))"
| "receive_all L secret aad (_ # rs) s = receive_all L secret aad rs s"

record turn =
  tn_messages :: "(bytes \<times> bytes) list"
  tn_order :: "nat list"
  tn_secret :: bytes

text \<open>The sides take turns: \<open>aad\<close> and \<open>a\<close> belong to the side that sends next.\<close>

fun converse :: "crypto_libs \<Rightarrow> bytes \<Rightarrow> bytes \<Rightarrow> turn list \<Rightarrow> ratchet_session \<Rightarrow> ratchet_session
    \<Rightarrow> (crypto_error, bytes) result list list" where
  "converse L aad aad' [] a b = []"
| "converse L aad aad' (t # ts) a b =
     (case send_all L aad (tn_messages t) a of (sent, a') \<Rightarrow>
        case receive_all L (tn_secret t) aad (map (\<lambda>i. sent ! i) (tn_order t)) b of (outs, b') \<Rightarrow>
          outs # converse L aad' aad ts b' a')"

text \<open>
  A turn within the limits of the code: at most 257 messages, so that no more than 256 keys are ever
  skipped; each of them arrives at least once, in any order; the nonces have 24 bytes.
\<close>

definition turn_ok :: "turn \<Rightarrow> bool" where
  "turn_ok t \<longleftrightarrow> tn_messages t \<noteq> [] \<and> length (tn_messages t) \<le> 257 \<and> set (tn_order t) = {..<length (tn_messages t)}
     \<and> (\<forall>(nonce, plaintext) \<in> set (tn_messages t). length nonce = 24 \<and> length plaintext \<le> 2 ^ 38 - 64)"

text \<open>What the receiver should see: the plaintext the first time a number arrives, a refusal after that.\<close>

primrec exactly_once :: "nat set \<Rightarrow> (bytes \<times> bytes) list \<Rightarrow> nat list \<Rightarrow> (crypto_error, bytes) result list" where
  "exactly_once D ms [] = []"
| "exactly_once D ms (i # is) =
     (if i \<in> D then Err BehindChainPosition else Ok (snd (ms ! i))) # exactly_once (insert i D) ms is"

subsection \<open>Sending\<close>

text \<open>A message that the other side opens with the key of its number.\<close>

definition carries :: "crypto_libs \<Rightarrow> bytes \<Rightarrow> bytes \<Rightarrow> ratchet_key \<Rightarrow> nat \<Rightarrow> bytes \<Rightarrow> ratchet_encrypt_result \<Rightarrow> bool" where
  "carries L d aad ck i plaintext r \<longleftrightarrow> re_our_dh_public r = d \<and> re_message_number r = of_nat i \<and> length (re_nonce r) = 24
     \<and> xchacha_open L (message_key_at L ck i) (re_nonce r) (re_ciphertext r) aad = Some plaintext"

lemma encrypt_carries:
  assumes "aead_correct L" "rs_sending_chain s = Some (chain_at L ck j)" "rs_dh_step_count s < MAX_RATCHET_STEPS"
    and "length nonce = 24" "length plaintext \<le> 2 ^ 38 - 64"
  obtains r where "RatchetSession_encrypt L nonce plaintext aad s = (Ok r, s\<lparr>rs_sending_chain := Some (chain_at L ck (Suc j))\<rparr>)"
    and "carries L (rs_our_dh_public s) aad ck j plaintext r"
proof -
  obtain c where c: "xchacha_seal L (message_key_at L ck j) nonce plaintext aad = Some c"
      "xchacha_open L (message_key_at L ck j) nonce c aad = Some plaintext"
    using assms(1,4,5) unfolding aead_correct_def by blast
  have n: "\<not> MAX_RATCHET_STEPS \<le> rs_dh_step_count s" using assms(3) by simp
  let ?r = "\<lparr>re_ciphertext = c, re_nonce = nonce, re_message_number = of_nat j, re_our_dh_public = rs_our_dh_public s\<rparr>"
  have "RatchetSession_encrypt L nonce plaintext aad s = (Ok ?r, s\<lparr>rs_sending_chain := Some (chain_at L ck (Suc j))\<rparr>)"
    using c n assms(2) by (simp add: RatchetSession_encrypt_def)
  moreover have "carries L (rs_our_dh_public s) aad ck j plaintext ?r" using c assms(4) by (simp add: carries_def)
  ultimately show thesis by (rule that)
qed

lemma send_all_carries:
  assumes "aead_correct L" "rs_sending_chain s = Some (chain_at L ck j)" "rs_dh_step_count s < MAX_RATCHET_STEPS"
    and "\<forall>(nonce, plaintext) \<in> set ms. length nonce = 24 \<and> length plaintext \<le> 2 ^ 38 - 64"
  shows "\<exists>rs. send_all L aad ms s = (map Ok rs, s\<lparr>rs_sending_chain := Some (chain_at L ck (j + length ms))\<rparr>)
    \<and> length rs = length ms \<and> (\<forall>i < length ms. carries L (rs_our_dh_public s) aad ck (j + i) (snd (ms ! i)) (rs ! i))"
  using assms
proof (induction ms arbitrary: s j)
  case Nil
  then show ?case by simp
next
  case (Cons m ms)
  obtain nonce plaintext where m: "m = (nonce, plaintext)" by fastforce
  obtain r where r: "RatchetSession_encrypt L nonce plaintext aad s = (Ok r, s\<lparr>rs_sending_chain := Some (chain_at L ck (Suc j))\<rparr>)"
      "carries L (rs_our_dh_public s) aad ck j plaintext r"
    using encrypt_carries [of L s ck j nonce plaintext aad] Cons.prems m by auto
  let ?s = "s\<lparr>rs_sending_chain := Some (chain_at L ck (Suc j))\<rparr>"
  obtain rs where rs: "send_all L aad ms ?s = (map Ok rs, ?s\<lparr>rs_sending_chain := Some (chain_at L ck (Suc j + length ms))\<rparr>)"
      "length rs = length ms" "\<forall>i < length ms. carries L (rs_our_dh_public ?s) aad ck (Suc j + i) (snd (ms ! i)) (rs ! i)"
    using Cons.IH [of ?s "Suc j"] Cons.prems by auto
  have "\<forall>i < length (m # ms). carries L (rs_our_dh_public s) aad ck (j + i) (snd ((m # ms) ! i)) ((r # rs) ! i)"
    using r(2) rs(3) m by (auto simp: less_Suc_eq_0_disj)
  then show ?case using r rs m by (intro exI [of _ "r # rs"]) simp
qed

subsection \<open>Receiving\<close>

lemma received_received [simp]: "received L d ck m' D' (received L d ck m D s) = received L d ck m' D' s"
  by (simp add: received_def)

lemma their_received [simp]: "rs_their_dh_public (received L d ck m D s) = rs_their_dh_public s"
  by (simp add: received_def)

text \<open>The rest of a turn, once the chain is set up.\<close>

lemma receive_all_once:
  assumes "D \<subseteq> {..<m}" "m \<le> length ms" "length ms \<le> 257" "length d = 32" "rs_their_dh_public s = Some d"
    and "length rs = length ms" "\<forall>i < length ms. carries L d aad ck i (snd (ms ! i)) (rs ! i)" "set is \<subseteq> {..<length ms}"
  shows "\<exists>m'. receive_all L secret aad (map (\<lambda>i. Ok (rs ! i)) is) (received L d ck m D s)
      = (exactly_once D ms is, received L d ck m' (D \<union> set is) s) \<and> D \<union> set is \<subseteq> {..<m'} \<and> m' \<le> length ms"
  using assms(1,2,8)
proof (induction "is" arbitrary: D m)
  case Nil
  then show ?case by auto
next
  case (Cons i "is")
  have i: "i < length ms" and c: "carries L d aad ck i (snd (ms ! i)) (rs ! i)" using Cons.prems assms(7) by auto
  show ?case
  proof (cases "i \<in> D")
    case True
    then have "RatchetSession_decrypt L (\<lambda>_. secret) d (of_nat i) (re_nonce (rs ! i)) (re_ciphertext (rs ! i)) aad (received L d ck m D s)
        = (Err BehindChainPosition, received L d ck m D s)"
      using Cons.prems assms by (intro decrypt_replay) auto
    moreover have "insert i D = D" "D \<union> set (i # is) = D \<union> set is" using True by auto
    moreover have "set is \<subseteq> {..<length ms}" using Cons.prems by simp
    ultimately show ?thesis using Cons.IH [of D m] Cons.prems(1,2) c True by (auto simp: carries_def simp del: list.set)
  next
    case False
    let ?m = "max m (Suc i)"
    have "RatchetSession_decrypt L (\<lambda>_. secret) d (of_nat i) (re_nonce (rs ! i)) (re_ciphertext (rs ! i)) aad (received L d ck m D s)
        = (Ok (snd (ms ! i)), received L d ck ?m (insert i D) s)"
      using Cons.prems assms c i False by (intro decrypt_received) (auto simp: carries_def)
    moreover have "insert i D \<subseteq> {..<?m}" using Cons.prems by auto
    ultimately show ?thesis using Cons.IH [of "insert i D" ?m] Cons.prems c i False by (auto simp: carries_def)
  qed
qed

section \<open>Sessions in step\<close>

text \<open>
  \<open>a\<close> is about to send and \<open>b\<close> to receive: the first message of \<open>a\<close>'s chain makes \<open>b\<close> take the
  Diffie-Hellman step that \<open>a\<close> took before.
\<close>

definition first_secret :: "ratchet_session \<Rightarrow> bytes" where
  "first_secret s = (case rs_our_identity_secret s of Some i \<Rightarrow> i | None \<Rightarrow> rs_our_dh_secret s)"

definition no_pending :: "ratchet_session \<Rightarrow> bool" where
  "no_pending s \<longleftrightarrow> rs_skipped_keys s = [] \<and> rs_pq_pending_sent s = None \<and> rs_pq_pending_recv s = None"

definition ready :: "crypto_libs \<Rightarrow> ratchet_session \<Rightarrow> ratchet_session \<Rightarrow> bool" where
  "ready L a b \<longleftrightarrow> (\<exists>ck. rs_sending_chain a = Some (chain_at L ck 0)
       \<and> root_key_ratchet L b (rs_root_key b) (x25519_dh L (first_secret b) (rs_our_dh_public a)) None = (rs_root_key a, ck))
     \<and> rs_our_identity_secret a = None \<and> rs_our_dh_public a = x25519_public L (rs_our_dh_secret a)
     \<and> rs_their_dh_public b \<noteq> Some (rs_our_dh_public a) \<and> is_pq_hybrid a = is_pq_hybrid b \<and> no_pending a \<and> no_pending b"

text \<open>The session after the first message of a turn, whose number is \<open>i\<close>.\<close>

definition stepped :: "crypto_libs \<Rightarrow> bytes \<Rightarrow> bytes \<Rightarrow> ratchet_session \<Rightarrow> ratchet_session" where
  "stepped L secret d s = (let t = dh_ratchet_step L secret None d s in
     t\<lparr>rs_pq_pending_recv := None, rs_transition_counter := rs_transition_counter t + 2\<rparr>)"

lemma first_of_turn:
  assumes "ready L a b" and "rs_sending_chain a = Some (chain_at L ck 0)" and "length (rs_our_dh_public a) = 32"
    and "i \<le> 256" "carries L (rs_our_dh_public a) aad ck i plaintext r"
  shows "RatchetSession_decrypt L (\<lambda>_. secret) (rs_our_dh_public a) (of_nat i) (re_nonce r) (re_ciphertext r) aad b
    = (Ok plaintext, received L (rs_our_dh_public a) ck (Suc i) {i} (stepped L secret (rs_our_dh_public a) b))"
proof -
  let ?d = "rs_our_dh_public a" and ?t = "dh_ratchet_step L secret None (rs_our_dh_public a) b"
  have ck: "chain_at L ck' 0 = chain_at L ck 0 \<Longrightarrow> ck' = ck" for ck' by (simp add: chain_at_def chain_key_at_def)
  have b: "rs_skipped_keys b = []" "rs_pq_pending_sent b = None" "rs_pq_pending_recv b = None" "rs_their_dh_public b \<noteq> Some ?d"
    using assms(1) by (auto simp: ready_def no_pending_def)
  have root: "root_key_ratchet L b (rs_root_key b) (x25519_dh L (first_secret b) ?d) None = (rs_root_key a, ck)"
    using assms(1,2) ck by (auto simp: ready_def)
  then have t: "rs_receiving_chain ?t = Some (chain_at L ck 0)" "rs_skipped_keys ?t = skip_list L ?d ck (missing 0 {})"
      "rs_pq_pending_recv ?t = None"
    using b by (simp_all add: dh_ratchet_step_def first_secret_def [symmetric] Let_def split_def Chain_new_at [of ck L] skip_list_def missing_def)
  have "get_message_key L ?d (of_nat i) ?t = (Ok (message_key_at L ck i),
      ?t\<lparr>rs_receiving_chain := Some (chain_at L ck (Suc i)), rs_skipped_keys := skip_list L ?d ck (missing (Suc i) {i})\<rparr>)"
    using get_message_key_received [of "{}" 0 i ?t L ck ?d] assms(4) t by simp
  then show ?thesis
    using assms(3,5) b t
    by (simp add: RatchetSession_decrypt_def handle_dh_ratchet_trial_def carries_def open_message_def adopt_trial_def received_def stepped_def Let_def)
qed

lemma receive_turn:
  assumes "ready L a b" and "rs_sending_chain a = Some (chain_at L ck 0)" and "length (rs_our_dh_public a) = 32"
    and "ms \<noteq> []" "length ms \<le> 257" "set order = {..<length ms}"
    and "length rs = length ms" "\<forall>i < length ms. carries L (rs_our_dh_public a) aad ck i (snd (ms ! i)) (rs ! i)"
  shows "receive_all L secret aad (map (\<lambda>i. Ok (rs ! i)) order) b
      = (exactly_once {} ms order, received L (rs_our_dh_public a) ck (length ms) {..<length ms} (stepped L secret (rs_our_dh_public a) b))"
proof -
  let ?d = "rs_our_dh_public a" and ?s = "stepped L secret (rs_our_dh_public a) b"
  obtain i "is" where order: "order = i # is" using assms(4,6) by (cases order) auto
  then have i: "i < length ms" "set is \<subseteq> {..<length ms}" using assms(6) by auto
  have c: "carries L ?d aad ck i (snd (ms ! i)) (rs ! i)" using i assms(8) by simp
  have "rs_their_dh_public ?s = Some ?d" by (simp add: stepped_def dh_ratchet_step_def Let_def split_def)
  then obtain m where m: "receive_all L secret aad (map (\<lambda>i. Ok (rs ! i)) is) (received L ?d ck (Suc i) {i} ?s)
      = (exactly_once {i} ms is, received L ?d ck m ({i} \<union> set is) ?s)" "{i} \<union> set is \<subseteq> {..<m}" "m \<le> length ms"
    using receive_all_once [of "{i}" "Suc i" ms ?d ?s rs L aad ck "is" secret] i assms by auto
  have "{i} \<union> set is = {..<length ms}" using assms(6) order by auto
  moreover from this have "m = length ms" using m(2,3) by auto
  moreover have "RatchetSession_decrypt L (\<lambda>_. secret) ?d (of_nat i) (re_nonce (rs ! i)) (re_ciphertext (rs ! i)) aad b
      = (Ok (snd (ms ! i)), received L ?d ck (Suc i) {i} ?s)"
    using first_of_turn [OF assms(1-3) _ c] i(1) assms(5) by simp
  ultimately show ?thesis using m(1) c order by (simp add: carries_def)
qed

text \<open>After the turn the roles are swapped.\<close>

lemma ready_next:
  assumes "dh_symmetric L" "ready L a b" "rs_sending_chain a = Some (chain_at L ck 0)"
    and "rs_their_dh_public a \<noteq> Some (x25519_public L secret)"
  shows "ready L (received L (rs_our_dh_public a) ck n {..<n} (stepped L secret (rs_our_dh_public a) b)) (a\<lparr>rs_sending_chain := c\<rparr>)"
proof -
  let ?d = "rs_our_dh_public a"
  let ?b = "received L ?d ck n {..<n} (stepped L secret ?d b)"
  have eq: "chain_at L ck' 0 = chain_at L ck 0 \<Longrightarrow> ck' = ck" for ck' by (simp add: chain_at_def chain_key_at_def)
  have root: "root_key_ratchet L b (rs_root_key b) (x25519_dh L (first_secret b) ?d) None = (rs_root_key a, ck)"
    using assms(2,3) eq by (auto simp: ready_def)
  obtain r ck2 where r: "root_key_ratchet L b (rs_root_key a) (x25519_dh L secret ?d) None = (r, ck2)" by fastforce
  have pend: "rs_pq_pending_recv b = None" "rs_pq_pending_sent b = None" "is_pq_hybrid a = is_pq_hybrid b"
      "rs_our_identity_secret a = None" "?d = x25519_public L (rs_our_dh_secret a)" "no_pending a"
    using assms(2) by (auto simp: ready_def no_pending_def)
  have dh: "x25519_dh L (rs_our_dh_secret a) (x25519_public L secret) = x25519_dh L secret ?d"
    using assms(1) pend by (simp add: dh_symmetric_def)
  have b: "rs_sending_chain ?b = Some (chain_at L ck2 0)" "rs_root_key ?b = r" "rs_our_dh_public ?b = x25519_public L secret"
      "rs_our_dh_secret ?b = secret" "rs_our_identity_secret ?b = None" "is_pq_hybrid ?b = is_pq_hybrid b" "no_pending ?b"
    using root r pend
    by (simp_all add: received_def stepped_def dh_ratchet_step_def first_secret_def [symmetric] Chain_new_at [of ck2 L]
        is_pq_hybrid_def no_pending_def missing_def skip_list_def)
  have "root_key_ratchet L (a\<lparr>rs_sending_chain := c\<rparr>) (rs_root_key a) (x25519_dh L (first_secret (a\<lparr>rs_sending_chain := c\<rparr>)) (rs_our_dh_public ?b)) None = (r, ck2)"
    using r dh pend b(3) by (simp add: root_key_ratchet_def is_pq_hybrid_def first_secret_def)
  then show ?thesis
    using b pend assms(4) by (simp add: ready_def is_pq_hybrid_def no_pending_def)
qed

text \<open>The keys that the sides show to each other are all new.\<close>

fun keys_new :: "crypto_libs \<Rightarrow> bytes option \<Rightarrow> bytes \<Rightarrow> turn list \<Rightarrow> bool" where
  "keys_new L previous current [] = True"
| "keys_new L previous current (t # ts) \<longleftrightarrow>
     previous \<noteq> Some (x25519_public L (tn_secret t)) \<and> keys_new L (Some current) (x25519_public L (tn_secret t)) ts"

lemma steps_less: "unat (n :: u32) + k < 10000 \<Longrightarrow> n < MAX_RATCHET_STEPS"
  by (simp add: MAX_RATCHET_STEPS_def word_less_nat_alt)

lemma steps_Suc: "unat (n :: u32) + Suc k < 10000 \<Longrightarrow> unat (n + 1) + k < 10000"
  by (simp add: unat_word_ariths)

lemma converse_ready:
  assumes "dh_symmetric L" "aead_correct L" "ready L a b" "\<forall>t \<in> set ts. turn_ok t"
    and "keys_new L (rs_their_dh_public a) (rs_our_dh_public a) ts"
    and "unat (rs_dh_step_count a) + length ts < 10000" "unat (rs_dh_step_count b) + length ts < 10000"
  shows "converse L aad aad' ts a b = map (\<lambda>t. exactly_once {} (tn_messages t) (tn_order t)) ts"
  using assms(3-7)
proof (induction ts arbitrary: a b aad aad')
  case Nil
  then show ?case by simp
next
  case (Cons t ts)
  let ?d = "rs_our_dh_public a" and ?ms = "tn_messages t" and ?x = "tn_secret t"
  obtain ck where ck: "rs_sending_chain a = Some (chain_at L ck 0)" using Cons.prems(1) by (auto simp: ready_def)
  have t: "?ms \<noteq> []" "length ?ms \<le> 257" "set (tn_order t) = {..<length ?ms}"
      "\<forall>(nonce, plaintext) \<in> set ?ms. length nonce = 24 \<and> length plaintext \<le> 2 ^ 38 - 64"
    using Cons.prems(2) by (auto simp: turn_ok_def)
  have d: "length ?d = 32" using Cons.prems(1) assms(1) by (auto simp: ready_def dh_symmetric_def)
  let ?a = "a\<lparr>rs_sending_chain := Some (chain_at L ck (length ?ms))\<rparr>"
  let ?b = "received L ?d ck (length ?ms) {..<length ?ms} (stepped L ?x ?d b)"
  obtain rs where rs: "send_all L aad ?ms a = (map Ok rs, ?a)" "length rs = length ?ms"
      "\<forall>i < length ?ms. carries L ?d aad ck i (snd (?ms ! i)) (rs ! i)"
    using send_all_carries [OF assms(2) ck steps_less t(4), of "Suc (length ts)" aad] Cons.prems(4) by auto
  have "map (\<lambda>i. map Ok rs ! i) (tn_order t) = (map (\<lambda>i. Ok (rs ! i)) (tn_order t) :: (crypto_error, _) result list)"
    using t(3) rs(2) by simp
  then have "receive_all L ?x aad (map (\<lambda>i. map Ok rs ! i) (tn_order t)) b = (exactly_once {} ?ms (tn_order t), ?b)"
    using receive_turn [OF Cons.prems(1) ck d t(1-3) rs(2,3)] by (simp only:)
  moreover have "ready L ?b ?a" using ready_next [OF assms(1) Cons.prems(1) ck] Cons.prems(3) by simp
  moreover have "rs_their_dh_public ?b = Some ?d" "rs_our_dh_public ?b = x25519_public L ?x"
      "rs_dh_step_count ?b = rs_dh_step_count b + 1" "rs_dh_step_count ?a = rs_dh_step_count a"
    by (simp_all add: received_def stepped_def dh_ratchet_step_def Let_def split_def)
  ultimately show ?case
    using Cons.IH [of ?b ?a aad' aad] Cons.prems rs(1) steps_Suc [of "rs_dh_step_count b" "length ts"] by simp
qed

text \<open>The ways in which two peers establish a pair of sessions.\<close>

inductive established :: "crypto_libs \<Rightarrow> ratchet_session \<Rightarrow> ratchet_session \<Rightarrow> bool" for L where
  classical:
    "established L (init_as_sender L dh_a sk_a (x25519_public L (ed25519_to_x25519_secret L sk_b)))
       (init_as_receiver L dh_b sk_b (x25519_public L (ed25519_to_x25519_secret L sk_a)))"
| suite03:
    "pb_x25519_public bundle_a = x25519_public L x_a \<Longrightarrow> pb_x25519_public bundle_b = x25519_public L x_b
     \<Longrightarrow> pb_mlkem_encaps_key bundle_b = kp_pub_key (mlkem_from_seed L seed)
     \<Longrightarrow> init_as_sender_hybrid L rnd x_a bundle_b transcript = Ok a \<Longrightarrow> rs_bootstrap_hct a = Some hct
     \<Longrightarrow> init_as_receiver_hybrid L dh_b x_b (mlkem_from_seed L seed) bundle_a hct transcript = Ok b
     \<Longrightarrow> established L a b"
| suite02:
    "pb_x25519_public bundle_b = x25519_public L x_b \<Longrightarrow> pb_mlkem_encaps_key bundle_b = kp_pub_key (mlkem_from_seed L seed)
     \<Longrightarrow> init_as_sender_hybrid_suite02 L rnd bundle_b transcript = Ok a \<Longrightarrow> rs_bootstrap_hct a = Some hct
     \<Longrightarrow> init_as_receiver_hybrid_suite02 L dh_b x_b (mlkem_from_seed L seed) hct transcript = Ok b
     \<Longrightarrow> established L a b"

lemma hybrid_sessions_ready:
  assumes "dh_symmetric L" "suite \<in> set HYBRID_SUITE_IDS" "pb_x25519_public bundle = x25519_public L x"
  shows "ready L (hybrid_sender_session L dh_a seed suite bundle transcript hct root)
    (hybrid_receiver_session L dh_b suite x kp hct transcript root)"
proof -
  have "x25519_dh L x (x25519_public L dh_a) = x25519_dh L dh_a (x25519_public L x)" using assms(1) by (simp add: dh_symmetric_def)
  then show ?thesis
    using assms(2,3)
    by (auto simp: ready_def hybrid_sender_session_def hybrid_receiver_session_def first_secret_def no_pending_def
        is_pq_hybrid_def root_key_ratchet_def Chain_new_at [of _ L] Let_def split_def)
qed

lemma classical_ready:
  assumes "dh_symmetric L"
  shows "ready L (init_as_sender L dh_a sk_a (x25519_public L (ed25519_to_x25519_secret L sk_b)))
    (init_as_receiver L dh_b sk_b (x25519_public L (ed25519_to_x25519_secret L sk_a)))"
proof -
  have "x25519_dh L x (x25519_public L y) = x25519_dh L y (x25519_public L x)" for x y using assms by (simp add: dh_symmetric_def)
  from this [of dh_a "ed25519_to_x25519_secret L sk_b"] this [of "ed25519_to_x25519_secret L sk_a" "ed25519_to_x25519_secret L sk_b"]
  show ?thesis
    by (auto simp: ready_def init_as_sender_def init_as_receiver_def first_secret_def no_pending_def is_pq_hybrid_def
        root_key_ratchet_def Chain_new_at [of _ L] Let_def split_def)
qed

lemma established_ready:
  assumes "dh_symmetric L" "mlkem_correct L" "established L a b"
  shows "ready L a b \<and> rs_dh_step_count a = 1 \<and> rs_dh_step_count b = 0"
  using assms(3)
proof cases
  case (classical dh_a sk_a sk_b dh_b)
  then show ?thesis
    using classical_ready [OF assms(1), of dh_a sk_a sk_b dh_b]
    by (simp add: init_as_sender_def init_as_receiver_def Let_def split_def)
next
  case (suite03 bundle_a x_a bundle_b x_b seed rnd transcript hct dh_b)
  from suite03(4) obtain hct' ss where e: "hybrid_encapsulate L (rnd_ephemeral rnd) (rnd_encaps rnd) (x25519_public L x_b) (kp_pub_key (mlkem_from_seed L seed)) = Ok (hct', ss)"
    by (auto simp: init_as_sender_hybrid_def suite03 and_then_eq_Ok)
  let ?root = "b3_derive_key L SESSION_ROOT_V3 (ss @ x25519_dh L x_a (x25519_public L x_b) @ transcript)"
  have a: "a = hybrid_sender_session L (rnd_dh_secret rnd) (rnd_seed rnd) 3 bundle_b transcript hct' ?root"
    using suite03(4) by (simp add: init_as_sender_hybrid_def suite03(2,3) e)
  then have "hct' = hct" using suite03(5) by (simp add: hybrid_sender_session_def split_def Let_def)
  have "x25519_dh L x_b (x25519_public L x_a) = x25519_dh L x_a (x25519_public L x_b)" using assms(1) by (simp add: dh_symmetric_def)
  then have b: "b = hybrid_receiver_session L dh_b 3 x_b (mlkem_from_seed L seed) hct transcript ?root"
    using suite03(6) hybrid_agree(1) [OF assms(1,2) e] by (simp add: init_as_receiver_hybrid_def suite03(1) \<open>hct' = hct\<close>)
  show ?thesis
    using hybrid_sessions_ready [OF assms(1), of 3 bundle_b x_b] suite03(2) \<open>hct' = hct\<close>
    by (simp add: a b HYBRID_SUITE_IDS_def) (simp add: hybrid_sender_session_def hybrid_receiver_session_def Let_def split_def)
next
  case (suite02 bundle_b x_b seed rnd transcript hct dh_b)
  from suite02(3) obtain hct' ss where e: "hybrid_encapsulate L (rnd_ephemeral rnd) (rnd_encaps rnd) (x25519_public L x_b) (kp_pub_key (mlkem_from_seed L seed)) = Ok (hct', ss)"
    by (auto simp: init_as_sender_hybrid_suite02_def suite02 and_then_eq_Ok)
  let ?root = "b3_derive_key L SESSION_ROOT_V2 (ss @ transcript)"
  have a: "a = hybrid_sender_session L (rnd_dh_secret rnd) (rnd_seed rnd) 2 bundle_b transcript hct' ?root"
    using suite02(3) by (simp add: init_as_sender_hybrid_suite02_def suite02(1,2) e)
  then have "hct' = hct" using suite02(4) by (simp add: hybrid_sender_session_def split_def Let_def)
  then have b: "b = hybrid_receiver_session L dh_b 2 x_b (mlkem_from_seed L seed) hct transcript ?root"
    using suite02(5) hybrid_agree(1) [OF assms(1,2) e] by (simp add: init_as_receiver_hybrid_suite02_def)
  show ?thesis
    using hybrid_sessions_ready [OF assms(1), of 2 bundle_b x_b] suite02(1) \<open>hct' = hct\<close>
    by (simp add: a b HYBRID_SUITE_IDS_def) (simp add: hybrid_sender_session_def hybrid_receiver_session_def Let_def split_def)
qed

section \<open>Property\<close>

text \<open>
  C3. The conversation of two sessions.  Two peers establish a pair of sessions, classical or hybrid,
  and take turns for fewer than 9,999 turns; in a turn one of them sends up to 257 messages and the
  network delivers each of them at least once, in any order.  Then every message is decrypted to what
  was encrypted when it first arrives, and refused whenever it arrives again.
\<close>

theorem ratchet_conversation:
  assumes "dh_symmetric L" "aead_correct L" "mlkem_correct L" "established L a b"
    and "\<forall>t \<in> set ts. turn_ok t" "length ts < 9999" "keys_new L (rs_their_dh_public a) (rs_our_dh_public a) ts"
  shows "converse L aad aad' ts a b = map (\<lambda>t. exactly_once {} (tn_messages t) (tn_order t)) ts"
  using established_ready [OF assms(1,3,4)] assms by (intro converse_ready) auto

text \<open>A conversation over the sample primitives.\<close>

definition toy_turns :: "turn list" where
  "toy_turns =
    [\<lparr>tn_messages = [(replicate 24 1, [10]), (replicate 24 2, [11, 12]), (replicate 24 3, [])], tn_order = [2, 0, 2, 1], tn_secret = [3]\<rparr>,
     \<lparr>tn_messages = [(replicate 24 4, [20])], tn_order = [0, 0], tn_secret = [4]\<rparr>,
     \<lparr>tn_messages = [(replicate 24 5, [30]), (replicate 24 6, [31])], tn_order = [1, 0], tn_secret = [5]\<rparr>]"

theorem ratchet_conversation_witness:
  "converse toy_crypto [7] [8] toy_turns
     (init_as_sender toy_crypto [1] [100] (x25519_public toy_crypto (ed25519_to_x25519_secret toy_crypto [101])))
     (init_as_receiver toy_crypto [2] [101] (x25519_public toy_crypto (ed25519_to_x25519_secret toy_crypto [100])))
   = [[Ok [], Ok [10], Err BehindChainPosition, Ok [11, 12]], [Ok [20], Err BehindChainPosition], [Ok [31], Ok [30]]]"
proof -
  let ?b = "x25519_public toy_crypto (ed25519_to_x25519_secret toy_crypto [101])"
  have "\<forall>t \<in> set toy_turns. turn_ok t" by (auto simp: toy_turns_def turn_ok_def)
  moreover have "length toy_turns < 9999" by (simp add: toy_turns_def)
  moreover have "keys_new toy_crypto (rs_their_dh_public (init_as_sender toy_crypto [1] [100] ?b)) (rs_our_dh_public (init_as_sender toy_crypto [1] [100] ?b)) toy_turns"
    by (simp add: toy_turns_def init_as_sender_def Let_def split_def ed25519_to_x25519_secret_def toy_crypto_def pad_def)
  ultimately show ?thesis
    using ratchet_conversation [OF toy_dh_symmetric toy_aead_correct toy_mlkem_correct established.classical, of toy_turns "[1]" "[100]" "[101]" "[7]" "[8]" "[2]"]
    by (simp add: toy_turns_def)
qed

end
