(* ===== verification/Message_Encryption.thy ===== *)
theory Message_Encryption
  imports Ratchet_Conversation
begin

text \<open>
  Encryption of single messages in \<open>core/src/crypto/encrypt.rs\<close>: the static scheme with an ephemeral
  key per message, the envelopes around the double ratchet, and the signatures on envelopes.

  \<open>encrypt_rnd\<close> are the random bytes of one encryption.  Bincode and the Ed25519 signature scheme are the
  fields of \<open>envelope_libs\<close>.
\<close>

definition KDF_CONTEXT :: string where
  "KDF_CONTEXT = ''iron-core v2 message encryption 2026-02-05''"

record encrypt_rnd =
  er_ephemeral :: bytes
  er_nonce :: bytes
  er_encaps :: bytes
  er_seed :: bytes

section \<open>Keys\<close>

definition validate_ed25519_public_key ::
  "crypto_libs \<Rightarrow> (string \<Rightarrow> bytes option) \<Rightarrow> string \<Rightarrow> (crypto_error, unit) result" where
  "validate_ed25519_public_key L hex_decode public_key_hex =
     (case hex_decode public_key_hex of
        None \<Rightarrow> Err InvalidEd25519Key
      | Some public_key_bytes \<Rightarrow>
          if length public_key_bytes \<noteq> 32 then Err InvalidEd25519Key
          else (case ed25519_to_montgomery L public_key_bytes of None \<Rightarrow> Err InvalidEd25519Key | Some _ \<Rightarrow> Ok ()))"

definition ed25519_public_to_x25519 :: "crypto_libs \<Rightarrow> bytes \<Rightarrow> (crypto_error, bytes) result" where
  "ed25519_public_to_x25519 L public_key_bytes =
     (case ed25519_to_montgomery L public_key_bytes of None \<Rightarrow> Err InvalidEd25519Key | Some montgomery \<Rightarrow> Ok montgomery)"

definition message_derive_key :: "crypto_libs \<Rightarrow> bytes \<Rightarrow> bytes" where
  "message_derive_key L shared_secret = b3_derive_key L KDF_CONTEXT shared_secret"

section \<open>The static scheme\<close>

definition encrypt_message ::
  "crypto_libs \<Rightarrow> encrypt_rnd \<Rightarrow> bytes \<Rightarrow> bytes \<Rightarrow> bytes \<Rightarrow> (crypto_error, envelope) result" where
  "encrypt_message L rnd sender_signing_key recipient_public_key plaintext =
     and_then (ed25519_public_to_x25519 L recipient_public_key) (\<lambda>recipient_x25519.
       let ephemeral_public = x25519_public L (er_ephemeral rnd);
           shared_secret = x25519_dh L (er_ephemeral rnd) recipient_x25519;
           symmetric_key = message_derive_key L shared_secret;
           sender_public_bytes = ed25519_public L sender_signing_key in
       (case xchacha_seal L symmetric_key (er_nonce rnd) plaintext sender_public_bytes of
          None \<Rightarrow> Err EncryptionFailed
        | Some ciphertext \<Rightarrow>
            Ok \<lparr>ev_sender_public_key = sender_public_bytes, ev_ephemeral_public_key = ephemeral_public,
                ev_nonce = er_nonce rnd, ev_ciphertext = ciphertext, ev_ratchet_dh_public = None, ev_ratchet_message_number = None\<rparr>))"

definition decrypt_message :: "crypto_libs \<Rightarrow> bytes \<Rightarrow> envelope \<Rightarrow> (crypto_error, bytes) result" where
  "decrypt_message L recipient_signing_key e =
     (if length (ev_ephemeral_public_key e) \<noteq> 32 then Err InvalidEphemeralLength
      else if length (ev_nonce e) \<noteq> 24 then Err InvalidNonceLength
      else let recipient_x25519_secret = ed25519_to_x25519_secret L recipient_signing_key;
               shared_secret = x25519_dh L recipient_x25519_secret (ev_ephemeral_public_key e);
               symmetric_key = message_derive_key L shared_secret in
        if length (ev_sender_public_key e) \<noteq> 32 then Err InvalidSenderKeyLength
        else (case xchacha_open L symmetric_key (ev_nonce e) (ev_ciphertext e) (ev_sender_public_key e) of
            None \<Rightarrow> Err DecryptionFailed
          | Some plaintext \<Rightarrow> Ok plaintext))"

section \<open>Envelopes of a ratchet session\<close>

definition is_ratcheted_envelope :: "envelope \<Rightarrow> bool" where
  "is_ratcheted_envelope e \<longleftrightarrow> ev_ratchet_dh_public e \<noteq> None \<and> ev_ratchet_message_number e \<noteq> None"

definition decrypt_message_ratcheted ::
  "crypto_libs \<Rightarrow> (nat \<Rightarrow> bytes) \<Rightarrow> envelope \<Rightarrow> ratchet_session \<Rightarrow> (crypto_error, bytes) result \<times> ratchet_session" where
  "decrypt_message_ratcheted L fresh e s =
     (case ev_ratchet_dh_public e of
        None \<Rightarrow> (Err MissingRatchetDhPublic, s)
      | Some dh_public \<Rightarrow>
          (case ev_ratchet_message_number e of
             None \<Rightarrow> (Err MissingRatchetNumber, s)
           | Some message_number \<Rightarrow>
               if length (ev_nonce e) \<noteq> 24 then (Err InvalidNonceLength, s)
               else (case RatchetSession_decrypt L fresh dh_public message_number (ev_nonce e) (ev_ciphertext e) (ev_sender_public_key e) s of
                   (r, s') \<Rightarrow> or_return r s' (\<lambda>plaintext. (Ok plaintext, s'\<lparr>rs_peer_confirmed := True\<rparr>)))))"

text \<open>What \<open>decrypt_message_ratcheted_v2\<close> does with the post-quantum fields before it decrypts.\<close>

definition process_pq_fields ::
  "crypto_libs \<Rightarrow> u32 \<Rightarrow> envelope_v2 \<Rightarrow> ratchet_session \<Rightarrow> (crypto_error, unit) result \<times> ratchet_session" where
  "process_pq_fields L message_number e s =
     (if is_pq_hybrid s \<and> rs_peer_confirmed s
      then or_return (if 0 < message_number \<and> message_number mod 100 = 0
                      then validate_pq_fields_present (v2_pq_kem_ciphertext e \<noteq> None) s else Ok ()) s (\<lambda>_.
        (case (v2_pq_kem_ciphertext e, v2_pq_encaps_key e) of
           (Some pq_kem_ciphertext, Some pq_encaps_key) \<Rightarrow>
             (case handle_incoming_pq_fields L pq_kem_ciphertext pq_encaps_key s of
                (r, s') \<Rightarrow> or_return r s' (\<lambda>_. (Ok (), s')))
         | _ \<Rightarrow> (Ok (), s)))
      else (Ok (), s))"

definition decrypt_message_ratcheted_v2 ::
  "crypto_libs \<Rightarrow> (nat \<Rightarrow> bytes) \<Rightarrow> envelope_v2 \<Rightarrow> ratchet_session \<Rightarrow> (crypto_error, bytes) result \<times> ratchet_session" where
  "decrypt_message_ratcheted_v2 L fresh e s =
     (case v2_ratchet_dh_public e of
        None \<Rightarrow> (Err MissingRatchetDhPublic, s)
      | Some dh_public \<Rightarrow>
          (case v2_ratchet_message_number e of
             None \<Rightarrow> (Err MissingRatchetNumber, s)
           | Some message_number \<Rightarrow>
               if length (v2_nonce e) \<noteq> 24 then (Err InvalidNonceLength, s)
               else if \<not> rs_peer_confirmed s \<and>
                 (case (rs_transcript_hash s, v2_transcript_hash e) of
                    (Some expected_hash, Some envelope_hash) \<Rightarrow> expected_hash \<noteq> envelope_hash | _ \<Rightarrow> False)
               then (Err TranscriptMismatch, s)
               else (case process_pq_fields L message_number e s of (r, s1) \<Rightarrow> or_return r s1 (\<lambda>_.
                 (case RatchetSession_decrypt L fresh dh_public message_number (v2_nonce e) (v2_ciphertext e) (v2_sender_public_key e) s1 of
                    (r, s2) \<Rightarrow> or_return r s2 (\<lambda>plaintext. (Ok plaintext, s2\<lparr>rs_peer_confirmed := True\<rparr>)))))))"

text \<open>The post-quantum fields of an outgoing envelope and the session after they are chosen.\<close>

definition outgoing_pq_fields ::
  "crypto_libs \<Rightarrow> encrypt_rnd \<Rightarrow> ratchet_session \<Rightarrow> (bytes option \<times> bytes option) \<times> ratchet_session" where
  "outgoing_pq_fields L rnd s =
     (if \<not> rs_peer_confirmed s
      then (case rs_bootstrap_hct s of
              Some hct \<Rightarrow> ((Some (hct_mlkem_ciphertext hct), map_option kp_pub_key (rs_pq_our_keypair s)), s)
            | None \<Rightarrow> ((None, None), s))
      else (case sending_chain_state s of
              Some (_, chain_index) \<Rightarrow>
                let current_message_number = sat_sub chain_index 1 in
                if 0 < current_message_number \<and> current_message_number mod 100 = 0
                then (case perform_pq_ratchet_step L (er_encaps rnd) (er_seed rnd) s of
                        (Ok (ct, encaps_key), s') \<Rightarrow> ((Some ct, Some encaps_key), s')
                      | (_, s') \<Rightarrow> ((None, None), s'))
                else ((None, None), s)
            | None \<Rightarrow> ((None, None), s)))"

definition encrypt_message_ratcheted ::
  "crypto_libs \<Rightarrow> encrypt_rnd \<Rightarrow> bytes \<Rightarrow> bytes \<Rightarrow> ratchet_session \<Rightarrow> (crypto_error, wire_envelope) result \<times> ratchet_session" where
  "encrypt_message_ratcheted L rnd sender_signing_key plaintext s =
     (let sender_public_bytes = ed25519_public L sender_signing_key in
      case RatchetSession_encrypt L (er_nonce rnd) plaintext sender_public_bytes s of (r, s1) \<Rightarrow> or_return r s1 (\<lambda>res.
        if is_pq_hybrid s1
        then (case outgoing_pq_fields L rnd s1 of ((pq_kem_ciphertext, pq_encaps_key), s2) \<Rightarrow>
          (Ok (WireV2 \<lparr>v2_suite = (case rs_negotiated_suite s2 of Some suite \<Rightarrow> suite | None \<Rightarrow> 0x02),
              v2_sender_public_key = sender_public_bytes,
              v2_ephemeral_public_key =
                (if \<not> rs_peer_confirmed s2
                 then (case rs_bootstrap_hct s2 of Some hct \<Rightarrow> hct_x25519_ephemeral_public hct | None \<Rightarrow> re_our_dh_public res)
                 else re_our_dh_public res),
              v2_nonce = re_nonce res, v2_ciphertext = re_ciphertext res,
              v2_ratchet_dh_public = Some (re_our_dh_public res), v2_ratchet_message_number = Some (re_message_number res),
              v2_pq_kem_ciphertext = pq_kem_ciphertext, v2_pq_encaps_key = pq_encaps_key,
              v2_transcript_hash = (if \<not> rs_peer_confirmed s2 then rs_transcript_hash s2 else None)\<rparr>), s2))
        else (Ok (WireV1 \<lparr>ev_sender_public_key = sender_public_bytes, ev_ephemeral_public_key = re_our_dh_public res,
              ev_nonce = re_nonce res, ev_ciphertext = re_ciphertext res,
              ev_ratchet_dh_public = Some (re_our_dh_public res), ev_ratchet_message_number = Some (re_message_number res)\<rparr>), s1)))"

definition should_use_ratcheted_encryption ::
  "public_key_bundle option \<Rightarrow> bool \<Rightarrow> bool \<Rightarrow> string \<Rightarrow> (crypto_error, bool) result" where
  "should_use_ratcheted_encryption recipient_bundle session_exists require_pq peer_id =
     (case recipient_bundle of
        Some bundle \<Rightarrow>
          if \<exists>s \<in> set (pb_supported_suites bundle). s \<in> set HYBRID_SUITE_IDS then Ok True
          else if session_exists then Ok True
          else if require_pq then Err (RequirePqRefused peer_id) else Ok False
      | None \<Rightarrow> if session_exists then Ok True else if require_pq then Err (RequirePqRefused peer_id) else Ok False)"

section \<open>Signed envelopes\<close>

record envelope_libs =
  el_serialize :: "envelope \<Rightarrow> string + bytes"
  el_serialize_v2 :: "envelope_v2 \<Rightarrow> string + bytes"
  el_sign :: "bytes \<Rightarrow> bytes \<Rightarrow> bytes"
  el_valid_key :: "bytes \<Rightarrow> bool"
  el_verify :: "bytes \<Rightarrow> bytes \<Rightarrow> bytes \<Rightarrow> bool"

definition sign_envelope :: "envelope_libs \<Rightarrow> envelope \<Rightarrow> bytes \<Rightarrow> (crypto_error, signed_envelope) result" where
  "sign_envelope E e sender_signing_key =
     (case el_serialize E e of
        Inl _ \<Rightarrow> Err SerializeFailed
      | Inr envelope_bytes \<Rightarrow> Ok \<lparr>se_envelope = e, se_signature = el_sign E sender_signing_key envelope_bytes\<rparr>)"

definition verify_envelope :: "envelope_libs \<Rightarrow> signed_envelope \<Rightarrow> (crypto_error, unit) result" where
  "verify_envelope E se =
     (let sender_public = ev_sender_public_key (se_envelope se) in
      if length sender_public \<noteq> 32 then Err InvalidSenderKeyLength
      else if \<not> el_valid_key E sender_public then Err InvalidEd25519Key
      else if length (se_signature se) \<noteq> 64 then Err InvalidSignatureLength
      else (case el_serialize E (se_envelope se) of
              Inl _ \<Rightarrow> Err SerializeFailed
            | Inr envelope_bytes \<Rightarrow>
                if el_verify E sender_public envelope_bytes (se_signature se) then Ok () else Err SignatureMismatch))"

definition sign_envelope_v2 :: "envelope_libs \<Rightarrow> envelope_v2 \<Rightarrow> bytes \<Rightarrow> (crypto_error, signed_envelope_v2) result" where
  "sign_envelope_v2 E e sender_signing_key =
     (case el_serialize_v2 E e of
        Inl _ \<Rightarrow> Err SerializeFailed
      | Inr envelope_bytes \<Rightarrow>
          Ok \<lparr>se2_envelope = e, se2_signature = el_sign E sender_signing_key (WIRE_TAG_V2 # envelope_bytes)\<rparr>)"

definition verify_envelope_v2 :: "envelope_libs \<Rightarrow> signed_envelope_v2 \<Rightarrow> (crypto_error, unit) result" where
  "verify_envelope_v2 E se =
     (let sender_public = v2_sender_public_key (se2_envelope se) in
      if length sender_public \<noteq> 32 then Err InvalidSenderKeyLength
      else if \<not> el_valid_key E sender_public then Err InvalidEd25519Key
      else if length (se2_signature se) \<noteq> 64 then Err InvalidSignatureLength
      else (case el_serialize_v2 E (se2_envelope se) of
              Inl _ \<Rightarrow> Err SerializeFailed
            | Inr envelope_bytes \<Rightarrow>
                if el_verify E sender_public (WIRE_TAG_V2 # envelope_bytes) (se2_signature se) then Ok () else Err SignatureMismatch))"

end
