(* ===== verification/Audit_Log.thy ===== *)
theory Audit_Log
  imports Sample_Crypto Storage_Backend Sample_Codec
begin

text \<open>
  The audit log (\<open>observability.rs\<close>): a list of events in which every event carries the hash of the
  one before it, with pruning by age and persistence under one key of the storage backend.

  The JSON serializer is a package of its own.  It is a parameter, as are the hash and its hexadecimal
  form.  The event id (a random UUID) and the clock reading are arguments of \<open>append\<close>.
\<close>

section \<open>Events and logs\<close>

datatype audit_event_type =
  IdentityCreated | IdentityDeleted | MessageSent | MessageReceived | RelayEnabled | RelayDisabled
| ContactAdded | ContactBlocked | ContactRemoved | BackupExported | BackupImported | ConsentGranted
| StorageCompacted | LegacyStaticEcdhSend

fun show_event_type :: "audit_event_type \<Rightarrow> string" where
  "show_event_type IdentityCreated = ''IdentityCreated''"
| "show_event_type IdentityDeleted = ''IdentityDeleted''"
| "show_event_type MessageSent = ''MessageSent''"
| "show_event_type MessageReceived = ''MessageReceived''"
| "show_event_type RelayEnabled = ''RelayEnabled''"
| "show_event_type RelayDisabled = ''RelayDisabled''"
| "show_event_type ContactAdded = ''ContactAdded''"
| "show_event_type ContactBlocked = ''ContactBlocked''"
| "show_event_type ContactRemoved = ''ContactRemoved''"
| "show_event_type BackupExported = ''BackupExported''"
| "show_event_type BackupImported = ''BackupImported''"
| "show_event_type ConsentGranted = ''ConsentGranted''"
| "show_event_type StorageCompacted = ''StorageCompacted''"
| "show_event_type LegacyStaticEcdhSend = ''LegacyStaticEcdhSend''"

record audit_event =
  ae_event_id :: string
  ae_event_type :: audit_event_type
  ae_timestamp :: u64
  ae_identity_id :: "string option"
  ae_peer_id :: "string option"
  ae_details :: "string option"
  ae_prev_hash :: string

definition show_event :: "audit_event \<Rightarrow> string" where
  "show_event e = ''AuditEvent('' @ ae_event_id e @ '', '' @ show_event_type (ae_event_type e) @ '', ''
     @ show_nat (unat (ae_timestamp e)) @ '')''"

record audit_log =
  al_events :: "audit_event list"
  al_last_hash :: string
  al_pruned_head :: "string option"

datatype audit_error =
  ChainBroken (event_index: nat) (expected_hash: string) (found_hash: string)
| EmptyLog
| PersistenceError

record audit_libs =
  au_crypto :: crypto_libs
  event_to_json :: "audit_event \<Rightarrow> string option"
  log_to_json :: "audit_log \<Rightarrow> string option"
  log_from_json :: "string \<Rightarrow> audit_log option"

definition AuditEvent_new ::
  "string \<Rightarrow> u64 \<Rightarrow> audit_event_type \<Rightarrow> string option \<Rightarrow> string option \<Rightarrow> string option \<Rightarrow> string \<Rightarrow> audit_event" where
  "AuditEvent_new uuid now ty ident peer details prev =
     \<lparr>ae_event_id = uuid, ae_event_type = ty, ae_timestamp = now, ae_identity_id = ident, ae_peer_id = peer,
      ae_details = details, ae_prev_hash = prev\<rparr>"

text \<open>The \<open>expect\<close> on the serializer is a panic.\<close>

definition chain_hash :: "audit_libs \<Rightarrow> audit_event \<Rightarrow> (audit_error, string) result" where
  "chain_hash A e =
     (case event_to_json A e of
        None \<Rightarrow> Panic
      | Some json \<Rightarrow> Ok (b3_to_hex (au_crypto A) (b3_hash (au_crypto A) (as_bytes json))))"

definition genesis_hash :: string where
  "genesis_hash = replicate 64 (CHR ''0'')"

definition AuditLog_new :: audit_log where
  "AuditLog_new = \<lparr>al_events = [], al_last_hash = genesis_hash, al_pruned_head = None\<rparr>"

section \<open>Operations\<close>

definition AuditLog_append ::
  "audit_libs \<Rightarrow> string \<Rightarrow> u64 \<Rightarrow> audit_event_type \<Rightarrow> string option \<Rightarrow> string option \<Rightarrow> string option
     \<Rightarrow> audit_log \<Rightarrow> (audit_error, audit_event) result \<times> audit_log" where
  "AuditLog_append A uuid now ty ident peer details l =
     (let e = AuditEvent_new uuid now ty ident peer details (al_last_hash l) in
      or_return (chain_hash A e) l (\<lambda>h.
        (Ok e, l\<lparr>al_last_hash := h, al_events := al_events l @ [e]\<rparr>)))"

text \<open>\<open>Iterator::position\<close>.\<close>

fun position :: "('a \<Rightarrow> bool) \<Rightarrow> 'a list \<Rightarrow> nat option" where
  "position P [] = None"
| "position P (x # xs) = (if P x then Some 0 else map_option Suc (position P xs))"

definition prune_events :: "audit_libs \<Rightarrow> u64 \<Rightarrow> audit_log \<Rightarrow> (audit_error, u32) result \<times> audit_log" where
  "prune_events A before l =
     (case position (\<lambda>e. before \<le> ae_timestamp e) (al_events l) of
        Some idx \<Rightarrow>
          if idx = 0 then (Ok 0, l)
          else or_return (chain_hash A (al_events l ! (idx - 1))) l (\<lambda>h.
            (Ok (of_nat idx), l\<lparr>al_pruned_head := Some h, al_events := drop idx (al_events l)\<rparr>))
      | None \<Rightarrow>
          if al_events l \<noteq> [] then
            or_return (chain_hash A (last (al_events l))) l (\<lambda>h.
              (Ok (of_nat (length (al_events l))), l\<lparr>al_pruned_head := Some h, al_events := []\<rparr>))
          else (Ok 0, l))"

definition prune_before :: "audit_libs \<Rightarrow> u64 \<Rightarrow> audit_log \<Rightarrow> (audit_error, u32) result \<times> audit_log" where
  "prune_before A before l =
     (case prune_events A before l of (r, l) \<Rightarrow>
        or_return r l (\<lambda>n.
          (Ok n, if al_events l = []
                 then l\<lparr>al_last_hash := (case al_pruned_head l of Some h \<Rightarrow> h | None \<Rightarrow> genesis_hash)\<rparr>
                 else l)))"

text \<open>The loop over the events from index \<open>i\<close> on; \<open>p\<close> is the event at \<open>i - 1\<close>.\<close>

fun validate_links :: "audit_libs \<Rightarrow> nat \<Rightarrow> audit_event \<Rightarrow> audit_event list \<Rightarrow> (audit_error, unit) result" where
  "validate_links A i p [] = Ok ()"
| "validate_links A i p (e # es) =
     and_then (chain_hash A p) (\<lambda>h.
       if ae_prev_hash e \<noteq> h then Err (ChainBroken i h (ae_prev_hash e))
       else validate_links A (i + 1) e es)"

definition expected_head :: "audit_log \<Rightarrow> string" where
  "expected_head l = (case al_pruned_head l of Some h \<Rightarrow> h | None \<Rightarrow> genesis_hash)"

definition validate_chain :: "audit_libs \<Rightarrow> audit_log \<Rightarrow> (audit_error, unit) result" where
  "validate_chain A l =
     (case al_events l of
        [] \<Rightarrow> Err EmptyLog
      | e # es \<Rightarrow>
          if ae_prev_hash e \<noteq> expected_head l
          then Err (ChainBroken 0 (expected_head l) (ae_prev_hash e))
          else validate_links A 1 e es)"

definition AUDIT_KEY :: bytes where
  "AUDIT_KEY = as_bytes ''audit_log_v1''"

definition AuditLog_persist :: "'s storage_vtable \<Rightarrow> audit_libs \<Rightarrow> audit_log \<Rightarrow> 's \<Rightarrow> (audit_error, unit) result \<times> 's" where
  "AuditLog_persist vt A l s =
     (case log_to_json A l of
        None \<Rightarrow> (Err PersistenceError, s)
      | Some json \<Rightarrow>
          (case vt_put vt AUDIT_KEY (as_bytes json) s of (r, s) \<Rightarrow> (map_err (\<lambda>_. PersistenceError) r, s)))"

definition AuditLog_load :: "'s storage_vtable \<Rightarrow> audit_libs \<Rightarrow> 's \<Rightarrow> (audit_error, audit_log) result" where
  "AuditLog_load vt A s =
     (case vt_get vt AUDIT_KEY s of
        Ok (Some d) \<Rightarrow>
          (case log_from_json A (string_from_utf8_lossy d) of Some l \<Rightarrow> Ok l | None \<Rightarrow> Ok AuditLog_new)
      | Ok None \<Rightarrow> Ok AuditLog_new
      | Err _ \<Rightarrow> Ok AuditLog_new
      | Panic \<Rightarrow> Panic)"

section \<open>The chain\<close>

text \<open>The serializer never fails on an event: all of its fields are strings and integers.\<close>

definition serializes :: "audit_libs \<Rightarrow> bool" where
  "serializes A \<longleftrightarrow> (\<forall>e. event_to_json A e \<noteq> None)"

definition event_hash :: "audit_libs \<Rightarrow> audit_event \<Rightarrow> string" where
  "event_hash A e = b3_to_hex (au_crypto A) (b3_hash (au_crypto A) (as_bytes (the (event_to_json A e))))"

lemma chain_hash_ok: "serializes A \<Longrightarrow> chain_hash A e = Ok (event_hash A e)"
  by (auto simp: serializes_def chain_hash_def event_hash_def split: option.split)

text \<open>What a chain is: every event carries the hash before it, starting from \<open>h\<close>.\<close>

primrec linked :: "audit_libs \<Rightarrow> string \<Rightarrow> audit_event list \<Rightarrow> bool" where
  "linked A h [] = True"
| "linked A h (e # es) \<longleftrightarrow> ae_prev_hash e = h \<and> linked A (event_hash A e) es"

primrec tail_hash :: "audit_libs \<Rightarrow> string \<Rightarrow> audit_event list \<Rightarrow> string" where
  "tail_hash A h [] = h"
| "tail_hash A h (e # es) = tail_hash A (event_hash A e) es"

lemma linked_append [simp]: "linked A h (xs @ ys) \<longleftrightarrow> linked A h xs \<and> linked A (tail_hash A h xs) ys"
  by (induction xs arbitrary: h) auto

lemma tail_hash_append [simp]: "tail_hash A h (xs @ ys) = tail_hash A (tail_hash A h xs) ys"
  by (induction xs arbitrary: h) auto

lemma tail_hash_last: "xs \<noteq> [] \<Longrightarrow> tail_hash A h xs = event_hash A (last xs)"
  by (induction xs arbitrary: h) auto

text \<open>The two checks of \<open>validate_chain\<close> as one scan.\<close>

primrec validate_from :: "audit_libs \<Rightarrow> nat \<Rightarrow> string \<Rightarrow> audit_event list \<Rightarrow> (audit_error, unit) result" where
  "validate_from A i h [] = Ok ()"
| "validate_from A i h (e # es) =
     (if ae_prev_hash e \<noteq> h then Err (ChainBroken i h (ae_prev_hash e))
      else validate_from A (Suc i) (event_hash A e) es)"

lemma validate_links_from: "serializes A \<Longrightarrow> validate_links A i p es = validate_from A i (event_hash A p) es"
  by (induction A i p es rule: validate_links.induct) (auto simp: chain_hash_ok)

lemma validate_chain_from:
  "serializes A \<Longrightarrow> validate_chain A l =
     (if al_events l = [] then Err EmptyLog else validate_from A 0 (expected_head l) (al_events l))"
  by (auto simp: validate_chain_def validate_links_from split: list.split)

lemma validate_from_ok: "validate_from A i h es = Ok () \<longleftrightarrow> linked A h es"
  by (induction es arbitrary: i h) auto

lemma validate_chain_ok:
  "serializes A \<Longrightarrow> validate_chain A l = Ok () \<longleftrightarrow> al_events l \<noteq> [] \<and> linked A (expected_head l) (al_events l)"
  by (simp add: validate_chain_from validate_from_ok)

lemma position_Some: "position P xs = Some i \<Longrightarrow> i < length xs"
  by (induction xs arbitrary: i) (auto split: if_splits)

lemma linked_drop:
  assumes "linked A h xs" and "0 < i" and "i \<le> length xs"
  shows "linked A (event_hash A (xs ! (i - 1))) (drop i xs)
    \<and> tail_hash A (event_hash A (xs ! (i - 1))) (drop i xs) = tail_hash A h xs"
proof -
  have ne: "take i xs \<noteq> []" using assms(2,3) by auto
  have l: "last (take i xs) = xs ! (i - 1)" using assms(2,3) by (simp add: last_conv_nth [OF ne] min_def)
  have "linked A h (take i xs @ drop i xs)" using assms(1) by (simp only: append_take_drop_id)
  moreover have "tail_hash A h (take i xs @ drop i xs) = tail_hash A h xs" by (simp only: append_take_drop_id)
  ultimately show ?thesis using tail_hash_last [OF ne, of A h] l by (simp del: append_take_drop_id)
qed

section \<open>Reachable logs\<close>

definition log_inv :: "audit_libs \<Rightarrow> audit_log \<Rightarrow> bool" where
  "log_inv A l \<longleftrightarrow> linked A (expected_head l) (al_events l)
     \<and> al_last_hash l = tail_hash A (expected_head l) (al_events l)"

inductive audit_reach :: "audit_libs \<Rightarrow> audit_log \<Rightarrow> bool" for A where
  new: "audit_reach A AuditLog_new"
| append: "audit_reach A l \<Longrightarrow> AuditLog_append A uuid now ty ident peer details l = (r, l') \<Longrightarrow> audit_reach A l'"
| prune: "audit_reach A l \<Longrightarrow> prune_before A before l = (r, l') \<Longrightarrow> audit_reach A l'"

lemma append_inv:
  assumes "serializes A" and "log_inv A l" and "AuditLog_append A uuid now ty ident peer details l = (r, l')"
  shows "log_inv A l'"
  using assms
  by (auto simp: AuditLog_append_def AuditEvent_new_def chain_hash_ok log_inv_def expected_head_def Let_def)

lemma prune_events_inv:
  assumes A: "serializes A" and l: "log_inv A l" and p: "prune_events A before l = (r, l')"
  shows "\<exists>n. r = Ok n \<and> linked A (expected_head l') (al_events l')
    \<and> (al_events l' \<noteq> [] \<longrightarrow> al_last_hash l' = tail_hash A (expected_head l') (al_events l'))"
proof (cases "position (\<lambda>e. before \<le> ae_timestamp e) (al_events l)")
  case None
  then show ?thesis using A l p by (auto simp: prune_events_def chain_hash_ok log_inv_def split: if_splits)
next
  case (Some idx)
  show ?thesis
  proof (cases "idx = 0")
    case True
    then show ?thesis using Some l p by (auto simp: prune_events_def log_inv_def)
  next
    case False
    then show ?thesis
      using Some l p position_Some [OF Some] linked_drop [of A "expected_head l" "al_events l" idx]
      by (auto simp: prune_events_def chain_hash_ok [OF A] log_inv_def expected_head_def [of "l\<lparr>al_pruned_head := x, al_events := y\<rparr>" for x y])
  qed
qed

lemma prune_inv:
  assumes "serializes A" and "log_inv A l" and "prune_before A before l = (r, l')"
  shows "log_inv A l'"
proof -
  obtain r1 l1 where e: "prune_events A before l = (r1, l1)" by (cases "prune_events A before l")
  from prune_events_inv [OF assms(1,2) e] assms(3) e show ?thesis
    by (auto simp: prune_before_def log_inv_def expected_head_def)
qed

lemma audit_reach_inv: "audit_reach A l \<Longrightarrow> serializes A \<Longrightarrow> log_inv A l"
proof (induction rule: audit_reach.induct)
  case new
  show ?case by (simp add: log_inv_def AuditLog_new_def expected_head_def)
qed (auto intro: append_inv prune_inv)

text \<open>
  C25. A log that is built by any sequence of appends and prunings, with any events at any times and any
  cutoffs, validates, unless it is empty, and an event can always be appended: the new log validates and
  ends with that event.
\<close>

theorem audit_log_validates:
  assumes "serializes A" and "audit_reach A l"
  shows "validate_chain A l = (if al_events l = [] then Err EmptyLog else Ok ())
    \<and> (\<exists>e l'. AuditLog_append A uuid now ty ident peer details l = (Ok e, l')
      \<and> al_events l' = al_events l @ [e] \<and> validate_chain A l' = Ok ())"
proof (intro conjI)
  have inv: "log_inv A l" by (rule audit_reach_inv [OF assms(2,1)])
  then show "validate_chain A l = (if al_events l = [] then Err EmptyLog else Ok ())"
    by (simp add: validate_chain_from [OF assms(1)] log_inv_def validate_from_ok)
  obtain r l' where ap: "AuditLog_append A uuid now ty ident peer details l = (r, l')"
    by (cases "AuditLog_append A uuid now ty ident peer details l")
  from append_inv [OF assms(1) inv ap] ap
  show "\<exists>e l'. AuditLog_append A uuid now ty ident peer details l = (Ok e, l')
      \<and> al_events l' = al_events l @ [e] \<and> validate_chain A l' = Ok ()"
    by (auto simp: validate_chain_ok [OF assms(1)] log_inv_def AuditLog_append_def Let_def chain_hash_ok [OF assms(1)])
qed

section \<open>Tampering\<close>

lemma validate_from_update:
  assumes "linked A h es" and "i < length es"
  shows "validate_from A k h (es[i := e']) =
    (if ae_prev_hash e' \<noteq> ae_prev_hash (es ! i)
     then Err (ChainBroken (k + i) (ae_prev_hash (es ! i)) (ae_prev_hash e'))
     else if i + 1 < length es \<and> event_hash A e' \<noteq> event_hash A (es ! i)
     then Err (ChainBroken (k + i + 1) (event_hash A e') (event_hash A (es ! i)))
     else Ok ())"
  using assms
proof (induction es arbitrary: i k h)
  case (Cons e es)
  show ?case
  proof (cases i)
    case 0
    with Cons.prems show ?thesis by (cases es) (auto simp: validate_from_ok)
  next
    case (Suc j)
    with Cons show ?thesis by simp
  qed
qed simp

text \<open>
  C26. What \<open>validate_chain\<close> says of a valid log in which one event was replaced, exactly: a changed link
  is reported at the event itself, a changed content at the next event, with the two hashes.  The last
  event has no next one: every change of it that keeps its link goes through, as does cutting the end off.
\<close>

theorem audit_tampering:
  assumes "serializes A" and "validate_chain A l = Ok ()" and "i < length (al_events l)"
  shows "validate_chain A (l\<lparr>al_events := (al_events l)[i := e']\<rparr>) =
      (if ae_prev_hash e' \<noteq> ae_prev_hash (al_events l ! i)
       then Err (ChainBroken i (ae_prev_hash (al_events l ! i)) (ae_prev_hash e'))
       else if i + 1 < length (al_events l) \<and> chain_hash A e' \<noteq> chain_hash A (al_events l ! i)
       then Err (ChainBroken (i + 1) (event_hash A e') (event_hash A (al_events l ! i)))
       else Ok ())
    \<and> validate_chain A (l\<lparr>al_events := take (i + 1) (al_events l)\<rparr>) = Ok ()"
proof (intro conjI)
  from assms have l: "al_events l \<noteq> []" "linked A (expected_head l) (al_events l)"
    by (auto simp: validate_chain_ok)
  have h: "expected_head (l\<lparr>al_events := es\<rparr>) = expected_head l" for es by (simp add: expected_head_def)
  show "validate_chain A (l\<lparr>al_events := (al_events l)[i := e']\<rparr>) =
      (if ae_prev_hash e' \<noteq> ae_prev_hash (al_events l ! i)
       then Err (ChainBroken i (ae_prev_hash (al_events l ! i)) (ae_prev_hash e'))
       else if i + 1 < length (al_events l) \<and> chain_hash A e' \<noteq> chain_hash A (al_events l ! i)
       then Err (ChainBroken (i + 1) (event_hash A e') (event_hash A (al_events l ! i)))
       else Ok ())"
    using l(1) by (simp add: validate_chain_from [OF assms(1)] h validate_from_update [OF l(2) assms(3)] chain_hash_ok [OF assms(1)])
  have "linked A (expected_head l) (take (i + 1) (al_events l) @ drop (i + 1) (al_events l))"
    using l(2) by (simp only: append_take_drop_id)
  then show "validate_chain A (l\<lparr>al_events := take (i + 1) (al_events l)\<rparr>) = Ok ()"
    using l(1) by (simp add: validate_chain_ok [OF assms(1)] h del: append_take_drop_id)
qed

section \<open>Persistence\<close>

text \<open>The serializer is lossless on logs and produces valid UTF-8.\<close>

definition json_lossless :: "audit_libs \<Rightarrow> bool" where
  "json_lossless A \<longleftrightarrow>
     (\<forall>l. \<exists>json. log_to_json A l = Some json \<and> utf8_valid (as_bytes json) \<and> log_from_json A json = Some l)"

context backend_contract
begin

lemma persist_load:
  assumes "good s" and "json_lossless A"
  shows "\<exists>s'. AuditLog_persist vt A l s = (Ok (), s') \<and> good s' \<and> AuditLog_load vt A s' = Ok l
    \<and> (\<forall>k. k \<noteq> AUDIT_KEY \<longrightarrow> content s' k = content s k)"
proof -
  from assms(2) obtain json where j: "log_to_json A l = Some json" "utf8_valid (as_bytes json)" "log_from_json A json = Some l"
    by (auto simp: json_lossless_def)
  from put_law [OF assms(1), of AUDIT_KEY "as_bytes json"] obtain s' where
    s': "vt_put vt AUDIT_KEY (as_bytes json) s = (Ok (), s')" "good s'" "content s' = (content s)(AUDIT_KEY \<mapsto> as_bytes json)"
    by blast
  then show ?thesis
    using j get_law [OF s'(2), of AUDIT_KEY]
    by (auto simp: AuditLog_persist_def AuditLog_load_def string_from_utf8_lossy_as_bytes)
qed

lemma load_fresh: "good s \<Longrightarrow> content s AUDIT_KEY = None \<Longrightarrow> AuditLog_load vt A s = Ok AuditLog_new"
  by (simp add: AuditLog_load_def get_law)

end

text \<open>
  Persisting a reachable log in the memory backend succeeds, leaves every other key alone, and loading
  gives the same log, which validates unless it is empty; where nothing was persisted, loading gives a new
  log, and so does the degraded backend, on which persisting is an error.
\<close>

theorem audit_persist_load:
  assumes "memory_good s" and "json_lossless A" and "serializes A" and "audit_reach A l"
  shows "(\<exists>s'. AuditLog_persist memory_vtable A l s = (Ok (), s') \<and> AuditLog_load memory_vtable A s' = Ok l
        \<and> (\<forall>k. k \<noteq> AUDIT_KEY \<longrightarrow> memory_content s' k = memory_content s k))
    \<and> (al_events l \<noteq> [] \<longrightarrow> validate_chain A l = Ok ())
    \<and> (memory_content s AUDIT_KEY = None \<longrightarrow> AuditLog_load memory_vtable A s = Ok AuditLog_new)
    \<and> AuditLog_load degraded_vtable A d = Ok AuditLog_new
    \<and> AuditLog_persist degraded_vtable A l d = (Err PersistenceError, d)"
proof (intro conjI impI)
  show "\<exists>s'. AuditLog_persist memory_vtable A l s = (Ok (), s') \<and> AuditLog_load memory_vtable A s' = Ok l
        \<and> (\<forall>k. k \<noteq> AUDIT_KEY \<longrightarrow> memory_content s' k = memory_content s k)"
    using memory.persist_load [OF assms(1,2), of l] by blast
  show "validate_chain A l = Ok ()" if "al_events l \<noteq> []"
    using audit_reach_inv [OF assms(4,3)] that by (simp add: validate_chain_ok [OF assms(3)] log_inv_def)
  show "AuditLog_load memory_vtable A s = Ok AuditLog_new" if "memory_content s AUDIT_KEY = None"
    using memory.load_fresh [OF assms(1) that] .
  obtain json where "log_to_json A l = Some json" using assms(2) by (auto simp: json_lossless_def)
  then show "AuditLog_persist degraded_vtable A l d = (Err PersistenceError, d)"
    by (simp add: AuditLog_persist_def degraded_vtable_def)
  show "AuditLog_load degraded_vtable A d = Ok AuditLog_new"
    by (simp add: AuditLog_load_def degraded_vtable_def)
qed

section \<open>A concrete serializer\<close>

definition event_types :: "audit_event_type list" where
  "event_types = [IdentityCreated, IdentityDeleted, MessageSent, MessageReceived, RelayEnabled, RelayDisabled,
     ContactAdded, ContactBlocked, ContactRemoved, BackupExported, BackupImported, ConsentGranted,
     StorageCompacted, LegacyStaticEcdhSend]"

definition event_type_byte :: "audit_event_type \<Rightarrow> byte" where
  "event_type_byte t = of_nat (case position (\<lambda>u. u = t) event_types of Some i \<Rightarrow> i | None \<Rightarrow> 0)"

definition event_bytes :: "audit_event \<Rightarrow> bytes" where
  "event_bytes e = enc_fields [as_bytes (ae_event_id e), [event_type_byte (ae_event_type e)], u64_bytes (ae_timestamp e),
     option_bytes as_bytes (ae_identity_id e), option_bytes as_bytes (ae_peer_id e), option_bytes as_bytes (ae_details e),
     as_bytes (ae_prev_hash e)]"

definition bytes_event :: "bytes \<Rightarrow> audit_event" where
  "bytes_event v = (case dec_fields 7 v of f \<Rightarrow>
     \<lparr>ae_event_id = bytes_string (f ! 0), ae_event_type = event_types ! unat (f ! 1 ! 0), ae_timestamp = bytes_u64 (f ! 2),
      ae_identity_id = bytes_option bytes_string (f ! 3), ae_peer_id = bytes_option bytes_string (f ! 4),
      ae_details = bytes_option bytes_string (f ! 5), ae_prev_hash = bytes_string (f ! 6)\<rparr>)"

lemma event_type_byte_inverse: "event_types ! unat (event_type_byte t) = t"
  by (cases t) (simp_all add: event_type_byte_def event_types_def)

lemma bytes_event_inverse [simp]: "bytes_event (event_bytes e) = e"
  by (cases e) (simp add: bytes_event_def event_bytes_def dec_enc_fields event_type_byte_inverse)

definition log_bytes :: "audit_log \<Rightarrow> bytes" where
  "log_bytes l = enc_fields [as_bytes (al_last_hash l), option_bytes as_bytes (al_pruned_head l),
     replicate (length (al_events l)) 0, enc_fields (map event_bytes (al_events l))]"

definition bytes_log :: "bytes \<Rightarrow> audit_log" where
  "bytes_log v = (case dec_fields 4 v of f \<Rightarrow>
     \<lparr>al_events = map bytes_event (dec_fields (length (f ! 2)) (f ! 3)), al_last_hash = bytes_string (f ! 0),
      al_pruned_head = bytes_option bytes_string (f ! 1)\<rparr>)"

lemma bytes_log_inverse [simp]: "bytes_log (log_bytes l) = l"
  by (cases l) (simp add: bytes_log_def log_bytes_def dec_enc_fields o_def)

definition toy_audit :: audit_libs where
  "toy_audit = \<lparr>au_crypto = toy_crypto, event_to_json = (\<lambda>e. Some (text_of_bytes (event_bytes e))),
     log_to_json = (\<lambda>l. Some (text_of_bytes (log_bytes l))), log_from_json = (\<lambda>t. Some (bytes_log (bytes_of_text t)))\<rparr>"

lemma toy_audit_laws: "serializes toy_audit" "json_lossless toy_audit"
  by (simp_all add: toy_audit_def serializes_def json_lossless_def text_of_bytes_valid)

definition toy_log :: audit_log where
  "toy_log = snd (AuditLog_append toy_audit ''b'' 20 MessageSent None (Some ''peer'') None
     (snd (AuditLog_append toy_audit ''a'' 10 IdentityCreated (Some ''me'') None None AuditLog_new)))"

lemma toy_log_reach: "audit_reach toy_audit toy_log"
  unfolding toy_log_def
  by (rule audit_reach.append [OF audit_reach.append [OF audit_reach.new surjective_pairing] surjective_pairing])

lemma toy_log_events: "length (al_events toy_log) = 2"
  by (simp add: toy_log_def AuditLog_append_def chain_hash_ok [OF toy_audit_laws(1)] AuditLog_new_def Let_def)

theorem audit_log_validates_witness:
  "serializes toy_audit \<and> audit_reach toy_audit toy_log \<and> validate_chain toy_audit toy_log = Ok ()"
  using audit_log_validates [OF toy_audit_laws(1) toy_log_reach] toy_audit_laws toy_log_reach toy_log_events
  by (auto split: if_splits)

lemma toy_log_valid: "validate_chain toy_audit toy_log = Ok ()"
  using audit_reach_inv [OF toy_log_reach toy_audit_laws(1)] toy_log_events
  by (auto simp: validate_chain_ok [OF toy_audit_laws(1)] log_inv_def)

theorem audit_tampering_witness:
  "validate_chain toy_audit (toy_log\<lparr>al_events := (al_events toy_log)[1 := (al_events toy_log ! 1)\<lparr>ae_details := Some ''forged''\<rparr>]\<rparr>) = Ok ()"
  using audit_tampering [OF toy_audit_laws(1) toy_log_valid, of 1 "(al_events toy_log ! 1)\<lparr>ae_details := Some ''forged''\<rparr>"]
  by (simp add: toy_log_events)

theorem audit_persist_load_witness:
  "\<exists>s'. AuditLog_persist memory_vtable toy_audit toy_log MemoryStorage_new = (Ok (), s')
     \<and> AuditLog_load memory_vtable toy_audit s' = Ok toy_log"
  using audit_persist_load [OF _ toy_audit_laws(2,1) toy_log_reach, of MemoryStorage_new]
  by (auto simp: memory_good_def MemoryStorage_new_def hm_wf_def)

end
