(* ===== verification/Session_Manager.thy ===== *)
theory Session_Manager
  imports Message_Encryption Audit_Log
begin

text \<open>
  The ratchet sessions of a node (\<open>core/src/crypto/session_manager.rs\<close>) and the two functions of
  \<open>core/src/crypto/encrypt.rs\<close> that choose between the static scheme and a session.

  The manager holds a map from peer ids to sessions and, if it has one, its storage backend; the content of
  the backend is passed along as a state of its own.  The packages \<open>hex\<close> and \<open>serde_json\<close> are the fields of
  \<open>session_libs\<close>.
\<close>

section \<open>Stored sessions\<close>

record chain_state =
  cs_chain_key_hex :: string
  cs_index :: u32

record serializable_session =
  ss_our_dh_secret_hex :: string
  ss_our_dh_public_hex :: string
  ss_their_dh_public_hex :: "string option"
  ss_root_key_hex :: string
  ss_sending_chain :: "chain_state option"
  ss_receiving_chain :: "chain_state option"
  ss_dh_step_count :: u32
  ss_initialized :: bool
  ss_has_identity_secret :: bool
  ss_identity_secret_hex :: "string option"
  ss_negotiated_suite :: "byte option"
  ss_transcript_hash_hex :: "string option"
  ss_peer_confirmed :: bool
  ss_bootstrap_hct_ephemeral_hex :: "string option"
  ss_bootstrap_hct_mlkem_hex :: "string option"
  ss_skipped_keys :: "(string \<times> u32 \<times> string) list"

record session_libs =
  hex_encode :: "bytes \<Rightarrow> string"
  hex_decode :: "string \<Rightarrow> bytes option"
  hex_decode_to_slice :: "nat \<Rightarrow> string \<Rightarrow> bytes option"
  sessions_to_json :: "(string, serializable_session) hmap \<Rightarrow> string option"
  sessions_from_json :: "string \<Rightarrow> (string, serializable_session) hmap option"

definition from_session :: "session_libs \<Rightarrow> ratchet_session \<Rightarrow> serializable_session" where
  "from_session J s =
     \<lparr>ss_our_dh_secret_hex = hex_encode J (rs_our_dh_secret s),
      ss_our_dh_public_hex = hex_encode J (rs_our_dh_public s),
      ss_their_dh_public_hex = map_option (hex_encode J) (rs_their_dh_public s),
      ss_root_key_hex = hex_encode J (rs_root_key s),
      ss_sending_chain = map_option (\<lambda>(key, index). \<lparr>cs_chain_key_hex = hex_encode J key, cs_index = index\<rparr>) (sending_chain_state s),
      ss_receiving_chain = map_option (\<lambda>(key, index). \<lparr>cs_chain_key_hex = hex_encode J key, cs_index = index\<rparr>) (receiving_chain_state s),
      ss_dh_step_count = rs_dh_step_count s,
      ss_initialized = rs_initialized s,
      ss_has_identity_secret = (rs_our_identity_secret s \<noteq> None),
      ss_identity_secret_hex = map_option (hex_encode J) (rs_our_identity_secret s),
      ss_negotiated_suite = rs_negotiated_suite s,
      ss_transcript_hash_hex = map_option (hex_encode J) (rs_transcript_hash s),
      ss_peer_confirmed = rs_peer_confirmed s,
      ss_bootstrap_hct_ephemeral_hex = map_option (\<lambda>h. hex_encode J (hct_x25519_ephemeral_public h)) (rs_bootstrap_hct s),
      ss_bootstrap_hct_mlkem_hex = map_option (\<lambda>h. hex_encode J (hct_mlkem_ciphertext h)) (rs_bootstrap_hct s),
      ss_skipped_keys = map (\<lambda>(dh, idx, key). (hex_encode J dh, idx, hex_encode J key)) (skipped_keys_snapshot s)\<rparr>"

text \<open>A field of 32 bytes; the text of the error names the field.\<close>

definition decode_32 :: "session_libs \<Rightarrow> string \<Rightarrow> string \<Rightarrow> (crypto_error, bytes) result" where
  "decode_32 J field h =
     (case hex_decode J h of
        None \<Rightarrow> Err (BadSession (''Invalid '' @ field @ ''_hex''))
      | Some bs \<Rightarrow> if length bs \<noteq> 32 then Err (BadSession (field @ '' must be 32 bytes'')) else Ok bs)"

definition decode_opt_32 :: "session_libs \<Rightarrow> string \<Rightarrow> string option \<Rightarrow> (crypto_error, bytes option) result" where
  "decode_opt_32 J field h =
     (case h of None \<Rightarrow> Ok None | Some h \<Rightarrow> and_then (decode_32 J field h) (\<lambda>bs. Ok (Some bs)))"

definition decode_chain :: "session_libs \<Rightarrow> string \<Rightarrow> chain_state option \<Rightarrow> (crypto_error, chain option) result" where
  "decode_chain J field cs =
     (case cs of
        None \<Rightarrow> Ok None
      | Some cs \<Rightarrow>
          (case hex_decode_to_slice J 32 (cs_chain_key_hex cs) of
             None \<Rightarrow> Err (BadSession (''Corrupt '' @ field @ '' chain_key_hex in DB''))
           | Some ck \<Rightarrow> Ok (Some (Chain_new_with_index ck (cs_index cs)))))"

definition decode_hct :: "session_libs \<Rightarrow> string option \<Rightarrow> string option \<Rightarrow> (crypto_error, hybrid_ciphertext option) result" where
  "decode_hct J e_hex m_hex =
     (case (e_hex, m_hex) of
        (Some e_hex, Some m_hex) \<Rightarrow>
          and_then (case hex_decode J e_hex of None \<Rightarrow> Err (BadSession ''bad eph'') | Some e_bytes \<Rightarrow> Ok e_bytes) (\<lambda>e_bytes.
          and_then (case hex_decode J m_hex of None \<Rightarrow> Err (BadSession ''bad mlkem'') | Some m_bytes \<Rightarrow> Ok m_bytes) (\<lambda>m_bytes.
            if length e_bytes \<noteq> 32 \<or> length m_bytes \<noteq> 1088 then Err (BadSession ''bad hct lengths'')
            else Ok (Some \<lparr>hct_x25519_ephemeral_public = e_bytes, hct_mlkem_ciphertext = m_bytes\<rparr>)))
      | _ \<Rightarrow> Ok None)"

fun decode_skipped :: "session_libs \<Rightarrow> (string \<times> u32 \<times> string) list \<Rightarrow> skipped_keys \<Rightarrow> (crypto_error, skipped_keys) result" where
  "decode_skipped J [] m = Ok m"
| "decode_skipped J ((dh_hex, idx, key_hex) # es) m =
     and_then (case hex_decode J dh_hex of None \<Rightarrow> Err (BadSession ''Invalid skipped_keys dh hex'') | Some bs \<Rightarrow> Ok bs) (\<lambda>dh_bytes.
     and_then (case hex_decode J key_hex of None \<Rightarrow> Err (BadSession ''Invalid skipped_keys key hex'') | Some bs \<Rightarrow> Ok bs) (\<lambda>key_bytes.
       if length dh_bytes \<noteq> 32 \<or> length key_bytes \<noteq> 32 then Err (BadSession ''skipped_keys entries must be 32 bytes each'')
       else decode_skipped J es (hm_insert (dh_bytes, idx) key_bytes m)))"

definition into_session :: "session_libs \<Rightarrow> serializable_session \<Rightarrow> (crypto_error, ratchet_session) result" where
  "into_session J z =
     and_then (decode_32 J ''our_dh_secret'' (ss_our_dh_secret_hex z)) (\<lambda>our_dh_secret.
     and_then (decode_32 J ''our_dh_public'' (ss_our_dh_public_hex z)) (\<lambda>our_dh_public.
     and_then (decode_opt_32 J ''their_dh_public'' (ss_their_dh_public_hex z)) (\<lambda>their_dh_public.
     and_then (decode_32 J ''root_key'' (ss_root_key_hex z)) (\<lambda>root_key.
     and_then (decode_chain J ''sending'' (ss_sending_chain z)) (\<lambda>sending_chain.
     and_then (decode_chain J ''receiving'' (ss_receiving_chain z)) (\<lambda>receiving_chain.
     and_then (decode_opt_32 J ''identity_secret'' (ss_identity_secret_hex z)) (\<lambda>our_identity_secret.
     and_then (decode_opt_32 J ''transcript_hash'' (ss_transcript_hash_hex z)) (\<lambda>transcript_hash.
     and_then (decode_hct J (ss_bootstrap_hct_ephemeral_hex z) (ss_bootstrap_hct_mlkem_hex z)) (\<lambda>bootstrap_hct.
     and_then (decode_skipped J (ss_skipped_keys z) []) (\<lambda>skipped_keys.
       Ok \<lparr>rs_our_dh_secret = our_dh_secret, rs_our_dh_public = our_dh_public, rs_their_dh_public = their_dh_public,
           rs_root_key = root_key, rs_sending_chain = sending_chain, rs_receiving_chain = receiving_chain,
           rs_dh_step_count = ss_dh_step_count z, rs_skipped_keys = skipped_keys, rs_initialized = ss_initialized z,
           rs_our_identity_secret = our_identity_secret, rs_negotiated_suite = ss_negotiated_suite z,
           rs_transcript_hash = transcript_hash, rs_peer_confirmed = ss_peer_confirmed z, rs_bootstrap_hct = bootstrap_hct,
           rs_pq_our_keypair = None, rs_pq_prev_keypair = None, rs_pq_their_encaps_key = None, rs_pq_pending_ct = None,
           rs_pq_pending_sent = None, rs_pq_pending_recv = None, rs_pq_last_mixed_fp = None, rs_transition_counter = 0\<rparr>))))))))))"

section \<open>The manager\<close>

record 's session_manager =
  sm_sessions :: "(string, ratchet_session) hmap"
  sm_backend :: "'s storage_vtable option"

definition SessionManager_new :: "'s session_manager" where
  "SessionManager_new = \<lparr>sm_sessions = [], sm_backend = None\<rparr>"

definition SessionManager_with_backend :: "'s storage_vtable \<Rightarrow> 's session_manager" where
  "SessionManager_with_backend vt = \<lparr>sm_sessions = [], sm_backend = Some vt\<rparr>"

definition get_session :: "'s session_manager \<Rightarrow> string \<Rightarrow> ratchet_session option" where
  "get_session m peer_id = hm_get (sm_sessions m) peer_id"

definition has_session :: "'s session_manager \<Rightarrow> string \<Rightarrow> bool" where
  "has_session m peer_id = hm_contains (sm_sessions m) peer_id"

definition session_count :: "'s session_manager \<Rightarrow> nat" where
  "session_count m = length (sm_sessions m)"

definition remove_session :: "string \<Rightarrow> 's session_manager \<Rightarrow> 's session_manager" where
  "remove_session peer_id m = m\<lparr>sm_sessions := hm_remove peer_id (sm_sessions m)\<rparr>"

definition put_session :: "string \<Rightarrow> ratchet_session \<Rightarrow> 's session_manager \<Rightarrow> 's session_manager" where
  "put_session peer_id s m = m\<lparr>sm_sessions := hm_insert peer_id s (sm_sessions m)\<rparr>"

definition SESSIONS_KEY :: bytes where
  "SESSIONS_KEY = as_bytes ''ratchet_sessions_v1''"

definition serialize_sessions :: "session_libs \<Rightarrow> 's session_manager \<Rightarrow> (crypto_error, string) result" where
  "serialize_sessions J m =
     (case sessions_to_json J (map (\<lambda>(k, v). (k, from_session J v)) (sm_sessions m)) of
        None \<Rightarrow> Err (BadSession ''Failed to serialize ratchet sessions'')
      | Some json \<Rightarrow> Ok json)"

definition SessionManager_save :: "session_libs \<Rightarrow> 's session_manager \<Rightarrow> 's \<Rightarrow> (crypto_error, unit) result \<times> 's" where
  "SessionManager_save J m st =
     (case sm_backend m of
        None \<Rightarrow> (Ok (), st)
      | Some vt \<Rightarrow> or_return (serialize_sessions J m) st (\<lambda>json.
          (case vt_put vt SESSIONS_KEY (as_bytes json) st of (r, st) \<Rightarrow>
             (map_err (\<lambda>e. BadSession (''Failed to save ratchet sessions: '' @ e)) r, st))))"

text \<open>The loop over the decoded map: sessions in memory win, entries that do not convert are skipped.\<close>

fun merge_sessions :: "session_libs \<Rightarrow> (string, serializable_session) hmap \<Rightarrow> 's session_manager \<Rightarrow> 's session_manager" where
  "merge_sessions J [] m = m"
| "merge_sessions J ((peer_id, z) # es) m =
     (if has_session m peer_id then merge_sessions J es m
      else (case into_session J z of
              Ok s \<Rightarrow> merge_sessions J es (put_session peer_id s m)
            | _ \<Rightarrow> merge_sessions J es m))"

definition parse_sessions :: "session_libs \<Rightarrow> string \<Rightarrow> (crypto_error, (string, serializable_session) hmap) result" where
  "parse_sessions J json =
     (case sessions_from_json J json of
        None \<Rightarrow> Err (BadSession ''Failed to deserialize ratchet sessions'')
      | Some m \<Rightarrow> Ok m)"

definition deserialize_sessions :: "session_libs \<Rightarrow> string \<Rightarrow> 's session_manager \<Rightarrow> (crypto_error, unit) result \<times> 's session_manager" where
  "deserialize_sessions J json m = or_return (parse_sessions J json) m (\<lambda>map. (Ok (), merge_sessions J map m))"

text \<open>The strict variant: all entries are converted before the first one is inserted.\<close>

fun decode_new_sessions ::
  "session_libs \<Rightarrow> 's session_manager \<Rightarrow> (string, serializable_session) hmap \<Rightarrow> (crypto_error, (string \<times> ratchet_session) list) result" where
  "decode_new_sessions J m [] = Ok []"
| "decode_new_sessions J m ((peer_id, z) # es) =
     (if has_session m peer_id then decode_new_sessions J m es
      else and_then (into_session J z) (\<lambda>s. and_then (decode_new_sessions J m es) (\<lambda>ds. Ok ((peer_id, s) # ds))))"

definition deserialize_sessions_strict ::
  "session_libs \<Rightarrow> string \<Rightarrow> 's session_manager \<Rightarrow> (crypto_error, unit) result \<times> 's session_manager" where
  "deserialize_sessions_strict J json m =
     or_return (parse_sessions J json) m (\<lambda>map.
       or_return (decode_new_sessions J m map) m (\<lambda>decoded.
         (Ok (), fold (\<lambda>(peer_id, s). put_session peer_id s) decoded m)))"

definition SessionManager_load :: "session_libs \<Rightarrow> 's \<Rightarrow> 's session_manager \<Rightarrow> (crypto_error, unit) result \<times> 's session_manager" where
  "SessionManager_load J st m =
     (case sm_backend m of
        None \<Rightarrow> (Ok (), m)
      | Some vt \<Rightarrow>
          or_return (map_err (\<lambda>e. BadSession (''Failed to load ratchet sessions: '' @ e)) (vt_get vt SESSIONS_KEY st)) m (\<lambda>found.
            (case found of
               None \<Rightarrow> (Ok (), m)
             | Some bs \<Rightarrow>
                 (case string_from_utf8 bs of
                    None \<Rightarrow> (Err (BadSession ''Invalid ratchet session encoding''), m)
                  | Some json \<Rightarrow> deserialize_sessions J json m))))"

section \<open>Establishing sessions\<close>

text \<open>Each operation returns the session that is in the map when it returns, as the code returns a reference to it.\<close>

definition get_or_create_session ::
  "crypto_libs \<Rightarrow> bytes \<Rightarrow> string \<Rightarrow> bytes \<Rightarrow> bytes \<Rightarrow> 's session_manager \<Rightarrow> (crypto_error, ratchet_session) result \<times> 's session_manager" where
  "get_or_create_session L dh_secret peer_id our_signing_key their_identity_public m =
     (case get_session m peer_id of
        Some s \<Rightarrow> (Ok s, m)
      | None \<Rightarrow> let s = init_as_sender L dh_secret our_signing_key their_identity_public in (Ok s, put_session peer_id s m))"

definition create_receiver_session ::
  "crypto_libs \<Rightarrow> bytes \<Rightarrow> string \<Rightarrow> bytes \<Rightarrow> bytes \<Rightarrow> 's session_manager \<Rightarrow> (crypto_error, ratchet_session) result \<times> 's session_manager" where
  "create_receiver_session L dh_secret peer_id our_signing_key sender_identity_public m =
     (let s = init_as_receiver L dh_secret our_signing_key sender_identity_public in (Ok s, put_session peer_id s m))"

definition new_sender_session ::
  "crypto_libs \<Rightarrow> sender_randomness \<Rightarrow> bytes \<Rightarrow> bytes \<Rightarrow> public_key_bundle \<Rightarrow> public_key_bundle \<Rightarrow> (crypto_error, ratchet_session) result" where
  "new_sender_session L rnd our_signing_key our_x25519_secret our_bundle their_bundle =
     and_then (negotiate_suite L (pb_supported_suites our_bundle) (pb_supported_suites their_bundle)
         (pb_ed25519_public our_bundle) (pb_ed25519_public their_bundle)) (\<lambda>(suite, hash).
       if suite = 0x03 then init_as_sender_hybrid L rnd our_x25519_secret their_bundle hash
       else if suite = 0x02 then init_as_sender_hybrid_suite02 L rnd their_bundle hash
       else and_then (ed25519_public_to_x25519 L (pb_ed25519_public their_bundle)) (\<lambda>their_x25519.
         Ok ((init_as_sender L (rnd_dh_secret rnd) our_signing_key their_x25519)
              \<lparr>rs_negotiated_suite := Some suite, rs_transcript_hash := Some hash\<rparr>)))"

definition get_or_create_session_hybrid ::
  "crypto_libs \<Rightarrow> sender_randomness \<Rightarrow> string \<Rightarrow> bytes \<Rightarrow> bytes \<Rightarrow> public_key_bundle \<Rightarrow> public_key_bundle
    \<Rightarrow> 's session_manager \<Rightarrow> (crypto_error, ratchet_session) result \<times> 's session_manager" where
  "get_or_create_session_hybrid L rnd peer_id our_signing_key our_x25519_secret our_bundle their_bundle m =
     (case get_session m peer_id of
        Some s \<Rightarrow> (Ok s, m)
      | None \<Rightarrow> or_return (new_sender_session L rnd our_signing_key our_x25519_secret our_bundle their_bundle) m
                  (\<lambda>s. (Ok s, put_session peer_id s m)))"

definition new_receiver_session ::
  "crypto_libs \<Rightarrow> bytes \<Rightarrow> bytes \<Rightarrow> bytes \<Rightarrow> mlkem768_key_pair \<Rightarrow> public_key_bundle \<Rightarrow> public_key_bundle
    \<Rightarrow> hybrid_ciphertext option \<Rightarrow> (crypto_error, ratchet_session) result" where
  "new_receiver_session L dh_secret our_signing_key our_x25519_secret our_mlkem_keypair our_bundle their_bundle hct_opt =
     and_then (negotiate_suite L (pb_supported_suites their_bundle) (pb_supported_suites our_bundle)
         (pb_ed25519_public their_bundle) (pb_ed25519_public our_bundle)) (\<lambda>(suite, hash).
       if suite = 0x03
       then (case hct_opt of
               Some hct \<Rightarrow> init_as_receiver_hybrid L dh_secret our_x25519_secret our_mlkem_keypair their_bundle hct hash
             | None \<Rightarrow> Err (HybridCiphertextRequired 0x03))
       else if suite = 0x02
       then (case hct_opt of
               Some hct \<Rightarrow> init_as_receiver_hybrid_suite02 L dh_secret our_x25519_secret our_mlkem_keypair hct hash
             | None \<Rightarrow> Err (HybridCiphertextRequired 0x02))
       else Ok ((init_as_receiver L dh_secret our_signing_key (pb_x25519_public their_bundle))
                 \<lparr>rs_negotiated_suite := Some suite, rs_transcript_hash := Some hash\<rparr>))"

definition create_receiver_session_hybrid ::
  "crypto_libs \<Rightarrow> bytes \<Rightarrow> string \<Rightarrow> bytes \<Rightarrow> bytes \<Rightarrow> mlkem768_key_pair \<Rightarrow> public_key_bundle \<Rightarrow> public_key_bundle
    \<Rightarrow> hybrid_ciphertext option \<Rightarrow> 's session_manager \<Rightarrow> (crypto_error, ratchet_session) result \<times> 's session_manager" where
  "create_receiver_session_hybrid L dh_secret peer_id our_signing_key our_x25519_secret our_mlkem_keypair our_bundle their_bundle hct_opt m =
     or_return (new_receiver_session L dh_secret our_signing_key our_x25519_secret our_mlkem_keypair our_bundle their_bundle hct_opt) m
       (\<lambda>s. (Ok s, put_session peer_id s m))"

end
