(* ===== verification/Session_Dispatch.thy ===== *)
theory Session_Dispatch
  imports Session_Manager
begin

text \<open>
  \<open>encrypt_with_ratchet_fallback\<close> and \<open>decrypt_with_ratchet_fallback\<close> of \<open>core/src/crypto/encrypt.rs\<close>: the
  choice between the static scheme and the sessions of the manager, the creation of sessions on first
  contact, the audit record of a static send, and the re-establishment of a session that does not decrypt.
\<close>

section \<open>Sending\<close>

definition encrypt_session ::
  "crypto_libs \<Rightarrow> encrypt_rnd \<Rightarrow> bytes \<Rightarrow> bytes \<Rightarrow> string
    \<Rightarrow> (crypto_error, ratchet_session) result \<times> 's session_manager \<Rightarrow> (crypto_error, wire_envelope) result \<times> 's session_manager" where
  "encrypt_session L rnd sender_signing_key plaintext peer_id = (\<lambda>(r, m).
     or_return r m (\<lambda>s. (case encrypt_message_ratcheted L rnd sender_signing_key plaintext s of
       (w, s') \<Rightarrow> (w, put_session peer_id s' m))))"

definition ratcheted_send ::
  "crypto_libs \<Rightarrow> sender_randomness \<Rightarrow> encrypt_rnd \<Rightarrow> bytes \<Rightarrow> public_key_bundle option \<Rightarrow> bytes \<Rightarrow> bytes \<Rightarrow> string
    \<Rightarrow> public_key_bundle option \<Rightarrow> bytes option \<Rightarrow> 's session_manager \<Rightarrow> (crypto_error, wire_envelope) result \<times> 's session_manager" where
  "ratcheted_send L srnd rnd sender_signing_key recipient_bundle recipient_public_key plaintext peer_id our_bundle our_x25519_secret m =
     (case (our_bundle, recipient_bundle) of
        (Some our_b, Some their_b) \<Rightarrow>
          or_return (case our_x25519_secret of None \<Rightarrow> Err (MissingX25519Secret peer_id) | Some x \<Rightarrow> Ok x) m (\<lambda>our_x25519.
            encrypt_session L rnd sender_signing_key plaintext peer_id
              (get_or_create_session_hybrid L srnd peer_id sender_signing_key our_x25519 our_b their_b m))
      | _ \<Rightarrow>
          or_return (ed25519_public_to_x25519 L recipient_public_key) m (\<lambda>their_x25519.
            encrypt_session L rnd sender_signing_key plaintext peer_id
              (get_or_create_session L (rnd_dh_secret srnd) peer_id sender_signing_key their_x25519 m)))"

definition audit_static_send ::
  "audit_libs \<Rightarrow> string \<Rightarrow> u64 \<Rightarrow> string \<Rightarrow> audit_log option \<Rightarrow> (crypto_error, unit) result \<times> audit_log option" where
  "audit_static_send A uuid now peer_id audit =
     (case audit of
        None \<Rightarrow> (Ok (), None)
      | Some l \<Rightarrow>
          (case AuditLog_append A uuid now LegacyStaticEcdhSend None (Some peer_id) None l of
             (Panic, l') \<Rightarrow> (Panic, Some l')
           | (_, l') \<Rightarrow> (Ok (), Some l')))"

definition encrypt_with_ratchet_fallback ::
  "crypto_libs \<Rightarrow> audit_libs \<Rightarrow> sender_randomness \<Rightarrow> encrypt_rnd \<Rightarrow> string \<Rightarrow> u64 \<Rightarrow> bytes \<Rightarrow> public_key_bundle option \<Rightarrow> bytes \<Rightarrow> bytes
    \<Rightarrow> string \<Rightarrow> public_key_bundle option \<Rightarrow> bytes option \<Rightarrow> bool \<Rightarrow> 's session_manager option \<Rightarrow> audit_log option
    \<Rightarrow> (crypto_error, wire_envelope) result \<times> 's session_manager option \<times> audit_log option" where
  "encrypt_with_ratchet_fallback L A srnd rnd uuid now sender_signing_key recipient_bundle recipient_public_key plaintext
      peer_id our_bundle our_x25519_secret require_pq mgr audit =
     (let session_exists = (case mgr of Some m \<Rightarrow> has_session m peer_id | None \<Rightarrow> False) in
      or_return (should_use_ratcheted_encryption recipient_bundle session_exists require_pq peer_id) (mgr, audit) (\<lambda>ratcheted.
        if ratcheted
        then (case mgr of
                None \<Rightarrow> (Err NoSessionManager, mgr, audit)
              | Some m \<Rightarrow>
                  (case ratcheted_send L srnd rnd sender_signing_key recipient_bundle recipient_public_key plaintext peer_id
                          our_bundle our_x25519_secret m of
                     (r, m') \<Rightarrow> (r, Some m', audit)))
        else (case audit_static_send A uuid now peer_id audit of (r, audit') \<Rightarrow>
          or_return r (mgr, audit') (\<lambda>_.
            (and_then (encrypt_message L rnd sender_signing_key recipient_public_key plaintext) (\<lambda>e. Ok (WireV1 e)), mgr, audit')))))"

section \<open>Receiving\<close>

text \<open>
  The draws of one call: a secret for a session created on first contact, the trials of the first attempt,
  and the same for the re-established session.
\<close>

record decrypt_rnd =
  dr_secret :: bytes
  dr_fresh :: "nat \<Rightarrow> bytes"
  dr_secret_again :: bytes
  dr_fresh_again :: "nat \<Rightarrow> bytes"

definition with_session_mut ::
  "string \<Rightarrow> (ratchet_session \<Rightarrow> (crypto_error, bytes) result \<times> ratchet_session) \<Rightarrow> 's session_manager
    \<Rightarrow> (crypto_error, bytes) result \<times> 's session_manager" where
  "with_session_mut peer_id f m =
     (case get_session m peer_id of
        None \<Rightarrow> (Err SessionNotRetrievable, m)
      | Some s \<Rightarrow> (case f s of (r, s') \<Rightarrow> (r, put_session peer_id s' m)))"

definition peer_of :: "crypto_libs \<Rightarrow> session_libs \<Rightarrow> bytes \<Rightarrow> string" where
  "peer_of L J sender_public_key = hex_encode J (b3_hash L sender_public_key)"

definition init_receiver_v1_session ::
  "crypto_libs \<Rightarrow> bytes \<Rightarrow> bytes \<Rightarrow> string \<Rightarrow> envelope \<Rightarrow> 's session_manager \<Rightarrow> (crypto_error, unit) result \<times> 's session_manager" where
  "init_receiver_v1_session L dh_secret recipient_signing_key peer_id e m =
     (if length (ev_sender_public_key e) \<noteq> 32 then (Panic, m)
      else or_return (ed25519_public_to_x25519 L (ev_sender_public_key e)) m (\<lambda>sender_x25519.
        (case create_receiver_session L dh_secret peer_id recipient_signing_key sender_x25519 m of
           (r, m') \<Rightarrow> (and_then r (\<lambda>_. Ok ()), m'))))"

text \<open>The two \<open>copy_from_slice\<close> calls panic on other lengths.\<close>

definition envelope_hct :: "envelope_v2 \<Rightarrow> (crypto_error, hybrid_ciphertext option) result" where
  "envelope_hct e =
     (case v2_pq_kem_ciphertext e of
        None \<Rightarrow> Ok None
      | Some mlk \<Rightarrow>
          if length (v2_ephemeral_public_key e) \<noteq> 32 then Panic
          else if length mlk \<noteq> 1088 then Panic
          else Ok (Some \<lparr>hct_x25519_ephemeral_public = v2_ephemeral_public_key e, hct_mlkem_ciphertext = mlk\<rparr>))"

definition init_receiver_v2_session ::
  "crypto_libs \<Rightarrow> bytes \<Rightarrow> string \<Rightarrow> bytes \<Rightarrow> bytes option \<Rightarrow> mlkem768_key_pair option \<Rightarrow> public_key_bundle option
    \<Rightarrow> public_key_bundle option \<Rightarrow> envelope_v2 \<Rightarrow> 's session_manager \<Rightarrow> (crypto_error, unit) result \<times> 's session_manager" where
  "init_receiver_v2_session L dh_secret peer_id recipient_signing_key recipient_x25519_secret our_mlkem_keypair our_bundle sender_bundle e m =
     (case (our_mlkem_keypair, our_bundle, sender_bundle) of
        (Some our_k, Some our_b, Some their_b) \<Rightarrow>
          or_return (envelope_hct e) m (\<lambda>hct.
          or_return (case recipient_x25519_secret of None \<Rightarrow> Err (MissingX25519Secret ''recipient'') | Some x \<Rightarrow> Ok x) m (\<lambda>x25519_secret.
            (case create_receiver_session_hybrid L dh_secret peer_id recipient_signing_key x25519_secret our_k our_b their_b hct m of
               (r, m') \<Rightarrow> (and_then r (\<lambda>_. Ok ()), m'))))
      | _ \<Rightarrow> (Err MissingKeysForHybrid, m))"

definition receive_v1 ::
  "crypto_libs \<Rightarrow> session_libs \<Rightarrow> decrypt_rnd \<Rightarrow> bytes \<Rightarrow> envelope \<Rightarrow> 's session_manager \<Rightarrow> (crypto_error, bytes) result \<times> 's session_manager" where
  "receive_v1 L J rnd recipient_signing_key e m =
     (let peer_id = peer_of L J (ev_sender_public_key e) in
      case (if has_session m peer_id then (Ok (), m)
            else init_receiver_v1_session L (dr_secret rnd) recipient_signing_key peer_id e m) of (r, m1) \<Rightarrow> or_return r m1 (\<lambda>_.
      case with_session_mut peer_id (decrypt_message_ratcheted L (dr_fresh rnd) e) m1 of
        (Err first_error, m2) \<Rightarrow>
          (case init_receiver_v1_session L (dr_secret_again rnd) recipient_signing_key peer_id e m2 of (r, m3) \<Rightarrow> or_return r m3 (\<lambda>_.
             (case with_session_mut peer_id (decrypt_message_ratcheted L (dr_fresh_again rnd) e) m3 of
                (Err retry_err, m4) \<Rightarrow> (Err first_error, m4)
              | res \<Rightarrow> res)))
      | res \<Rightarrow> res))"

definition receive_v2 ::
  "crypto_libs \<Rightarrow> session_libs \<Rightarrow> decrypt_rnd \<Rightarrow> bytes \<Rightarrow> bytes option \<Rightarrow> mlkem768_key_pair option \<Rightarrow> public_key_bundle option
    \<Rightarrow> public_key_bundle option \<Rightarrow> envelope_v2 \<Rightarrow> 's session_manager \<Rightarrow> (crypto_error, bytes) result \<times> 's session_manager" where
  "receive_v2 L J rnd recipient_signing_key recipient_x25519_secret our_mlkem_keypair our_bundle sender_bundle e m =
     (let peer_id = peer_of L J (v2_sender_public_key e) in
      case (if has_session m peer_id then (Ok (), m)
            else init_receiver_v2_session L (dr_secret rnd) peer_id recipient_signing_key recipient_x25519_secret
                   our_mlkem_keypair our_bundle sender_bundle e m) of (r, m1) \<Rightarrow> or_return r m1 (\<lambda>_.
      case with_session_mut peer_id (decrypt_message_ratcheted_v2 L (dr_fresh rnd) e) m1 of
        (Err first_error, m2) \<Rightarrow>
          (case init_receiver_v2_session L (dr_secret_again rnd) peer_id recipient_signing_key recipient_x25519_secret
                  our_mlkem_keypair our_bundle sender_bundle e m2 of
             (Ok _, m3) \<Rightarrow>
               (case with_session_mut peer_id (decrypt_message_ratcheted_v2 L (dr_fresh_again rnd) e) m3 of
                  (Err retry_err, m4) \<Rightarrow> (Err first_error, m4)
                | res \<Rightarrow> res)
           | (Err init_err, m3) \<Rightarrow> (Err first_error, m3)
           | (Panic, m3) \<Rightarrow> (Panic, m3))
      | res \<Rightarrow> res))"

definition decrypt_with_ratchet_fallback ::
  "crypto_libs \<Rightarrow> session_libs \<Rightarrow> decrypt_rnd \<Rightarrow> bytes \<Rightarrow> bytes option \<Rightarrow> wire_envelope \<Rightarrow> mlkem768_key_pair option
    \<Rightarrow> public_key_bundle option \<Rightarrow> public_key_bundle option \<Rightarrow> 's session_manager option
    \<Rightarrow> (crypto_error, bytes) result \<times> 's session_manager option" where
  "decrypt_with_ratchet_fallback L J rnd recipient_signing_key recipient_x25519_secret w our_mlkem_keypair our_bundle sender_bundle mgr =
     (case w of
        WireV1 e \<Rightarrow>
          if is_ratcheted_envelope e
          then (case mgr of
                  Some m \<Rightarrow> (case receive_v1 L J rnd recipient_signing_key e m of (r, m') \<Rightarrow> (r, Some m'))
                | None \<Rightarrow> (Err NoActiveSession, mgr))
          else (decrypt_message L recipient_signing_key e, mgr)
      | WireV2 e \<Rightarrow>
          (case mgr of
             Some m \<Rightarrow>
               (case receive_v2 L J rnd recipient_signing_key recipient_x25519_secret our_mlkem_keypair our_bundle sender_bundle e m of
                  (r, m') \<Rightarrow> (r, Some m'))
           | None \<Rightarrow> (Err NoSessionManager, mgr)))"

end
