(* ===== verification/Session_Types.thy ===== *)
theory Session_Types
  imports Session_Dispatch
begin

text \<open>
  The sizes of everything a ratchet session holds.  The code has them in its types (\<open>[u8; 32]\<close>); here they
  are an invariant of every session that the manager creates, uses or loads, and they are what makes a
  session survive being stored.
\<close>

section \<open>Well-formed sessions\<close>

text \<open>The sizes of what the packages return.\<close>

definition sized_libs :: "crypto_libs \<Rightarrow> bool" where
  "sized_libs L \<longleftrightarrow> (\<forall>x. length (x25519_public L x) = 32) \<and> (\<forall>c v. length (b3_derive_key L c v) = 32)
     \<and> (\<forall>v. length (sha512 L v) = 64) \<and> (\<forall>p q. ed25519_to_montgomery L p = Some q \<longrightarrow> length q = 32)
     \<and> (\<forall>pk r. length pk = 1184 \<longrightarrow> length (fst (mlkem_encapsulate L pk r)) = 1088)"

definition opt_wf :: "('a \<Rightarrow> bool) \<Rightarrow> 'a option \<Rightarrow> bool" where
  "opt_wf P x \<longleftrightarrow> (case x of None \<Rightarrow> True | Some y \<Rightarrow> P y)"

lemma opt_wf_simps [simp]: "opt_wf P None" "opt_wf P (Some y) \<longleftrightarrow> P y"
  by (simp_all add: opt_wf_def)

definition key_wf :: "bytes \<Rightarrow> bool" where
  "key_wf k \<longleftrightarrow> length k = 32"

definition chain_wf :: "chain \<Rightarrow> bool" where
  "chain_wf c \<longleftrightarrow> key_wf (ch_chain_key c)"

definition hct_wf :: "hybrid_ciphertext \<Rightarrow> bool" where
  "hct_wf h \<longleftrightarrow> key_wf (hct_x25519_ephemeral_public h) \<and> length (hct_mlkem_ciphertext h) = 1088"

definition skipped_wf :: "skipped_keys \<Rightarrow> bool" where
  "skipped_wf m \<longleftrightarrow> hm_wf m \<and> (\<forall>((dh, idx), k) \<in> set m. key_wf dh \<and> key_wf k)"

definition session_wf :: "ratchet_session \<Rightarrow> bool" where
  "session_wf s \<longleftrightarrow> key_wf (rs_our_dh_secret s) \<and> key_wf (rs_our_dh_public s) \<and> opt_wf key_wf (rs_their_dh_public s)
     \<and> key_wf (rs_root_key s) \<and> opt_wf chain_wf (rs_sending_chain s) \<and> opt_wf chain_wf (rs_receiving_chain s)
     \<and> skipped_wf (rs_skipped_keys s) \<and> opt_wf key_wf (rs_our_identity_secret s)
     \<and> opt_wf key_wf (rs_transcript_hash s) \<and> opt_wf hct_wf (rs_bootstrap_hct s)"

definition bundle_wf :: "public_key_bundle \<Rightarrow> bool" where
  "bundle_wf b \<longleftrightarrow> key_wf (pb_x25519_public b)"

lemma sized_simps:
  assumes "sized_libs L"
  shows "key_wf (x25519_public L x)" "key_wf (b3_derive_key L c v)" "key_wf (ed25519_to_x25519_secret L sk)"
    "ed25519_to_montgomery L p = Some q \<Longrightarrow> key_wf q"
    "length pk = 1184 \<Longrightarrow> mlkem_encapsulate L pk r = (ct, ss) \<Longrightarrow> length ct = 1088"
  using assms unfolding sized_libs_def key_wf_def ed25519_to_x25519_secret_def
  by (auto simp: min_def) (metis fst_conv)

lemma skipped_wf_empty [simp]: "skipped_wf []"
  by (simp add: skipped_wf_def hm_wf_def)

lemma skipped_wf_insert: "skipped_wf m \<Longrightarrow> key_wf dh \<Longrightarrow> key_wf k \<Longrightarrow> skipped_wf (hm_insert (dh, n) k m)"
proof -
  have "set (hm_insert (dh, n) k m) \<subseteq> insert ((dh, n), k) (set m)" by (induction m) auto
  then show "skipped_wf m \<Longrightarrow> key_wf dh \<Longrightarrow> key_wf k \<Longrightarrow> skipped_wf (hm_insert (dh, n) k m)"
    unfolding skipped_wf_def hm_wf_def by (auto simp: distinct_update)
qed

lemma skipped_wf_remove: "skipped_wf m \<Longrightarrow> skipped_wf (hm_remove p m)"
  unfolding skipped_wf_def hm_wf_def by (auto simp: AList.delete_eq distinct_map_filter)

lemma skipped_wf_evict: "skipped_wf m \<Longrightarrow> skipped_wf (evict_skipped m)"
  by (auto simp: evict_skipped_def skipped_wf_remove split: option.split)

section \<open>The ratchet keeps sessions well formed\<close>

lemma next_message_key_wf:
  assumes "sized_libs L" and "next_message_key L c = (k, c')"
  shows "key_wf k" "chain_wf c'"
  using assms by (auto simp: next_message_key_def chain_wf_def derive_key_with_info_def sized_simps)

lemma skip_keys_wf:
  assumes "sized_libs L" and "key_wf dh"
  shows "chain_wf c \<Longrightarrow> skipped_wf m \<Longrightarrow> skip_keys L dh t c m = (c', m') \<Longrightarrow> chain_wf c' \<and> skipped_wf m'"
  using assms
proof (induction L dh t c m arbitrary: c' m' rule: skip_keys.induct)
  case (1 L dh t c m)
  obtain k d where n: "next_message_key L c = (k, d)" by (cases "next_message_key L c")
  note wf = next_message_key_wf [OF "1.prems"(4) n]
  show ?case
  proof (cases "ch_index c < t")
    case True
    then have "skip_keys L dh t d (evict_skipped (hm_insert (dh, ch_index d - 1) k m)) = (c', m')"
      using "1.prems"(3) n by (simp add: skip_keys.simps [of L dh t c])
    then show ?thesis
      using "1.IH" [OF True n [symmetric] refl refl] wf "1.prems" by (auto intro: skipped_wf_evict skipped_wf_insert)
  next
    case False
    then show ?thesis using "1.prems" by (simp add: skip_keys.simps [of L dh t c])
  qed
qed

lemma get_message_key_wf:
  assumes L: "sized_libs L" and "key_wf dh" and "session_wf s" and "get_message_key L dh n s = (r, s')"
  shows "session_wf s'"
proof (cases "hm_get (rs_skipped_keys s) (dh, n)")
  case (Some k)
  then show ?thesis using assms by (auto simp: get_message_key_def session_wf_def skipped_wf_remove)
next
  case None
  obtain c where c: "rs_receiving_chain s = Some c \<or> rs_receiving_chain s = None" by (cases "rs_receiving_chain s") auto
  obtain c1 m1 where k: "skip_keys L dh n c (rs_skipped_keys s) = (c1, m1)" by fastforce
  obtain k2 c2 where n: "next_message_key L c1 = (k2, c2)" by fastforce
  show ?thesis
    using None assms c skip_keys_wf [OF L assms(2) _ _ k] next_message_key_wf [OF L n]
    by (auto simp: get_message_key_def session_wf_def k n split: if_splits)
qed

lemma dh_ratchet_step_wf:
  assumes "sized_libs L" and "key_wf secret" and "key_wf dh" and "session_wf s"
  shows "session_wf (dh_ratchet_step L secret candidate dh s)"
  using assms
  by (auto simp: dh_ratchet_step_def Let_def split_def session_wf_def root_key_ratchet_def root_key_ratchet_v1_def
      root_key_ratchet_v2_def sized_simps Chain_new_def chain_wf_def)

lemma adopt_trial_wf: "session_wf s \<Longrightarrow> session_wf (adopt_trial L candidate s)"
  by (auto simp: adopt_trial_def Let_def session_wf_def split: option.split)

lemma try_candidates_wf:
  assumes "sized_libs L" and "\<And>i. key_wf (fresh i)" and "key_wf dh" and "session_wf s"
  shows "try_candidates L fresh dh n nonce c aad s i cs errors = (r, s') \<Longrightarrow> session_wf s'"
proof (induction cs arbitrary: i errors)
  case (Cons candidate cs)
  obtain r1 trial where g: "get_message_key L dh n (dh_ratchet_step L (fresh i) candidate dh s) = (r1, trial)" by fastforce
  have wf: "session_wf trial" by (rule get_message_key_wf [OF assms(1,3) dh_ratchet_step_wf [OF assms(1,2,3,4)] g])
  from Cons g show ?case
    using adopt_trial_wf [OF wf] assms(4) by (auto split: result.splits)
qed (use assms(4) in simp)

lemma decrypt_wf:
  assumes "sized_libs L" and "\<And>i. key_wf (fresh i)" and "session_wf s"
    and "RatchetSession_decrypt L fresh dh n nonce c aad s = (r, s')"
  shows "session_wf s'"
proof (cases "length dh = 32")
  case True
  then have dh: "key_wf dh" by (simp add: key_wf_def)
  obtain r1 s1 where g: "get_message_key L dh n s = (r1, s1)" by fastforce
  have wf: "session_wf s1" by (rule get_message_key_wf [OF assms(1) dh assms(3) g])
  then have "session_wf (s1\<lparr>rs_peer_confirmed := True\<rparr>)" "session_wf (s\<lparr>rs_skipped_keys := hm_remove (dh, n) (rs_skipped_keys s), rs_peer_confirmed := True\<rparr>)"
    using assms(3) by (auto simp: session_wf_def skipped_wf_remove)
  then show ?thesis
    using assms(3,4) True g try_candidates_wf [OF assms(1,2) dh assms(3)]
    by (auto simp: RatchetSession_decrypt_def handle_dh_ratchet_trial_def split: if_splits option.splits result.splits)
next
  case False
  then show ?thesis using assms(3,4) by (simp add: RatchetSession_decrypt_def)
qed

lemma encrypt_wf:
  assumes "sized_libs L" and "session_wf s" and "RatchetSession_encrypt L nonce p aad s = (r, s')"
  shows "session_wf s'"
  using assms
  by (auto simp: RatchetSession_encrypt_def Let_def session_wf_def dest: next_message_key_wf
      split: option.splits if_splits prod.splits)

text \<open>The post-quantum ratchet changes nothing that has a size here.\<close>

lemma perform_pq_wf: "session_wf s \<Longrightarrow> perform_pq_ratchet_step L e seed s = (r, s') \<Longrightarrow> session_wf s'"
  unfolding perform_pq_ratchet_step_def Let_def
  by (cases "pq_encapsulate L e (the (rs_pq_their_encaps_key s))") (auto simp: session_wf_def split: if_splits option.splits)

lemma handle_pq_wf: "session_wf s \<Longrightarrow> handle_incoming_pq_fields L ct ek s = (r, s') \<Longrightarrow> session_wf s'"
  unfolding handle_incoming_pq_fields_def Let_def by (auto simp: session_wf_def split: if_splits option.splits)

lemma process_pq_wf:
  assumes "session_wf s" and "process_pq_fields L n e s = (r, s')"
  shows "session_wf s'"
proof -
  have "s' = s \<or> (\<exists>ct ek r. handle_incoming_pq_fields L ct ek s = (r, s'))"
    using assms(2) unfolding process_pq_fields_def
    by (cases "if 0 < n \<and> n mod 100 = 0 then validate_pq_fields_present (v2_pq_kem_ciphertext e \<noteq> None) s else Ok ()")
      (auto simp: or_return_same split: if_splits option.splits prod.splits)
  then show ?thesis using assms(1) handle_pq_wf by blast
qed

lemma outgoing_pq_wf: "session_wf s \<Longrightarrow> outgoing_pq_fields L rnd s = (f, s') \<Longrightarrow> session_wf s'"
  using perform_pq_wf [of s L "er_encaps rnd" "er_seed rnd"]
  by (auto simp: outgoing_pq_fields_def Let_def split: if_splits option.splits prod.splits result.splits)

lemma confirmed_wf: "session_wf s \<Longrightarrow> session_wf (s\<lparr>rs_peer_confirmed := b\<rparr>)"
  by (simp add: session_wf_def)

lemma decrypt_message_wf:
  assumes "sized_libs L" and "\<And>i. key_wf (fresh i)" and "session_wf s"
    and "decrypt_message_ratcheted L fresh e s = (r, s')"
  shows "session_wf s'"
proof -
  obtain r1 s1 where d: "RatchetSession_decrypt L fresh (the (ev_ratchet_dh_public e)) (the (ev_ratchet_message_number e))
      (ev_nonce e) (ev_ciphertext e) (ev_sender_public_key e) s = (r1, s1)" by fastforce
  have "session_wf s1" by (rule decrypt_wf [OF assms(1-3) d])
  with d assms(3,4) show ?thesis
    by (cases r1) (auto simp: decrypt_message_ratcheted_def confirmed_wf split: option.splits if_splits)
qed

lemma decrypt_message_v2_wf:
  assumes "sized_libs L" and "\<And>i. key_wf (fresh i)" and "session_wf s"
    and "decrypt_message_ratcheted_v2 L fresh e s = (r, s')"
  shows "session_wf s'"
proof -
  obtain r0 s0 where p: "process_pq_fields L (the (v2_ratchet_message_number e)) e s = (r0, s0)" by fastforce
  have s0: "session_wf s0" by (rule process_pq_wf [OF assms(3) p])
  obtain r1 s1 where d: "RatchetSession_decrypt L fresh (the (v2_ratchet_dh_public e)) (the (v2_ratchet_message_number e))
      (v2_nonce e) (v2_ciphertext e) (v2_sender_public_key e) s0 = (r1, s1)" by fastforce
  have s1: "session_wf s1" by (rule decrypt_wf [OF assms(1,2) s0 d])
  from assms(4) p d have "s' \<in> {s, s0, s1, s1\<lparr>rs_peer_confirmed := True\<rparr>}"
    by (cases r0; cases r1) (auto simp: decrypt_message_ratcheted_v2_def split: option.splits if_splits)
  then show ?thesis using assms(3) s0 s1 confirmed_wf by blast
qed

lemma encrypt_message_wf:
  assumes "sized_libs L" and "session_wf s" and "encrypt_message_ratcheted L rnd k p s = (r, s')"
  shows "session_wf s'"
proof -
  obtain r1 s1 where e: "RatchetSession_encrypt L (er_nonce rnd) p (ed25519_public L k) s = (r1, s1)" by fastforce
  have s1: "session_wf s1" by (rule encrypt_wf [OF assms(1,2) e])
  obtain f s2 where o: "outgoing_pq_fields L rnd s1 = (f, s2)" by fastforce
  have s2: "session_wf s2" by (rule outgoing_pq_wf [OF s1 o])
  from assms(3) e o have "s' = s1 \<or> s' = s2"
    by (cases r1) (auto simp: encrypt_message_ratcheted_def Let_def split: prod.splits if_splits)
  then show ?thesis using s1 s2 by blast
qed

section \<open>New and stored sessions are well formed\<close>

lemma init_wf:
  assumes "sized_libs L" and "key_wf secret"
  shows "key_wf pk \<Longrightarrow> session_wf (init_as_sender L secret sk pk)" "session_wf (init_as_receiver L secret sk pk)"
  using assms by (auto simp: init_as_sender_def init_as_receiver_def Let_def split_def session_wf_def derive_root_key_v1_def
      root_key_ratchet_v1_def sized_simps Chain_new_def chain_wf_def)

lemma negotiated_wf: "session_wf s \<Longrightarrow> key_wf h \<Longrightarrow> session_wf (s\<lparr>rs_negotiated_suite := x, rs_transcript_hash := Some h\<rparr>)"
  by (simp add: session_wf_def)

lemma negotiate_hash_wf: "sized_libs L \<Longrightarrow> negotiate_suite L a b p q = Ok (suite, h) \<Longrightarrow> key_wf h"
  by (auto simp: negotiate_suite_def Let_def sized_simps split: list.splits)

lemma hybrid_sender_wf:
  assumes "sized_libs L" and "key_wf secret" and "bundle_wf b" and "key_wf h" and "hct_wf hct"
  shows "session_wf (hybrid_sender_session L secret seed suite b h hct root)"
  using assms by (simp add: hybrid_sender_session_def Let_def split_def session_wf_def bundle_wf_def
      root_key_ratchet_v2_def sized_simps Chain_new_def chain_wf_def)

lemma hybrid_receiver_wf:
  assumes "sized_libs L" and "key_wf secret" and "key_wf x" and "key_wf h" and "hct_wf hct" and "key_wf root"
  shows "session_wf (hybrid_receiver_session L secret suite x kp hct h root)"
  using assms by (simp add: hybrid_receiver_session_def session_wf_def sized_simps)

lemma hybrid_encapsulate_wf:
  assumes "sized_libs L" and "hybrid_encapsulate L e r x m = Ok (hct, ss)"
  shows "hct_wf hct"
  using assms by (auto simp: hybrid_encapsulate_def Let_def pq_encapsulate_def and_then_eq_Ok hct_wf_def sized_simps
      split: if_splits prod.splits)

lemma new_sender_session_wf:
  assumes L: "sized_libs L" and "key_wf (rnd_dh_secret rnd)" and "bundle_wf their"
    and "new_sender_session L rnd sk x ours their = Ok s"
  shows "session_wf s"
proof -
  from assms(4) obtain suite h where n: "negotiate_suite L (pb_supported_suites ours) (pb_supported_suites their)
      (pb_ed25519_public ours) (pb_ed25519_public their) = Ok (suite, h)"
    by (auto simp: new_sender_session_def and_then_eq_Ok)
  have h: "key_wf h" by (rule negotiate_hash_wf [OF L n])
  from assms(4) n show ?thesis
    by (auto simp: new_sender_session_def and_then_eq_Ok init_as_sender_hybrid_def init_as_sender_hybrid_suite02_def Let_def
        ed25519_public_to_x25519_def split: if_splits option.splits
        intro!: hybrid_sender_wf negotiated_wf init_wf L assms(2,3) h intro: hybrid_encapsulate_wf [OF L] sized_simps(4) [OF L])
qed

lemma new_receiver_session_wf:
  assumes L: "sized_libs L" and "key_wf secret" and "key_wf x" and "opt_wf hct_wf hct"
    and "new_receiver_session L secret sk x kp ours their hct = Ok s"
  shows "session_wf s"
proof -
  from assms(5) obtain suite h where n: "negotiate_suite L (pb_supported_suites their) (pb_supported_suites ours)
      (pb_ed25519_public their) (pb_ed25519_public ours) = Ok (suite, h)"
    by (auto simp: new_receiver_session_def and_then_eq_Ok)
  have h: "key_wf h" by (rule negotiate_hash_wf [OF L n])
  from assms(4,5) n show ?thesis
    by (auto simp: new_receiver_session_def and_then_eq_Ok init_as_receiver_hybrid_def init_as_receiver_hybrid_suite02_def Let_def
        split: if_splits option.splits
        intro!: hybrid_receiver_wf negotiated_wf init_wf L assms(2,3) h intro: sized_simps(2) [OF L])
qed

lemma decode_skipped_wf: "skipped_wf m \<Longrightarrow> decode_skipped J es m = Ok m' \<Longrightarrow> skipped_wf m'"
proof (induction J es m rule: decode_skipped.induct)
  case (2 J dh idx key es m)
  then show ?case
    by (auto simp: and_then_eq_Ok key_wf_def skipped_wf_insert split: option.splits if_splits)
qed simp

lemma decode_wf:
  assumes "\<forall>n h v. hex_decode_to_slice J n h = Some v \<longrightarrow> length v = n"
  shows "decode_32 J f h = Ok v \<Longrightarrow> key_wf v"
    "decode_opt_32 J f oh = Ok ov \<Longrightarrow> opt_wf key_wf ov"
    "decode_chain J f cs = Ok c \<Longrightarrow> opt_wf chain_wf c"
    "decode_hct J eh mh = Ok hct \<Longrightarrow> opt_wf hct_wf hct"
proof -
  show k: "decode_32 J f h = Ok v \<Longrightarrow> key_wf v" for f h v
    by (auto simp: decode_32_def key_wf_def split: option.splits if_splits)
  show "decode_opt_32 J f oh = Ok ov \<Longrightarrow> opt_wf key_wf ov"
    by (cases oh) (auto simp: decode_opt_32_def and_then_eq_Ok dest: k)
  show "decode_chain J f cs = Ok c \<Longrightarrow> opt_wf chain_wf c"
    using assms by (auto simp: decode_chain_def chain_wf_def key_wf_def Chain_new_with_index_def split: option.splits)
  show "decode_hct J eh mh = Ok hct \<Longrightarrow> opt_wf hct_wf hct"
    by (auto simp: decode_hct_def and_then_eq_Ok hct_wf_def key_wf_def split: option.splits if_splits)
qed

lemma into_session_wf:
  assumes "\<forall>n h v. hex_decode_to_slice J n h = Some v \<longrightarrow> length v = n" and "into_session J z = Ok s"
  shows "session_wf s"
  using assms(2) decode_skipped_wf [OF skipped_wf_empty]
  by (auto simp: into_session_def and_then_eq_Ok session_wf_def dest: decode_wf [OF assms(1)])

section \<open>Managers\<close>

definition manager_wf :: "'s session_manager \<Rightarrow> bool" where
  "manager_wf m \<longleftrightarrow> hm_wf (sm_sessions m) \<and> (\<forall>p s. get_session m p = Some s \<longrightarrow> session_wf s)"

lemma get_put_session [simp]: "get_session (put_session p s m) q = (if q = p then Some s else get_session m q)"
  by (simp add: get_session_def put_session_def update_conv')

lemma put_session_wf: "manager_wf m \<Longrightarrow> session_wf s \<Longrightarrow> manager_wf (put_session p s m)"
  by (simp add: manager_wf_def) (simp add: put_session_def hm_wf_def distinct_update)

lemma get_session_wf: "manager_wf m \<Longrightarrow> get_session m p = Some s \<Longrightarrow> session_wf s"
  by (simp add: manager_wf_def)

lemma remove_session_wf: "manager_wf m \<Longrightarrow> manager_wf (remove_session p m)"
  by (auto simp: manager_wf_def remove_session_def get_session_def hm_wf_def delete_conv' distinct_delete split: if_splits)

definition result_wf :: "(crypto_error, ratchet_session) result \<times> 's session_manager \<Rightarrow> bool" where
  "result_wf rm \<longleftrightarrow> manager_wf (snd rm) \<and> (\<forall>s. fst rm = Ok s \<longrightarrow> session_wf s)"

lemma create_wf:
  assumes "sized_libs L" and "manager_wf m" and "key_wf secret"
  shows "key_wf pk \<Longrightarrow> result_wf (get_or_create_session L secret p sk pk m)"
    "result_wf (create_receiver_session L secret p sk pk m)"
  using assms by (auto simp: get_or_create_session_def create_receiver_session_def result_wf_def Let_def
      get_session_wf init_wf intro!: put_session_wf split: option.splits)

lemma create_hybrid_wf:
  assumes "sized_libs L" and "manager_wf m"
  shows "key_wf (rnd_dh_secret rnd) \<Longrightarrow> bundle_wf their \<Longrightarrow> result_wf (get_or_create_session_hybrid L rnd p sk x ours their m)"
    "key_wf secret \<Longrightarrow> key_wf x \<Longrightarrow> opt_wf hct_wf hct \<Longrightarrow> result_wf (create_receiver_session_hybrid L secret p sk x kp ours their hct m)"
proof -
  show "result_wf (get_or_create_session_hybrid L rnd p sk x ours their m)" if "key_wf (rnd_dh_secret rnd)" "bundle_wf their"
    using assms that new_sender_session_wf [OF assms(1) that]
    by (cases "new_sender_session L rnd sk x ours their")
      (auto simp: get_or_create_session_hybrid_def result_wf_def get_session_wf intro!: put_session_wf split: option.splits)
  show "result_wf (create_receiver_session_hybrid L secret p sk x kp ours their hct m)"
    if "key_wf secret" "key_wf x" "opt_wf hct_wf hct"
    using assms(2) new_receiver_session_wf [OF assms(1) that]
    by (cases "new_receiver_session L secret sk x kp ours their hct")
      (auto simp: create_receiver_session_hybrid_def result_wf_def intro!: put_session_wf)
qed

lemma encrypt_session_wf:
  assumes "sized_libs L" and "result_wf rm"
  shows "manager_wf (snd (encrypt_session L rnd sk pt p rm))"
proof (cases "fst rm")
  case (Ok s)
  obtain w s' where e: "encrypt_message_ratcheted L rnd sk pt s = (w, s')" by fastforce
  show ?thesis
    using assms(2) Ok encrypt_message_wf [OF assms(1) _ e]
    by (cases rm) (auto simp: encrypt_session_def result_wf_def e intro: put_session_wf)
qed (use assms(2) in \<open>cases rm; simp add: encrypt_session_def result_wf_def\<close>)+

lemma ratcheted_send_wf:
  assumes "sized_libs L" and "manager_wf m" and "key_wf (rnd_dh_secret srnd)" and "opt_wf bundle_wf their"
  shows "manager_wf (snd (ratcheted_send L srnd rnd sk their pk pt p ours x m))"
proof (cases "\<exists>b t. ours = Some b \<and> their = Some t")
  case True
  then show ?thesis
    using assms encrypt_session_wf [OF assms(1) create_hybrid_wf(1) [OF assms(1,2,3)]]
    by (cases x) (auto simp: ratcheted_send_def)
next
  case False
  then have e: "ratcheted_send L srnd rnd sk their pk pt p ours x m =
      or_return (ed25519_public_to_x25519 L pk) m (\<lambda>q. encrypt_session L rnd sk pt p (get_or_create_session L (rnd_dh_secret srnd) p sk q m))"
    by (auto simp: ratcheted_send_def split: option.splits)
  show ?thesis
    using assms encrypt_session_wf [OF assms(1) create_wf(1) [OF assms(1,2,3)]] sized_simps(4) [OF assms(1)]
    by (cases "ed25519_to_montgomery L pk") (auto simp: e ed25519_public_to_x25519_def)
qed

lemma send_wf:
  assumes "sized_libs L" and "manager_wf m" and "key_wf (rnd_dh_secret srnd)" and "opt_wf bundle_wf their"
    and "encrypt_with_ratchet_fallback L A srnd rnd uuid now sk their pk pt p ours x rq (Some m) audit = (r, Some m', audit')"
  shows "manager_wf m'"
proof -
  obtain r1 m1 where s: "ratcheted_send L srnd rnd sk their pk pt p ours x m = (r1, m1)" by fastforce
  have m1: "manager_wf m1" using ratcheted_send_wf [OF assms(1-4), of rnd sk pk pt p ours x] s by simp
  obtain b where b: "should_use_ratcheted_encryption their (has_session m p) rq p = b" by simp
  obtain r2 a2 where a: "audit_static_send A uuid now p audit = (r2, a2)" by fastforce
  from assms(5) s b a have "m' = m \<or> m' = m1"
    by (cases b; cases r2) (auto simp: encrypt_with_ratchet_fallback_def split: if_splits)
  then show ?thesis using assms(2) m1 by blast
qed

lemma with_session_wf:
  assumes "manager_wf m" and "\<And>s r s'. session_wf s \<Longrightarrow> f s = (r, s') \<Longrightarrow> session_wf s'" and "with_session_mut p f m = (r, m')"
  shows "manager_wf m'"
  using assms by (auto simp: with_session_mut_def get_session_wf intro!: put_session_wf split: option.splits prod.splits)
    (metis get_session_wf)

lemma init_v1_wf:
  assumes "sized_libs L" and "manager_wf m" and "key_wf secret" and "init_receiver_v1_session L secret sk p e m = (r, m')"
  shows "manager_wf m'"
proof (cases "length (ev_sender_public_key e) = 32")
  case True
  then show ?thesis
    using assms(2,4) create_wf(2) [OF assms(1-3)]
    by (cases "ed25519_public_to_x25519 L (ev_sender_public_key e)")
      (auto simp: init_receiver_v1_session_def result_wf_def split: prod.splits, metis snd_conv)
qed (use assms(2,4) in \<open>simp add: init_receiver_v1_session_def\<close>)

lemma envelope_hct_wf: "envelope_hct e = Ok h \<Longrightarrow> opt_wf hct_wf h"
  by (auto simp: envelope_hct_def hct_wf_def key_wf_def split: option.splits if_splits)

lemma init_v2_wf:
  assumes "sized_libs L" and "manager_wf m" and "key_wf secret" and "opt_wf key_wf x"
    and "init_receiver_v2_session L secret p sk x kp ours their e m = (r, m')"
  shows "manager_wf m'"
proof (cases "\<exists>k b t y h. kp = Some k \<and> ours = Some b \<and> their = Some t \<and> x = Some y \<and> envelope_hct e = Ok h")
  case True
  then obtain k o' t y h where a: "kp = Some k" "ours = Some o'" "their = Some t" "x = Some y" "envelope_hct e = Ok h" by blast
  obtain r1 m1 where c: "create_receiver_session_hybrid L secret p sk y k o' t h m = (r1, m1)" by fastforce
  have "result_wf (create_receiver_session_hybrid L secret p sk y k o' t h m)"
    by (rule create_hybrid_wf(2) [OF assms(1,2,3) _ envelope_hct_wf [OF a(5)]]) (use assms(4) a in simp)
  then show ?thesis using assms(5) a c by (simp add: init_receiver_v2_session_def result_wf_def)
next
  case False
  then show ?thesis using assms(2,5)
    by (cases "envelope_hct e") (auto simp: init_receiver_v2_session_def split: option.splits)
qed

lemma receive_v1_wf:
  assumes L: "sized_libs L" and "manager_wf m" and rnd: "key_wf (dr_secret rnd)" "key_wf (dr_secret_again rnd)"
    "\<And>i. key_wf (dr_fresh rnd i)" "\<And>i. key_wf (dr_fresh_again rnd i)"
    and e: "receive_v1 L J rnd sk e m = (r, m')"
  shows "manager_wf m'"
proof -
  let ?p = "peer_of L J (ev_sender_public_key e)"
  obtain r1 m1 where i: "(if has_session m ?p then (Ok (), m) else init_receiver_v1_session L (dr_secret rnd) sk ?p e m) = (r1, m1)" by fastforce
  have m1: "manager_wf m1" using i assms(2) init_v1_wf [OF L assms(2) rnd(1)] by (auto split: if_splits)
  obtain r2 m2 where w: "with_session_mut ?p (decrypt_message_ratcheted L (dr_fresh rnd) e) m1 = (r2, m2)" by fastforce
  have m2: "manager_wf m2" by (rule with_session_wf [OF m1 _ w]) (rule decrypt_message_wf [OF L rnd(3)])
  obtain r3 m3 where i3: "init_receiver_v1_session L (dr_secret_again rnd) sk ?p e m2 = (r3, m3)" by fastforce
  have m3: "manager_wf m3" by (rule init_v1_wf [OF L m2 rnd(2) i3])
  obtain r4 m4 where w4: "with_session_mut ?p (decrypt_message_ratcheted L (dr_fresh_again rnd) e) m3 = (r4, m4)" by fastforce
  have m4: "manager_wf m4" by (rule with_session_wf [OF m3 _ w4]) (rule decrypt_message_wf [OF L rnd(4)])
  from e i w i3 w4 have "m' \<in> {m1, m2, m3, m4}"
    by (cases r1; cases r2; cases r3; cases r4) (simp_all add: receive_v1_def Let_def)
  then show ?thesis using m1 m2 m3 m4 by blast
qed

lemma receive_v2_wf:
  assumes L: "sized_libs L" and "manager_wf m" and rnd: "key_wf (dr_secret rnd)" "key_wf (dr_secret_again rnd)"
    "\<And>i. key_wf (dr_fresh rnd i)" "\<And>i. key_wf (dr_fresh_again rnd i)" and x: "opt_wf key_wf x"
    and e: "receive_v2 L J rnd sk x kp ours their e m = (r, m')"
  shows "manager_wf m'"
proof -
  let ?p = "peer_of L J (v2_sender_public_key e)"
  obtain r1 m1 where i: "(if has_session m ?p then (Ok (), m)
      else init_receiver_v2_session L (dr_secret rnd) ?p sk x kp ours their e m) = (r1, m1)" by fastforce
  have m1: "manager_wf m1" using i assms(2) init_v2_wf [OF L assms(2) rnd(1) x] by (auto split: if_splits)
  obtain r2 m2 where w: "with_session_mut ?p (decrypt_message_ratcheted_v2 L (dr_fresh rnd) e) m1 = (r2, m2)" by fastforce
  have m2: "manager_wf m2" by (rule with_session_wf [OF m1 _ w]) (rule decrypt_message_v2_wf [OF L rnd(3)])
  obtain r3 m3 where i3: "init_receiver_v2_session L (dr_secret_again rnd) ?p sk x kp ours their e m2 = (r3, m3)" by fastforce
  have m3: "manager_wf m3" by (rule init_v2_wf [OF L m2 rnd(2) x i3])
  obtain r4 m4 where w4: "with_session_mut ?p (decrypt_message_ratcheted_v2 L (dr_fresh_again rnd) e) m3 = (r4, m4)" by fastforce
  have m4: "manager_wf m4" by (rule with_session_wf [OF m3 _ w4]) (rule decrypt_message_v2_wf [OF L rnd(4)])
  from e i w i3 w4 have "m' \<in> {m1, m2, m3, m4}"
    by (cases r1; cases r2; cases r3; cases r4) (simp_all add: receive_v2_def Let_def)
  then show ?thesis using m1 m2 m3 m4 by blast
qed

section \<open>Loading\<close>

text \<open>What the package \<open>hex\<close> documents: a slice is filled completely, and decoding undoes encoding.\<close>

definition hex_correct :: "session_libs \<Rightarrow> bool" where
  "hex_correct J \<longleftrightarrow> (\<forall>n h v. hex_decode_to_slice J n h = Some v \<longrightarrow> length v = n)
     \<and> (\<forall>v. hex_decode J (hex_encode J v) = Some v \<and> hex_decode_to_slice J (length v) (hex_encode J v) = Some v)"

lemma merge_sessions_wf: "hex_correct J \<Longrightarrow> manager_wf m \<Longrightarrow> manager_wf (merge_sessions J es m)"
proof (induction J es m rule: merge_sessions.induct)
  case (2 J p z es m)
  then show ?case
    using into_session_wf [of J z] by (auto simp: hex_correct_def intro: put_session_wf split: result.split)
qed simp

lemma decode_new_sessions_wf:
  "hex_correct J \<Longrightarrow> decode_new_sessions J m es = Ok ds \<Longrightarrow> (p, s) \<in> set ds \<Longrightarrow> session_wf s"
proof (induction J m es arbitrary: ds rule: decode_new_sessions.induct)
  case (2 J m p z es)
  then show ?case
    using into_session_wf [of J z] by (auto simp: and_then_eq_Ok hex_correct_def split: if_splits)
qed simp

lemma fold_put_wf: "\<forall>(p, s) \<in> set ds. session_wf s \<Longrightarrow> manager_wf m \<Longrightarrow> manager_wf (fold (\<lambda>(p, s). put_session p s) ds m)"
  by (induction ds arbitrary: m) (auto intro: put_session_wf)

lemma import_wf:
  assumes "hex_correct J" and "manager_wf m" and "deserialize_sessions_strict J json m = (r, m')"
  shows "manager_wf m'"
proof (cases "parse_sessions J json")
  case (Ok es)
  then show ?thesis
    using assms decode_new_sessions_wf [OF assms(1)]
    by (cases "decode_new_sessions J m es") (auto simp: deserialize_sessions_strict_def intro!: fold_put_wf)
qed (use assms in \<open>auto simp: deserialize_sessions_strict_def\<close>)

lemma load_wf:
  assumes "hex_correct J" and "manager_wf m" and "SessionManager_load J st m = (r, m')"
  shows "manager_wf m'"
proof -
  have "m' = m \<or> (\<exists>es. m' = merge_sessions J es m)"
    using assms(3) unfolding SessionManager_load_def deserialize_sessions_def
    by (auto elim!: or_return_cases split: option.splits)
  then show ?thesis using assms(1,2) merge_sessions_wf by blast
qed

section \<open>Reachable managers\<close>

text \<open>
  The operations of a running node on its manager, with arguments of the sizes that the code has in their
  types; envelopes, plaintexts, stored bytes and backups are arbitrary.
\<close>

inductive manager_reach :: "crypto_libs \<Rightarrow> session_libs \<Rightarrow> 's session_manager \<Rightarrow> bool" for L J where
  new: "manager_reach L J SessionManager_new"
| with_backend: "manager_reach L J (SessionManager_with_backend vt)"
| send: "manager_reach L J m \<Longrightarrow> key_wf (rnd_dh_secret srnd) \<Longrightarrow> opt_wf bundle_wf their \<Longrightarrow>
    encrypt_with_ratchet_fallback L A srnd rnd uuid now sk their pk pt p ours x rq (Some m) audit = (r, Some m', audit') \<Longrightarrow>
    manager_reach L J m'"
| receive: "manager_reach L J m \<Longrightarrow> key_wf (dr_secret rnd') \<Longrightarrow> key_wf (dr_secret_again rnd') \<Longrightarrow>
    (\<And>i. key_wf (dr_fresh rnd' i)) \<Longrightarrow> (\<And>i. key_wf (dr_fresh_again rnd' i)) \<Longrightarrow> opt_wf key_wf x \<Longrightarrow>
    decrypt_with_ratchet_fallback L J rnd' sk x w kp ours their (Some m) = (r', Some m') \<Longrightarrow> manager_reach L J m'"
| load: "manager_reach L J m \<Longrightarrow> SessionManager_load J st m = (r'', m') \<Longrightarrow> manager_reach L J m'"
| restore: "manager_reach L J m \<Longrightarrow> deserialize_sessions_strict J json m = (r'', m') \<Longrightarrow> manager_reach L J m'"
| remove: "manager_reach L J m \<Longrightarrow> manager_reach L J (remove_session p m)"

lemma receive_wf:
  assumes "sized_libs L" and "manager_wf m" and "key_wf (dr_secret rnd)" "key_wf (dr_secret_again rnd)"
    "\<And>i. key_wf (dr_fresh rnd i)" "\<And>i. key_wf (dr_fresh_again rnd i)" and "opt_wf key_wf x"
    and "decrypt_with_ratchet_fallback L J rnd sk x w kp ours their (Some m) = (r, Some m')"
  shows "manager_wf m'"
proof (cases w)
  case (WireV1 e)
  obtain r1 m1 where r: "receive_v1 L J rnd sk e m = (r1, m1)" by fastforce
  have "manager_wf m1" by (rule receive_v1_wf [OF assms(1-6) r])
  then show ?thesis using assms(2,8) r WireV1 by (auto simp: decrypt_with_ratchet_fallback_def split: if_splits)
next
  case (WireV2 e)
  obtain r1 m1 where r: "receive_v2 L J rnd sk x kp ours their e m = (r1, m1)" by fastforce
  have "manager_wf m1" by (rule receive_v2_wf [OF assms(1-7) r])
  then show ?thesis using assms(8) r WireV2 by (simp add: decrypt_with_ratchet_fallback_def)
qed

lemma manager_reach_wf: "manager_reach L J m \<Longrightarrow> sized_libs L \<Longrightarrow> hex_correct J \<Longrightarrow> manager_wf m"
proof (induction rule: manager_reach.induct)
  case new
  show ?case by (simp add: manager_wf_def SessionManager_new_def get_session_def hm_wf_def)
next
  case (with_backend vt)
  show ?case by (simp add: manager_wf_def SessionManager_with_backend_def get_session_def hm_wf_def)
qed (auto intro: send_wf receive_wf load_wf import_wf remove_session_wf)

end
