(* ===== verification/Message_Security.thy ===== *)
theory Message_Security
  imports Message_Encryption
begin

text \<open>
  What the encryption of messages guarantees, and where the post-quantum ratchet of hybrid sessions
  falls short of what its comments promise.
\<close>

section \<open>Decryption commits on success only\<close>

lemma try_candidates_unchanged:
  "try_candidates L fresh d n nonce c aad s i cs errors = (r, s') \<Longrightarrow> \<not> is_ok r \<Longrightarrow> s' = s"
proof (induction cs arbitrary: i errors)
  case (Cons candidate cs)
  then show ?case by (auto simp: open_message_def split: prod.splits result.splits if_splits option.splits)
qed simp

lemma decrypt_unchanged:
  assumes "RatchetSession_decrypt L fresh d n nonce c aad s = (r, s')" and "\<not> is_ok r"
  shows "s' = s"
  using assms
  by (auto simp: RatchetSession_decrypt_def handle_dh_ratchet_trial_def try_candidates_unchanged open_message_def
      split: if_splits option.splits prod.splits result.splits)

text \<open>The key of a message depends on the receiving chain and the skipped keys only.\<close>

lemma get_message_key_cong:
  assumes "rs_receiving_chain s = rs_receiving_chain t" "rs_skipped_keys s = rs_skipped_keys t"
  shows "fst (get_message_key L d n s) = fst (get_message_key L d n t)"
  using assms by (auto simp: get_message_key_def split_def Let_def split: option.splits)

lemma get_message_key_frame:
  assumes "get_message_key L d n s = (r, t)"
  shows "rs_root_key t = rs_root_key s" "rs_sending_chain t = rs_sending_chain s" "rs_pq_pending_recv t = rs_pq_pending_recv s"
    "rs_our_dh_secret t = rs_our_dh_secret s"
  using assms by (auto simp: get_message_key_def split_def Let_def split: option.splits if_splits)

lemma dh_ratchet_step_recv:
  "rs_receiving_chain (dh_ratchet_step L f c d s) = rs_receiving_chain (dh_ratchet_step L f' c' d s)"
  "rs_skipped_keys (dh_ratchet_step L f c d s) = rs_skipped_keys s"
  by (simp_all add: dh_ratchet_step_def Let_def split_def)

lemma trial_message_key:
  "fst (get_message_key L d n (dh_ratchet_step L f c d s)) = fst (get_message_key L d n (dh_ratchet_step L f' c' d s))"
  by (rule get_message_key_cong) (simp_all add: dh_ratchet_step_recv dh_ratchet_step_recv(1) [of L f c d s f' c'])

lemma get_message_key_no_panic: "fst (get_message_key L d n s) \<noteq> Panic"
  by (simp add: get_message_key_def split_def Let_def split: option.splits)

text \<open>A trial with one candidate succeeds exactly when any other does.\<close>

lemma try_candidates_ok:
  "is_ok (fst (try_candidates L fresh d n nonce c aad s i (candidate # cs) errors)) \<longleftrightarrow>
     (case fst (get_message_key L d n (dh_ratchet_step L (fresh 0) None d s)) of
        Ok k \<Rightarrow> is_ok (open_message L DecryptionFailed k nonce c aad) | _ \<Rightarrow> False)"
proof (induction cs arbitrary: i candidate errors)
  case Nil
  show ?case
    using trial_message_key [of L d n "fresh i" candidate s "fresh 0" None] by (auto split: prod.splits result.splits)
next
  case (Cons candidate' cs)
  have "fst (get_message_key L d n (dh_ratchet_step L (fresh i) candidate d s)) = fst (get_message_key L d n (dh_ratchet_step L (fresh 0) None d s))"
    by (rule trial_message_key)
  moreover have "is_ok (open_message L e k nonce c aad) = is_ok (open_message L DecryptionFailed k nonce c aad)" for e k
    by (simp add: open_message_def split: option.splits)
  ultimately show ?case
    using Cons.IH [of "Suc i" candidate'] get_message_key_no_panic [of L d n "dh_ratchet_step L (fresh 0) None d s"]
    by (cases "get_message_key L d n (dh_ratchet_step L (fresh i) candidate d s)")
      (auto simp del: try_candidates.simps(2) simp: try_candidates.simps(2) [of L fresh d n nonce c aad s i candidate] split: result.splits)
qed

lemma try_candidates_first:
  assumes "is_ok (fst (try_candidates L fresh d n nonce c aad s i (candidate # cs) errors))"
  shows "snd (try_candidates L fresh d n nonce c aad s i (candidate # cs) errors)
    = adopt_trial L candidate (snd (get_message_key L d n (dh_ratchet_step L (fresh i) candidate d s)))"
proof -
  from assms [unfolded try_candidates_ok] trial_message_key [of L d n "fresh i" candidate s "fresh 0" None]
  obtain k where k: "fst (get_message_key L d n (dh_ratchet_step L (fresh i) candidate d s)) = Ok k" "is_ok (open_message L DecryptionFailed k nonce c aad)"
    by (auto split: result.splits)
  then show ?thesis
    by (cases "get_message_key L d n (dh_ratchet_step L (fresh i) candidate d s)") (auto simp: is_ok_iff)
qed

lemma decrypt_trial:
  assumes "length d = 32" "hm_get (rs_skipped_keys s) (d, n) = None" "rs_their_dh_public s \<noteq> Some d" "rs_pq_pending_sent s = Some p"
  shows "RatchetSession_decrypt L fresh d n nonce c aad s = try_candidates L fresh d n nonce c aad s 0 [Some (pp_ss p), None] []"
  using assms by (simp add: RatchetSession_decrypt_def handle_dh_ratchet_trial_def del: try_candidates.simps)

section \<open>Envelopes of hybrid sessions\<close>

text \<open>The envelope of message number \<open>i\<close>, as the other side sees it.\<close>

definition v2_carries :: "crypto_libs \<Rightarrow> bytes \<Rightarrow> ratchet_key \<Rightarrow> nat \<Rightarrow> bytes \<Rightarrow> envelope_v2 \<Rightarrow> bool" where
  "v2_carries L d ck i plaintext e \<longleftrightarrow> v2_ratchet_dh_public e = Some d \<and> v2_ratchet_message_number e = Some (of_nat i)
     \<and> (\<exists>r. carries L d (v2_sender_public_key e) ck i plaintext r \<and> re_nonce r = v2_nonce e \<and> re_ciphertext r = v2_ciphertext e)"

lemma encrypt_v2:
  assumes "aead_correct L" "is_pq_hybrid s" "rs_sending_chain s = Some (chain_at L ck j)" "rs_dh_step_count s < MAX_RATCHET_STEPS"
    and "length (er_nonce rnd) = 24" "length plaintext \<le> 2 ^ 38 - 64"
    and "outgoing_pq_fields L rnd (s\<lparr>rs_sending_chain := Some (chain_at L ck (Suc j))\<rparr>) = ((pq_ct, pq_key), s2)"
    and "rs_peer_confirmed s2 = rs_peer_confirmed s" "rs_transcript_hash s2 = rs_transcript_hash s"
  obtains e where "encrypt_message_ratcheted L rnd sk plaintext s = (Ok (WireV2 e), s2)"
    and "v2_carries L (rs_our_dh_public s) ck j plaintext e" "v2_pq_kem_ciphertext e = pq_ct" "v2_pq_encaps_key e = pq_key"
    and "v2_transcript_hash e = (if rs_peer_confirmed s then None else rs_transcript_hash s)"
proof -
  let ?s = "s\<lparr>rs_sending_chain := Some (chain_at L ck (Suc j))\<rparr>"
  obtain r where r: "RatchetSession_encrypt L (er_nonce rnd) plaintext (ed25519_public L sk) s = (Ok r, ?s)"
      "carries L (rs_our_dh_public s) (ed25519_public L sk) ck j plaintext r"
    using encrypt_carries [OF assms(1,3-6)] by blast
  have h: "is_pq_hybrid ?s" using assms(2) by (simp add: is_pq_hybrid_def)
  show thesis
    by (rule that) (use r h assms(7-9) in \<open>auto simp: encrypt_message_ratcheted_def Let_def v2_carries_def carries_def\<close>)
qed

lemma decrypt_v2:
  assumes "v2_carries L d ck i plaintext e" "process_pq_fields L (of_nat i) e s = (Ok (), s1)"
    and "rs_peer_confirmed s \<or> v2_transcript_hash e = None \<or> v2_transcript_hash e = rs_transcript_hash s"
    and "RatchetSession_decrypt L fresh d (of_nat i) (v2_nonce e) (v2_ciphertext e) (v2_sender_public_key e) s1 = (r, s2)"
  shows "decrypt_message_ratcheted_v2 L fresh e s = or_return r s2 (\<lambda>p. (Ok p, s2\<lparr>rs_peer_confirmed := True\<rparr>))"
proof -
  have "length (v2_nonce e) = 24" using assms(1) by (auto simp: v2_carries_def carries_def)
  then show ?thesis
    using assms by (auto simp: decrypt_message_ratcheted_v2_def v2_carries_def split: option.splits)
qed

lemma received_confirmed [simp]: "(received L d ck m D s)\<lparr>rs_peer_confirmed := True\<rparr> = received L d ck m D s"
  by (simp add: received_def)

text \<open>The hybrid part of a pair of sessions that were just established.\<close>

definition bootstrapped :: "crypto_libs \<Rightarrow> ratchet_session \<Rightarrow> ratchet_session \<Rightarrow> bytes \<Rightarrow> bytes \<Rightarrow> bytes \<Rightarrow> bool" where
  "bootstrapped L a b ct key ss \<longleftrightarrow> is_pq_hybrid a \<and> is_pq_hybrid b \<and> \<not> rs_peer_confirmed a \<and> \<not> rs_peer_confirmed b
     \<and> rs_transcript_hash a = rs_transcript_hash b \<and> rs_pq_prev_keypair b = None \<and> rs_pq_last_mixed_fp b = None
     \<and> map_option hct_mlkem_ciphertext (rs_bootstrap_hct a) = Some ct \<and> map_option kp_pub_key (rs_pq_our_keypair a) = Some key
     \<and> (\<exists>kp. rs_pq_our_keypair b = Some kp \<and> pq_decapsulate L kp ct = Ok ss)"

lemma hybrid_decapsulate_mlkem: "hybrid_decapsulate L x kp hct = Ok k \<Longrightarrow> \<exists>ss. pq_decapsulate L kp (hct_mlkem_ciphertext hct) = Ok ss"
  by (auto simp: hybrid_decapsulate_def Let_def and_then_eq_Ok split: if_splits)

lemma established_bootstrapped:
  assumes "established L a b" "is_pq_hybrid a"
  shows "\<exists>ct key ss. bootstrapped L a b ct key ss"
  using assms
proof cases
  case (classical dh_a sk_a sk_b dh_b)
  then show ?thesis using assms(2) by (simp add: init_as_sender_def is_pq_hybrid_def Let_def split_def)
next
  case (suite03 bundle_a x_a bundle_b x_b seed rnd transcript hct dh_b)
  from suite03(4) obtain hct' r where a: "a = hybrid_sender_session L (rnd_dh_secret rnd) (rnd_seed rnd) 3 bundle_b transcript hct' r"
    by (auto simp: init_as_sender_hybrid_def and_then_eq_Ok Let_def)
  from suite03(6) obtain k r' where b: "b = hybrid_receiver_session L dh_b 3 x_b (mlkem_from_seed L seed) hct transcript r'"
      and k: "hybrid_decapsulate L x_b (mlkem_from_seed L seed) hct = Ok k"
    by (auto simp: init_as_receiver_hybrid_def and_then_eq_Ok Let_def)
  show ?thesis
    using hybrid_decapsulate_mlkem [OF k] suite03(5)
    by (auto simp: a b bootstrapped_def hybrid_sender_session_def hybrid_receiver_session_def is_pq_hybrid_def HYBRID_SUITE_IDS_def Let_def split_def)
next
  case (suite02 bundle_b x_b seed rnd transcript hct dh_b)
  from suite02(3) obtain hct' r where a: "a = hybrid_sender_session L (rnd_dh_secret rnd) (rnd_seed rnd) 2 bundle_b transcript hct' r"
    by (auto simp: init_as_sender_hybrid_suite02_def and_then_eq_Ok Let_def)
  from suite02(5) obtain k r' where b: "b = hybrid_receiver_session L dh_b 2 x_b (mlkem_from_seed L seed) hct transcript r'"
      and k: "hybrid_decapsulate L x_b (mlkem_from_seed L seed) hct = Ok k"
    by (auto simp: init_as_receiver_hybrid_suite02_def and_then_eq_Ok Let_def)
  show ?thesis
    using hybrid_decapsulate_mlkem [OF k] suite02(4)
    by (auto simp: a b bootstrapped_def hybrid_sender_session_def hybrid_receiver_session_def is_pq_hybrid_def HYBRID_SUITE_IDS_def Let_def split_def)
qed

text \<open>Until a reply arrives, the initiator repeats the bootstrap fields in every envelope.\<close>

lemma outgoing_unconfirmed:
  assumes "bootstrapped L a b ct key ss"
  shows "outgoing_pq_fields L rnd (a\<lparr>rs_sending_chain := c\<rparr>) = ((Some ct, Some key), a\<lparr>rs_sending_chain := c\<rparr>)"
  using assms by (auto simp: outgoing_pq_fields_def bootstrapped_def)

lemma outgoing_first:
  "rs_peer_confirmed s \<Longrightarrow> outgoing_pq_fields L rnd (s\<lparr>rs_sending_chain := Some (chain_at L ck (Suc 0))\<rparr>)
     = ((None, None), s\<lparr>rs_sending_chain := Some (chain_at L ck (Suc 0))\<rparr>)"
  by (simp add: outgoing_pq_fields_def sending_chain_state_def sat_sub_def)

text \<open>The session after the fields of an envelope have been processed.\<close>

definition pq_noted :: "bytes \<Rightarrow> bytes \<Rightarrow> ratchet_session \<Rightarrow> ratchet_session" where
  "pq_noted ss key s = s\<lparr>rs_pq_pending_recv := Some ss, rs_pq_their_encaps_key := Some key, rs_pq_pending_ct := None\<rparr>"

lemma first_envelope:
  assumes "ready L a b" "rs_sending_chain a = Some (chain_at L ck 0)" "rs_our_dh_public a = d" "length d = 32"
    and "v2_carries L d ck 0 p e" "process_pq_fields L 0 e b = (Ok (), b)"
    and "rs_peer_confirmed b \<or> v2_transcript_hash e = None \<or> v2_transcript_hash e = rs_transcript_hash b"
  shows "decrypt_message_ratcheted_v2 L (\<lambda>_. x) e b = (Ok p, received L d ck (Suc 0) {0} (stepped L x d b))"
proof -
  obtain r where r: "carries L d (v2_sender_public_key e) ck 0 p r" "re_nonce r = v2_nonce e" "re_ciphertext r = v2_ciphertext e"
    using assms(5) by (auto simp: v2_carries_def)
  have "RatchetSession_decrypt L (\<lambda>_. x) d (of_nat 0) (v2_nonce e) (v2_ciphertext e) (v2_sender_public_key e) b
      = (Ok p, received L d ck (Suc 0) {0} (stepped L x d b))"
    using first_of_turn [OF assms(1,2), of 0 "v2_sender_public_key e" p r x] r assms(3,4) by simp
  from decrypt_v2 [OF assms(5) _ assms(7) this] assms(6) show ?thesis by simp
qed

lemma second_envelope:
  assumes "bootstrapped L a b ct key ss" "no_pending b" "length d = 32" "v2_carries L d ck 1 p e"
    and "v2_pq_kem_ciphertext e = Some ct" "v2_pq_encaps_key e = Some key"
  shows "decrypt_message_ratcheted_v2 L fresh e (received L d ck (Suc 0) {0} (stepped L x d b))
    = (Ok p, received L d ck 2 {..<2} (pq_noted ss key (stepped L x d b)))"
proof -
  let ?s = "received L d ck (Suc 0) {0} (stepped L x d b)"
  let ?t = "received L d ck (Suc 0) {0} (pq_noted ss key (stepped L x d b))"
  obtain kp where kp: "rs_pq_our_keypair b = Some kp" "pq_decapsulate L kp ct = Ok ss" using assms(1) by (auto simp: bootstrapped_def)
  have s: "is_pq_hybrid ?s" "rs_peer_confirmed ?s" "rs_pq_our_keypair ?s = Some kp" "rs_pq_prev_keypair ?s = None"
      "rs_pq_last_mixed_fp ?s = None" "rs_pq_pending_recv ?s = None"
    using assms(1,2) kp
    by (simp_all add: received_def stepped_def dh_ratchet_step_def bootstrapped_def is_pq_hybrid_def Let_def split_def)
  have "?s\<lparr>rs_pq_pending_recv := Some ss, rs_pq_their_encaps_key := Some key, rs_pq_pending_ct := None\<rparr> = ?t"
    by (simp add: received_def pq_noted_def)
  then have "handle_incoming_pq_fields L ct key ?s = (Ok ss, ?t)"
    using s kp(2) by (simp add: handle_incoming_pq_fields_def try_decapsulate_def Let_def)
  then have proc: "process_pq_fields L (of_nat 1) e ?s = (Ok (), ?t)"
    using s(1,2) assms(5,6) by (simp add: process_pq_fields_def)
  obtain r where r: "carries L d (v2_sender_public_key e) ck 1 p r" "re_nonce r = v2_nonce e" "re_ciphertext r = v2_ciphertext e"
    using assms(4) by (auto simp: v2_carries_def)
  have "RatchetSession_decrypt L fresh d (of_nat 1) (v2_nonce e) (v2_ciphertext e) (v2_sender_public_key e) ?t
      = (Ok p, received L d ck (max (Suc 0) (Suc 1)) (insert 1 {0}) (pq_noted ss key (stepped L x d b)))"
    using r assms(3) by (intro decrypt_received) (auto simp: carries_def pq_noted_def stepped_def dh_ratchet_step_def Let_def split_def)
  moreover have "max (Suc 0) (Suc 1) = 2" "insert 1 {0} = {..<2 :: nat}" by auto
  ultimately have "RatchetSession_decrypt L fresh d (of_nat 1) (v2_nonce e) (v2_ciphertext e) (v2_sender_public_key e) ?t
      = (Ok p, received L d ck 2 {..<2} (pq_noted ss key (stepped L x d b)))" by (simp only:)
  then show ?thesis using decrypt_v2 [OF assms(4) proc] s(2) by simp
qed

text \<open>The responder's Diffie-Hellman step that follows uses the noted secret; the initiator's did not.\<close>

lemma noted_decrypt:
  assumes "is_pq_hybrid b" "rs_skipped_keys b = []" "rs_pq_pending_sent b = None" "rs_pq_pending_recv b = Some ss"
    and "rs_our_identity_secret b = None" "rs_their_dh_public b \<noteq> Some d" "length d = 32" "length nonce = 24"
    and "wrong = snd (root_key_ratchet_v2 L (rs_root_key b) (x25519_dh L (rs_our_dh_secret b) d) (Some ss))"
    and "xchacha_open L (message_key_at L wrong 0) nonce c aad = None"
  shows "RatchetSession_decrypt L fresh d 0 nonce c aad b = (Err (TrialFailed [DecryptionFailed]), b)"
proof -
  let ?t = "dh_ratchet_step L (fresh 0) None d b"
  have t: "rs_receiving_chain ?t = Some (chain_at L wrong 0)" "rs_skipped_keys ?t = []"
    using assms by (simp_all add: dh_ratchet_step_def root_key_ratchet_def Let_def split_def Chain_new_at [of _ L])
  have "get_message_key L d (of_nat 0) ?t = (Ok (message_key_at L wrong 0),
      ?t\<lparr>rs_receiving_chain := Some (chain_at L wrong (Suc 0)), rs_skipped_keys := skip_list L d wrong (missing (Suc 0) {0})\<rparr>)"
    using get_message_key_received [of "{}" 0 0 ?t L wrong d] t by (simp add: missing_def skip_list_def)
  then show ?thesis
    using assms by (simp add: RatchetSession_decrypt_def handle_dh_ratchet_trial_def open_message_def)
qed

text \<open>The chain on which the receiver of a turn answers.\<close>

lemma stepped_chain:
  assumes "ready L b a" "rs_our_dh_public b = d"
  shows "rs_sending_chain (received L d ck m D (stepped L y d a)) = Some (Chain_new (snd (root_key_ratchet L a (rs_root_key b) (x25519_dh L y d) None)))"
    and "rs_our_dh_public (received L d ck m D (stepped L y d a)) = x25519_public L y"
    and "rs_our_dh_secret (received L d ck m D (stepped L y d a)) = y"
    and "rs_dh_step_count (received L d ck m D (stepped L y d a)) = rs_dh_step_count a + 1"
    and "is_pq_hybrid (received L d ck m D (stepped L y d a)) = is_pq_hybrid a" "rs_peer_confirmed (received L d ck m D (stepped L y d a))"
    and "rs_pq_pending_sent (received L d ck m D (stepped L y d a)) = None"
    and "rs_their_dh_public (received L d ck m D (stepped L y d a)) = Some d"
    and "rs_our_identity_secret (received L d ck m D (stepped L y d a)) = None"
  using assms
  by (auto simp: ready_def no_pending_def received_def stepped_def dh_ratchet_step_def first_secret_def [symmetric] is_pq_hybrid_def Let_def split_def)

lemma pq_noted_frame [simp]:
  "rs_sending_chain (received L d ck m D (pq_noted ss key s)) = rs_sending_chain (received L d ck m D s)"
  "rs_our_dh_public (received L d ck m D (pq_noted ss key s)) = rs_our_dh_public (received L d ck m D s)"
  "rs_our_dh_secret (received L d ck m D (pq_noted ss key s)) = rs_our_dh_secret (received L d ck m D s)"
  "rs_dh_step_count (received L d ck m D (pq_noted ss key s)) = rs_dh_step_count (received L d ck m D s)"
  "is_pq_hybrid (received L d ck m D (pq_noted ss key s)) = is_pq_hybrid (received L d ck m D s)"
  "rs_peer_confirmed (received L d ck m D (pq_noted ss key s))"
  "rs_pq_pending_sent (received L d ck m D (pq_noted ss key s)) = rs_pq_pending_sent (received L d ck m D s)"
  "rs_their_dh_public (received L d ck m D (pq_noted ss key s)) = rs_their_dh_public s"
  "rs_our_identity_secret (received L d ck m D (pq_noted ss key s)) = rs_our_identity_secret (received L d ck m D s)"
  "rs_root_key (received L d ck m D (pq_noted ss key s)) = rs_root_key (received L d ck m D s)"
  "rs_pq_pending_recv (received L d ck m D (pq_noted ss key s)) = Some ss"
  "rs_skipped_keys (received L d ck m {..<m} s) = []"
  by (simp_all add: received_def pq_noted_def is_pq_hybrid_def skip_list_def missing_def)

lemma their_pq_noted [simp]: "rs_their_dh_public (pq_noted ss key s) = rs_their_dh_public s"
  by (simp add: pq_noted_def)

lemma is_pq_hybrid_sending [simp]: "is_pq_hybrid (s\<lparr>rs_sending_chain := c\<rparr>) = is_pq_hybrid s"
  by (simp add: is_pq_hybrid_def)

lemma process_unconfirmed: "\<not> rs_peer_confirmed s \<Longrightarrow> process_pq_fields L n e s = (Ok (), s)"
  by (simp add: process_pq_fields_def)

lemma process_none: "v2_pq_kem_ciphertext e = None \<Longrightarrow> process_pq_fields L 0 e s = (Ok (), s)"
  by (simp add: process_pq_fields_def)

text \<open>The initiator's two envelopes arrive.\<close>

lemma two_envelopes:
  assumes "aead_correct L" "ready L a b" "bootstrapped L a b ct key ss" "rs_dh_step_count a = 1"
    and "rs_sending_chain a = Some (chain_at L ck 0)" "d = rs_our_dh_public a" "length d = 32"
    and "length (er_nonce r1) = 24" "length (er_nonce r2) = 24" "length p1 \<le> 2 ^ 38 - 64" "length p2 \<le> 2 ^ 38 - 64"
  shows "\<exists>e1 a1 e2 b1. encrypt_message_ratcheted L r1 ka p1 a = (Ok (WireV2 e1), a1)
    \<and> encrypt_message_ratcheted L r2 ka p2 a1 = (Ok (WireV2 e2), a\<lparr>rs_sending_chain := Some (chain_at L ck 2)\<rparr>)
    \<and> decrypt_message_ratcheted_v2 L (\<lambda>_. x) e1 b = (Ok p1, b1)
    \<and> decrypt_message_ratcheted_v2 L f e2 b1 = (Ok p2, received L d ck 2 {..<2} (pq_noted ss key (stepped L x d b)))"
proof -
  let ?a = "a\<lparr>rs_sending_chain := Some (chain_at L ck (Suc 0))\<rparr>" and ?a2 = "a\<lparr>rs_sending_chain := Some (chain_at L ck 2)\<rparr>"
  have a: "is_pq_hybrid a" "is_pq_hybrid ?a" "\<not> rs_peer_confirmed b" "rs_transcript_hash a = rs_transcript_hash b" "rs_dh_step_count a < MAX_RATCHET_STEPS"
      "\<not> rs_peer_confirmed a"
    using assms(3,4) by (simp_all add: bootstrapped_def is_pq_hybrid_def MAX_RATCHET_STEPS_def)
  obtain e1 where e1: "encrypt_message_ratcheted L r1 ka p1 a = (Ok (WireV2 e1), ?a)" "v2_carries L d ck 0 p1 e1"
      "v2_transcript_hash e1 = rs_transcript_hash b"
    using encrypt_v2 [OF assms(1) a(1) assms(5) a(5) assms(8,10) outgoing_unconfirmed [OF assms(3)], of ka] a assms(6) by auto
  obtain e2 where e2: "encrypt_message_ratcheted L r2 ka p2 ?a = (Ok (WireV2 e2), ?a2)" "v2_carries L d ck 1 p2 e2"
      "v2_pq_kem_ciphertext e2 = Some ct" "v2_pq_encaps_key e2 = Some key"
  proof (rule encrypt_v2 [of L ?a ck "Suc 0" r2 p2 "Some ct" "Some key" ?a2 ka])
    have "?a2 = ?a\<lparr>rs_sending_chain := Some (chain_at L ck (Suc (Suc 0)))\<rparr>" by (simp add: numeral_2_eq_2)
    then show "outgoing_pq_fields L r2 (?a\<lparr>rs_sending_chain := Some (chain_at L ck (Suc (Suc 0)))\<rparr>) = ((Some ct, Some key), ?a2)"
      using outgoing_unconfirmed [OF assms(3)] by simp
  qed (use assms a in auto)
  have b: "no_pending b" using assms(2) by (simp add: ready_def)
  have "decrypt_message_ratcheted_v2 L (\<lambda>_. x) e1 b = (Ok p1, received L d ck (Suc 0) {0} (stepped L x d b))"
    using first_envelope [OF assms(2,5) assms(6) [symmetric] assms(7) e1(2) process_unconfirmed [OF a(3)]] e1(3) by simp
  moreover note second_envelope [OF assms(3) b assms(7) e2(2-4), of f x]
  ultimately show ?thesis using e1(1) e2(1) by blast
qed

section \<open>Properties\<close>

text \<open>
  Messages to a peer without a session.  What is encrypted to a public key is decrypted by the
  holder of the signing key it belongs to, and the envelope names its sender.
\<close>

lemma static_message_roundtrip:
  assumes "dh_symmetric L" "aead_correct L" "ed25519_to_montgomery L recipient = Some (x25519_public L (ed25519_to_x25519_secret L recipient_key))"
    and "length (ed25519_public L sender_key) = 32" "length (er_nonce rnd) = 24" "length plaintext \<le> 2 ^ 38 - 64"
  shows "\<exists>e. encrypt_message L rnd sender_key recipient plaintext = Ok e \<and> \<not> is_ratcheted_envelope e
    \<and> ev_sender_public_key e = ed25519_public L sender_key \<and> decrypt_message L recipient_key e = Ok plaintext"
proof -
  let ?x = "ed25519_to_x25519_secret L recipient_key"
  have dh: "x25519_dh L (er_ephemeral rnd) (x25519_public L ?x) = x25519_dh L ?x (x25519_public L (er_ephemeral rnd))"
    "length (x25519_public L (er_ephemeral rnd)) = 32"
    using assms(1) by (simp_all add: dh_symmetric_def)
  obtain c where "xchacha_seal L (message_derive_key L (x25519_dh L (er_ephemeral rnd) (x25519_public L ?x))) (er_nonce rnd) plaintext (ed25519_public L sender_key) = Some c"
      "xchacha_open L (message_derive_key L (x25519_dh L (er_ephemeral rnd) (x25519_public L ?x))) (er_nonce rnd) c (ed25519_public L sender_key) = Some plaintext"
    using assms(2,5,6) unfolding aead_correct_def by blast
  then show ?thesis
    using assms dh by (simp add: encrypt_message_def ed25519_public_to_x25519_def decrypt_message_def is_ratcheted_envelope_def Let_def)
qed

text \<open>
  The trial adoption of a post-quantum secret is blind.  When the peer shows a new ratchet key, a
  session with an outstanding secret adopts it whenever the message can be decrypted at all, and the
  message can be decrypted exactly when it could without that secret: success says nothing about
  whether the peer has mixed the secret in.
\<close>

theorem trial_adoption_blind:
  assumes "length d = 32" "hm_get (rs_skipped_keys s) (d, n) = None" "rs_their_dh_public s \<noteq> Some d" "rs_pq_pending_sent s = Some p"
  shows "is_ok (fst (RatchetSession_decrypt L fresh d n nonce c aad s))
      = is_ok (fst (RatchetSession_decrypt L fresh d n nonce c aad (s\<lparr>rs_pq_pending_sent := None\<rparr>)))
    \<and> (case RatchetSession_decrypt L fresh d n nonce c aad s of (r, s') \<Rightarrow> is_ok r \<longrightarrow>
         rs_pq_pending_sent s' = None \<and> rs_root_key s' = rs_root_key (dh_ratchet_step L (fresh 0) (Some (pp_ss p)) d s)
         \<and> rs_sending_chain s' = rs_sending_chain (dh_ratchet_step L (fresh 0) (Some (pp_ss p)) d s))"
proof
  let ?t = "s\<lparr>rs_pq_pending_sent := None\<rparr>"
  have "RatchetSession_decrypt L fresh d n nonce c aad ?t = try_candidates L fresh d n nonce c aad ?t 0 [None] []"
    using assms by (simp add: RatchetSession_decrypt_def handle_dh_ratchet_trial_def del: try_candidates.simps)
  moreover have "fst (get_message_key L d n (dh_ratchet_step L (fresh 0) None d ?t)) = fst (get_message_key L d n (dh_ratchet_step L (fresh 0) None d s))"
    by (rule get_message_key_cong) (simp_all add: dh_ratchet_step_def root_key_ratchet_def is_pq_hybrid_def Let_def split_def cong: option.case_cong)
  ultimately show "is_ok (fst (RatchetSession_decrypt L fresh d n nonce c aad s)) = is_ok (fst (RatchetSession_decrypt L fresh d n nonce c aad ?t))"
    unfolding decrypt_trial [OF assms] by (simp only: try_candidates_ok)
next
  let ?r = "try_candidates L fresh d n nonce c aad s 0 [Some (pp_ss p), None] []"
  show "case RatchetSession_decrypt L fresh d n nonce c aad s of (r, s') \<Rightarrow> is_ok r \<longrightarrow>
         rs_pq_pending_sent s' = None \<and> rs_root_key s' = rs_root_key (dh_ratchet_step L (fresh 0) (Some (pp_ss p)) d s)
         \<and> rs_sending_chain s' = rs_sending_chain (dh_ratchet_step L (fresh 0) (Some (pp_ss p)) d s)"
    unfolding decrypt_trial [OF assms] split_def
  proof
    assume ok: "is_ok (fst ?r)"
    obtain k t where g: "get_message_key L d n (dh_ratchet_step L (fresh 0) (Some (pp_ss p)) d s) = (k, t)" by fastforce
    have "snd ?r = adopt_trial L (Some (pp_ss p)) t" using try_candidates_first [OF ok] g by simp
    then show "rs_pq_pending_sent (snd ?r) = None \<and> rs_root_key (snd ?r) = rs_root_key (dh_ratchet_step L (fresh 0) (Some (pp_ss p)) d s)
         \<and> rs_sending_chain (snd ?r) = rs_sending_chain (dh_ratchet_step L (fresh 0) (Some (pp_ss p)) d s)"
      using get_message_key_frame [OF g] by (simp add: adopt_trial_def Let_def split: option.splits)
  qed
qed

text \<open>
  The post-quantum fields take effect before anything is authenticated.  \<open>RatchetSession::decrypt\<close>
  changes a session only when it succeeds.  But in a confirmed hybrid session the fields of an envelope
  whose ciphertext is rejected have already replaced the secret that goes into the next root key and the
  key to which the next secret will be encapsulated.
\<close>

theorem pq_fields_unauthenticated:
  assumes "is_pq_hybrid s" "rs_peer_confirmed s" "rs_pq_our_keypair s = Some kp" "rs_pq_prev_keypair s = None"
    and "rs_pq_last_mixed_fp s = None" "rs_pq_pending_recv s = None"
    and "v2_ratchet_dh_public e = Some d" "v2_ratchet_message_number e = Some n" "length (v2_nonce e) = 24"
    and "v2_pq_kem_ciphertext e = Some ct" "length ct = 1088" "v2_pq_encaps_key e = Some key"
    and "s1 = s\<lparr>rs_pq_pending_recv := Some (mlkem_decapsulate L (kp_priv_key kp) ct), rs_pq_their_encaps_key := Some key, rs_pq_pending_ct := None\<rparr>"
    and "RatchetSession_decrypt L fresh d n (v2_nonce e) (v2_ciphertext e) (v2_sender_public_key e) s1 = (Err err, s')"
  shows "decrypt_message_ratcheted_v2 L fresh e s = (Err err, s1) \<and> s' = s1"
proof -
  have "handle_incoming_pq_fields L ct key s = (Ok (mlkem_decapsulate L (kp_priv_key kp) ct), s1)"
    using assms by (simp add: handle_incoming_pq_fields_def try_decapsulate_def pq_decapsulate_def Let_def)
  then have "process_pq_fields L n e s = (Ok (), s1)"
    using assms by (simp add: process_pq_fields_def validate_pq_fields_present_def)
  moreover have "s' = s1" using decrypt_unchanged [OF assms(14)] by simp
  ultimately show ?thesis using assms by (simp add: decrypt_message_ratcheted_v2_def)
qed

text \<open>
  The previous key pair wins.  After a session has taken a post-quantum step, its peer encapsulates
  a secret to the new key it was shown.  The session decapsulates with the new key pair, and then with
  the old one, and keeps the second result: with a mechanism that never reports a failure, it is never
  the peer's secret that goes into the next root key, unless both key pairs give the same one.
\<close>

theorem pq_previous_keypair_wins:
  assumes "mlkem_correct L" "rs_pq_our_keypair a = Some kp" "perform_pq_ratchet_step L r seed a = (Ok (ct, key), a1)"
    and "pq_encapsulate L r' key = Ok (ct', ss')" "rs_pq_pending_recv a = None" "rs_pq_last_mixed_fp a = None"
  shows "pq_decapsulate L (pq_generate L seed) ct' = Ok ss'
    \<and> rs_pq_pending_recv (snd (handle_incoming_pq_fields L ct' key' a1)) = Some (mlkem_decapsulate L (kp_priv_key kp) ct')"
proof -
  obtain pk sk where g: "mlkem_generate L seed = (pk, sk)" by fastforce
  have key: "key = pk" and h: "is_pq_hybrid a"
    and a1: "rs_pq_our_keypair a1 = Some (pq_generate L seed)" "rs_pq_prev_keypair a1 = Some kp"
      "rs_pq_pending_recv a1 = None" "rs_pq_last_mixed_fp a1 = None" "rs_negotiated_suite a1 = rs_negotiated_suite a"
    using assms(2,3,5,6) by (auto simp: perform_pq_ratchet_step_def pq_encapsulate_def pq_generate_def g Let_def split_def split: if_splits option.splits)
  have e: "mlkem_encapsulate L pk r' = (ct', ss')" using assms(4) key by (simp add: pq_encapsulate_def split: if_splits)
  have m: "length ct' = 1088" "mlkem_decapsulate L sk ct' = ss'"
    using assms(1) [unfolded mlkem_correct_def, THEN spec [of _ seed], THEN spec [of _ r']] by (simp_all add: g e)
  have "is_pq_hybrid a1" using h a1(5) by (simp add: is_pq_hybrid_def)
  then show ?thesis
    using m a1 by (simp add: handle_incoming_pq_fields_def try_decapsulate_def pq_decapsulate_def pq_generate_def g)
qed


text \<open>
  C24. Two messages before the first reply break a hybrid session.  Until the responder answers, the
  initiator repeats the bootstrap fields; the responder processes those of the second envelope as a
  ratchet step and keeps the secret for its next root key.  Both messages and the reply are decrypted,
  but then the initiator has derived its next chain without the secret and the responder derives it with
  the secret, so the responder refuses the initiator's next message whenever the cipher refuses the
  wrong key.
\<close>

theorem hybrid_repeat_breaks_session:
  assumes "dh_symmetric L" "aead_correct L" "mlkem_correct L" "established L a b" "is_pq_hybrid a"
    and "\<forall>r \<in> {r1, r2, r3, r4}. length (er_nonce r) = 24" "\<forall>p \<in> {p1, p2, p3, p4}. length p \<le> 2 ^ 38 - 64"
    and "rs_their_dh_public a \<noteq> Some (x25519_public L x)" "rs_our_dh_public a \<noteq> x25519_public L y"
  shows "\<exists>e1 a1 e2 a2 b1 b2 e3 b3 a3 e4 a4 ss.
      encrypt_message_ratcheted L r1 ka p1 a = (Ok (WireV2 e1), a1) \<and> encrypt_message_ratcheted L r2 ka p2 a1 = (Ok (WireV2 e2), a2)
    \<and> decrypt_message_ratcheted_v2 L (\<lambda>_. x) e1 b = (Ok p1, b1) \<and> decrypt_message_ratcheted_v2 L f e2 b1 = (Ok p2, b2)
    \<and> encrypt_message_ratcheted L r3 kb p3 b2 = (Ok (WireV2 e3), b3) \<and> decrypt_message_ratcheted_v2 L (\<lambda>_. y) e3 a2 = (Ok p3, a3)
    \<and> encrypt_message_ratcheted L r4 ka p4 a3 = (Ok (WireV2 e4), a4)
    \<and> rs_pq_pending_sent a3 = None \<and> rs_pq_pending_recv b3 = Some ss
    \<and> (let root = rs_root_key b3; dh = x25519_dh L (rs_our_dh_secret b3) (rs_our_dh_public a3);
           right = snd (root_key_ratchet_v2 L root dh None); wrong = snd (root_key_ratchet_v2 L root dh (Some ss)) in
         rs_sending_chain a3 = Some (Chain_new right)
         \<and> (xchacha_open L (message_key_at L wrong 0) (v2_nonce e4) (v2_ciphertext e4) (v2_sender_public_key e4) = None \<longrightarrow>
              decrypt_message_ratcheted_v2 L g e4 b3 = (Err (TrialFailed [DecryptionFailed]), b3)))"
proof -
  let ?d = "rs_our_dh_public a" and ?dx = "x25519_public L x" and ?dy = "x25519_public L y"
  obtain ct key ss where boot: "bootstrapped L a b ct key ss" using established_bootstrapped [OF assms(4,5)] by blast
  have ready: "ready L a b" "rs_dh_step_count a = 1" "rs_dh_step_count b = 0"
    using established_ready [OF assms(1,3,4)] by auto
  obtain ck where ck: "rs_sending_chain a = Some (chain_at L ck 0)" using ready(1) by (auto simp: ready_def)
  have len: "length ?d = 32" "length ?dx = 32" "length ?dy = 32" using ready(1) assms(1) by (auto simp: ready_def dh_symmetric_def)
  let ?a2 = "a\<lparr>rs_sending_chain := Some (chain_at L ck 2)\<rparr>"
  let ?bs = "received L ?d ck 2 {..<2} (stepped L x ?d b)" and ?b2 = "received L ?d ck 2 {..<2} (pq_noted ss key (stepped L x ?d b))"
  obtain e1 a1 e2 b1 where first: "encrypt_message_ratcheted L r1 ka p1 a = (Ok (WireV2 e1), a1)"
      "encrypt_message_ratcheted L r2 ka p2 a1 = (Ok (WireV2 e2), ?a2)"
      "decrypt_message_ratcheted_v2 L (\<lambda>_. x) e1 b = (Ok p1, b1)" "decrypt_message_ratcheted_v2 L f e2 b1 = (Ok p2, ?b2)"
    using two_envelopes [OF assms(2) ready(1) boot ready(2) ck refl len(1), of r1 r2 p1 p2 ka x f] assms(6,7) by auto
  have swapped: "ready L ?bs ?a2" using ready_next [OF assms(1) ready(1) ck assms(8)] .
  note bs = stepped_chain [OF ready(1) refl, where y = x and ck = ck and m = 2 and D = "{..<2}"]
  have hyb: "is_pq_hybrid b" "is_pq_hybrid ?a2" "\<not> rs_peer_confirmed ?a2" using boot by (auto simp: bootstrapped_def is_pq_hybrid_def)
  obtain ck2 where ck2: "rs_sending_chain ?bs = Some (chain_at L ck2 0)" using swapped by (auto simp: ready_def)
  let ?b3 = "?b2\<lparr>rs_sending_chain := Some (chain_at L ck2 (Suc 0))\<rparr>"
  obtain e3 where e3: "encrypt_message_ratcheted L r3 kb p3 ?b2 = (Ok (WireV2 e3), ?b3)" "v2_carries L ?dx ck2 0 p3 e3" "v2_transcript_hash e3 = None"
    using encrypt_v2 [of L ?b2 ck2 0 r3 p3 None None ?b3 kb] outgoing_first [of ?b2 L r3 ck2] assms(2,6,7) bs hyb ck2 ready(3)
    by (auto simp: MAX_RATCHET_STEPS_def)
  let ?a3 = "received L ?dx ck2 (Suc 0) {0} (stepped L y ?dx ?a2)"
  have a3: "decrypt_message_ratcheted_v2 L (\<lambda>_. y) e3 ?a2 = (Ok p3, ?a3)"
    using first_envelope [OF swapped ck2 bs(2) len(2) e3(2) process_unconfirmed [OF hyb(3)]] e3(3) by simp
  note sa = stepped_chain [OF swapped bs(2), where y = y and ck = ck2 and m = "Suc 0" and D = "{0}"]
  let ?dh = "x25519_dh L x ?dy"
  have dh: "x25519_dh L y ?dx = ?dh" using assms(1) by (simp add: dh_symmetric_def)
  let ?right = "snd (root_key_ratchet_v2 L (rs_root_key ?bs) ?dh None)" and ?wrong = "snd (root_key_ratchet_v2 L (rs_root_key ?bs) ?dh (Some ss))"
  have right: "rs_sending_chain ?a3 = Some (Chain_new ?right)" using sa(1) hyb(2) dh by (simp add: root_key_ratchet_def)
  let ?a4 = "?a3\<lparr>rs_sending_chain := Some (chain_at L ?right (Suc 0))\<rparr>"
  obtain e4 where e4: "encrypt_message_ratcheted L r4 ka p4 ?a3 = (Ok (WireV2 e4), ?a4)" "v2_carries L ?dy ?right 0 p4 e4" "v2_pq_kem_ciphertext e4 = None"
    using encrypt_v2 [of L ?a3 ?right 0 r4 p4 None None ?a4 ka] outgoing_first [of ?a3 L r4 ?right] assms(2,6,7) sa hyb right ready(2)
    by (auto simp: MAX_RATCHET_STEPS_def Chain_new_at [of _ L])
  have "decrypt_message_ratcheted_v2 L g e4 ?b3 = (Err (TrialFailed [DecryptionFailed]), ?b3)"
    if "xchacha_open L (message_key_at L ?wrong 0) (v2_nonce e4) (v2_ciphertext e4) (v2_sender_public_key e4) = None"
  proof -
    have "length (v2_nonce e4) = 24" using e4(2) by (auto simp: v2_carries_def carries_def)
    with that have "RatchetSession_decrypt L g ?dy 0 (v2_nonce e4) (v2_ciphertext e4) (v2_sender_public_key e4) ?b3 = (Err (TrialFailed [DecryptionFailed]), ?b3)"
      using bs hyb(1) assms(9) len by (intro noted_decrypt [where ss = ss and wrong = ?wrong]) simp_all
    then show ?thesis using decrypt_v2 [OF e4(2), of ?b3 ?b3 g] process_none [OF e4(3), of L ?b3] by simp
  qed
  then have keys: "let root = rs_root_key ?b3; dh = x25519_dh L (rs_our_dh_secret ?b3) (rs_our_dh_public ?a3);
           right = snd (root_key_ratchet_v2 L root dh None); wrong = snd (root_key_ratchet_v2 L root dh (Some ss)) in
         rs_sending_chain ?a3 = Some (Chain_new right)
         \<and> (xchacha_open L (message_key_at L wrong 0) (v2_nonce e4) (v2_ciphertext e4) (v2_sender_public_key e4) = None \<longrightarrow>
              decrypt_message_ratcheted_v2 L g e4 ?b3 = (Err (TrialFailed [DecryptionFailed]), ?b3))"
    using sa(2) bs(3) right by (simp add: Let_def)
  have pending: "rs_pq_pending_recv ?b3 = Some ss" by simp
  show ?thesis by (intro exI conjI) (rule first e3(1) a3 e4(1) sa(7) pending keys)+
qed

section \<open>Instances\<close>

definition toy_rnd :: "byte \<Rightarrow> encrypt_rnd" where
  "toy_rnd n = \<lparr>er_ephemeral = [n], er_nonce = replicate 24 n, er_encaps = [n], er_seed = [n]\<rparr>"

definition toy_bundle :: "bytes \<Rightarrow> bytes \<Rightarrow> public_key_bundle" where
  "toy_bundle x seed = \<lparr>pb_ed25519_public = [], pb_x25519_public = x25519_public toy_crypto x,
     pb_mlkem_encaps_key = kp_pub_key (mlkem_from_seed toy_crypto seed), pb_mldsa_public = None, pb_created_at = 0,
     pb_supported_suites = [1, 3], pb_signature = [], pb_mldsa_signature = None\<rparr>"

definition toy_initiator :: ratchet_session where
  "toy_initiator = (case init_as_sender_hybrid toy_crypto \<lparr>rnd_dh_secret = [1], rnd_ephemeral = [2], rnd_encaps = [3], rnd_seed = [4]\<rparr> [40]
     (toy_bundle [50] [60]) [9] of Ok a \<Rightarrow> a)"

definition toy_responder :: ratchet_session where
  "toy_responder = (case init_as_receiver_hybrid toy_crypto [5] [50] (mlkem_from_seed toy_crypto [60]) (toy_bundle [40] [61])
     (case rs_bootstrap_hct toy_initiator of Some hct \<Rightarrow> hct) [9] of Ok b \<Rightarrow> b)"

lemma toy_encapsulate:
  "\<exists>hct ss. hybrid_encapsulate toy_crypto [2] [3] (x25519_public toy_crypto [50]) (kp_pub_key (mlkem_from_seed toy_crypto [60])) = Ok (hct, ss)"
proof -
  have "\<exists>bs. x25519_dh toy_crypto [2] (x25519_public toy_crypto [50]) = 52 # bs"
    by (simp add: toy_crypto_def pad_def numeral_eq_Suc)
  then have "was_contributory toy_crypto (x25519_dh toy_crypto [2] (x25519_public toy_crypto [50]))"
    by (auto simp: toy_crypto_def)
  moreover have "length (kp_pub_key (mlkem_from_seed toy_crypto [60])) = 1184"
    by (simp add: mlkem_from_seed_def toy_crypto_def)
  ultimately show ?thesis
    by (simp add: hybrid_encapsulate_def pq_encapsulate_def Let_def split_def)
qed

lemma toy_established:
  "established toy_crypto toy_initiator toy_responder"
  "\<exists>hct. init_as_receiver_hybrid toy_crypto [5] [50] (mlkem_from_seed toy_crypto [60]) (toy_bundle [40] [61]) hct [9] = Ok toy_responder"
proof -
  let ?kem = "mlkem_from_seed toy_crypto [60]"
  obtain hct ss where e: "hybrid_encapsulate toy_crypto [2] [3] (x25519_public toy_crypto [50]) (kp_pub_key ?kem) = Ok (hct, ss)"
    using toy_encapsulate by blast
  have a: "init_as_sender_hybrid toy_crypto \<lparr>rnd_dh_secret = [1], rnd_ephemeral = [2], rnd_encaps = [3], rnd_seed = [4]\<rparr> [40] (toy_bundle [50] [60]) [9] = Ok toy_initiator"
    and h: "rs_bootstrap_hct toy_initiator = Some hct"
    by (simp_all add: toy_initiator_def init_as_sender_hybrid_def toy_bundle_def e hybrid_sender_session_def Let_def split_def)
  have "hybrid_decapsulate toy_crypto [50] ?kem hct = Ok ss" by (rule hybrid_agree [OF toy_dh_symmetric toy_mlkem_correct e])
  then have b: "init_as_receiver_hybrid toy_crypto [5] [50] ?kem (toy_bundle [40] [61]) hct [9] = Ok toy_responder"
    by (simp add: toy_responder_def h init_as_receiver_hybrid_def Let_def)
  then show "\<exists>hct. init_as_receiver_hybrid toy_crypto [5] [50] ?kem (toy_bundle [40] [61]) hct [9] = Ok toy_responder" by blast
  show "established toy_crypto toy_initiator toy_responder"
    by (rule established.suite03 [OF _ _ _ a h b]) (simp_all add: toy_bundle_def)
qed

lemma toy_sessions:
  "is_pq_hybrid toy_initiator" "is_pq_hybrid toy_responder" "no_pending toy_responder" "no_pending toy_initiator"
  "rs_pq_prev_keypair toy_responder = None" "rs_pq_last_mixed_fp toy_responder = None" "rs_pq_last_mixed_fp toy_initiator = None"
  "rs_their_dh_public toy_initiator = Some (pad 32 [50])" "rs_our_dh_public toy_initiator = pad 32 [1]"
  "rs_their_dh_public toy_responder = None" "rs_dh_step_count toy_responder = 0"
  "rs_pq_our_keypair toy_initiator = Some (pq_generate toy_crypto [4])" "rs_pq_our_keypair toy_responder = Some (mlkem_from_seed toy_crypto [60])"
  "rs_pq_their_encaps_key toy_initiator = Some (pad 1184 [60])"
proof -
  obtain hct ss where e: "hybrid_encapsulate toy_crypto [2] [3] (x25519_public toy_crypto [50]) (kp_pub_key (mlkem_from_seed toy_crypto [60])) = Ok (hct, ss)"
    using toy_encapsulate by blast
  obtain hct' ss' where d: "hybrid_decapsulate toy_crypto [50] (mlkem_from_seed toy_crypto [60]) hct' = Ok ss'"
      "init_as_receiver_hybrid toy_crypto [5] [50] (mlkem_from_seed toy_crypto [60]) (toy_bundle [40] [61]) hct' [9] = Ok toy_responder"
    using toy_established(2) by (auto simp: init_as_receiver_hybrid_def and_then_eq_Ok)
  have a: "toy_initiator = hybrid_sender_session toy_crypto [1] [4] 3 (toy_bundle [50] [60]) [9] hct
      (b3_derive_key toy_crypto SESSION_ROOT_V3 (ss @ x25519_dh toy_crypto [40] (x25519_public toy_crypto [50]) @ [9]))"
    by (simp add: toy_initiator_def init_as_sender_hybrid_def e toy_bundle_def)
  obtain r where b: "toy_responder = hybrid_receiver_session toy_crypto [5] 3 [50] (mlkem_from_seed toy_crypto [60]) hct' [9] r"
    using d by (simp add: init_as_receiver_hybrid_def Let_def) metis
  have toy: "x25519_public toy_crypto = pad 32" "kp_pub_key (mlkem_from_seed toy_crypto x) = pad 1184 x" for x
    by (simp_all add: toy_crypto_def mlkem_from_seed_def)
  show "is_pq_hybrid toy_initiator" "is_pq_hybrid toy_responder" "no_pending toy_responder" "no_pending toy_initiator"
    "rs_pq_prev_keypair toy_responder = None" "rs_pq_last_mixed_fp toy_responder = None" "rs_pq_last_mixed_fp toy_initiator = None"
    "rs_their_dh_public toy_initiator = Some (pad 32 [50])" "rs_our_dh_public toy_initiator = pad 32 [1]"
    "rs_their_dh_public toy_responder = None" "rs_dh_step_count toy_responder = 0"
    "rs_pq_our_keypair toy_initiator = Some (pq_generate toy_crypto [4])" "rs_pq_our_keypair toy_responder = Some (mlkem_from_seed toy_crypto [60])"
    "rs_pq_their_encaps_key toy_initiator = Some (pad 1184 [60])"
    unfolding a b
    by (simp_all add: hybrid_sender_session_def hybrid_receiver_session_def is_pq_hybrid_def HYBRID_SUITE_IDS_def no_pending_def toy_bundle_def
        toy Let_def split_def)
qed

theorem trial_adoption_blind_witness:
  "is_ok (fst (RatchetSession_decrypt toy_crypto (\<lambda>_. [3]) (pad 32 [1]) 0 (replicate 24 1) [8] [9]
       (toy_responder\<lparr>rs_pq_pending_sent := Some \<lparr>pp_ss = [6], pp_created_step = 0\<rparr>\<rparr>)))
   = is_ok (fst (RatchetSession_decrypt toy_crypto (\<lambda>_. [3]) (pad 32 [1]) 0 (replicate 24 1) [8] [9]
       (toy_responder\<lparr>rs_pq_pending_sent := None\<rparr>)))"
  using trial_adoption_blind [of "pad 32 [1]" "toy_responder\<lparr>rs_pq_pending_sent := Some \<lparr>pp_ss = [6], pp_created_step = 0\<rparr>\<rparr>" 0
      "\<lparr>pp_ss = [6], pp_created_step = 0\<rparr>" toy_crypto "\<lambda>_. [3]" "replicate 24 1" "[8]" "[9]"] toy_sessions
  by (simp add: no_pending_def)

definition toy_forged :: envelope_v2 where
  "toy_forged = \<lparr>v2_suite = 3, v2_sender_public_key = [], v2_ephemeral_public_key = [], v2_nonce = replicate 24 0, v2_ciphertext = [],
     v2_ratchet_dh_public = Some [], v2_ratchet_message_number = Some 5, v2_pq_kem_ciphertext = Some (replicate 1088 7),
     v2_pq_encaps_key = Some [66], v2_transcript_hash = None\<rparr>"

theorem pq_fields_unauthenticated_witness:
  "decrypt_message_ratcheted_v2 toy_crypto (\<lambda>_. [3]) toy_forged (toy_responder\<lparr>rs_peer_confirmed := True\<rparr>)
   = (Err InvalidDhPublicLength, toy_responder\<lparr>rs_peer_confirmed := True,
        rs_pq_pending_recv := Some (mlkem_decapsulate toy_crypto (kp_priv_key (mlkem_from_seed toy_crypto [60])) (replicate 1088 7)),
        rs_pq_their_encaps_key := Some [66], rs_pq_pending_ct := None\<rparr>)"
  using pq_fields_unauthenticated [of "toy_responder\<lparr>rs_peer_confirmed := True\<rparr>" "mlkem_from_seed toy_crypto [60]" toy_forged "[]" 5
      "replicate 1088 7" "[66]" _ toy_crypto "\<lambda>_. [3]" InvalidDhPublicLength] toy_sessions
  by (simp add: toy_forged_def no_pending_def is_pq_hybrid_def RatchetSession_decrypt_def)

theorem pq_previous_keypair_wins_witness:
  "\<exists>ct key a1 ct' ss'. perform_pq_ratchet_step toy_crypto [7] [8] toy_initiator = (Ok (ct, key), a1)
     \<and> pq_encapsulate toy_crypto [10] key = Ok (ct', ss') \<and> rs_pq_pending_recv (snd (handle_incoming_pq_fields toy_crypto ct' [] a1)) \<noteq> Some ss'"
proof -
  obtain ct a1 where p: "perform_pq_ratchet_step toy_crypto [7] [8] toy_initiator = (Ok (ct, pad 1184 [8]), a1)"
    using toy_sessions by (auto simp: perform_pq_ratchet_step_def pq_encapsulate_def pq_generate_def toy_crypto_def Let_def)
  obtain ct' where e: "pq_encapsulate toy_crypto [10] (pad 1184 [8]) = Ok (ct', pad 32 [8] @ ct')"
    by (simp add: pq_encapsulate_def toy_crypto_def pad_def min_def)
  have "rs_pq_pending_recv (snd (handle_incoming_pq_fields toy_crypto ct' [] a1)) = Some (pad 32 [4] @ ct')"
    using pq_previous_keypair_wins [OF toy_mlkem_correct toy_sessions(12) p e] toy_sessions(4,7)
    by (simp add: no_pending_def pq_generate_def toy_crypto_def pad_def)
  moreover have "pad 32 [4] @ ct' \<noteq> pad 32 [8] @ ct'" by (simp add: pad_def)
  ultimately show ?thesis using p e by auto
qed


theorem hybrid_repeat_breaks_session_witness:
  "\<exists>e1 a1 e2 a2 b1 b2 e3 b3 ss. encrypt_message_ratcheted toy_crypto (toy_rnd 1) [1] [10] toy_initiator = (Ok (WireV2 e1), a1)
    \<and> encrypt_message_ratcheted toy_crypto (toy_rnd 2) [1] [20] a1 = (Ok (WireV2 e2), a2)
    \<and> decrypt_message_ratcheted_v2 toy_crypto (\<lambda>_. [70]) e1 toy_responder = (Ok [10], b1)
    \<and> decrypt_message_ratcheted_v2 toy_crypto (\<lambda>_. [71]) e2 b1 = (Ok [20], b2)
    \<and> encrypt_message_ratcheted toy_crypto (toy_rnd 3) [2] [30] b2 = (Ok (WireV2 e3), b3) \<and> rs_pq_pending_recv b3 = Some ss"
  using hybrid_repeat_breaks_session [OF toy_dh_symmetric toy_aead_correct toy_mlkem_correct toy_established(1) toy_sessions(1),
      of "toy_rnd 1" "toy_rnd 2" "toy_rnd 3" "toy_rnd 4" "[10]" "[20]" "[30]" "[40]" "[70]" "[80]" "[1]" "\<lambda>_. [71]" "[2]" "\<lambda>_. [72]"]
  by (simp add: toy_sessions(8,9) toy_rnd_def toy_crypto_def [THEN arg_cong, of x25519_public] pad_def) blast

end
