(* ===== verification/Sample_Sessions.thy ===== *)
theory Sample_Sessions
  imports Session_Types Message_Security
begin

text \<open>
  A concrete instance of the packages that the session manager uses: primitives with results of the right
  sizes, a text form of bytes for \<open>hex\<close>, and a serializer for maps of sessions.
\<close>

definition sized_crypto :: crypto_libs where
  "sized_crypto = toy_crypto\<lparr>b3_derive_key := (\<lambda>context v. pad 32 (v @ as_bytes context)),
     ed25519_to_montgomery := (\<lambda>p. Some (pad 32 p))\<rparr>"

lemma sized_crypto_sizes: "sized_libs sized_crypto"
  by (simp add: sized_libs_def sized_crypto_def toy_crypto_def)

definition chain_bytes :: "chain_state \<Rightarrow> bytes" where
  "chain_bytes c = enc_fields [as_bytes (cs_chain_key_hex c), u32_to_le (cs_index c)]"

definition bytes_chain :: "bytes \<Rightarrow> chain_state" where
  "bytes_chain v = (case dec_fields 2 v of f \<Rightarrow> \<lparr>cs_chain_key_hex = bytes_string (f ! 0), cs_index = bytes_u32 (f ! 1)\<rparr>)"

lemma bytes_chain_inverse [simp]: "bytes_chain (chain_bytes c) = c"
  by (cases c) (simp add: bytes_chain_def chain_bytes_def dec_enc_fields)

definition skip_bytes :: "string \<times> u32 \<times> string \<Rightarrow> bytes" where
  "skip_bytes e = (case e of (d, n, k) \<Rightarrow> enc_fields [as_bytes d, u32_to_le n, as_bytes k])"

definition bytes_skip :: "bytes \<Rightarrow> string \<times> u32 \<times> string" where
  "bytes_skip v = (case dec_fields 3 v of f \<Rightarrow> (bytes_string (f ! 0), bytes_u32 (f ! 1), bytes_string (f ! 2)))"

lemma bytes_skip_inverse [simp]: "bytes_skip (skip_bytes e) = e"
  by (cases e) (simp add: bytes_skip_def skip_bytes_def dec_enc_fields)

text \<open>A list: its length, one byte per element, and its elements.\<close>

definition list_bytes :: "('a \<Rightarrow> bytes) \<Rightarrow> 'a list \<Rightarrow> bytes" where
  "list_bytes f xs = enc_fields [replicate (length xs) 0, enc_fields (map f xs)]"

definition bytes_list :: "(bytes \<Rightarrow> 'a) \<Rightarrow> bytes \<Rightarrow> 'a list" where
  "bytes_list g v = (case dec_fields 2 v of fs \<Rightarrow> map g (dec_fields (length (fs ! 0)) (fs ! 1)))"

lemma bytes_list_inverse [simp]: "(\<And>x. g (f x) = x) \<Longrightarrow> bytes_list g (list_bytes f xs) = xs"
  by (simp add: bytes_list_def list_bytes_def dec_enc_fields o_def)

definition session_bytes :: "serializable_session \<Rightarrow> bytes" where
  "session_bytes z = enc_fields [as_bytes (ss_our_dh_secret_hex z), as_bytes (ss_our_dh_public_hex z),
     option_bytes as_bytes (ss_their_dh_public_hex z), as_bytes (ss_root_key_hex z), option_bytes chain_bytes (ss_sending_chain z),
     option_bytes chain_bytes (ss_receiving_chain z), u32_to_le (ss_dh_step_count z), bool_bytes (ss_initialized z),
     bool_bytes (ss_has_identity_secret z), option_bytes as_bytes (ss_identity_secret_hex z),
     option_bytes (\<lambda>b. [b]) (ss_negotiated_suite z), option_bytes as_bytes (ss_transcript_hash_hex z), bool_bytes (ss_peer_confirmed z),
     option_bytes as_bytes (ss_bootstrap_hct_ephemeral_hex z), option_bytes as_bytes (ss_bootstrap_hct_mlkem_hex z),
     list_bytes skip_bytes (ss_skipped_keys z)]"

definition bytes_session :: "bytes \<Rightarrow> serializable_session" where
  "bytes_session v = (case dec_fields 16 v of f \<Rightarrow>
     \<lparr>ss_our_dh_secret_hex = bytes_string (f ! 0), ss_our_dh_public_hex = bytes_string (f ! 1),
      ss_their_dh_public_hex = bytes_option bytes_string (f ! 2), ss_root_key_hex = bytes_string (f ! 3),
      ss_sending_chain = bytes_option bytes_chain (f ! 4), ss_receiving_chain = bytes_option bytes_chain (f ! 5),
      ss_dh_step_count = bytes_u32 (f ! 6), ss_initialized = bytes_bool (f ! 7), ss_has_identity_secret = bytes_bool (f ! 8),
      ss_identity_secret_hex = bytes_option bytes_string (f ! 9), ss_negotiated_suite = bytes_option (\<lambda>v. v ! 0) (f ! 10),
      ss_transcript_hash_hex = bytes_option bytes_string (f ! 11), ss_peer_confirmed = bytes_bool (f ! 12),
      ss_bootstrap_hct_ephemeral_hex = bytes_option bytes_string (f ! 13), ss_bootstrap_hct_mlkem_hex = bytes_option bytes_string (f ! 14),
      ss_skipped_keys = bytes_list bytes_skip (f ! 15)\<rparr>)"

lemma bytes_session_inverse [simp]: "bytes_session (session_bytes z) = z"
  by (cases z) (simp add: bytes_session_def session_bytes_def dec_enc_fields)

definition entry_bytes :: "string \<times> serializable_session \<Rightarrow> bytes" where
  "entry_bytes e = enc_fields [as_bytes (fst e), session_bytes (snd e)]"

definition bytes_entry :: "bytes \<Rightarrow> string \<times> serializable_session" where
  "bytes_entry v = (case dec_fields 2 v of f \<Rightarrow> (bytes_string (f ! 0), bytes_session (f ! 1)))"

lemma bytes_entry_inverse [simp]: "bytes_entry (entry_bytes e) = e"
  by (simp add: bytes_entry_def entry_bytes_def dec_enc_fields)

definition sample_sessions :: session_libs where
  "sample_sessions = \<lparr>hex_encode = text_of_bytes, hex_decode = (\<lambda>t. Some (bytes_of_text t)),
     hex_decode_to_slice = (\<lambda>n t. if length (bytes_of_text t) = n then Some (bytes_of_text t) else None),
     sessions_to_json = (\<lambda>m. Some (text_of_bytes (list_bytes entry_bytes m))),
     sessions_from_json = (\<lambda>t. Some (bytes_list bytes_entry (bytes_of_text t)))\<rparr>"

lemma sample_sessions_hex: "hex_correct sample_sessions"
  by (simp add: sample_sessions_def hex_correct_def)

text \<open>A node that has sent one message to a hybrid peer.\<close>

definition sample_bundle :: "bytes \<Rightarrow> bytes \<Rightarrow> public_key_bundle" where
  "sample_bundle x seed = (toy_bundle x seed)\<lparr>pb_x25519_public := pad 32 x\<rparr>"

definition sample_rnd :: sender_randomness where
  "sample_rnd = \<lparr>rnd_dh_secret = pad 32 [1], rnd_ephemeral = [2], rnd_encaps = [3], rnd_seed = [4]\<rparr>"

definition sample_send ::
  "memory_storage session_manager \<Rightarrow> audit_log option \<Rightarrow> (crypto_error, wire_envelope) result \<times> memory_storage session_manager option \<times> audit_log option" where
  "sample_send m audit = encrypt_with_ratchet_fallback sized_crypto toy_audit sample_rnd (toy_rnd 7) ''u'' 5 [40] (Some (sample_bundle [50] [60])) [51] [1, 2, 3]
     ''peer'' (Some (sample_bundle [40] [61])) (Some [40]) True (Some m) audit"

lemma send_keeps_manager:
  "encrypt_with_ratchet_fallback L A srnd rnd uuid now sk their pk pt p ours x rq (Some m) audit = (r, mgr', audit') \<Longrightarrow> mgr' \<noteq> None"
  by (auto simp: encrypt_with_ratchet_fallback_def Let_def elim!: or_return_cases split: if_splits prod.splits)

definition sample_manager :: "memory_storage session_manager" where
  "sample_manager = the (fst (snd (sample_send (SessionManager_with_backend memory_vtable) None)))"

lemma sample_manager_reach: "manager_reach sized_crypto sample_sessions sample_manager"
proof -
  let ?m = "SessionManager_with_backend memory_vtable"
  obtain r mgr' a' where s: "sample_send ?m None = (r, mgr', a')" by (metis surj_pair)
  from send_keeps_manager [OF s [unfolded sample_send_def]] obtain m' where m': "mgr' = Some m'" by blast
  have "key_wf (rnd_dh_secret sample_rnd)" "opt_wf bundle_wf (Some (sample_bundle [50] [60]))"
    by (simp_all add: key_wf_def sample_rnd_def bundle_wf_def sample_bundle_def)
  from manager_reach.send [OF manager_reach.with_backend this s [unfolded sample_send_def m']]
  show ?thesis by (simp add: sample_manager_def s m')
qed

end
