(* ===== verification/Session_Security.thy ===== *)
theory Session_Security
  imports Sample_Sessions
begin

text \<open>
  What the session manager guarantees: the sizes of all stored keys, what survives a restart, when a
  message may be sent without a session, and what the re-establishment of sessions accepts.
\<close>

section \<open>Sizes\<close>


section \<open>Restart\<close>

text \<open>What is left of a session after it was stored and loaded.\<close>

definition reload :: "ratchet_session \<Rightarrow> ratchet_session" where
  "reload s = s\<lparr>rs_pq_our_keypair := None, rs_pq_prev_keypair := None, rs_pq_their_encaps_key := None, rs_pq_pending_ct := None,
     rs_pq_pending_sent := None, rs_pq_pending_recv := None, rs_pq_last_mixed_fp := None, rs_transition_counter := 0\<rparr>"

lemma update_new: "k \<notin> fst ` set m \<Longrightarrow> hm_insert k v m = m @ [(k, v)]"
  by (induction m) auto

lemma decode_skipped_snapshot:
  assumes "hex_correct J"
  shows "distinct (map fst (m0 @ m)) \<Longrightarrow> \<forall>((dh, idx), k) \<in> set m. key_wf dh \<and> key_wf k \<Longrightarrow>
    decode_skipped J (map (\<lambda>((dh, idx), k). (hex_encode J dh, idx, hex_encode J k)) m) m0 = Ok (m0 @ m)"
proof (induction m arbitrary: m0)
  case (Cons e m)
  obtain dh idx k where e: "e = ((dh, idx), k)" by (metis surj_pair)
  have "hm_insert (dh, idx) k m0 = m0 @ [e]" using Cons.prems(1) e by (intro update_new [of "(dh, idx)" m0 k, folded e]) force
  then show ?case
    using Cons.IH [of "m0 @ [e]"] Cons.prems assms by (simp add: e hex_correct_def key_wf_def)
qed simp

lemma into_from_session:
  assumes J: "hex_correct J" and s: "session_wf s"
  shows "into_session J (from_session J s) = Ok (reload s)"
proof -
  have k: "decode_32 J f (hex_encode J v) = Ok v" if "key_wf v" for f v
    using J that by (simp add: decode_32_def hex_correct_def key_wf_def)
  have o: "decode_opt_32 J f (map_option (hex_encode J) v) = Ok v" if "opt_wf key_wf v" for f v
    using that k by (cases v) (simp_all add: decode_opt_32_def)
  have c: "decode_chain J f (map_option (\<lambda>(key, index). \<lparr>cs_chain_key_hex = hex_encode J key, cs_index = index\<rparr>)
      (map_option (\<lambda>c. (ch_chain_key c, ch_index c)) v)) = Ok v" if "opt_wf chain_wf v" for f v
  proof (cases v)
    case (Some a)
    have "hex_decode_to_slice J 32 (hex_encode J (ch_chain_key a)) = Some (ch_chain_key a)"
      using J that Some by (metis chain_wf_def hex_correct_def key_wf_def opt_wf_simps(2))
    then show ?thesis using Some by (simp add: decode_chain_def Chain_new_with_index_def)
  qed (simp add: decode_chain_def)
  have h: "decode_hct J (map_option (\<lambda>h. hex_encode J (hct_x25519_ephemeral_public h)) v)
      (map_option (\<lambda>h. hex_encode J (hct_mlkem_ciphertext h)) v) = Ok v" if "opt_wf hct_wf v" for v
    using J that by (cases v) (auto simp: decode_hct_def hex_correct_def hct_wf_def key_wf_def)
  have "map (\<lambda>(dh, idx, key). (hex_encode J dh, idx, hex_encode J key)) (skipped_keys_snapshot s)
      = map (\<lambda>((dh, idx), k). (hex_encode J dh, idx, hex_encode J k)) (rs_skipped_keys s)"
    by (simp add: skipped_keys_snapshot_def split_def o_def)
  then have d: "decode_skipped J (map (\<lambda>(dh, idx, key). (hex_encode J dh, idx, hex_encode J key)) (skipped_keys_snapshot s)) [] = Ok (rs_skipped_keys s)"
    using decode_skipped_snapshot [OF J, of "[]" "rs_skipped_keys s"] s by (simp add: session_wf_def skipped_wf_def hm_wf_def)
  show ?thesis
    using s by (simp add: session_wf_def into_session_def from_session_def sending_chain_state_def receiving_chain_state_def
        k o c h d) (cases s, simp add: reload_def)
qed

lemma get_merge_sessions:
  "distinct (map fst es) \<Longrightarrow> get_session (merge_sessions J es m) p =
     (case get_session m p of Some s \<Rightarrow> Some s
      | None \<Rightarrow> (case map_of es p of None \<Rightarrow> None | Some z \<Rightarrow> (case into_session J z of Ok s \<Rightarrow> Some s | _ \<Rightarrow> None)))"
proof (induction J es m rule: merge_sessions.induct)
  case (2 J q z es m)
  have "map_of es q = None" using "2.prems" by (simp add: map_of_eq_None_iff)
  then show ?case
    using 2 by (cases "get_session m q"; cases "into_session J z") (auto simp: has_session_def hm_contains_def get_session_def [symmetric] split: option.splits)
qed (simp split: option.split)

text \<open>The serializer of maps keeps the entries, in some order, and produces valid UTF-8.\<close>

definition sessions_json_correct :: "session_libs \<Rightarrow> bool" where
  "sessions_json_correct J \<longleftrightarrow> (\<forall>m. hm_wf m \<longrightarrow> (\<exists>json m'. sessions_to_json J m = Some json \<and> utf8_valid (as_bytes json)
     \<and> sessions_from_json J json = Some m' \<and> hm_wf m' \<and> hm_get m' = hm_get m))"

context backend_contract
begin

lemma save_load:
  assumes st: "good st" and J: "hex_correct J" "sessions_json_correct J" and m: "manager_wf m" "sm_backend m = Some vt"
  shows "\<exists>st'. SessionManager_save J m st = (Ok (), st') \<and> good st'
    \<and> (\<exists>m1. SessionManager_load J st' (SessionManager_with_backend vt) = (Ok (), m1)
      \<and> (\<forall>p. get_session m1 p = map_option reload (get_session m p)))"
proof -
  let ?z = "map (\<lambda>(k, v). (k, from_session J v)) (sm_sessions m)"
  have fst_z: "map fst ?z = map fst (sm_sessions m)" by (simp add: split_def)
  then have z: "hm_wf ?z" using m(1) by (simp only: hm_wf_def manager_wf_def)
  obtain json z' where j: "sessions_to_json J ?z = Some json" "utf8_valid (as_bytes json)" "sessions_from_json J json = Some z'"
      "hm_wf z'" "hm_get z' = hm_get ?z"
    using J(2) z unfolding sessions_json_correct_def by blast
  obtain st' where p: "vt_put vt SESSIONS_KEY (as_bytes json) st = (Ok (), st')" "good st'" "content st' = (content st)(SESSIONS_KEY \<mapsto> as_bytes json)"
    using put_law [OF st] by blast
  let ?m0 = "SessionManager_with_backend vt"
  have "SessionManager_load J st' ?m0 = (Ok (), merge_sessions J z' ?m0)"
    using get_law [OF p(2), of SESSIONS_KEY] p(3) j
    by (simp add: SessionManager_load_def SessionManager_with_backend_def string_from_utf8_as_bytes deserialize_sessions_def parse_sessions_def)
  moreover have "get_session (merge_sessions J z' ?m0) q = map_option reload (get_session m q)" for q
  proof -
    have "hm_get ?z q = map_option (from_session J) (get_session m q)" by (simp add: get_session_def map_of_map)
    moreover have "get_session ?m0 q = None" by (simp add: SessionManager_with_backend_def get_session_def)
    ultimately show ?thesis
      using j(5) get_merge_sessions [OF j(4) [unfolded hm_wf_def], of J ?m0 q] get_session_wf [OF m(1), of q] into_from_session [OF J(1)]
      by (cases "get_session m q") simp_all
  qed
  ultimately show ?thesis
    using p m(2) j(1) by (auto simp: SessionManager_save_def serialize_sessions_def)
qed

end

text \<open>
  C9. A restart.  Whatever a node did before, its sessions can be saved to the memory backend, and a new
  manager that loads them has the same session for every peer, except that the whole post-quantum state is
  gone: a hybrid session continues with its chains, but every later step of its post-quantum ratchet fails
  and every post-quantum secret that the peer sends is ignored.
\<close>

theorem session_restart:
  assumes "sized_libs L" and "hex_correct J" and "sessions_json_correct J" and "manager_reach L J m"
    and "sm_backend m = Some memory_vtable" and "memory_good st"
  shows "(\<exists>st'. SessionManager_save J m st = (Ok (), st')
      \<and> (\<exists>m1. SessionManager_load J st' (SessionManager_with_backend memory_vtable) = (Ok (), m1)
        \<and> (\<forall>p. get_session m1 p = map_option reload (get_session m p))))
    \<and> (\<forall>p s encap seed ct key. get_session m p = Some s \<and> is_pq_hybrid s \<longrightarrow>
        perform_pq_ratchet_step L encap seed (reload s) = (Err NoPqEncapsKey, reload s)
        \<and> handle_incoming_pq_fields L ct key (reload s) = (Ok [], reload s))"
proof (intro conjI allI impI)
  show "\<exists>st'. SessionManager_save J m st = (Ok (), st')
      \<and> (\<exists>m1. SessionManager_load J st' (SessionManager_with_backend memory_vtable) = (Ok (), m1)
        \<and> (\<forall>p. get_session m1 p = map_option reload (get_session m p)))"
    using memory.save_load [OF assms(6,2,3) manager_reach_wf [OF assms(4,1,2)] assms(5)] by blast
  fix p s encap seed ct key
  assume "get_session m p = Some s \<and> is_pq_hybrid s"
  then have "is_pq_hybrid (reload s)" by (simp add: is_pq_hybrid_def reload_def)
  then show "perform_pq_ratchet_step L encap seed (reload s) = (Err NoPqEncapsKey, reload s)"
    "handle_incoming_pq_fields L ct key (reload s) = (Ok [], reload s)"
    by (simp_all add: perform_pq_ratchet_step_def handle_incoming_pq_fields_def try_decapsulate_def reload_def)
qed

section \<open>The choice of the method\<close>










section \<open>Panics\<close>

lemma decrypt_no_panic: "length nonce = 24 \<Longrightarrow> fst (RatchetSession_decrypt L fresh d n nonce c aad s) \<noteq> Panic"
proof -
  assume n: "length nonce = 24"
  then have o: "open_message L e k nonce c aad \<noteq> Panic" for e k by (simp add: open_message_def split: option.split)
  have t: "fst (try_candidates L fresh d n nonce c aad s i cs errors) \<noteq> Panic" for i cs errors
  proof (induction cs arbitrary: i errors)
    case (Cons x cs)
    then show ?case
      using o get_message_key_no_panic [of L d n "dh_ratchet_step L (fresh i) x d s"] by (auto split: prod.splits result.splits)
  qed simp
  show ?thesis
    using o t get_message_key_no_panic [of L d n s]
    by (auto simp: RatchetSession_decrypt_def handle_dh_ratchet_trial_def split: option.splits prod.splits result.splits)
qed

lemma or_return_panic: "fst (or_return r s f) = Panic \<longleftrightarrow> r = Panic \<or> (\<exists>x. r = Ok x \<and> fst (f x) = Panic)"
  by (cases r) simp_all

lemma decrypt_message_no_panic: "fst (decrypt_message_ratcheted L fresh e s) \<noteq> Panic"
  by (auto simp: decrypt_message_ratcheted_def split_def decrypt_no_panic or_return_panic split: option.split)

lemma process_pq_no_panic: "fst (process_pq_fields L n e s) \<noteq> Panic"
  by (auto simp: process_pq_fields_def validate_pq_fields_present_def handle_incoming_pq_fields_def Let_def split_def
      or_return_panic split: option.split)

lemma decrypt_message_v2_no_panic: "fst (decrypt_message_ratcheted_v2 L fresh e s) \<noteq> Panic"
  by (auto simp: decrypt_message_ratcheted_v2_def split_def decrypt_no_panic process_pq_no_panic or_return_panic split: option.split)

lemma with_session_no_panic:
  "(\<And>s. fst (f s) \<noteq> Panic) \<Longrightarrow> fst (with_session_mut p f m) \<noteq> Panic"
  by (auto simp: with_session_mut_def split: option.split prod.split) (metis fst_conv)

lemma new_session_no_panic:
  "negotiate_suite L a b p q \<noteq> Panic" "new_receiver_session L d sk x kp ours their hct \<noteq> Panic"
proof -
  show n: "negotiate_suite L a b p q \<noteq> Panic" for a b p q by (simp add: negotiate_suite_def Let_def split: list.split)
  show "new_receiver_session L d sk x kp ours their hct \<noteq> Panic"
    using n by (auto simp: new_receiver_session_def and_then_eq_Panic init_as_receiver_hybrid_def init_as_receiver_hybrid_suite02_def Let_def
        hybrid_decapsulate_def pq_decapsulate_def split: option.splits if_splits)
qed

lemma init_v1_panic: "fst (init_receiver_v1_session L d sk p e m) = Panic \<longleftrightarrow> length (ev_sender_public_key e) \<noteq> 32"
  by (auto simp: init_receiver_v1_session_def or_return_panic create_receiver_session_def Let_def ed25519_public_to_x25519_def split: option.split)

lemma init_v2_panic:
  "fst (init_receiver_v2_session L d p sk x kp ours their e m) = Panic \<longleftrightarrow>
     kp \<noteq> None \<and> ours \<noteq> None \<and> their \<noteq> None \<and> envelope_hct e = Panic"
proof (cases "kp = None \<or> ours = None \<or> their = None")
  case True
  then show ?thesis by (auto simp: init_receiver_v2_session_def split: option.split)
next
  case False
  then obtain k b t where "kp = Some k" "ours = Some b" "their = Some t" by auto
  moreover have "fst (create_receiver_session_hybrid L d p sk y k b t h m) \<noteq> Panic" for y h
    using new_session_no_panic(2) [of L d sk y k b t h] by (simp add: create_receiver_session_hybrid_def or_return_panic)
  ultimately show ?thesis
    by (cases x) (auto simp: init_receiver_v2_session_def or_return_panic and_then_eq_Panic split_def)
qed

text \<open>The first attempt at an envelope fails: there is a session, and it does not decrypt.\<close>

definition first_attempt_fails :: "'s session_manager \<Rightarrow> string \<Rightarrow> (ratchet_session \<Rightarrow> (crypto_error, bytes) result \<times> ratchet_session) \<Rightarrow> bool" where
  "first_attempt_fails m p f \<longleftrightarrow> (\<exists>s. get_session m p = Some s \<and> \<not> is_ok (fst (f s)))"

lemma no_panic_pair: "fst x \<noteq> Panic \<Longrightarrow> x \<noteq> (Panic, y)"
  by auto

lemma attempt_no_panic:
  "with_session_mut p (decrypt_message_ratcheted L fresh e) m \<noteq> (Panic, m')"
  "with_session_mut p (decrypt_message_ratcheted_v2 L fresh e2) m \<noteq> (Panic, m')"
  by (intro no_panic_pair with_session_no_panic decrypt_message_no_panic decrypt_message_v2_no_panic)+

lemma has_session_iff: "has_session m p \<longleftrightarrow> (\<exists>s. get_session m p = Some s)"
  by (auto simp: has_session_def hm_contains_def get_session_def)

lemma receive_v1_panic:
  "fst (receive_v1 L J rnd sk e m) = Panic \<longleftrightarrow> length (ev_sender_public_key e) \<noteq> 32
     \<and> (let p = peer_of L J (ev_sender_public_key e) in
        \<not> has_session m p \<or> first_attempt_fails m p (decrypt_message_ratcheted L (dr_fresh rnd) e))"
proof (cases "length (ev_sender_public_key e) = 32")
  case True
  then have "init_receiver_v1_session L d sk p e m' \<noteq> (Panic, m'')" for d p and m' m'' :: "'a session_manager"
    by (intro no_panic_pair) (simp add: init_v1_panic)
  then show ?thesis
    using True by (auto simp: receive_v1_def Let_def or_return_panic attempt_no_panic split: prod.splits result.splits)
next
  case False
  let ?p = "peer_of L J (ev_sender_public_key e)"
  have i: "init_receiver_v1_session L d sk p e m' = (Panic, m')" for d p and m' :: "'a session_manager"
    using False by (simp add: init_receiver_v1_session_def)
  obtain r s' where d: "decrypt_message_ratcheted L (dr_fresh rnd) e (the (get_session m ?p)) = (r, s')" by fastforce
  have "r \<noteq> Panic" using decrypt_message_no_panic d by (metis fst_conv)
  then show ?thesis
    using False d i by (cases r) (auto simp: receive_v1_def Let_def has_session_iff first_attempt_fails_def with_session_mut_def)
qed

lemma receive_v2_panic:
  "fst (receive_v2 L J rnd sk x kp ours their e m) = Panic \<longleftrightarrow>
     kp \<noteq> None \<and> ours \<noteq> None \<and> their \<noteq> None \<and> envelope_hct e = Panic
     \<and> (let p = peer_of L J (v2_sender_public_key e) in
        \<not> has_session m p \<or> first_attempt_fails m p (decrypt_message_ratcheted_v2 L (dr_fresh rnd) e))"
proof (cases "kp \<noteq> None \<and> ours \<noteq> None \<and> their \<noteq> None \<and> envelope_hct e = Panic")
  case False
  then have "init_receiver_v2_session L d p sk x kp ours their e m' \<noteq> (Panic, m'')" for d p and m' m'' :: "'a session_manager"
    by (intro no_panic_pair) (simp only: init_v2_panic not_False_eq_True)
  then show ?thesis
    using False by (auto simp: receive_v2_def Let_def or_return_panic attempt_no_panic split: prod.splits result.splits if_splits)
next
  case True
  let ?p = "peer_of L J (v2_sender_public_key e)"
  have i: "init_receiver_v2_session L d p sk x kp ours their e m' = (Panic, m')" for d p and m' :: "'a session_manager"
    using True by (auto simp: init_receiver_v2_session_def)
  obtain r s' where d: "decrypt_message_ratcheted_v2 L (dr_fresh rnd) e (the (get_session m ?p)) = (r, s')" by fastforce
  have "r \<noteq> Panic" using decrypt_message_v2_no_panic d by (metis fst_conv)
  then show ?thesis
    using True d i by (cases r) (auto simp: receive_v2_def Let_def has_session_iff first_attempt_fails_def with_session_mut_def)
qed

text \<open>
  When receiving an envelope panics, exactly: a ratcheted first-version envelope whose sender key is not
  32 bytes long, or a second-version envelope with a key-encapsulation ciphertext, if that is not 1088 bytes
  long or the ephemeral key is not 32 bytes long, from a sender whose bundle is known; in both cases unless a
  session for the sender decrypts it.  Sender keys are checked before, ciphertext lengths are not.
\<close>

theorem receive_panics:
  "fst (decrypt_with_ratchet_fallback L J rnd sk x w kp ours their (Some m)) = Panic \<longleftrightarrow>
     (case w of
        WireV1 e \<Rightarrow> is_ratcheted_envelope e \<and> length (ev_sender_public_key e) \<noteq> 32
          \<and> (let p = peer_of L J (ev_sender_public_key e) in
             \<not> has_session m p \<or> first_attempt_fails m p (decrypt_message_ratcheted L (dr_fresh rnd) e))
      | WireV2 e \<Rightarrow> kp \<noteq> None \<and> ours \<noteq> None \<and> their \<noteq> None
          \<and> (\<exists>ct. v2_pq_kem_ciphertext e = Some ct \<and> (length ct \<noteq> 1088 \<or> length (v2_ephemeral_public_key e) \<noteq> 32))
          \<and> (let p = peer_of L J (v2_sender_public_key e) in
             \<not> has_session m p \<or> first_attempt_fails m p (decrypt_message_ratcheted_v2 L (dr_fresh rnd) e)))"
proof (cases w)
  case (WireV1 e)
  have "decrypt_message L sk e \<noteq> Panic" by (simp add: decrypt_message_def Let_def split: option.split)
  then show ?thesis using WireV1 receive_v1_panic [of L J rnd sk e m] by (simp add: decrypt_with_ratchet_fallback_def split_def)
next
  case (WireV2 e)
  have "envelope_hct e = Panic \<longleftrightarrow> (\<exists>ct. v2_pq_kem_ciphertext e = Some ct \<and> (length ct \<noteq> 1088 \<or> length (v2_ephemeral_public_key e) \<noteq> 32))"
    by (auto simp: envelope_hct_def split: option.split)
  then show ?thesis
    using WireV2 receive_v2_panic [of L J rnd sk x kp ours their e m] by (simp add: decrypt_with_ratchet_fallback_def split_def)
qed

section \<open>Sample inputs\<close>

lemma sample_sessions_json: "sessions_json_correct sample_sessions"
  by (auto simp: sessions_json_correct_def sample_sessions_def text_of_bytes_valid)

lemma sample_new_session:
  "\<exists>s. new_sender_session sized_crypto sample_rnd [40] [40] (sample_bundle [40] [61]) (sample_bundle [50] [60]) = Ok s"
proof -
  have "\<exists>bs. x25519_dh sized_crypto [2] (pad 32 [50]) = 52 # bs"
    by (simp add: sized_crypto_def toy_crypto_def pad_def numeral_eq_Suc)
  then have c: "was_contributory sized_crypto (x25519_dh sized_crypto [2] (pad 32 [50]))"
    by (auto simp: sized_crypto_def toy_crypto_def)
  have k: "length (kp_pub_key (mlkem_from_seed toy_crypto [60])) = 1184"
    by (simp add: mlkem_from_seed_def toy_crypto_def)
  have "\<exists>h. negotiate_suite sized_crypto (pb_supported_suites (sample_bundle [40] [61])) (pb_supported_suites (sample_bundle [50] [60]))
      (pb_ed25519_public (sample_bundle [40] [61])) (pb_ed25519_public (sample_bundle [50] [60])) = Ok (3, h)"
    by (simp add: negotiate_suite_def sample_bundle_def toy_bundle_def Let_def)
  moreover have "\<exists>s. init_as_sender_hybrid sized_crypto sample_rnd [40] (sample_bundle [50] [60]) h = Ok s" for h
    using c k by (simp add: init_as_sender_hybrid_def hybrid_encapsulate_def pq_encapsulate_def sample_bundle_def toy_bundle_def
        sample_rnd_def Let_def split_def)
  ultimately show ?thesis by (auto simp: new_sender_session_def)
qed

lemma sample_manager_session:
  "\<exists>s. get_session sample_manager ''peer'' = Some s" "sm_backend sample_manager = Some memory_vtable"
proof -
  obtain s where n: "new_sender_session sized_crypto sample_rnd [40] [40] (sample_bundle [40] [61]) (sample_bundle [50] [60]) = Ok s"
    using sample_new_session by blast
  obtain w s' where e: "encrypt_message_ratcheted sized_crypto (toy_rnd 7) [40] [1, 2, 3] s = (w, s')" by fastforce
  have u: "should_use_ratcheted_encryption (Some (sample_bundle [50] [60])) False True ''peer'' = Ok True"
    by (simp add: should_use_ratcheted_encryption_def sample_bundle_def toy_bundle_def HYBRID_SUITE_IDS_def)
  have m: "sample_manager = put_session ''peer'' s' (put_session ''peer'' s (SessionManager_with_backend memory_vtable))"
    using n e u by (simp add: sample_manager_def sample_send_def encrypt_with_ratchet_fallback_def ratcheted_send_def get_or_create_session_hybrid_def
        encrypt_session_def has_session_def hm_contains_def SessionManager_with_backend_def get_session_def Let_def)
  show "\<exists>s. get_session sample_manager ''peer'' = Some s" by (simp add: m)
  show "sm_backend sample_manager = Some memory_vtable" by (simp add: m put_session_def SessionManager_with_backend_def)
qed


theorem session_restart_witness:
  "\<exists>st' m1 s. SessionManager_save sample_sessions sample_manager MemoryStorage_new = (Ok (), st')
     \<and> SessionManager_load sample_sessions st' (SessionManager_with_backend memory_vtable) = (Ok (), m1)
     \<and> get_session sample_manager ''peer'' = Some s \<and> get_session m1 ''peer'' = Some (reload s)"
proof -
  have "memory_good MemoryStorage_new" by (simp add: memory_good_def MemoryStorage_new_def hm_wf_def)
  from session_restart [OF sized_crypto_sizes sample_sessions_hex sample_sessions_json sample_manager_reach sample_manager_session(2) this]
    sample_manager_session(1) show ?thesis by (metis option.simps(9))
qed


theorem receive_panics_witness:
  "fst (decrypt_with_ratchet_fallback sized_crypto sample_sessions \<lparr>dr_secret = [2], dr_fresh = (\<lambda>_. [3]), dr_secret_again = [4], dr_fresh_again = (\<lambda>_. [5])\<rparr>
     [50] None (WireV2 \<lparr>v2_suite = 3, v2_sender_public_key = [1], v2_ephemeral_public_key = replicate 32 2, v2_nonce = [], v2_ciphertext = [],
       v2_ratchet_dh_public = None, v2_ratchet_message_number = None, v2_pq_kem_ciphertext = Some [9], v2_pq_encaps_key = None, v2_transcript_hash = None\<rparr>)
     (Some (mlkem_from_seed sized_crypto [60])) (Some (sample_bundle [50] [60])) (Some (sample_bundle [40] [61]))
     (Some (SessionManager_new :: memory_storage session_manager))) = Panic"
  by (subst receive_panics) (simp add: SessionManager_new_def has_session_def hm_contains_def Let_def)

end
