(* ===== verification/Session_Replay.thy ===== *)
theory Session_Replay
  imports Session_Security
begin

text \<open>
  The re-establishment of sessions accepts old envelopes: the envelopes of the first chain of a classical
  session decrypt under a receiver session that is built anew, whatever happened since.
\<close>

text \<open>A peer sends a list of messages; \<open>rnd\<close> are the draws of each.\<close>

fun send_envelopes ::
  "crypto_libs \<Rightarrow> bytes \<Rightarrow> (encrypt_rnd \<times> bytes) list \<Rightarrow> ratchet_session \<Rightarrow> (crypto_error, wire_envelope) result list" where
  "send_envelopes L sk [] s = []"
| "send_envelopes L sk ((rnd, pt) # ms) s =
     (case encrypt_message_ratcheted L rnd sk pt s of (w, s') \<Rightarrow> w # send_envelopes L sk ms s')"

definition v1_carries :: "crypto_libs \<Rightarrow> bytes \<Rightarrow> ratchet_key \<Rightarrow> nat \<Rightarrow> bytes \<Rightarrow> envelope \<Rightarrow> bool" where
  "v1_carries L d ck i plaintext e \<longleftrightarrow> ev_ratchet_dh_public e = Some d \<and> ev_ratchet_message_number e = Some (of_nat i)
     \<and> (\<exists>r. carries L d (ev_sender_public_key e) ck i plaintext r \<and> re_nonce r = ev_nonce e \<and> re_ciphertext r = ev_ciphertext e)"

lemma encrypt_v1:
  assumes "aead_correct L" "\<not> is_pq_hybrid s" "rs_sending_chain s = Some (chain_at L ck j)" "rs_dh_step_count s < MAX_RATCHET_STEPS"
    and "length (er_nonce rnd) = 24" "length plaintext \<le> 2 ^ 38 - 64"
  obtains e where "encrypt_message_ratcheted L rnd sk plaintext s = (Ok (WireV1 e), s\<lparr>rs_sending_chain := Some (chain_at L ck (Suc j))\<rparr>)"
    and "v1_carries L (rs_our_dh_public s) ck j plaintext e" "ev_sender_public_key e = ed25519_public L sk"
proof -
  let ?s = "s\<lparr>rs_sending_chain := Some (chain_at L ck (Suc j))\<rparr>"
  obtain r where r: "RatchetSession_encrypt L (er_nonce rnd) plaintext (ed25519_public L sk) s = (Ok r, ?s)"
      "carries L (rs_our_dh_public s) (ed25519_public L sk) ck j plaintext r"
    using encrypt_carries [OF assms(1,3-6)] by blast
  have h: "\<not> is_pq_hybrid ?s" using assms(2) by (simp add: is_pq_hybrid_def)
  show thesis
    by (rule that) (use r h in \<open>auto simp: encrypt_message_ratcheted_def Let_def v1_carries_def carries_def\<close>)
qed

lemma send_envelopes_carry:
  assumes "aead_correct L" "\<forall>(rnd, pt) \<in> set ms. length (er_nonce rnd) = 24 \<and> length pt \<le> 2 ^ 38 - 64"
    and "\<not> is_pq_hybrid s" "rs_sending_chain s = Some (chain_at L ck j)" "rs_dh_step_count s < MAX_RATCHET_STEPS" "i < length ms"
  shows "\<exists>e. send_envelopes L sk ms s ! i = Ok (WireV1 e) \<and> v1_carries L (rs_our_dh_public s) ck (j + i) (snd (ms ! i)) e
    \<and> ev_sender_public_key e = ed25519_public L sk"
  using assms(2-)
proof (induction ms arbitrary: s i j)
  case (Cons m ms)
  obtain rnd pt where m: "m = (rnd, pt)" by (cases m)
  obtain e where e: "encrypt_message_ratcheted L rnd sk pt s = (Ok (WireV1 e), s\<lparr>rs_sending_chain := Some (chain_at L ck (Suc j))\<rparr>)"
      "v1_carries L (rs_our_dh_public s) ck j pt e" "ev_sender_public_key e = ed25519_public L sk"
    using encrypt_v1 [OF assms(1), of s ck j rnd pt sk] Cons.prems m by auto
  show ?case
  proof (cases i)
    case 0
    then show ?thesis using e m by simp
  next
    case (Suc k)
    have h: "\<not> is_pq_hybrid (s\<lparr>rs_sending_chain := Some (chain_at L ck (Suc j))\<rparr>)" using Cons.prems(2) by (simp add: is_pq_hybrid_def)
    from Cons.IH [OF _ h, of "Suc j" k] Cons.prems Suc e m show ?thesis by simp
  qed
qed simp

text \<open>With no pending post-quantum secret there is one trial, and it uses the first draw only.\<close>

lemma decrypt_first_draw:
  "rs_pq_pending_sent s = None \<Longrightarrow>
    RatchetSession_decrypt L fresh d n nonce c aad s = RatchetSession_decrypt L (\<lambda>_. fresh 0) d n nonce c aad s"
  by (simp add: RatchetSession_decrypt_def handle_dh_ratchet_trial_def split: option.split prod.split result.split)

lemma fresh_session_decrypts:
  assumes "dh_symmetric L" and "a = init_as_sender L dh_a sk_a (x25519_public L (ed25519_to_x25519_secret L sk_b))"
    and "rs_sending_chain a = Some (chain_at L ck 0)" and "i \<le> 256" and "v1_carries L (rs_our_dh_public a) ck i pt e"
  shows "fst (decrypt_message_ratcheted L fresh e (init_as_receiver L dh_b sk_b (x25519_public L (ed25519_to_x25519_secret L sk_a)))) = Ok pt"
proof -
  let ?b = "init_as_receiver L dh_b sk_b (x25519_public L (ed25519_to_x25519_secret L sk_a))"
  from assms(5) obtain r where r: "carries L (rs_our_dh_public a) (ev_sender_public_key e) ck i pt r"
      "re_nonce r = ev_nonce e" "re_ciphertext r = ev_ciphertext e" by (auto simp: v1_carries_def)
  have ready: "ready L a ?b" unfolding assms(2) by (rule classical_ready [OF assms(1)])
  have "length (rs_our_dh_public a) = 32" using assms(1) by (simp add: assms(2) init_as_sender_def Let_def split_def dh_symmetric_def)
  from first_of_turn [OF ready assms(3) this assms(4) r(1), of "fresh 0"]
  have "fst (RatchetSession_decrypt L fresh (rs_our_dh_public a) (of_nat i) (ev_nonce e) (ev_ciphertext e) (ev_sender_public_key e) ?b) = Ok pt"
    using r(2,3) decrypt_first_draw [of ?b L fresh] by (simp add: init_as_receiver_def Let_def)
  then show ?thesis
    using assms(5) r by (cases "RatchetSession_decrypt L fresh (rs_our_dh_public a) (of_nat i) (ev_nonce e) (ev_ciphertext e) (ev_sender_public_key e) ?b")
      (auto simp: decrypt_message_ratcheted_def v1_carries_def carries_def)
qed

text \<open>What the conversion of Ed25519 keys documents.\<close>

definition key_conversion :: "crypto_libs \<Rightarrow> bool" where
  "key_conversion L \<longleftrightarrow> (\<forall>sk. length (ed25519_public L sk) = 32
     \<and> ed25519_to_montgomery L (ed25519_public L sk) = Some (x25519_public L (ed25519_to_x25519_secret L sk)))"

lemma receive_rebuilt:
  assumes "key_conversion L" and "ev_sender_public_key e = ed25519_public L sk_a" and "is_ratcheted_envelope e"
    and "p = peer_of L J (ed25519_public L sk_a)"
    and fresh: "\<And>fresh dh_b. fst (decrypt_message_ratcheted L fresh e
      (init_as_receiver L dh_b sk_b (x25519_public L (ed25519_to_x25519_secret L sk_a)))) = Ok pt"
  shows "\<exists>q m'. decrypt_with_ratchet_fallback L J rnd sk_b x (WireV1 e) kp ours their (Some m) = (Ok q, Some m')
    \<and> (\<not> has_session m p \<longrightarrow> q = pt)
    \<and> (first_attempt_fails m p (decrypt_message_ratcheted L (dr_fresh rnd) e) \<longrightarrow> q = pt
        \<and> get_session m' p = Some (snd (decrypt_message_ratcheted L (dr_fresh_again rnd) e
            (init_as_receiver L (dr_secret_again rnd) sk_b (x25519_public L (ed25519_to_x25519_secret L sk_a))))))"
proof -
  let ?b = "\<lambda>d. init_as_receiver L d sk_b (x25519_public L (ed25519_to_x25519_secret L sk_a))"
  have p: "peer_of L J (ev_sender_public_key e) = p" using assms(2,4) by simp
  have i: "init_receiver_v1_session L d sk_b p e m' = (Ok (), put_session p (?b d) m')" for d and m' :: "'a session_manager"
    using assms(1,2) by (simp add: init_receiver_v1_session_def ed25519_public_to_x25519_def key_conversion_def create_receiver_session_def Let_def)
  have w: "with_session_mut p (decrypt_message_ratcheted L fr e) (put_session p (?b d) m')
      = (Ok pt, put_session p (snd (decrypt_message_ratcheted L fr e (?b d))) (put_session p (?b d) m'))" for d fr and m' :: "'a session_manager"
    using fresh [of fr d] by (simp add: with_session_mut_def split_def)
  have "\<exists>q m'. receive_v1 L J rnd sk_b e m = (Ok q, m') \<and> (\<not> has_session m p \<longrightarrow> q = pt)
    \<and> (first_attempt_fails m p (decrypt_message_ratcheted L (dr_fresh rnd) e) \<longrightarrow> q = pt
        \<and> get_session m' p = Some (snd (decrypt_message_ratcheted L (dr_fresh_again rnd) e (?b (dr_secret_again rnd)))))"
  proof (cases "get_session m p")
    case None
    then have "\<not> has_session m p" by (simp add: has_session_iff)
    then show ?thesis by (simp add: receive_v1_def p i w None first_attempt_fails_def)
  next
    case (Some s)
    then have h: "has_session m p" by (simp add: has_session_iff)
    obtain r s' where d: "decrypt_message_ratcheted L (dr_fresh rnd) e s = (r, s')" by fastforce
    have "r \<noteq> Panic" using decrypt_message_no_panic [of L "dr_fresh rnd" e s] d by simp
    then show ?thesis
      using Some h d by (cases r) (simp_all add: receive_v1_def p i w first_attempt_fails_def with_session_mut_def [of p _ m])
  qed
  then show ?thesis using assms(3) by (auto simp: decrypt_with_ratchet_fallback_def)
qed

text \<open>
  C4. Replayed envelopes.  Every envelope that a peer sent in the first chain of a classical session (up to
  257 of them) is decrypted by the recipient whenever it arrives again, in any state of the recipient's
  sessions; it is never refused.  Where the session of the recipient refuses it as a replay, that session
  is discarded and replaced by the one of a recipient that has only seen this envelope.
\<close>

theorem replay_resets_session:
  assumes "dh_symmetric L" and "aead_correct L" and "key_conversion L"
    and "a = init_as_sender L dh_a sk_a (x25519_public L (ed25519_to_x25519_secret L sk_b))"
    and "length ms \<le> 257" and "\<forall>(rnd, pt) \<in> set ms. length (er_nonce rnd) = 24 \<and> length pt \<le> 2 ^ 38 - 64" and "i < length ms"
    and "p = peer_of L J (ed25519_public L sk_a)"
  shows "\<exists>e. send_envelopes L sk_a ms a ! i = Ok (WireV1 e) \<and>
    (\<forall>m rnd. \<exists>q m'. decrypt_with_ratchet_fallback L J rnd sk_b x (WireV1 e) kp ours their (Some (m :: 's session_manager)) = (Ok q, Some m')
      \<and> (\<not> has_session m p \<longrightarrow> q = snd (ms ! i))
      \<and> (first_attempt_fails m p (decrypt_message_ratcheted L (dr_fresh rnd) e) \<longrightarrow> q = snd (ms ! i)
          \<and> get_session m' p = Some (snd (decrypt_message_ratcheted L (dr_fresh_again rnd) e
              (init_as_receiver L (dr_secret_again rnd) sk_b (x25519_public L (ed25519_to_x25519_secret L sk_a)))))))"
proof -
  obtain ck where ck: "rs_sending_chain a = Some (chain_at L ck 0)"
    by (simp add: assms(4) init_as_sender_def Let_def split_def Chain_new_at [of _ L])
  have "\<not> is_pq_hybrid a" "rs_dh_step_count a < MAX_RATCHET_STEPS"
    by (simp_all add: assms(4) init_as_sender_def Let_def split_def is_pq_hybrid_def MAX_RATCHET_STEPS_def)
  then obtain e where e: "send_envelopes L sk_a ms a ! i = Ok (WireV1 e)" "v1_carries L (rs_our_dh_public a) ck i (snd (ms ! i)) e"
      "ev_sender_public_key e = ed25519_public L sk_a"
    using send_envelopes_carry [OF assms(2,6) _ ck _ assms(7), of sk_a] by auto
  have r: "is_ratcheted_envelope e" using e(2) by (simp add: v1_carries_def is_ratcheted_envelope_def)
  have "i \<le> 256" using assms(5,7) by simp
  note receive_rebuilt [OF assms(3) e(3) r assms(8) fresh_session_decrypts [OF assms(1,4) ck this e(2)]]
  with e(1) show ?thesis by blast
qed

lemma toy_key_conversion: "key_conversion toy_crypto"
  by (simp add: key_conversion_def toy_crypto_def ed25519_to_x25519_secret_def pad_def min_def)

theorem replay_resets_session_witness:
  "\<exists>e. send_envelopes toy_crypto [100] [(toy_rnd 7, [10])]
      (init_as_sender toy_crypto [1] [100] (x25519_public toy_crypto (ed25519_to_x25519_secret toy_crypto [101]))) ! 0 = Ok (WireV1 e)
    \<and> (\<exists>m'. decrypt_with_ratchet_fallback toy_crypto sample_sessions \<lparr>dr_secret = [2], dr_fresh = (\<lambda>_. [3]), dr_secret_again = [4], dr_fresh_again = (\<lambda>_. [5])\<rparr>
        [101] None (WireV1 e) None None None (Some (SessionManager_new :: memory_storage session_manager)) = (Ok [10], Some m'))"
proof -
  let ?rnd = "\<lparr>dr_secret = [2], dr_fresh = (\<lambda>_. [3]), dr_secret_again = [4], dr_fresh_again = (\<lambda>_. [5])\<rparr>"
  let ?m = "SessionManager_new :: memory_storage session_manager"
  have "\<forall>(rnd, pt) \<in> set [(toy_rnd 7, [10])]. length (er_nonce rnd) = 24 \<and> length pt \<le> 2 ^ 38 - 64" by (simp add: toy_rnd_def)
  from replay_resets_session [OF toy_dh_symmetric toy_aead_correct toy_key_conversion refl _ this _ refl,
      where i = 0 and J = sample_sessions and sk_a = "[100]" and dh_a = "[1]" and sk_b = "[101]" and x = None and kp = None
        and ours = None and their = None]
  obtain e where e: "send_envelopes toy_crypto [100] [(toy_rnd 7, [10])]
      (init_as_sender toy_crypto [1] [100] (x25519_public toy_crypto (ed25519_to_x25519_secret toy_crypto [101]))) ! 0 = Ok (WireV1 e)"
    and all: "\<And>(m :: memory_storage session_manager) rnd.
      \<exists>q m'. decrypt_with_ratchet_fallback toy_crypto sample_sessions rnd [101] None (WireV1 e) None None None (Some m) = (Ok q, Some m')
      \<and> (\<not> has_session m (peer_of toy_crypto sample_sessions (ed25519_public toy_crypto [100])) \<longrightarrow> q = [10])"
    by (simp del: send_envelopes.simps) blast
  note all [of ?rnd ?m]
  moreover have "\<not> has_session ?m p" for p by (simp add: SessionManager_new_def has_session_def hm_contains_def)
  ultimately show ?thesis using e by blast
qed

end
