(* ===== verification/Session_Delivery.thy ===== *)
theory Session_Delivery
  imports Session_Replay
begin

text \<open>
  First contact: what one node encrypts for a peer it has no session with, the peer decrypts, whichever
  method the sender chose.
\<close>

text \<open>The keys of a node and the bundle it publishes.\<close>

record node_keys =
  nk_signing :: bytes
  nk_x25519 :: bytes
  nk_mlkem :: mlkem768_key_pair

definition bundle_of :: "crypto_libs \<Rightarrow> node_keys \<Rightarrow> public_key_bundle \<Rightarrow> bool" where
  "bundle_of L k b \<longleftrightarrow> pb_ed25519_public b = ed25519_public L (nk_signing k) \<and> pb_x25519_public b = x25519_public L (nk_x25519 k)
     \<and> pb_mlkem_encaps_key b = kp_pub_key (nk_mlkem k) \<and> nk_mlkem k = mlkem_from_seed L (kp_seed (nk_mlkem k))"

text \<open>
  The key in the sender field, and what the wire formats keep of an envelope: a message number comes with a
  ratchet key, and a post-quantum field that is there is not empty.
\<close>

definition wire_sender :: "wire_envelope \<Rightarrow> bytes" where
  "wire_sender w = (case w of WireV1 e \<Rightarrow> ev_sender_public_key e | WireV2 e \<Rightarrow> v2_sender_public_key e)"

definition wire_canonical :: "wire_envelope \<Rightarrow> bool" where
  "wire_canonical w \<longleftrightarrow> (case w of
     WireV1 e \<Rightarrow> (ev_ratchet_dh_public e = None \<longleftrightarrow> ev_ratchet_message_number e = None)
   | WireV2 e \<Rightarrow> (v2_ratchet_dh_public e = None \<longleftrightarrow> v2_ratchet_message_number e = None)
       \<and> opt_wf (\<lambda>c. c \<noteq> [] \<and> length c < 2 ^ 32) (v2_pq_kem_ciphertext e) \<and> opt_wf (\<lambda>c. c \<noteq> [] \<and> length c < 2 ^ 32) (v2_pq_encaps_key e)
       \<and> opt_wf (\<lambda>c. c \<noteq> [] \<and> length c < 2 ^ 32) (v2_transcript_hash e))"

section \<open>Hybrid sessions\<close>

text \<open>The sender's new session and the session that the receiver derives from its bootstrap ciphertext.\<close>

lemma hybrid_pair:
  assumes L: "dh_symmetric L" "mlkem_correct L" and k: "bundle_of L ka ba" "bundle_of L kb bb"
    and n: "negotiate_suite L (pb_supported_suites ba) (pb_supported_suites bb) (pb_ed25519_public ba) (pb_ed25519_public bb) = Ok (suite, h)"
    and suite: "suite = 2 \<or> suite = 3"
    and a: "new_sender_session L srnd (nk_signing ka) (nk_x25519 ka) ba bb = Ok a"
  shows "\<exists>hct. rs_bootstrap_hct a = Some hct \<and> length (hct_x25519_ephemeral_public hct) = 32 \<and> length (hct_mlkem_ciphertext hct) = 1088
    \<and> (\<exists>b. new_receiver_session L d (nk_signing kb) (nk_x25519 kb) (nk_mlkem kb) bb ba (Some hct) = Ok b
        \<and> established L a b \<and> rs_transcript_hash b = Some h \<and> \<not> rs_peer_confirmed b)
    \<and> rs_transcript_hash a = Some h \<and> \<not> rs_peer_confirmed a \<and> is_pq_hybrid a \<and> rs_pq_our_keypair a = Some (pq_generate L (rnd_seed srnd))"
proof -
  let ?seed = "kp_seed (nk_mlkem kb)"
  have kb: "pb_x25519_public bb = x25519_public L (nk_x25519 kb)" "pb_mlkem_encaps_key bb = kp_pub_key (mlkem_from_seed L ?seed)"
      "nk_mlkem kb = mlkem_from_seed L ?seed" and ka: "pb_x25519_public ba = x25519_public L (nk_x25519 ka)"
    using k by (auto simp: bundle_of_def)
  obtain hct ss where e: "hybrid_encapsulate L (rnd_ephemeral srnd) (rnd_encaps srnd) (x25519_public L (nk_x25519 kb)) (kp_pub_key (mlkem_from_seed L ?seed)) = Ok (hct, ss)"
    using a n suite by (auto simp: new_sender_session_def init_as_sender_hybrid_def init_as_sender_hybrid_suite02_def and_then_eq_Ok kb(1,2))
  note d = hybrid_agree [OF L e]
  have len: "length (hct_x25519_ephemeral_public hct) = 32" "length (hct_mlkem_ciphertext hct) = 1088"
    using d(2,3) L(1) by (simp_all add: dh_symmetric_def)
  from suite show ?thesis
  proof
    assume s: "suite = 3"
    from a n e s have a': "init_as_sender_hybrid L srnd (nk_x25519 ka) bb h = Ok a" by (simp add: new_sender_session_def)
    then have fields: "rs_bootstrap_hct a = Some hct" "rs_transcript_hash a = Some h" "\<not> rs_peer_confirmed a" "is_pq_hybrid a"
        "rs_pq_our_keypair a = Some (pq_generate L (rnd_seed srnd))"
      using e by (auto simp: init_as_sender_hybrid_def kb(1,2) hybrid_sender_session_def is_pq_hybrid_def HYBRID_SUITE_IDS_def Let_def split_def)
    obtain b where b: "init_as_receiver_hybrid L d (nk_x25519 kb) (mlkem_from_seed L ?seed) ba hct h = Ok b"
      using d(1) by (simp add: init_as_receiver_hybrid_def)
    then have "rs_transcript_hash b = Some h" "\<not> rs_peer_confirmed b"
      using d(1) by (auto simp: init_as_receiver_hybrid_def hybrid_receiver_session_def)
    moreover have "new_receiver_session L d (nk_signing kb) (nk_x25519 kb) (nk_mlkem kb) bb ba (Some hct) = Ok b"
      using n s b by (simp add: new_receiver_session_def kb(3) [symmetric])
    ultimately show ?thesis using fields len established.suite03 [OF ka kb(1,2) a' fields(1) b] by blast
  next
    assume s: "suite = 2"
    from a n e s have a': "init_as_sender_hybrid_suite02 L srnd bb h = Ok a" by (simp add: new_sender_session_def)
    then have fields: "rs_bootstrap_hct a = Some hct" "rs_transcript_hash a = Some h" "\<not> rs_peer_confirmed a" "is_pq_hybrid a"
        "rs_pq_our_keypair a = Some (pq_generate L (rnd_seed srnd))"
      using e by (auto simp: init_as_sender_hybrid_suite02_def kb(1,2) hybrid_sender_session_def is_pq_hybrid_def HYBRID_SUITE_IDS_def Let_def split_def)
    obtain b where b: "init_as_receiver_hybrid_suite02 L d (nk_x25519 kb) (mlkem_from_seed L ?seed) hct h = Ok b"
      using d(1) by (simp add: init_as_receiver_hybrid_suite02_def)
    then have "rs_transcript_hash b = Some h" "\<not> rs_peer_confirmed b"
      using d(1) by (auto simp: init_as_receiver_hybrid_suite02_def hybrid_receiver_session_def)
    moreover have "new_receiver_session L d (nk_signing kb) (nk_x25519 kb) (nk_mlkem kb) bb ba (Some hct) = Ok b"
      using n s b by (simp add: new_receiver_session_def kb(3) [symmetric])
    ultimately show ?thesis using fields len established.suite02 [OF kb(1,2) a' fields(1) b] by blast
  qed
qed

text \<open>The first envelope of a hybrid session carries the bootstrap ciphertext.\<close>

lemma encrypt_bootstrap:
  assumes "aead_correct L" "is_pq_hybrid a" "rs_sending_chain a = Some (chain_at L ck 0)" "rs_dh_step_count a < MAX_RATCHET_STEPS"
    and "length (er_nonce rnd) = 24" "length pt \<le> 2 ^ 38 - 64" "\<not> rs_peer_confirmed a" "rs_bootstrap_hct a = Some hct"
    and "encrypt_message_ratcheted L rnd sk pt a = (Ok w, a')"
  obtains e where "w = WireV2 e" "v2_carries L (rs_our_dh_public a) ck 0 pt e" "v2_pq_kem_ciphertext e = Some (hct_mlkem_ciphertext hct)"
    "v2_ephemeral_public_key e = hct_x25519_ephemeral_public hct" "v2_transcript_hash e = rs_transcript_hash a"
    "v2_sender_public_key e = ed25519_public L sk" "v2_pq_encaps_key e = map_option kp_pub_key (rs_pq_our_keypair a)"
proof -
  let ?a = "a\<lparr>rs_sending_chain := Some (chain_at L ck (Suc 0))\<rparr>"
  obtain r where r: "RatchetSession_encrypt L (er_nonce rnd) pt (ed25519_public L sk) a = (Ok r, ?a)"
      "carries L (rs_our_dh_public a) (ed25519_public L sk) ck 0 pt r"
    using encrypt_carries [OF assms(1,3-6)] by blast
  have h: "is_pq_hybrid ?a" using assms(2) by (simp add: is_pq_hybrid_def)
  show thesis
    by (rule that [of "case w of WireV2 e \<Rightarrow> e"])
      (use r h assms(7-9) in \<open>auto simp: encrypt_message_ratcheted_def outgoing_pq_fields_def Let_def v2_carries_def carries_def\<close>)
qed

lemma decrypt_bootstrap:
  assumes "ready L a b" "rs_sending_chain a = Some (chain_at L ck 0)" "length (rs_our_dh_public a) = 32" "rs_pq_pending_sent b = None"
    and "v2_carries L (rs_our_dh_public a) ck 0 pt e" "\<not> rs_peer_confirmed b" "v2_transcript_hash e = rs_transcript_hash b"
  shows "fst (decrypt_message_ratcheted_v2 L fresh e b) = Ok pt"
proof -
  from assms(5) obtain r where r: "carries L (rs_our_dh_public a) (v2_sender_public_key e) ck 0 pt r"
      "re_nonce r = v2_nonce e" "re_ciphertext r = v2_ciphertext e" by (auto simp: v2_carries_def)
  have p: "process_pq_fields L (of_nat 0) e b = (Ok (), b)" using assms(6) by (simp add: process_pq_fields_def)
  obtain q b' where d: "RatchetSession_decrypt L fresh (rs_our_dh_public a) (of_nat 0) (v2_nonce e) (v2_ciphertext e) (v2_sender_public_key e) b = (q, b')"
    by fastforce
  then have "q = Ok pt"
    using first_of_turn [OF assms(1-3) _ r(1), of "fresh 0"] r(2,3) decrypt_first_draw [OF assms(4), of L fresh] by simp
  then show ?thesis using decrypt_v2 [OF assms(5) p _ d] assms(7) by simp
qed

lemma hybrid_delivered:
  assumes L: "dh_symmetric L" "aead_correct L" "mlkem_correct L" and size: "sized_libs L" and k: "bundle_of L ka ba" "bundle_of L kb bb"
    and n: "negotiate_suite L (pb_supported_suites ba) (pb_supported_suites bb) (pb_ed25519_public ba) (pb_ed25519_public bb) = Ok (suite, h)"
    and suite: "suite = 2 \<or> suite = 3"
    and a: "new_sender_session L srnd (nk_signing ka) (nk_x25519 ka) ba bb = Ok a"
    and e: "encrypt_message_ratcheted L rnd (nk_signing ka) pt a = (Ok w, a')" and sz: "length (er_nonce rnd) = 24" "length pt \<le> 2 ^ 38 - 64"
    and m: "\<not> has_session m (peer_of L J (ed25519_public L (nk_signing ka)))"
  shows "(\<exists>m'. decrypt_with_ratchet_fallback L J drnd (nk_signing kb) (Some (nk_x25519 kb)) w (Some (nk_mlkem kb)) (Some bb) (Some ba) (Some m) = (Ok pt, Some m'))
    \<and> wire_canonical w \<and> wire_sender w = ed25519_public L (nk_signing ka)"
proof -
  obtain hct b where hct: "rs_bootstrap_hct a = Some hct" "length (hct_x25519_ephemeral_public hct) = 32" "length (hct_mlkem_ciphertext hct) = 1088"
    and b: "new_receiver_session L (dr_secret drnd) (nk_signing kb) (nk_x25519 kb) (nk_mlkem kb) bb ba (Some hct) = Ok b" "established L a b"
      "rs_transcript_hash b = Some h" "\<not> rs_peer_confirmed b"
    and fields: "rs_transcript_hash a = Some h" "\<not> rs_peer_confirmed a" "is_pq_hybrid a" "rs_pq_our_keypair a = Some (pq_generate L (rnd_seed srnd))"
    using hybrid_pair [OF L(1,3) k n suite a, of "dr_secret drnd"] by blast
  have ready: "ready L a b" "rs_dh_step_count a = 1" using established_ready [OF L(1,3) b(2)] by auto
  then obtain ck where ck: "rs_sending_chain a = Some (chain_at L ck 0)" by (auto simp: ready_def)
  have steps: "rs_dh_step_count a < MAX_RATCHET_STEPS" using ready(2) by (simp add: MAX_RATCHET_STEPS_def)
  obtain env where env: "w = WireV2 env" "v2_carries L (rs_our_dh_public a) ck 0 pt env" "v2_pq_kem_ciphertext env = Some (hct_mlkem_ciphertext hct)"
      "v2_ephemeral_public_key env = hct_x25519_ephemeral_public hct" "v2_transcript_hash env = rs_transcript_hash a"
      "v2_sender_public_key env = ed25519_public L (nk_signing ka)" "v2_pq_encaps_key env = map_option kp_pub_key (rs_pq_our_keypair a)"
    by (rule encrypt_bootstrap [OF L(2) fields(3) ck steps sz fields(2) hct(1) e])
  let ?p = "peer_of L J (ed25519_public L (nk_signing ka))"
  have "envelope_hct env = Ok (Some hct)" using env(3,4) hct(2,3) by (simp add: envelope_hct_def)
  then have i: "init_receiver_v2_session L (dr_secret drnd) ?p (nk_signing kb) (Some (nk_x25519 kb)) (Some (nk_mlkem kb)) (Some bb) (Some ba) env m
      = (Ok (), put_session ?p b m)"
    using b(1) by (simp add: init_receiver_v2_session_def create_receiver_session_hybrid_def)
  have "length (rs_our_dh_public a) = 32" using ready(1) L(1) by (auto simp: ready_def dh_symmetric_def)
  moreover have "rs_pq_pending_sent b = None" using ready(1) by (simp add: ready_def no_pending_def)
  ultimately have d: "fst (decrypt_message_ratcheted_v2 L (dr_fresh drnd) env b) = Ok pt"
    using decrypt_bootstrap [OF ready(1) ck _ _ env(2) b(4)] env(5) fields(1) b(3) by simp
  have "key_wf h" by (rule negotiate_hash_wf [OF size n])
  moreover have "length (kp_pub_key (pq_generate L (rnd_seed srnd))) = 1184"
    using L(3) unfolding mlkem_correct_def by (auto simp: pq_generate_def split_def)
  ultimately have "wire_canonical w" "wire_sender w = ed25519_public L (nk_signing ka)"
    using env hct(3) fields by (auto simp: wire_canonical_def wire_sender_def v2_carries_def key_wf_def)
  then show ?thesis
    using m i d by (simp add: env(1,6) decrypt_with_ratchet_fallback_def receive_v2_def with_session_mut_def split_def Let_def)
qed

section \<open>Classical sessions\<close>

lemma classical_delivered:
  assumes L: "dh_symmetric L" "aead_correct L" "key_conversion L"
    and a: "a = init_as_sender L dh (nk_signing ka) (x25519_public L (ed25519_to_x25519_secret L (nk_signing kb)))"
    and s: "s = a \<or> s = a\<lparr>rs_negotiated_suite := Some suite, rs_transcript_hash := Some h\<rparr>" "\<not> is_pq_hybrid s"
    and e: "encrypt_message_ratcheted L rnd (nk_signing ka) pt s = (Ok w, s')" and sz: "length (er_nonce rnd) = 24" "length pt \<le> 2 ^ 38 - 64"
    and m: "\<not> has_session m (peer_of L J (ed25519_public L (nk_signing ka)))"
  shows "(\<exists>m'. decrypt_with_ratchet_fallback L J drnd (nk_signing kb) x w kp ours their (Some m) = (Ok pt, Some m'))
    \<and> wire_canonical w \<and> wire_sender w = ed25519_public L (nk_signing ka)"
proof -
  obtain ck where ck: "rs_sending_chain a = Some (chain_at L ck 0)"
    by (simp add: a init_as_sender_def Let_def split_def Chain_new_at [of _ L])
  have "rs_dh_step_count a = 1" by (simp add: a init_as_sender_def Let_def split_def)
  then have same: "rs_sending_chain s = Some (chain_at L ck 0)" "rs_our_dh_public s = rs_our_dh_public a" "rs_dh_step_count s < MAX_RATCHET_STEPS"
    using s(1) ck by (auto simp: MAX_RATCHET_STEPS_def)
  obtain env where env: "w = WireV1 env" "v1_carries L (rs_our_dh_public a) ck 0 pt env" "ev_sender_public_key env = ed25519_public L (nk_signing ka)"
    using encrypt_v1 [OF L(2) s(2) same(1,3) sz, of "nk_signing ka"] e same(2) by auto
  have r: "is_ratcheted_envelope env" using env(2) by (simp add: v1_carries_def is_ratcheted_envelope_def)
  from receive_rebuilt [OF L(3) env(3) r refl fresh_session_decrypts [OF L(1) a ck _ env(2)]] m
  have "\<exists>m'. decrypt_with_ratchet_fallback L J drnd (nk_signing kb) x w kp ours their (Some m) = (Ok pt, Some m')" unfolding env(1) by blast
  then show ?thesis using env by (auto simp: wire_canonical_def wire_sender_def v1_carries_def)
qed

section \<open>First contact\<close>

lemma encrypt_session_message:
  "encrypt_session L rnd sk pt p (Ok s, m) = (Ok w, m') \<Longrightarrow> \<exists>s'. encrypt_message_ratcheted L rnd sk pt s = (Ok w, s')"
  by (auto simp: encrypt_session_def split: prod.splits)

lemma key_conversionD:
  assumes "key_conversion L"
  shows "ed25519_public_to_x25519 L (ed25519_public L sk) = Ok (x25519_public L (ed25519_to_x25519_secret L sk))"
    "length (ed25519_public L sk) = 32"
    "ed25519_to_montgomery L (ed25519_public L sk) = Some (x25519_public L (ed25519_to_x25519_secret L sk))"
  using assms by (simp_all add: key_conversion_def ed25519_public_to_x25519_def)

lemma ratcheted_delivered:
  assumes L: "dh_symmetric L" "aead_correct L" "mlkem_correct L" "key_conversion L" and size: "sized_libs L"
    and k: "bundle_of L ka ba" "bundle_of L kb bb" and known: "ours = None \<or> ours = Some ba" "their = None \<or> their = Some bb"
    and none: "get_session ma p = None" and mb: "\<not> has_session mb (peer_of L J (ed25519_public L (nk_signing ka)))"
    and sz: "length (er_nonce rnd) = 24" "length pt \<le> 2 ^ 38 - 64"
    and rs: "ratcheted_send L srnd rnd (nk_signing ka) their (ed25519_public L (nk_signing kb)) pt p ours (Some (nk_x25519 ka)) ma = (Ok w, m')"
  shows "(\<exists>mb'. decrypt_with_ratchet_fallback L J drnd (nk_signing kb) (Some (nk_x25519 kb)) w (Some (nk_mlkem kb)) (Some bb) (Some ba) (Some mb)
    = (Ok pt, Some mb'))
    \<and> wire_canonical w \<and> wire_sender w = ed25519_public L (nk_signing ka)"
proof -
  let ?a = "init_as_sender L (rnd_dh_secret srnd) (nk_signing ka) (x25519_public L (ed25519_to_x25519_secret L (nk_signing kb)))"
  have cl: "\<not> is_pq_hybrid ?a" by (simp add: init_as_sender_def Let_def split_def is_pq_hybrid_def)
  show ?thesis
  proof (cases "ours = None \<or> their = None")
    case True
    with rs have "encrypt_session L rnd (nk_signing ka) pt p (Ok ?a, put_session p ?a ma) = (Ok w, m')"
      using none by (auto simp: ratcheted_send_def key_conversionD [OF L(4)] get_or_create_session_def Let_def split: option.splits)
    from encrypt_session_message [OF this] obtain s' where "encrypt_message_ratcheted L rnd (nk_signing ka) pt ?a = (Ok w, s')" by blast
    from classical_delivered [OF L(1,2,4) refl disjI1 [OF refl] cl this sz mb] show ?thesis by blast
  next
    case False
    then have bs: "ours = Some ba" "their = Some bb" using known by auto
    with rs none obtain a s' where a: "new_sender_session L srnd (nk_signing ka) (nk_x25519 ka) ba bb = Ok a"
        and e: "encrypt_message_ratcheted L rnd (nk_signing ka) pt a = (Ok w, s')"
      by (cases "new_sender_session L srnd (nk_signing ka) (nk_x25519 ka) ba bb")
        (auto simp: ratcheted_send_def get_or_create_session_hybrid_def encrypt_session_def split: prod.splits)
    then obtain suite h where n: "negotiate_suite L (pb_supported_suites ba) (pb_supported_suites bb) (pb_ed25519_public ba) (pb_ed25519_public bb) = Ok (suite, h)"
      by (auto simp: new_sender_session_def and_then_eq_Ok)
    show ?thesis
    proof (cases "suite = 2 \<or> suite = 3")
      case True
      from hybrid_delivered [OF L(1-3) size k n True a e sz mb] show ?thesis .
    next
      case False
      have "pb_ed25519_public bb = ed25519_public L (nk_signing kb)" using k(2) by (simp add: bundle_of_def)
      then have s: "a = ?a\<lparr>rs_negotiated_suite := Some suite, rs_transcript_hash := Some h\<rparr>"
        using a n False by (simp add: new_sender_session_def key_conversionD [OF L(4)])
      have "\<not> is_pq_hybrid a" using False by (simp add: s is_pq_hybrid_def HYBRID_SUITE_IDS_def)
      from classical_delivered [OF L(1,2,4) refl disjI2 [OF s] this e sz mb] show ?thesis by blast
    qed
  qed
qed

lemma first_contact_delivered:
  assumes L: "dh_symmetric L" "aead_correct L" "mlkem_correct L" "key_conversion L" and size: "sized_libs L"
    and k: "bundle_of L ka ba" "bundle_of L kb bb" and known: "ours = None \<or> ours = Some ba" "their = None \<or> their = Some bb"
    and ma: "\<not> has_session ma p" and mb: "\<not> has_session (mb :: 't session_manager) (peer_of L J (ed25519_public L (nk_signing ka)))"
    and sz: "length (er_nonce rnd) = 24" "length pt \<le> 2 ^ 38 - 64"
    and send: "encrypt_with_ratchet_fallback L A srnd rnd uuid now (nk_signing ka) their (ed25519_public L (nk_signing kb)) pt p ours
      (Some (nk_x25519 ka)) require_pq (Some (ma :: 's session_manager)) audit = (Ok w, mgr', audit')"
  shows "(\<exists>mb'. decrypt_with_ratchet_fallback L J drnd (nk_signing kb) (Some (nk_x25519 kb)) w (Some (nk_mlkem kb)) (Some bb) (Some ba) (Some mb)
    = (Ok pt, Some mb'))
    \<and> wire_canonical w \<and> wire_sender w = ed25519_public L (nk_signing ka)"
proof -
  from send obtain b where b: "should_use_ratcheted_encryption their False require_pq p = Ok b"
    using ma by (cases "should_use_ratcheted_encryption their False require_pq p") (auto simp: encrypt_with_ratchet_fallback_def Let_def)
  show ?thesis
  proof (cases b)
    case False
    then obtain e where e: "encrypt_message L rnd (nk_signing ka) (ed25519_public L (nk_signing kb)) pt = Ok e" "w = WireV1 e"
      using send b ma by (cases "audit_static_send A uuid now p audit", cases "fst (audit_static_send A uuid now p audit)")
        (auto simp: encrypt_with_ratchet_fallback_def Let_def and_then_eq_Ok)
    from static_message_roundtrip [OF L(1,2) key_conversionD(3,2) [OF L(4)] sz, of "nk_signing ka" "nk_signing kb"] e
    have d: "\<not> is_ratcheted_envelope e" "decrypt_message L (nk_signing kb) e = Ok pt" "ev_sender_public_key e = ed25519_public L (nk_signing ka)" by auto
    moreover from e(1) have "ev_ratchet_dh_public e = None" "ev_ratchet_message_number e = None"
      by (auto simp: encrypt_message_def and_then_eq_Ok Let_def split: option.splits)
    ultimately show ?thesis by (simp add: e(2) decrypt_with_ratchet_fallback_def wire_canonical_def wire_sender_def)
  next
    case True
    then obtain m' where "ratcheted_send L srnd rnd (nk_signing ka) their (ed25519_public L (nk_signing kb)) pt p ours (Some (nk_x25519 ka)) ma = (Ok w, m')"
      using send b ma by (auto simp: encrypt_with_ratchet_fallback_def Let_def split: prod.splits)
    moreover have "get_session ma p = None" using ma by (simp add: has_session_iff)
    ultimately show ?thesis by (intro ratcheted_delivered [OF L size k known _ mb sz])
  qed
qed

end
