(* ===== verification/Message_Codec.thy ===== *)
theory Message_Codec
  imports Drift_Envelope
begin

text \<open>
  The message codec (\<open>core/src/message/codec.rs\<close>): the size limits, the encodings of messages and
  envelopes and the length checks on what is decoded.  Bincode is a package of its own, one pair of functions
  per type in \<open>codec_libs\<close>; the error of the package is its text.
\<close>

definition MAX_MESSAGE_SIZE :: nat where "MAX_MESSAGE_SIZE = 256 * 1024"

definition MAX_PAYLOAD_SIZE :: nat where "MAX_PAYLOAD_SIZE = 8 * 1024"

record codec_libs =
  ser_message :: "message \<Rightarrow> string + bytes"
  de_message :: "bytes \<Rightarrow> string + message"
  ser_envelope :: "envelope \<Rightarrow> string + bytes"
  de_envelope :: "bytes \<Rightarrow> string + envelope"
  ser_envelope_v2 :: "envelope_v2 \<Rightarrow> string + bytes"
  de_envelope_v2 :: "bytes \<Rightarrow> string + envelope_v2"
  ser_signed :: "signed_envelope \<Rightarrow> string + bytes"
  de_signed :: "bytes \<Rightarrow> string + signed_envelope"
  ser_signed_v2 :: "signed_envelope_v2 \<Rightarrow> string + bytes"
  de_signed_v2 :: "bytes \<Rightarrow> string + signed_envelope_v2"

datatype codec_error =
    PayloadTooLarge nat
  | EncodedTooLarge nat
  | InputTooLarge nat
  | EmptyBuffer
  | Bincode string
  | InvalidLength string
  | DriftSignature drift_error

definition bincode :: "string + 'a \<Rightarrow> (codec_error, 'a) result" where
  "bincode r = (case r of Inl m \<Rightarrow> Err (Bincode m) | Inr x \<Rightarrow> Ok x)"

definition limit_encoded :: "bytes \<Rightarrow> (codec_error, bytes) result" where
  "limit_encoded bs = (if MAX_MESSAGE_SIZE < length bs then Err (EncodedTooLarge (length bs)) else Ok bs)"

definition validate_payload_size :: "bytes \<Rightarrow> (codec_error, unit) result" where
  "validate_payload_size payload =
     (if MAX_PAYLOAD_SIZE < length payload then Err (PayloadTooLarge (length payload)) else Ok ())"

definition encode_message :: "codec_libs \<Rightarrow> message \<Rightarrow> (codec_error, bytes) result" where
  "encode_message C m =
     and_then (validate_payload_size (msg_payload m)) (\<lambda>_.
     and_then (bincode (ser_message C m)) limit_encoded)"

definition decode_message :: "codec_libs \<Rightarrow> bytes \<Rightarrow> (codec_error, message) result" where
  "decode_message C bs =
     (if MAX_MESSAGE_SIZE < length bs then Err (InputTooLarge (length bs)) else bincode (de_message C bs))"

definition encode_envelope :: "codec_libs \<Rightarrow> envelope \<Rightarrow> (codec_error, bytes) result" where
  "encode_envelope C e = and_then (bincode (ser_envelope C e)) limit_encoded"

text \<open>
  The start of both decoders: a buffer with the Drift version byte that parses as a Drift envelope is
  decided by its signature; any other buffer goes to the next format.
\<close>

definition try_drift :: "drift_libs \<Rightarrow> bytes \<Rightarrow> (drift_envelope \<Rightarrow> 'a) \<Rightarrow> (codec_error, 'a) result \<Rightarrow> (codec_error, 'a) result" where
  "try_drift D bs f otherwise =
     (if bs \<noteq> [] \<and> bs ! 0 = DRIFT_VERSION
      then (case DriftEnvelope_from_bytes D bs of
              Ok drift_env \<Rightarrow> and_then (map_err DriftSignature (DriftEnvelope_verify D drift_env)) (\<lambda>_. Ok (f drift_env))
            | Err _ \<Rightarrow> otherwise
            | Panic \<Rightarrow> Panic)
      else otherwise)"

definition decode_envelope :: "drift_libs \<Rightarrow> codec_libs \<Rightarrow> bytes \<Rightarrow> (codec_error, envelope) result" where
  "decode_envelope D C bs =
     (if MAX_MESSAGE_SIZE < length bs then Err (InputTooLarge (length bs))
      else try_drift D bs to_legacy_envelope (bincode (de_envelope C bs)))"

definition encode_wire_envelope :: "codec_libs \<Rightarrow> wire_envelope \<Rightarrow> (codec_error, bytes) result" where
  "encode_wire_envelope C w =
     (case w of
        WireV1 e \<Rightarrow> and_then (bincode (ser_envelope C e)) limit_encoded
      | WireV2 e \<Rightarrow> and_then (bincode (ser_envelope_v2 C e)) (\<lambda>bs. limit_encoded (WIRE_TAG_V2 # bs)))"

text \<open>The chains of length checks, in the order of the code; a missing field is not checked.\<close>

fun check_lengths :: "(string \<times> nat \<times> bytes option) list \<Rightarrow> (codec_error, unit) result" where
  "check_lengths [] = Ok ()"
| "check_lengths ((what, n, field) # cs) =
     (if case field of Some bs \<Rightarrow> length bs \<noteq> n | None \<Rightarrow> False then Err (InvalidLength what) else check_lengths cs)"

definition v1_lengths :: "bytes option \<Rightarrow> envelope \<Rightarrow> (string \<times> nat \<times> bytes option) list" where
  "v1_lengths signature e =
     [(''sender public key'', 32, Some (ev_sender_public_key e)), (''ephemeral public key'', 32, Some (ev_ephemeral_public_key e)),
      (''nonce'', 24, Some (ev_nonce e)), (''signature'', 64, signature), (''ratchet DH public key'', 32, ev_ratchet_dh_public e)]"

definition v2_lengths :: "bytes option \<Rightarrow> envelope_v2 \<Rightarrow> (string \<times> nat \<times> bytes option) list" where
  "v2_lengths signature e =
     [(''sender public key'', 32, Some (v2_sender_public_key e)), (''ephemeral public key'', 32, Some (v2_ephemeral_public_key e)),
      (''nonce'', 24, Some (v2_nonce e)), (''signature'', 64, signature), (''ratchet DH public key'', 32, v2_ratchet_dh_public e),
      (''PQ KEM ciphertext'', 1088, v2_pq_kem_ciphertext e), (''PQ encapsulation key'', 1184, v2_pq_encaps_key e),
      (''transcript hash'', 32, v2_transcript_hash e)]"

definition decode_wire_envelope :: "drift_libs \<Rightarrow> codec_libs \<Rightarrow> bytes \<Rightarrow> (codec_error, wire_envelope) result" where
  "decode_wire_envelope D C buf =
     (if buf = [] then Err EmptyBuffer
      else if MAX_MESSAGE_SIZE < length buf then Err (InputTooLarge (length buf))
      else try_drift D buf to_wire_envelope
        (let v1 = and_then (bincode (de_envelope C buf)) (\<lambda>e. and_then (check_lengths (v1_lengths None e)) (\<lambda>_. Ok (WireV1 e))) in
         if buf ! 0 = WIRE_TAG_V2
         then (case de_envelope_v2 C (drop 1 buf) of
                 Inr e \<Rightarrow> and_then (check_lengths (v2_lengths None e)) (\<lambda>_. Ok (WireV2 e))
               | Inl _ \<Rightarrow> v1)
         else v1))"

definition encode_wire_signed_envelope :: "codec_libs \<Rightarrow> wire_signed_envelope \<Rightarrow> (codec_error, bytes) result" where
  "encode_wire_signed_envelope C w =
     (case w of
        WireSignedV1 e \<Rightarrow> and_then (bincode (ser_signed C e)) limit_encoded
      | WireSignedV2 e \<Rightarrow> and_then (bincode (ser_signed_v2 C e)) (\<lambda>bs. limit_encoded (WIRE_TAG_V2 # bs)))"

definition decode_wire_signed_envelope :: "codec_libs \<Rightarrow> bytes \<Rightarrow> (codec_error, wire_signed_envelope) result" where
  "decode_wire_signed_envelope C buf =
     (if buf = [] then Err EmptyBuffer
      else if MAX_MESSAGE_SIZE < length buf then Err (InputTooLarge (length buf))
      else
        (let v1 = and_then (bincode (de_signed C buf)) (\<lambda>e.
                    and_then (check_lengths (v1_lengths (Some (se_signature e)) (se_envelope e))) (\<lambda>_. Ok (WireSignedV1 e))) in
         if buf ! 0 = WIRE_TAG_V2
         then (case de_signed_v2 C (drop 1 buf) of
                 Inr e \<Rightarrow> and_then (check_lengths (v2_lengths (Some (se2_signature e)) (se2_envelope e))) (\<lambda>_. Ok (WireSignedV2 e))
               | Inl _ \<Rightarrow> v1)
         else v1))"

section \<open>What the decoders accept\<close>

lemma check_lengths_ok: "check_lengths cs = Ok () \<longleftrightarrow> (\<forall>(what, n, field) \<in> set cs. \<forall>bs. field = Some bs \<longrightarrow> length bs = n)"
  by (induction cs rule: check_lengths.induct) (auto split: option.splits)

lemma check_lengths_no_panic [simp]: "check_lengths cs \<noteq> Panic"
  by (induction cs rule: check_lengths.induct) auto

definition v1_sized :: "envelope \<Rightarrow> bool" where
  "v1_sized e \<longleftrightarrow> length (ev_sender_public_key e) = 32 \<and> length (ev_ephemeral_public_key e) = 32 \<and> length (ev_nonce e) = 24
     \<and> (\<forall>k. ev_ratchet_dh_public e = Some k \<longrightarrow> length k = 32)"

definition v2_sized :: "envelope_v2 \<Rightarrow> bool" where
  "v2_sized e \<longleftrightarrow> length (v2_sender_public_key e) = 32 \<and> length (v2_ephemeral_public_key e) = 32 \<and> length (v2_nonce e) = 24
     \<and> (\<forall>k. v2_ratchet_dh_public e = Some k \<longrightarrow> length k = 32) \<and> (\<forall>c. v2_pq_kem_ciphertext e = Some c \<longrightarrow> length c = 1088)
     \<and> (\<forall>k. v2_pq_encaps_key e = Some k \<longrightarrow> length k = 1184) \<and> (\<forall>h. v2_transcript_hash e = Some h \<longrightarrow> length h = 32)"

lemma v1_lengths_ok: "check_lengths (v1_lengths sg e) = Ok () \<longleftrightarrow> v1_sized e \<and> (\<forall>s. sg = Some s \<longrightarrow> length s = 64)"
  unfolding check_lengths_ok v1_lengths_def v1_sized_def by auto

lemma v2_lengths_ok: "check_lengths (v2_lengths sg e) = Ok () \<longleftrightarrow> v2_sized e \<and> (\<forall>s. sg = Some s \<longrightarrow> length s = 64)"
  unfolding check_lengths_ok v2_lengths_def v2_sized_def by auto

definition signed_sized :: "wire_signed_envelope \<Rightarrow> bool" where
  "signed_sized w \<longleftrightarrow> (case w of
     WireSignedV1 e \<Rightarrow> v1_sized (se_envelope e) \<and> length (se_signature e) = 64
   | WireSignedV2 e \<Rightarrow> v2_sized (se2_envelope e) \<and> length (se2_signature e) = 64)"

lemma and_then_unit: "and_then r (\<lambda>_. Ok x) = Ok y \<longleftrightarrow> r = Ok () \<and> x = y"
  by (cases r) auto

lemma decode_signed_sized:
  assumes "decode_wire_signed_envelope C buf = Ok w"
  shows "signed_sized w \<and> length buf \<le> MAX_MESSAGE_SIZE"
  using assms
  by (auto simp: decode_wire_signed_envelope_def Let_def signed_sized_def and_then_eq_Ok v1_lengths_ok v2_lengths_ok
      split: if_splits sum.splits)

lemma decode_signed_no_panic [simp]: "decode_wire_signed_envelope C buf \<noteq> Panic"
  by (auto simp: decode_wire_signed_envelope_def Let_def and_then_eq_Panic bincode_def split: sum.splits if_splits)

section \<open>Round trips\<close>

text \<open>
  Bincode restores what it serialized, and writes a vector as its length, in eight bytes with the least
  significant byte first, followed by its elements; the first field of every envelope is the sender's key.
\<close>

definition bincode_correct :: "codec_libs \<Rightarrow> bool" where
  "bincode_correct C \<longleftrightarrow>
     (\<forall>x bs. ser_message C x = Inr bs \<longrightarrow> de_message C bs = Inr x)
     \<and> (\<forall>x bs. ser_envelope C x = Inr bs \<longrightarrow> de_envelope C bs = Inr x \<and> bs \<noteq> [] \<and> bs ! 0 = of_nat (length (ev_sender_public_key x)))
     \<and> (\<forall>x bs. ser_envelope_v2 C x = Inr bs \<longrightarrow> de_envelope_v2 C bs = Inr x)
     \<and> (\<forall>x bs. ser_signed C x = Inr bs \<longrightarrow> de_signed C bs = Inr x \<and> bs \<noteq> []
          \<and> bs ! 0 = of_nat (length (ev_sender_public_key (se_envelope x))))
     \<and> (\<forall>x bs. ser_signed_v2 C x = Inr bs \<longrightarrow> de_signed_v2 C bs = Inr x)"

lemma limit_encoded_ok [simp]: "limit_encoded bs = Ok cs \<longleftrightarrow> cs = bs \<and> length bs \<le> MAX_MESSAGE_SIZE"
  by (auto simp: limit_encoded_def)

lemma bincode_ok [simp]: "bincode r = Ok x \<longleftrightarrow> r = Inr x"
  by (auto simp: bincode_def split: sum.split)

lemma decode_encode_message:
  assumes "bincode_correct C" and "encode_message C m = Ok bs"
  shows "decode_message C bs = Ok m"
proof -
  from assms(2) have b: "ser_message C m = Inr bs" "length bs \<le> MAX_MESSAGE_SIZE" by (auto simp: encode_message_def and_then_eq_Ok)
  with assms(1) have "de_message C bs = Inr m" unfolding bincode_correct_def by blast
  with b(2) show ?thesis by (simp add: decode_message_def)
qed

lemma decode_encode_signed:
  assumes C: "bincode_correct C" and w: "signed_sized w" and e: "encode_wire_signed_envelope C w = Ok bs"
  shows "decode_wire_signed_envelope C bs = Ok w"
proof (cases w)
  case (WireSignedV1 x)
  with e have b: "ser_signed C x = Inr bs" "length bs \<le> MAX_MESSAGE_SIZE" by (auto simp: encode_wire_signed_envelope_def and_then_eq_Ok)
  with C have d: "de_signed C bs = Inr x" "bs \<noteq> []" "bs ! 0 = of_nat (length (ev_sender_public_key (se_envelope x)))"
    unfolding bincode_correct_def by blast+
  have s: "v1_sized (se_envelope x)" "length (se_signature x) = 64" using w WireSignedV1 by (simp_all add: signed_sized_def)
  then have "bs ! 0 = 32" using d(3) by (simp add: v1_sized_def)
  then have "bs ! 0 \<noteq> WIRE_TAG_V2" by (simp add: WIRE_TAG_V2_def)
  moreover have "check_lengths (v1_lengths (Some (se_signature x)) (se_envelope x)) = Ok ()" using s by (simp add: v1_lengths_ok)
  ultimately show ?thesis
    using b(2) d(1,2) WireSignedV1 by (simp add: decode_wire_signed_envelope_def bincode_def)
next
  case (WireSignedV2 x)
  with e obtain cs where b: "ser_signed_v2 C x = Inr cs" "bs = WIRE_TAG_V2 # cs" "length bs \<le> MAX_MESSAGE_SIZE"
    by (auto simp: encode_wire_signed_envelope_def and_then_eq_Ok)
  with C have d: "de_signed_v2 C cs = Inr x" unfolding bincode_correct_def by blast
  have "check_lengths (v2_lengths (Some (se2_signature x)) (se2_envelope x)) = Ok ()"
    using w WireSignedV2 by (simp add: v2_lengths_ok signed_sized_def)
  then show ?thesis using b d WireSignedV2 by (simp add: decode_wire_signed_envelope_def)
qed

end
