(* ===== verification/Ingress.thy ===== *)
theory Ingress
  imports Session_Delivery Message_Codec Core_Storage
begin

text \<open>
  The two ends of a message in \<open>core/src/iron_core.rs\<close>: \<open>prepare_message_internal\<close> from the message to the
  bytes on the wire, and \<open>receive_message\<close> from the bytes to the message and the authenticated key of its
  sender.  They put together the codec, the choice of the encryption, the sessions and the Drift envelope.

  The look-up of a contact's bundle and the signing of the own bundle are arguments, as the results of
  \<open>get_contact_bundle\<close> and \<open>sign_bundle\<close>; the steps before (blocking, rate limits) and after (history,
  receipts, routing) are not part of these definitions.
\<close>

record ingress_libs =
  il_drift :: drift_libs
  il_codec :: codec_libs
  il_sign :: envelope_libs
  il_crypto :: crypto_libs
  il_sessions :: session_libs
  il_audit :: audit_libs

section \<open>Sending\<close>

definition wrap_drift ::
  "drift_libs \<Rightarrow> string + u64 \<Rightarrow> wire_envelope \<Rightarrow> string \<Rightarrow> bytes \<Rightarrow> bytes \<Rightarrow> (iron_core_error, bytes) result" where
  "wrap_drift D clock w message_id recipient_pk signing_key =
     and_then (map_err (\<lambda>_. Internal)
       (case w of
          WireV1 e \<Rightarrow> from_legacy_envelope D clock e message_id recipient_pk signing_key
        | WireV2 e \<Rightarrow> from_v2_envelope D clock e message_id recipient_pk signing_key)) (\<lambda>drift_env.
     map_err (\<lambda>_. Internal) (DriftEnvelope_to_bytes D drift_env))"

definition prepare_envelope ::
  "ingress_libs \<Rightarrow> sender_randomness \<Rightarrow> encrypt_rnd \<Rightarrow> string \<Rightarrow> u64 \<Rightarrow> string + u64 \<Rightarrow> node_keys \<Rightarrow> public_key_bundle option
    \<Rightarrow> public_key_bundle option \<Rightarrow> string \<Rightarrow> bytes \<Rightarrow> message \<Rightarrow> 's session_manager \<Rightarrow> audit_log
    \<Rightarrow> (iron_core_error, bytes) result \<times> 's session_manager option \<times> audit_log option" where
  "prepare_envelope I srnd rnd uuid now clock keys our_bundle recipient_bundle recipient_id recipient_pk message sessions audit =
     or_return (map_err (\<lambda>_. Internal) (encode_message (il_codec I) message)) (Some sessions, Some audit) (\<lambda>message_bytes.
       (case encrypt_with_ratchet_fallback (il_crypto I) (il_audit I) srnd rnd uuid now (nk_signing keys) recipient_bundle recipient_pk
               message_bytes recipient_id our_bundle (Some (nk_x25519 keys)) False (Some sessions) (Some audit) of
          (r, sessions', audit') \<Rightarrow>
            or_return (map_err (\<lambda>_. CryptoError) r) (sessions', audit') (\<lambda>wire.
              (wrap_drift (il_drift I) clock wire (msg_id message) recipient_pk (nk_signing keys), sessions', audit'))))"

section \<open>Receiving\<close>

text \<open>Every envelope is either refused or carries a signature that was checked against its sender key.\<close>

definition authenticate_wire :: "ingress_libs \<Rightarrow> bytes \<Rightarrow> (iron_core_error, wire_envelope) result" where
  "authenticate_wire I envelope_data =
     (if envelope_data \<noteq> [] \<and> envelope_data ! 0 = DRIFT_VERSION
      then and_then (map_err (\<lambda>_. CryptoError) (DriftEnvelope_from_bytes (il_drift I) envelope_data)) (\<lambda>drift_env.
           and_then (map_err (\<lambda>_. CryptoError) (DriftEnvelope_verify (il_drift I) drift_env)) (\<lambda>_.
             Ok (to_wire_envelope drift_env)))
      else (case decode_wire_signed_envelope (il_codec I) envelope_data of
              Ok (WireSignedV1 s1) \<Rightarrow>
                and_then (map_err (\<lambda>_. CryptoError) (verify_envelope (il_sign I) s1)) (\<lambda>_. Ok (WireV1 (se_envelope s1)))
            | Ok (WireSignedV2 s2) \<Rightarrow>
                and_then (map_err (\<lambda>_. CryptoError) (verify_envelope_v2 (il_sign I) s2)) (\<lambda>_. Ok (WireV2 (se2_envelope s2)))
            | Err _ \<Rightarrow>
                and_then (map_err (\<lambda>_. CryptoError) (decode_wire_envelope (il_drift I) (il_codec I) envelope_data)) (\<lambda>_. Err CryptoError)
            | Panic \<Rightarrow> Panic))"

definition receive_message ::
  "ingress_libs \<Rightarrow> decrypt_rnd \<Rightarrow> node_keys option \<Rightarrow> public_key_bundle option \<Rightarrow> (string \<Rightarrow> public_key_bundle option) \<Rightarrow> bytes
    \<Rightarrow> 's session_manager \<Rightarrow> (iron_core_error, message \<times> bytes) result \<times> 's session_manager" where
  "receive_message I rnd keys our_bundle contact_bundle envelope_data sessions =
     or_return (authenticate_wire I envelope_data) sessions (\<lambda>wire.
       (case keys of
          None \<Rightarrow> (Err NotInitialized, sessions)
        | Some keys \<Rightarrow>
            let sender_pubkey = wire_sender wire;
                sender_bundle = contact_bundle (hex_encode (il_sessions I) sender_pubkey) in
            (case decrypt_with_ratchet_fallback (il_crypto I) (il_sessions I) rnd (nk_signing keys) (Some (nk_x25519 keys)) wire
                    (Some (nk_mlkem keys)) our_bundle sender_bundle (Some sessions) of
               (r, sessions') \<Rightarrow>
                 (and_then (map_err (\<lambda>_. CryptoError) r) (\<lambda>plaintext.
                    map_err (\<lambda>_. Internal) (and_then (decode_message (il_codec I) plaintext) (\<lambda>m. Ok (m, sender_pubkey)))),
                  case sessions' of Some s \<Rightarrow> s | None \<Rightarrow> sessions))))"

section \<open>Through the Drift envelope\<close>

text \<open>What the packages under the Drift layer promise, for the signing key of one node.\<close>

definition drift_correct :: "drift_libs \<Rightarrow> bytes \<Rightarrow> bytes \<Rightarrow> bool" where
  "drift_correct D signing_key public_key \<longleftrightarrow> lz4_lossless D \<and> libs_sized D \<and> ed25519_correct D signing_key public_key"

lemma canon_keeps_wire:
  assumes "wire_canonical (to_wire_envelope e)" and "has_pq e \<longrightarrow> de_suite e \<noteq> None"
  shows "to_wire_envelope (canon_envelope e) = to_wire_envelope e"
proof -
  have b: "canon_blob v = v" if "opt_wf (\<lambda>c. c \<noteq> [] \<and> length c < 2 ^ 32) v" for v
    using that by (cases v) (simp_all add: canon_blob_def unwrap_or_def)
  have n: "(if de_ratchet_dh_public e = None then None else Some (unwrap_or (de_ratchet_message_number e) 0)) = de_ratchet_message_number e"
    using assms(1) by (cases "de_ratchet_message_number e"; cases "has_pq e") (auto simp: wire_canonical_def to_wire_envelope_def to_legacy_envelope_def unwrap_or_def)
  show ?thesis
  proof (cases "has_pq e")
    case True
    then have "canon_blob (de_pq_kem_ciphertext e) = de_pq_kem_ciphertext e" "canon_blob (de_pq_encaps_key e) = de_pq_encaps_key e"
        "canon_blob (de_transcript_hash e) = de_transcript_hash e"
      using assms(1) by (auto simp: wire_canonical_def to_wire_envelope_def intro: b)
    then show ?thesis using True n assms(2) by (auto simp: to_wire_envelope_def canon_envelope_def unwrap_or_def has_pq_def)
  next
    case False
    then show ?thesis using n by (simp add: to_wire_envelope_def to_legacy_envelope_def) (simp add: canon_envelope_def)
  qed
qed

lemma to_bytes_version: "DriftEnvelope_to_bytes D e = Ok bs \<Longrightarrow> bs \<noteq> [] \<and> bs ! 0 = de_version e"
  by (auto simp: DriftEnvelope_to_bytes_def envelope_prefix_def Let_def split: if_splits)

lemma wrap_authenticates:
  assumes D: "drift_correct (il_drift I) k (wire_sender w)" and w: "wire_canonical w"
    and wrap: "wrap_drift (il_drift I) clock w mid pk k = Ok bs"
  shows "authenticate_wire I bs = Ok w"
proof -
  let ?D = "il_drift I"
  obtain e where to: "DriftEnvelope_to_bytes ?D e = Ok bs"
    and e: "wf_envelope e" "de_version e = DRIFT_VERSION" "DriftEnvelope_verify ?D e = Ok ()" "to_wire_envelope e = w" "has_pq e \<longrightarrow> de_suite e \<noteq> None"
  proof (cases w)
    case (WireV1 v)
    with wrap obtain e where f: "from_legacy_envelope ?D clock v mid pk k = Ok e" "DriftEnvelope_to_bytes ?D e = Ok bs"
      by (auto simp: wrap_drift_def and_then_eq_Ok)
    with from_legacy_envelope_sound [OF f(1)] D WireV1 that show thesis by (auto simp: drift_correct_def wire_sender_def)
  next
    case (WireV2 v)
    with wrap obtain e where f: "from_v2_envelope ?D clock v mid pk k = Ok e" "DriftEnvelope_to_bytes ?D e = Ok bs"
      by (auto simp: wrap_drift_def and_then_eq_Ok)
    have "wf_blob (v2_pq_kem_ciphertext v)" "wf_blob (v2_pq_encaps_key v)" "wf_blob (v2_transcript_hash v)"
      using w WireV2 by (auto simp: wire_canonical_def wf_blob_def unwrap_or_def opt_wf_def split: option.splits)
    moreover have "de_suite e \<noteq> None" using f(1) by (auto simp: from_v2_envelope_def and_then_eq_Ok Let_def)
    ultimately show thesis
      using from_v2_envelope_sound [OF f(1)] D WireV2 that f(2) by (auto simp: drift_correct_def wire_sender_def)
  qed
  have "DriftEnvelope_from_bytes ?D bs = Ok (canon_envelope e)"
    using e(1,2) to D by (intro env_codec.dec_enc) (auto simp: drift_correct_def)
  moreover have "bs \<noteq> []" "bs ! 0 = DRIFT_VERSION" using to_bytes_version [OF to] e(2) by auto
  ultimately show ?thesis
    using e(3) canon_keeps_wire [of e] e(4,5) w by (simp add: authenticate_wire_def)
qed

lemma prepared_is_received:
  assumes L: "dh_symmetric (il_crypto I)" "aead_correct (il_crypto I)" "mlkem_correct (il_crypto I)" "key_conversion (il_crypto I)"
      "sized_libs (il_crypto I)"
    and C: "bincode_correct (il_codec I)"
    and D: "drift_correct (il_drift I) (nk_signing ka) (ed25519_public (il_crypto I) (nk_signing ka))"
    and k: "bundle_of (il_crypto I) ka ba" "bundle_of (il_crypto I) kb bb" and known: "ours = None \<or> ours = Some ba" "their = None \<or> their = Some bb"
    and contact: "contacts (hex_encode (il_sessions I) (ed25519_public (il_crypto I) (nk_signing ka))) = Some ba"
    and sessions: "\<not> has_session sa recipient" "\<not> has_session sb (peer_of (il_crypto I) (il_sessions I) (ed25519_public (il_crypto I) (nk_signing ka)))"
    and nonce: "length (er_nonce rnd) = 24"
    and send: "prepare_envelope I srnd rnd uuid now clock ka ours their recipient (ed25519_public (il_crypto I) (nk_signing kb)) m sa audit
      = (Ok bs, sa', audit')"
  shows "\<exists>w sb'. authenticate_wire I bs = Ok w \<and> wire_sender w = ed25519_public (il_crypto I) (nk_signing ka)
    \<and> receive_message I drnd (Some kb) (Some bb) contacts bs sb = (Ok (m, ed25519_public (il_crypto I) (nk_signing ka)), sb')"
proof -
  let ?L = "il_crypto I" and ?pk = "ed25519_public (il_crypto I) (nk_signing kb)"
  from send obtain pt where pt: "encode_message (il_codec I) m = Ok pt"
    by (cases "encode_message (il_codec I) m") (auto simp: prepare_envelope_def)
  obtain r s1 a1 where enc: "encrypt_with_ratchet_fallback ?L (il_audit I) srnd rnd uuid now (nk_signing ka) their ?pk pt recipient ours
      (Some (nk_x25519 ka)) False (Some sa) (Some audit) = (r, s1, a1)" by (metis surj_pair)
  with send pt obtain w where w: "r = Ok w" "wrap_drift (il_drift I) clock w (msg_id m) ?pk (nk_signing ka) = Ok bs"
    by (cases r) (auto simp: prepare_envelope_def)
  have "length pt \<le> 2 ^ 38 - 64" using pt by (auto simp: encode_message_def and_then_eq_Ok MAX_MESSAGE_SIZE_def)
  from first_contact_delivered [OF L k known sessions nonce this enc [unfolded w(1)]]
  obtain sb' where d: "decrypt_with_ratchet_fallback ?L (il_sessions I) drnd (nk_signing kb) (Some (nk_x25519 kb)) w (Some (nk_mlkem kb)) (Some bb) (Some ba) (Some sb)
      = (Ok pt, Some sb')" and canon: "wire_canonical w" "wire_sender w = ed25519_public ?L (nk_signing ka)" by blast
  have "authenticate_wire I bs = Ok w" using wrap_authenticates [OF _ canon(1) w(2)] D canon(2) by simp
  moreover have "decode_message (il_codec I) pt = Ok m" by (rule decode_encode_message [OF C pt])
  ultimately show ?thesis using d canon(2) contact by (simp add: receive_message_def Let_def)
qed

section \<open>Properties\<close>

text \<open>
  C1. Delivery from end to end.  Two nodes have no session with each other, and the recipient knows the
  bundle of the sender.  The bytes that the sender prepares for a message, for a recipient with or without
  a known bundle, are received as that message from the sender's key.
\<close>

theorem message_delivered:
  assumes L: "dh_symmetric (il_crypto I)" "aead_correct (il_crypto I)" "mlkem_correct (il_crypto I)" "key_conversion (il_crypto I)"
      "sized_libs (il_crypto I)"
    and C: "bincode_correct (il_codec I)"
    and D: "drift_correct (il_drift I) (nk_signing ka) (ed25519_public (il_crypto I) (nk_signing ka))"
    and k: "bundle_of (il_crypto I) ka ba" "bundle_of (il_crypto I) kb bb" and known: "ours = None \<or> ours = Some ba" "their = None \<or> their = Some bb"
    and contact: "contacts (hex_encode (il_sessions I) (ed25519_public (il_crypto I) (nk_signing ka))) = Some ba"
    and sessions: "\<not> has_session sa recipient" "\<not> has_session sb (peer_of (il_crypto I) (il_sessions I) (ed25519_public (il_crypto I) (nk_signing ka)))"
    and nonce: "length (er_nonce rnd) = 24"
    and send: "prepare_envelope I srnd rnd uuid now clock ka ours their recipient (ed25519_public (il_crypto I) (nk_signing kb)) m sa audit
      = (Ok bs, sa', audit')"
  shows "\<exists>sb'. receive_message I drnd (Some kb) (Some bb) contacts bs sb = (Ok (m, ed25519_public (il_crypto I) (nk_signing ka)), sb')"
  using prepared_is_received [where contacts = contacts, OF assms] by blast

text \<open>
  C5. Authentication at the door.  A message is received only from an envelope whose signature was verified
  under the key that is reported as its sender's, a key of 32 bytes; unsigned envelopes and every other
  buffer are refused and leave the sessions untouched.
\<close>

theorem only_signed_messages:
  "case receive_message I rnd keys our_bundle contacts bs s of
     (Ok (m, pk), s') \<Rightarrow>
       (\<exists>e. DriftEnvelope_from_bytes (il_drift I) bs = Ok e \<and> DriftEnvelope_verify (il_drift I) e = Ok () \<and> de_sender_public_key e = pk)
       \<or> (\<exists>e. decode_wire_signed_envelope (il_codec I) bs = Ok (WireSignedV1 e) \<and> verify_envelope (il_sign I) e = Ok ()
            \<and> ev_sender_public_key (se_envelope e) = pk \<and> length pk = 32)
       \<or> (\<exists>e. decode_wire_signed_envelope (il_codec I) bs = Ok (WireSignedV2 e) \<and> verify_envelope_v2 (il_sign I) e = Ok ()
            \<and> v2_sender_public_key (se2_envelope e) = pk \<and> length pk = 32)
   | (_, s') \<Rightarrow> is_ok (authenticate_wire I bs) \<or> s' = s"
proof (cases "authenticate_wire I bs")
  case (Ok w)
  then have a: "(\<exists>e. DriftEnvelope_from_bytes (il_drift I) bs = Ok e \<and> DriftEnvelope_verify (il_drift I) e = Ok () \<and> de_sender_public_key e = wire_sender w)
       \<or> (\<exists>e. decode_wire_signed_envelope (il_codec I) bs = Ok (WireSignedV1 e) \<and> verify_envelope (il_sign I) e = Ok ()
            \<and> ev_sender_public_key (se_envelope e) = wire_sender w \<and> length (wire_sender w) = 32)
       \<or> (\<exists>e. decode_wire_signed_envelope (il_codec I) bs = Ok (WireSignedV2 e) \<and> verify_envelope_v2 (il_sign I) e = Ok ()
            \<and> v2_sender_public_key (se2_envelope e) = wire_sender w \<and> length (wire_sender w) = 32)"
    using decode_signed_sized [of "il_codec I" bs]
    by (auto simp: authenticate_wire_def and_then_eq_Ok wire_sender_def to_wire_envelope_def to_legacy_envelope_def signed_sized_def
        v1_sized_def v2_sized_def split: if_splits result.splits wire_signed_envelope.splits)
  from Ok have "is_ok (authenticate_wire I bs)" by simp
  with Ok a show ?thesis
    by (auto simp: receive_message_def Let_def and_then_eq_Ok split: option.splits prod.splits result.splits)
qed (simp_all add: receive_message_def)

text \<open>
  C16. A contact can crash a node.  The Drift format does not check the length of the key-encapsulation
  ciphertext (the other wire format does).  An envelope with one that is not 1088 bytes long, correctly
  signed and wrapped by a peer whose bundle the node knows, makes the node panic unless it has a session
  for that peer.
\<close>

theorem drift_ciphertext_panics:
  assumes "drift_correct (il_drift I) k (v2_sender_public_key e)" and "wire_canonical (WireV2 e)"
    and "wrap_drift (il_drift I) clock (WireV2 e) mid pk k = Ok bs"
    and "v2_pq_kem_ciphertext e = Some ct" and "length ct \<noteq> 1088"
    and "contacts (hex_encode (il_sessions I) (v2_sender_public_key e)) = Some b"
    and "\<not> has_session s (peer_of (il_crypto I) (il_sessions I) (v2_sender_public_key e))"
  shows "fst (receive_message I rnd (Some keys) (Some ours) contacts bs s) = Panic"
proof -
  have a: "authenticate_wire I bs = Ok (WireV2 e)"
    using wrap_authenticates [OF _ assms(2,3)] assms(1) by (simp add: wire_sender_def)
  have "envelope_hct e = Panic" using assms(4,5) by (simp add: envelope_hct_def)
  then have "fst (receive_v2 (il_crypto I) (il_sessions I) rnd (nk_signing keys) (Some (nk_x25519 keys)) (Some (nk_mlkem keys)) (Some ours) (Some b) e s) = Panic"
    using assms(7) by (simp add: receive_v2_panic)
  then show ?thesis
    using a assms(6) by (simp add: receive_message_def Let_def wire_sender_def decrypt_with_ratchet_fallback_def split_def)
qed

section \<open>Sample inputs\<close>

definition message_bytes :: "message \<Rightarrow> bytes" where
  "message_bytes m = enc_fields [as_bytes (msg_id m), as_bytes (msg_sender_id m), as_bytes (msg_recipient_id m),
     [case msg_type m of Text \<Rightarrow> 0 | MReceipt \<Rightarrow> 1 | OnionRelay \<Rightarrow> 2], msg_payload m, u64_bytes (msg_timestamp m)]"

definition bytes_message :: "bytes \<Rightarrow> message" where
  "bytes_message v = (case dec_fields 6 v of f \<Rightarrow>
     \<lparr>msg_id = bytes_string (f ! 0), msg_sender_id = bytes_string (f ! 1), msg_recipient_id = bytes_string (f ! 2),
      msg_type = (if f ! 3 = [0] then Text else if f ! 3 = [1] then MReceipt else OnionRelay), msg_payload = f ! 4,
      msg_timestamp = bytes_u64 (f ! 5)\<rparr>)"

lemma bytes_message_inverse [simp]: "bytes_message (message_bytes m) = m"
  by (cases m) (simp add: bytes_message_def message_bytes_def dec_enc_fields split: message_type.split)

definition envelope_bytes :: "envelope \<Rightarrow> bytes" where
  "envelope_bytes e = of_nat (length (ev_sender_public_key e)) # enc_fields [ev_sender_public_key e, ev_ephemeral_public_key e, ev_nonce e,
     ev_ciphertext e, option_bytes id (ev_ratchet_dh_public e), option_bytes u32_to_le (ev_ratchet_message_number e)]"

definition bytes_envelope :: "bytes \<Rightarrow> envelope" where
  "bytes_envelope v = (case dec_fields 6 (drop 1 v) of f \<Rightarrow>
     \<lparr>ev_sender_public_key = f ! 0, ev_ephemeral_public_key = f ! 1, ev_nonce = f ! 2, ev_ciphertext = f ! 3,
      ev_ratchet_dh_public = bytes_option id (f ! 4), ev_ratchet_message_number = bytes_option bytes_u32 (f ! 5)\<rparr>)"

lemma bytes_envelope_inverse [simp]: "bytes_envelope (envelope_bytes e) = e"
  by (cases e) (simp add: bytes_envelope_def envelope_bytes_def dec_enc_fields)

definition envelope_v2_bytes :: "envelope_v2 \<Rightarrow> bytes" where
  "envelope_v2_bytes e = enc_fields [[v2_suite e], v2_sender_public_key e, v2_ephemeral_public_key e, v2_nonce e, v2_ciphertext e,
     option_bytes id (v2_ratchet_dh_public e), option_bytes u32_to_le (v2_ratchet_message_number e), option_bytes id (v2_pq_kem_ciphertext e),
     option_bytes id (v2_pq_encaps_key e), option_bytes id (v2_transcript_hash e)]"

definition bytes_envelope_v2 :: "bytes \<Rightarrow> envelope_v2" where
  "bytes_envelope_v2 v = (case dec_fields 10 v of f \<Rightarrow>
     \<lparr>v2_suite = f ! 0 ! 0, v2_sender_public_key = f ! 1, v2_ephemeral_public_key = f ! 2, v2_nonce = f ! 3, v2_ciphertext = f ! 4,
      v2_ratchet_dh_public = bytes_option id (f ! 5), v2_ratchet_message_number = bytes_option bytes_u32 (f ! 6),
      v2_pq_kem_ciphertext = bytes_option id (f ! 7), v2_pq_encaps_key = bytes_option id (f ! 8), v2_transcript_hash = bytes_option id (f ! 9)\<rparr>)"

lemma bytes_envelope_v2_inverse [simp]: "bytes_envelope_v2 (envelope_v2_bytes e) = e"
  by (cases e) (simp add: bytes_envelope_v2_def envelope_v2_bytes_def dec_enc_fields)

definition sample_codec :: codec_libs where
  "sample_codec = \<lparr>ser_message = (\<lambda>m. Inr (message_bytes m)), de_message = (\<lambda>v. Inr (bytes_message v)),
     ser_envelope = (\<lambda>e. Inr (envelope_bytes e)), de_envelope = (\<lambda>v. Inr (bytes_envelope v)),
     ser_envelope_v2 = (\<lambda>e. Inr (envelope_v2_bytes e)), de_envelope_v2 = (\<lambda>v. Inr (bytes_envelope_v2 v)),
     ser_signed = (\<lambda>e. Inr (of_nat (length (ev_sender_public_key (se_envelope e))) # enc_fields [envelope_bytes (se_envelope e), se_signature e])),
     de_signed = (\<lambda>v. Inr (case dec_fields 2 (drop 1 v) of f \<Rightarrow> \<lparr>se_envelope = bytes_envelope (f ! 0), se_signature = f ! 1\<rparr>)),
     ser_signed_v2 = (\<lambda>e. Inr (enc_fields [envelope_v2_bytes (se2_envelope e), se2_signature e])),
     de_signed_v2 = (\<lambda>v. Inr (case dec_fields 2 v of f \<Rightarrow> \<lparr>se2_envelope = bytes_envelope_v2 (f ! 0), se2_signature = f ! 1\<rparr>))\<rparr>"

lemma envelope_bytes_first: "envelope_bytes e \<noteq> []" "envelope_bytes e ! 0 = of_nat (length (ev_sender_public_key e))"
  by (simp_all add: envelope_bytes_def)

lemma sample_codec_correct: "bincode_correct sample_codec"
  by (auto simp: bincode_correct_def sample_codec_def dec_enc_fields envelope_bytes_first)

definition sample_ingress :: ingress_libs where
  "sample_ingress = \<lparr>il_drift = sample_libs, il_codec = sample_codec,
     il_sign = \<lparr>el_serialize = (\<lambda>e. Inr (envelope_bytes e)), el_serialize_v2 = (\<lambda>e. Inr (envelope_v2_bytes e)), el_sign = (\<lambda>k m. pad 64 m),
       el_valid_key = (\<lambda>k. True), el_verify = (\<lambda>k m s. s = pad 64 m)\<rparr>,
     il_crypto = sized_crypto, il_sessions = sample_sessions, il_audit = toy_audit\<rparr>"

lemma sample_ingress_correct:
  "dh_symmetric sized_crypto" "aead_correct sized_crypto" "mlkem_correct sized_crypto" "key_conversion sized_crypto"
  "drift_correct sample_libs k p"
  using toy_dh_symmetric toy_aead_correct toy_mlkem_correct
  by (simp_all add: sized_crypto_def dh_symmetric_def aead_correct_def mlkem_correct_def key_conversion_def ed25519_to_x25519_secret_def
      drift_correct_def sample_libs_ok) (simp add: toy_crypto_def pad_def min_def)

definition sample_keys :: "byte \<Rightarrow> node_keys" where
  "sample_keys b = \<lparr>nk_signing = [b], nk_x25519 = [b, 1], nk_mlkem = mlkem_from_seed sized_crypto [b, 2]\<rparr>"

definition sample_public :: "byte \<Rightarrow> public_key_bundle" where
  "sample_public b = \<lparr>pb_ed25519_public = ed25519_public sized_crypto [b], pb_x25519_public = x25519_public sized_crypto [b, 1],
     pb_mlkem_encaps_key = kp_pub_key (mlkem_from_seed sized_crypto [b, 2]), pb_mldsa_public = None, pb_created_at = 0,
     pb_supported_suites = [1, 3], pb_signature = [], pb_mldsa_signature = None\<rparr>"

lemma sample_bundle_of: "bundle_of sized_crypto (sample_keys b) (sample_public b)"
  by (simp add: bundle_of_def sample_keys_def sample_public_def mlkem_from_seed_def split_def)

definition sample_message :: message where
  "sample_message = \<lparr>msg_id = ''id'', msg_sender_id = ''a'', msg_recipient_id = ''b'', msg_type = Text, msg_payload = [1, 2, 3], msg_timestamp = 7\<rparr>"

lemma wrap_sample:
  assumes "v1_sized e" and "length (ev_ciphertext e) \<le> 65535"
  shows "\<exists>bs. wrap_drift sample_libs (Inr 100) (WireV1 e) mid pk k = Ok bs"
proof -
  obtain d where d: "from_legacy_envelope sample_libs (Inr 100) e mid pk k = Ok d" "de_ciphertext d = ev_ciphertext e"
    using assms(1) by (cases "ev_ratchet_dh_public e")
      (auto simp: from_legacy_envelope_def parse_message_id_def created_now_def sample_libs_def to_array_def to_array_opt_def v1_sized_def
        Let_def signed_by_def)
  have "\<exists>bs. DriftEnvelope_to_bytes sample_libs d = Ok bs"
    using assms(2) d(2) by (simp add: to_bytes_eq_Ok wire_ciphertext_def compress_def sample_libs_def)
  then show ?thesis using d(1) by (auto simp: wrap_drift_def)
qed

lemma sample_prepared:
  "\<exists>bs s' a'. prepare_envelope sample_ingress sample_rnd (toy_rnd 7) ''u'' 5 (Inr 100) (sample_keys 40) None None ''peer''
     (ed25519_public sized_crypto (nk_signing (sample_keys 50))) sample_message (SessionManager_new :: memory_storage session_manager) AuditLog_new
   = (Ok bs, s', a')"
proof -
  let ?pt = "message_bytes sample_message" and ?pk = "ed25519_public sized_crypto (nk_signing (sample_keys 50))"
  have len: "length ?pt \<le> 1000"
    by (simp add: message_bytes_def sample_message_def enc_fields_def u64_bytes_def u32_to_le_def as_bytes_def)
  then have pt: "encode_message sample_codec sample_message = Ok ?pt"
    by (simp add: encode_message_def validate_payload_size_def sample_message_def MAX_PAYLOAD_SIZE_def MAX_MESSAGE_SIZE_def sample_codec_def
        bincode_def limit_encoded_def)
  obtain e where e: "encrypt_message sized_crypto (toy_rnd 7) (nk_signing (sample_keys 40)) ?pk ?pt = Ok e" "v1_sized e" "length (ev_ciphertext e) \<le> 65535"
    using len by (simp add: encrypt_message_def ed25519_public_to_x25519_def sized_crypto_def toy_crypto_def Let_def v1_sized_def toy_rnd_def
        message_derive_key_def)
  obtain a' where a: "audit_static_send toy_audit ''u'' 5 ''peer'' (Some AuditLog_new) = (Ok (), a')"
    by (simp add: audit_static_send_def AuditLog_append_def chain_hash_ok [OF toy_audit_laws(1)] Let_def)
  obtain bs where "wrap_drift sample_libs (Inr 100) (WireV1 e) (msg_id sample_message) ?pk (nk_signing (sample_keys 40)) = Ok bs"
    using wrap_sample [OF e(2,3)] by blast
  then show ?thesis
    using pt e(1) a by (simp add: prepare_envelope_def sample_ingress_def encrypt_with_ratchet_fallback_def should_use_ratcheted_encryption_def
        has_session_def hm_contains_def SessionManager_new_def)
qed

definition sample_drnd :: decrypt_rnd where
  "sample_drnd = \<lparr>dr_secret = [2], dr_fresh = (\<lambda>_. [3]), dr_secret_again = [4], dr_fresh_again = (\<lambda>_. [5])\<rparr>"

theorem message_delivered_witness:
  "\<exists>bs s' a' sb'. prepare_envelope sample_ingress sample_rnd (toy_rnd 7) ''u'' 5 (Inr 100) (sample_keys 40) None None ''peer''
     (ed25519_public sized_crypto (nk_signing (sample_keys 50))) sample_message (SessionManager_new :: memory_storage session_manager) AuditLog_new
       = (Ok bs, s', a')
     \<and> receive_message sample_ingress sample_drnd (Some (sample_keys 50)) (Some (sample_public 50)) (\<lambda>_. Some (sample_public 40)) bs
         (SessionManager_new :: memory_storage session_manager)
       = (Ok (sample_message, ed25519_public sized_crypto [40]), sb')"
proof -
  have none: "\<not> has_session (SessionManager_new :: memory_storage session_manager) p" for p
    by (simp add: SessionManager_new_def has_session_def hm_contains_def)
  obtain bs s' a' where p: "prepare_envelope sample_ingress sample_rnd (toy_rnd 7) ''u'' 5 (Inr 100) (sample_keys 40) None None ''peer''
      (ed25519_public (il_crypto sample_ingress) (nk_signing (sample_keys 50))) sample_message (SessionManager_new :: memory_storage session_manager) AuditLog_new = (Ok bs, s', a')"
    using sample_prepared by (auto simp: sample_ingress_def)
  have I: "il_crypto sample_ingress = sized_crypto" "il_codec sample_ingress = sample_codec" "il_drift sample_ingress = sample_libs"
    by (simp_all add: sample_ingress_def)
  have "\<exists>sb'. receive_message sample_ingress sample_drnd (Some (sample_keys 50)) (Some (sample_public 50)) (\<lambda>_. Some (sample_public 40)) bs
      (SessionManager_new :: memory_storage session_manager)
    = (Ok (sample_message, ed25519_public (il_crypto sample_ingress) (nk_signing (sample_keys 40))), sb')"
    by (rule message_delivered [OF _ _ _ _ _ _ _ _ _ disjI1 [OF refl] disjI1 [OF refl] _ none none _ p])
      (simp_all add: I sample_ingress_correct sized_crypto_sizes sample_codec_correct sample_bundle_of toy_rnd_def)
  then show ?thesis using p by (auto simp: I(1) sample_keys_def)
qed

definition sample_attack :: envelope_v2 where
  "sample_attack = \<lparr>v2_suite = 3, v2_sender_public_key = replicate 32 1, v2_ephemeral_public_key = replicate 32 2, v2_nonce = replicate 24 3,
     v2_ciphertext = [4], v2_ratchet_dh_public = None, v2_ratchet_message_number = None, v2_pq_kem_ciphertext = Some [9],
     v2_pq_encaps_key = None, v2_transcript_hash = None\<rparr>"

lemma sample_attack_wrapped: "\<exists>bs. wrap_drift sample_libs (Inr 100) (WireV2 sample_attack) ''id'' [7] [1] = Ok bs"
  by (simp add: wrap_drift_def from_v2_envelope_def parse_message_id_def created_now_def sample_libs_def to_array_def to_array_opt_def
      sample_attack_def Let_def and_then_eq_Ok to_bytes_eq_Ok wire_ciphertext_def compress_def signed_by_def)

theorem drift_ciphertext_panics_witness:
  "\<exists>bs. wrap_drift sample_libs (Inr 100) (WireV2 sample_attack) ''id'' [7] [1] = Ok bs
     \<and> fst (receive_message sample_ingress sample_drnd (Some (sample_keys 50)) (Some (sample_public 50)) (\<lambda>_. Some (sample_public 40)) bs
          (SessionManager_new :: memory_storage session_manager)) = Panic"
proof -
  obtain bs where bs: "wrap_drift (il_drift sample_ingress) (Inr 100) (WireV2 sample_attack) ''id'' [7] [1] = Ok bs"
    using sample_attack_wrapped by (auto simp: sample_ingress_def)
  have "fst (receive_message sample_ingress sample_drnd (Some (sample_keys 50)) (Some (sample_public 50)) (\<lambda>_. Some (sample_public 40)) bs
      (SessionManager_new :: memory_storage session_manager)) = Panic"
    by (rule drift_ciphertext_panics [OF _ _ bs, where ct = "[9]"])
      (simp_all add: sample_ingress_def sample_ingress_correct sample_attack_def wire_canonical_def SessionManager_new_def has_session_def hm_contains_def)
  then show ?thesis using bs by (auto simp: sample_ingress_def)
qed

end
