(* ===== verification/Identifiers.thy ===== *)
theory Identifiers
  imports Core_Storage
begin

text \<open>
  The two identifiers of a peer (\<open>core/src/identity/keys.rs\<close>): the hexadecimal Ed25519 public key and the
  identity id, the hexadecimal BLAKE3 hash of the key.  Both have 64 hexadecimal digits; the prefixes \<open>pk:\<close>
  and \<open>id:\<close> tell them apart.  The packages \<open>hex\<close>, BLAKE3, the curve arithmetic and the peer ids of \<open>libp2p\<close>
  are the fields of \<open>id_libs\<close>.
\<close>

record id_libs =
  idl_hex_encode :: "bytes \<Rightarrow> string"
  idl_hex_decode :: "string \<Rightarrow> bytes option"
  idl_hash :: "bytes \<Rightarrow> bytes"
  idl_valid_point :: "bytes \<Rightarrow> bool"
  idl_parse_peer_id :: "string \<Rightarrow> (u64 \<times> bytes) option"
  idl_decode_ed25519 :: "bytes \<Rightarrow> bytes option"

definition PUBLIC_KEY_PREFIX :: string where "PUBLIC_KEY_PREFIX = ''pk:''"

definition IDENTITY_ID_PREFIX :: string where "IDENTITY_ID_PREFIX = ''id:''"

text \<open>\<open>char::is_ascii_hexdigit\<close>.\<close>

definition is_hexdigit :: "char \<Rightarrow> bool" where
  "is_hexdigit c \<longleftrightarrow> (let n = (of_char c :: nat) in (48 \<le> n \<and> n \<le> 57) \<or> (97 \<le> n \<and> n \<le> 102) \<or> (65 \<le> n \<and> n \<le> 70))"

definition is_valid_identity_id :: "string \<Rightarrow> bool" where
  "is_valid_identity_id hex_str \<longleftrightarrow> length hex_str = 64 \<and> list_all is_hexdigit hex_str"

definition is_valid_public_key :: "id_libs \<Rightarrow> string \<Rightarrow> bool" where
  "is_valid_public_key I hex_str \<longleftrightarrow>
     (if length hex_str \<noteq> 64 \<or> \<not> list_all is_hexdigit hex_str then False
      else (case idl_hex_decode I hex_str of
              Some bs \<Rightarrow> if length bs = 32 then idl_valid_point I bs else False
            | None \<Rightarrow> False))"

definition identity_id_from_public_key_hex :: "id_libs \<Rightarrow> string \<Rightarrow> string option" where
  "identity_id_from_public_key_hex I public_key_hex =
     (if \<not> is_valid_public_key I public_key_hex then None
      else map_option (\<lambda>bs. idl_hex_encode I (idl_hash I bs)) (idl_hex_decode I public_key_hex))"

definition identify_key_type :: "id_libs \<Rightarrow> string \<Rightarrow> string" where
  "identify_key_type I hex_str =
     (if is_valid_public_key I hex_str then ''public_key''
      else if is_valid_identity_id hex_str then ''identity_id'' else ''unknown'')"

text \<open>\<open>str::strip_prefix\<close>.\<close>

definition strip_prefix :: "'a list \<Rightarrow> 'a list \<Rightarrow> 'a list option" where
  "strip_prefix p s = (if starts_with s p then Some (drop (length p) s) else None)"

lemma strip_prefix_append [simp]: "strip_prefix p (p @ s) = Some s"
  by (simp add: strip_prefix_def)

lemma strip_prefix_eq_Some: "strip_prefix p s = Some r \<longleftrightarrow> s = p @ r"
  by (auto simp: strip_prefix_def starts_with_iff)

text \<open>A key with an identity id is valid, and the id is then determined by the key.\<close>

lemma identity_id_valid: "identity_id_from_public_key_hex I k = Some d \<Longrightarrow> is_valid_public_key I k"
  by (auto simp: identity_id_from_public_key_hex_def split: if_splits)

lemma valid_key_identity: "is_valid_public_key I k \<Longrightarrow> \<exists>d. identity_id_from_public_key_hex I k = Some d"
  by (auto simp: identity_id_from_public_key_hex_def is_valid_public_key_def split: option.splits if_splits)

text \<open>What the packages promise: hexadecimal strings of a fixed width, and 32-byte hashes.\<close>

definition id_libs_correct :: "id_libs \<Rightarrow> bool" where
  "id_libs_correct I \<longleftrightarrow>
     (\<forall>bs. length (idl_hex_encode I bs) = 2 * length bs \<and> list_all is_hexdigit (idl_hex_encode I bs) \<and> idl_hex_decode I (idl_hex_encode I bs) = Some bs)
     \<and> (\<forall>bs. length (idl_hash I bs) = 32)"

lemma identity_id_format:
  "id_libs_correct I \<Longrightarrow> identity_id_from_public_key_hex I k = Some d \<Longrightarrow> is_valid_identity_id d"
  by (auto simp: identity_id_from_public_key_hex_def id_libs_correct_def is_valid_identity_id_def split: if_splits)

end
