(* ===== verification/Contacts.thy ===== *)
theory Contacts
  imports Identifiers History Hybrid_Kem "HOL-Library.List_Lexorder"
begin

text \<open>
  The contacts (\<open>core/src/store/contacts.rs\<close>): a row per contact under \<open>contact:\<close> and its peer id, a row per
  key bundle under \<open>contact_bundle:\<close>, and an index from identity ids to public keys under \<open>identity_id_idx:\<close>.
  A lookup that finds no row follows the index and starts again; as the recursion has no bound of its own,
  lookups return an option, and \<open>None\<close> stands for endless recursion.

  \<open>serde_json\<close>, base58, UUIDs and the Unicode tables of \<open>to_lowercase\<close> are fields of \<open>contact_libs\<close>; the clock
  is an argument.
\<close>

section \<open>Contacts\<close>

record contact =
  ct_peer_id :: string
  ct_nickname :: "string option"
  ct_local_nickname :: "string option"
  ct_public_key :: string
  ct_added_at :: u64
  ct_last_seen :: "u64 option"
  ct_notes :: "string option"
  ct_last_known_device_id :: "string option"

record 's contact_libs =
  cl_vtable :: "'s storage_vtable"
  cl_json :: "contact serde"
  cl_bundle :: "public_key_bundle serde"
  cl_ids :: id_libs
  cl_bs58_decode :: "string \<Rightarrow> bytes option"
  cl_lowercase :: "string \<Rightarrow> string"
  cl_is_uuid :: "string \<Rightarrow> bool"

definition Contact_new :: "u64 \<Rightarrow> string \<Rightarrow> string \<Rightarrow> contact" where
  "Contact_new now peer_id public_key =
     \<lparr>ct_peer_id = peer_id, ct_nickname = None, ct_local_nickname = None, ct_public_key = public_key, ct_added_at = now,
      ct_last_seen = None, ct_notes = None, ct_last_known_device_id = None\<rparr>"

definition with_nickname :: "string \<Rightarrow> contact \<Rightarrow> contact" where
  "with_nickname n c = c\<lparr>ct_nickname := Some n\<rparr>"

definition display_name :: "contact \<Rightarrow> string" where
  "display_name c =
     (case ct_local_nickname c of
        Some n \<Rightarrow> n
      | None \<Rightarrow> (case ct_nickname c of Some n \<Rightarrow> n | None \<Rightarrow> ct_peer_id c))"

definition contact_key :: "string \<Rightarrow> bytes" where
  "contact_key peer_id = as_bytes (''contact:'' @ peer_id)"

definition contact_bundle_key :: "string \<Rightarrow> bytes" where
  "contact_bundle_key public_key_hex = as_bytes (''contact_bundle:'' @ public_key_hex)"

definition identity_id_index_key :: "string \<Rightarrow> bytes" where
  "identity_id_index_key identity_id = as_bytes (''identity_id_idx:'' @ identity_id)"

definition CONTACT_KEY_PREFIX :: bytes where "CONTACT_KEY_PREFIX = as_bytes ''contact:''"

section \<open>Text\<close>

text \<open>\<open>str::trim\<close>: the characters with the property \<open>White_Space\<close>, in UTF-8.\<close>

definition white_space :: "string list" where
  "white_space = map bytes_string
     ([[0x09], [0x0A], [0x0B], [0x0C], [0x0D], [0x20], [0xC2, 0x85], [0xC2, 0xA0], [0xE1, 0x9A, 0x80]]
      @ map (\<lambda>n. [0xE2, 0x80, 0x80 + of_nat n]) [0..<11]
      @ [[0xE2, 0x80, 0xA8], [0xE2, 0x80, 0xA9], [0xE2, 0x80, 0xAF], [0xE2, 0x81, 0x9F], [0xE3, 0x80, 0x80]])"

definition leading_space :: "string list \<Rightarrow> string \<Rightarrow> nat" where
  "leading_space ws s = (case find (starts_with s) ws of Some w \<Rightarrow> length w | None \<Rightarrow> 0)"

function skip_space :: "string list \<Rightarrow> string \<Rightarrow> string" where
  "skip_space ws s = (let n = leading_space ws s in if n = 0 \<or> s = [] then s else skip_space ws (drop n s))"
  by auto
termination by (relation "measure (\<lambda>(ws, s). length s)") auto

declare skip_space.simps [simp del]

definition trim :: "string \<Rightarrow> string" where
  "trim s = rev (skip_space (map rev white_space) (rev (skip_space white_space s)))"

definition normalize_nickname :: "string option \<Rightarrow> string option" where
  "normalize_nickname v = (case v of Some s \<Rightarrow> (if trim s = [] then None else Some (trim s)) | None \<Rightarrow> None)"

definition is_synthetic_fallback_nickname :: "'s contact_libs \<Rightarrow> string option \<Rightarrow> bool" where
  "is_synthetic_fallback_nickname L v =
     (case normalize_nickname v of Some n \<Rightarrow> starts_with (cl_lowercase L n) ''peer-'' | None \<Rightarrow> False)"

definition select_authoritative_nickname :: "'s contact_libs \<Rightarrow> string option \<Rightarrow> string option \<Rightarrow> string option" where
  "select_authoritative_nickname L incoming existing =
     (let incoming_norm = normalize_nickname incoming;
          existing_norm = normalize_nickname existing;
          incoming_synthetic = is_synthetic_fallback_nickname L incoming_norm;
          existing_synthetic = is_synthetic_fallback_nickname L existing_norm in
      if incoming_norm = None \<and> existing_synthetic then None
      else if incoming_norm = None then existing_norm
      else if incoming_synthetic \<and> existing_norm = None then None
      else if incoming_synthetic \<and> existing_synthetic then None
      else if incoming_synthetic then existing_norm
      else incoming_norm)"

section \<open>The manager\<close>

definition resolve_identity_id :: "'s contact_libs \<Rightarrow> string \<Rightarrow> 's \<Rightarrow> (iron_core_error, string option) result" where
  "resolve_identity_id L identity_id st =
     and_then (core_get (cl_vtable L) (identity_id_index_key identity_id) st) (\<lambda>found.
       (case found of
          Some bs \<Rightarrow> (case string_from_utf8 bs of Some k \<Rightarrow> Ok (Some k) | None \<Rightarrow> Err Internal)
        | None \<Rightarrow> Ok None))"

definition save_identity_id_index :: "'s contact_libs \<Rightarrow> string \<Rightarrow> string \<Rightarrow> 's \<Rightarrow> (iron_core_error, unit) result \<times> 's" where
  "save_identity_id_index L identity_id public_key_hex st =
     core_put (cl_vtable L) (identity_id_index_key identity_id) (as_bytes public_key_hex) st"

definition derive_public_key_from_peer_id :: "'s contact_libs \<Rightarrow> string \<Rightarrow> (iron_core_error, string) result" where
  "derive_public_key_from_peer_id L peer_id =
     (let trimmed = trim peer_id in
      if length trimmed = 64 \<and> list_all is_hexdigit trimmed
      then (case idl_hex_decode (cl_ids L) trimmed of
              Some bs \<Rightarrow>
                if length bs = 32 \<and> idl_valid_point (cl_ids L) bs then Ok (cl_lowercase L trimmed) else Err InvalidInput
            | None \<Rightarrow> Err InvalidInput)
      else (case cl_bs58_decode L trimmed of
              Some bs \<Rightarrow>
                if length bs = 38 \<and> take 6 bs = [0x00, 0x24, 0x08, 0x01, 0x12, 0x20]
                then Ok (idl_hex_encode (cl_ids L) (drop 6 bs))
                else if length bs \<ge> 32 then Ok (idl_hex_encode (cl_ids L) (drop (length bs - 32) bs))
                else Err InvalidInput
            | None \<Rightarrow> Err InvalidInput))"

definition key_valid :: "'s contact_libs \<Rightarrow> string \<Rightarrow> bool" where
  "key_valid L public_key \<longleftrightarrow>
     length (trim public_key) = 64 \<and> list_all is_hexdigit public_key \<and> idl_hex_decode (cl_ids L) (trim public_key) \<noteq> None"

definition canonical_hex :: "'s contact_libs \<Rightarrow> contact \<Rightarrow> string option" where
  "canonical_hex L c =
     (if key_valid L (ct_public_key c) then Some (cl_lowercase L (trim (ct_public_key c)))
      else (case derive_public_key_from_peer_id L (trim (ct_peer_id c)) of Ok d \<Rightarrow> Some (cl_lowercase L d) | _ \<Rightarrow> None))"

definition canonicalize :: "'s contact_libs \<Rightarrow> contact \<Rightarrow> contact" where
  "canonicalize L c =
     (let pid = trim (ct_peer_id c); pk = ct_public_key c in
      if pid = [] then c
      else (case (case canonical_hex L c of
                    Some k \<Rightarrow> Some k
                  | None \<Rightarrow>
                      if length pid = 64 \<and> list_all is_hexdigit pid \<and> idl_hex_decode (cl_ids L) pid \<noteq> None
                      then Some (cl_lowercase L pid) else None) of
              None \<Rightarrow> c
            | Some canonical \<Rightarrow>
                if cl_lowercase L pid \<noteq> canonical
                then let c = c\<lparr>ct_peer_id := canonical\<rparr> in
                     if \<not> key_valid L pk \<or> (cl_lowercase L (trim pk) = canonical \<and> pk \<noteq> canonical)
                     then c\<lparr>ct_public_key := canonical\<rparr> else c
                else if ct_peer_id c \<noteq> canonical
                then let c = c\<lparr>ct_peer_id := canonical\<rparr> in
                     if cl_lowercase L (trim pk) = canonical \<and> pk \<noteq> canonical then c\<lparr>ct_public_key := canonical\<rparr> else c
                else c))"

definition Contacts_add :: "'s contact_libs \<Rightarrow> contact \<Rightarrow> 's \<Rightarrow> (iron_core_error, unit) result \<times> 's" where
  "Contacts_add L contact st =
     (let c = canonicalize L contact in
      or_return (encode_row (cl_json L) c) st (\<lambda>v.
      (case core_put (cl_vtable L) (contact_key (ct_peer_id c)) v st of (r, st1) \<Rightarrow>
       or_return r st1 (\<lambda>_.
        (Ok (), (case identity_id_from_public_key_hex (cl_ids L) (ct_public_key c) of
                   Some i \<Rightarrow> snd (save_identity_id_index L i (ct_public_key c) st1)
                 | None \<Rightarrow> st1))))))"

partial_function (option) Contacts_get :: "'s contact_libs \<Rightarrow> string \<Rightarrow> 's \<Rightarrow> (iron_core_error, contact option) result option" where
  "Contacts_get L peer_id st =
     (case core_get (cl_vtable L) (contact_key peer_id) st of
        Ok (Some v) \<Rightarrow> Some (and_then (decode_row (cl_json L) v) (\<lambda>c. Ok (Some c)))
      | Ok None \<Rightarrow>
          (case resolve_identity_id L peer_id st of
             Ok (Some public_key) \<Rightarrow> Contacts_get L public_key st
           | _ \<Rightarrow> Some (Ok None))
      | Err e \<Rightarrow> Some (Err e)
      | Panic \<Rightarrow> Some Panic)"

definition Contacts_list :: "'s contact_libs \<Rightarrow> 's \<Rightarrow> (iron_core_error, contact list) result" where
  "Contacts_list L st =
     and_then (core_scan (cl_vtable L) CONTACT_KEY_PREFIX st) (\<lambda>all_rows.
     and_then (read_rows (cl_json L) all_rows) (\<lambda>cs.
       Ok (sort_key (\<lambda>c. as_bytes (display_name c)) cs)))"

definition get_by_public_key :: "'s contact_libs \<Rightarrow> string \<Rightarrow> 's \<Rightarrow> (iron_core_error, contact option) result" where
  "get_by_public_key L public_key st =
     (let normalized = trim public_key in
      if normalized = [] then Ok None
      else and_then (Contacts_list L st) (\<lambda>cs. Ok (find (\<lambda>c. eq_ignore_ascii_case (ct_public_key c) normalized) cs)))"

definition Contacts_remove :: "'s contact_libs \<Rightarrow> string \<Rightarrow> 's \<Rightarrow> ((iron_core_error, unit) result \<times> 's) option" where
  "Contacts_remove L peer_id st =
     Option.bind (Contacts_get L peer_id st) (\<lambda>r. Some (
       or_return r st (\<lambda>found.
         let st1 = (case found of Some c \<Rightarrow> ignore_remove (cl_vtable L) (contact_bundle_key (ct_public_key c)) st | None \<Rightarrow> st) in
         core_remove (cl_vtable L) (contact_key peer_id) st1)))"

definition save_contact_bundle :: "'s contact_libs \<Rightarrow> string \<Rightarrow> public_key_bundle \<Rightarrow> 's \<Rightarrow> (iron_core_error, unit) result \<times> 's" where
  "save_contact_bundle L public_key_hex bundle st =
     or_return (encode_row (cl_bundle L) bundle) st (\<lambda>v. core_put (cl_vtable L) (contact_bundle_key public_key_hex) v st)"

partial_function (option) get_contact_bundle ::
  "'s contact_libs \<Rightarrow> string \<Rightarrow> 's \<Rightarrow> (iron_core_error, public_key_bundle option) result option" where
  "get_contact_bundle L public_key_hex st =
     (case core_get (cl_vtable L) (contact_bundle_key public_key_hex) st of
        Ok (Some v) \<Rightarrow> Some (and_then (decode_row (cl_bundle L) v) (\<lambda>b. Ok (Some b)))
      | Ok None \<Rightarrow>
          (case resolve_identity_id L public_key_hex st of
             Ok (Some pk) \<Rightarrow> get_contact_bundle L pk st
           | _ \<Rightarrow> Some (Ok None))
      | Err e \<Rightarrow> Some (Err e)
      | Panic \<Rightarrow> Some Panic)"

definition Contacts_search :: "'s contact_libs \<Rightarrow> string \<Rightarrow> 's \<Rightarrow> (iron_core_error, contact list) result" where
  "Contacts_search L query st =
     (let query_lower = cl_lowercase L query;
          has = (\<lambda>s. str_contains (cl_lowercase L s) query_lower);
          has_opt = (\<lambda>v. case v of Some s \<Rightarrow> has s | None \<Rightarrow> False) in
      and_then (Contacts_list L st) (\<lambda>cs.
        Ok (filter (\<lambda>c. has (ct_peer_id c) \<or> has (ct_public_key c) \<or> has_opt (ct_nickname c) \<or> has_opt (ct_local_nickname c)) cs)))"

text \<open>Reading a contact, changing it and writing it back; \<open>missing\<close> is the answer for an unknown contact.\<close>

definition update_contact ::
  "'s contact_libs \<Rightarrow> string \<Rightarrow> (contact \<Rightarrow> contact option) \<Rightarrow> (iron_core_error, unit) result \<Rightarrow> 's \<Rightarrow> ((iron_core_error, unit) result \<times> 's) option" where
  "update_contact L peer_id f missing st =
     Option.bind (Contacts_get L peer_id st) (\<lambda>r. Some (
       or_return r st (\<lambda>found.
         (case found of
            Some c \<Rightarrow> (case f c of Some c' \<Rightarrow> Contacts_add L c' st | None \<Rightarrow> (Ok (), st))
          | None \<Rightarrow> (missing, st)))))"

definition set_nickname :: "'s contact_libs \<Rightarrow> string \<Rightarrow> string option \<Rightarrow> 's \<Rightarrow> ((iron_core_error, unit) result \<times> 's) option" where
  "set_nickname L peer_id nickname st =
     update_contact L peer_id (\<lambda>c. Some (c\<lparr>ct_nickname := normalize_nickname nickname\<rparr>)) (Err InvalidInput) st"

definition set_local_nickname :: "'s contact_libs \<Rightarrow> string \<Rightarrow> string option \<Rightarrow> 's \<Rightarrow> ((iron_core_error, unit) result \<times> 's) option" where
  "set_local_nickname L peer_id nickname st =
     update_contact L peer_id (\<lambda>c. Some (c\<lparr>ct_local_nickname := normalize_nickname nickname\<rparr>)) (Err InvalidInput) st"

definition update_last_seen :: "'s contact_libs \<Rightarrow> u64 \<Rightarrow> string \<Rightarrow> 's \<Rightarrow> ((iron_core_error, unit) result \<times> 's) option" where
  "update_last_seen L now peer_id st = update_contact L peer_id (\<lambda>c. Some (c\<lparr>ct_last_seen := Some now\<rparr>)) (Ok ()) st"

definition update_last_known_device_id ::
  "'s contact_libs \<Rightarrow> string \<Rightarrow> string option \<Rightarrow> 's \<Rightarrow> ((iron_core_error, unit) result \<times> 's) option" where
  "update_last_known_device_id L peer_id device_id st =
     update_contact L peer_id (\<lambda>c.
       (case device_id of
          None \<Rightarrow> Some (c\<lparr>ct_last_known_device_id := None\<rparr>)
        | Some d \<Rightarrow>
            if trim d \<noteq> [] \<and> cl_is_uuid L (trim d) then Some (c\<lparr>ct_last_known_device_id := Some (trim d)\<rparr>) else None)) (Ok ()) st"

definition Contacts_count :: "'s contact_libs \<Rightarrow> 's \<Rightarrow> u32" where
  "Contacts_count L st = of_nat (ok_or (vt_count_prefix (cl_vtable L) CONTACT_KEY_PREFIX st) 0)"

definition Contacts_flush :: "'s contact_libs \<Rightarrow> 's \<Rightarrow> 's" where
  "Contacts_flush L st = ignore_flush (cl_vtable L) st"

definition verify_integrity :: "'s contact_libs \<Rightarrow> 's \<Rightarrow> (iron_core_error, unit) result" where
  "verify_integrity L st =
     (if Contacts_count L st = 0 \<and> ok_or (vt_count_prefix (cl_vtable L) CONTACT_KEY_PREFIX st) 0 > 0
         \<and> ok_or (vt_scan_prefix (cl_vtable L) CONTACT_KEY_PREFIX st) [] \<noteq> []
      then Err CorruptionDetected else Ok ())"

section \<open>Migrations\<close>

text \<open>\<open>get(\<dots>).map(|opt| opt.is_some()).unwrap_or(false)\<close>.\<close>

definition key_present :: "'s contact_libs \<Rightarrow> bytes \<Rightarrow> 's \<Rightarrow> bool" where
  "key_present L key st \<longleftrightarrow> (case vt_get (cl_vtable L) key st of Ok (Some v) \<Rightarrow> True | _ \<Rightarrow> False)"

text \<open>A row stored under the bare peer id moves under the prefix, unless there is one already.\<close>

fun migrate_rows :: "'s contact_libs \<Rightarrow> scan_result \<Rightarrow> 's \<Rightarrow> 's" where
  "migrate_rows L [] st = st"
| "migrate_rows L ((key, v) # es) st =
     (let st' = (if starts_with key CONTACT_KEY_PREFIX then st
                 else (case from_slice (cl_json L) v of
                         None \<Rightarrow> st
                       | Some c \<Rightarrow>
                           if as_bytes (ct_peer_id c) \<noteq> key then st
                           else if key_present L (contact_key (ct_peer_id c)) st then ignore_remove (cl_vtable L) key st
                           else (case vt_put (cl_vtable L) (contact_key (ct_peer_id c)) v st of (r, st1) \<Rightarrow>
                                   if is_ok r then ignore_remove (cl_vtable L) key st1 else st1))) in
      migrate_rows L es st')"

definition migrate_unprefixed_contacts :: "'s contact_libs \<Rightarrow> 's \<Rightarrow> 's" where
  "migrate_unprefixed_contacts L st =
     (if key_present L (as_bytes ''metadata_contacts_migrated'') st then st
      else (case vt_scan_prefix (cl_vtable L) [] st of
              Ok entries \<Rightarrow> ignore_put (cl_vtable L) (as_bytes ''metadata_contacts_migrated'') (as_bytes ''true'') (migrate_rows L entries st)
            | _ \<Rightarrow> st))"

text \<open>The nickname of the contact that stays, and whether it changes; for both kinds of nickname.\<close>

definition merge_nickname :: "'s contact_libs \<Rightarrow> string option \<Rightarrow> string option \<Rightarrow> string option \<times> bool" where
  "merge_nickname L incoming current =
     (let authoritative = select_authoritative_nickname L incoming current;
          should_update =
            (case (authoritative, current) of
               (Some auth, Some cur) \<Rightarrow>
                 (is_synthetic_fallback_nickname L (Some cur) \<or> normalize_nickname (Some cur) = None)
                 \<and> \<not> is_synthetic_fallback_nickname L (Some auth)
             | (Some _, None) \<Rightarrow> True
             | (None, Some cur) \<Rightarrow> is_synthetic_fallback_nickname L (Some cur)
             | (None, None) \<Rightarrow> False) in
      if should_update then (authoritative, True)
      else if authoritative = None \<and> is_synthetic_fallback_nickname L current then (None, True)
      else (current, False))"

definition merge_contact :: "'s contact_libs \<Rightarrow> contact \<Rightarrow> contact \<Rightarrow> contact option" where
  "merge_contact L c canonical =
     (case merge_nickname L (ct_nickname c) (ct_nickname canonical) of (n, changed) \<Rightarrow>
      (case merge_nickname L (ct_local_nickname c) (ct_local_nickname canonical) of (l, changed') \<Rightarrow>
         if changed \<or> changed' then Some (canonical\<lparr>ct_nickname := n, ct_local_nickname := l\<rparr>) else None))"

definition canonicalize_row :: "'s contact_libs \<Rightarrow> contact \<Rightarrow> 's \<Rightarrow> 's option" where
  "canonicalize_row L c st =
     (let pid = trim (ct_peer_id c) in
      if pid = [] then Some st
      else (case canonical_hex L c of
              None \<Rightarrow> Some st
            | Some k \<Rightarrow>
                let c' = c\<lparr>ct_peer_id := k, ct_public_key := k\<rparr> in
                if k = cl_lowercase L pid
                then if ct_peer_id c \<noteq> k \<or> trim (ct_public_key c) \<noteq> k
                     then (case Contacts_add L c' st of (r, st1) \<Rightarrow>
                             Some (if is_ok r \<and> ct_peer_id c \<noteq> k then ignore_remove (cl_vtable L) (contact_key pid) st1 else st1))
                     else Some st
                else if key_present L (contact_key k) st
                then Option.bind (Contacts_get L k st) (\<lambda>r.
                       let st1 = (case r of
                                    Ok (Some canonical) \<Rightarrow>
                                      (case merge_contact L c canonical of Some m \<Rightarrow> snd (Contacts_add L m st) | None \<Rightarrow> st)
                                  | _ \<Rightarrow> st) in
                       Some (ignore_remove (cl_vtable L) (contact_key pid) st1))
                else (case Contacts_add L c' st of (r, st1) \<Rightarrow>
                        Some (if is_ok r then ignore_remove (cl_vtable L) (contact_key pid) st1 else st1))))"

fun canonicalize_rows :: "'s contact_libs \<Rightarrow> contact list \<Rightarrow> 's \<Rightarrow> 's option" where
  "canonicalize_rows L [] st = Some st"
| "canonicalize_rows L (c # cs) st = Option.bind (canonicalize_row L c st) (canonicalize_rows L cs)"

definition migrate_libp2p_peer_ids_to_canonical_hex :: "'s contact_libs \<Rightarrow> 's \<Rightarrow> 's option" where
  "migrate_libp2p_peer_ids_to_canonical_hex L st =
     map_option (ignore_put (cl_vtable L) (as_bytes ''metadata_contacts_canonical_hex_migrated'') (as_bytes ''true''))
       (case Contacts_list L st of Ok cs \<Rightarrow> canonicalize_rows L cs st | _ \<Rightarrow> Some st)"

definition ContactManager_new :: "'s contact_libs \<Rightarrow> 's \<Rightarrow> 's option" where
  "ContactManager_new L st = migrate_libp2p_peer_ids_to_canonical_hex L (migrate_unprefixed_contacts L st)"

fun index_contacts :: "'s contact_libs \<Rightarrow> contact list \<Rightarrow> u32 \<Rightarrow> 's \<Rightarrow> u32 \<times> 's" where
  "index_contacts L [] migrated st = (migrated, st)"
| "index_contacts L (c # cs) migrated st =
     (case identity_id_from_public_key_hex (cl_ids L) (ct_public_key c) of
        None \<Rightarrow> index_contacts L cs migrated st
      | Some i \<Rightarrow>
          if resolve_identity_id L i st = Ok None
          then index_contacts L cs (migrated + 1) (snd (save_identity_id_index L i (ct_public_key c) st))
          else index_contacts L cs migrated st)"

definition migrate_identity_id_index :: "'s contact_libs \<Rightarrow> 's \<Rightarrow> (iron_core_error, u32) result \<times> 's" where
  "migrate_identity_id_index L st =
     (if key_present L (as_bytes ''metadata_identity_id_index_migrated'') st then (Ok 0, st)
      else (case (case Contacts_list L st of Ok cs \<Rightarrow> index_contacts L cs 0 st | _ \<Rightarrow> (0, st)) of (n, st1) \<Rightarrow>
              (Ok n, ignore_put (cl_vtable L) (as_bytes ''metadata_identity_id_index_migrated'') (as_bytes ''true'') st1)))"

text \<open>Contacts recovered from the history; the two lookups of a peer read the same state.\<close>

fun recover_contacts :: "'s contact_libs \<Rightarrow> u64 \<Rightarrow> message_record list \<Rightarrow> u32 \<Rightarrow> 's \<Rightarrow> ((iron_core_error, u32) result \<times> 's) option" where
  "recover_contacts L now [] n st = Some (Ok n, st)"
| "recover_contacts L now (m # ms) n st =
     Option.bind (Contacts_get L (mr_peer_id m) st) (\<lambda>r.
       if r = Ok None
       then (case derive_public_key_from_peer_id L (mr_peer_id m) of
               Ok k \<Rightarrow>
                 (case Contacts_add L (Contact_new now (mr_peer_id m) k) st of
                    (Ok _, st1) \<Rightarrow> recover_contacts L now ms (n + 1) st1
                  | (Err e, st1) \<Rightarrow> Some (Err e, st1)
                  | (Panic, st1) \<Rightarrow> Some (Panic, st1))
             | _ \<Rightarrow> recover_contacts L now ms n st)
       else recover_contacts L now ms n st)"

definition reconcile_from_history :: "'s contact_libs \<Rightarrow> 's history_libs \<Rightarrow> u64 \<Rightarrow> 's \<Rightarrow> ((iron_core_error, u32) result \<times> 's) option" where
  "reconcile_from_history L H now st =
     (case recent_including_hidden H None 10000 st of
        Ok ms \<Rightarrow> recover_contacts L now ms 0 st
      | Err e \<Rightarrow> Some (Err e, st)
      | Panic \<Rightarrow> Some (Panic, st))"

end
