(* ===== verification/Blocked_Peers.thy ===== *)
theory Blocked_Peers
  imports Identifiers
begin

text \<open>
  The block list (\<open>core/src/store/blocked.rs\<close>).  A block is a row under the key \<open>blocked:\<close> and the peer's
  identifier, followed by a device id if only one device is blocked; the devices known for a peer are a row under
  \<open>blocked_devs:\<close>.  A block under a public key is mirrored under the identity id derived from it.
\<close>

section \<open>Entries\<close>

datatype identifier_flavor = Legacy | PublicKey | IdentityId

record blocked_identity =
  bl_peer_id :: string
  bl_device_id :: "string option"
  bl_blocked_at :: u64
  bl_reason :: "string option"
  bl_notes :: "string option"
  bl_is_deleted :: bool
  bl_identifier_flavor :: identifier_flavor

record 's blocked_libs =
  bk_vtable :: "'s storage_vtable"
  bk_json :: "blocked_identity serde"
  bk_devices :: "string list serde"
  bk_ids :: id_libs

definition BLOCKED_PREFIX :: string where "BLOCKED_PREFIX = ''blocked:''"

definition DEVICE_REGISTRY_PREFIX :: string where "DEVICE_REGISTRY_PREFIX = ''blocked_devs:''"

definition BlockedIdentity_new :: "u64 \<Rightarrow> string \<Rightarrow> blocked_identity" where
  "BlockedIdentity_new now peer_id =
     \<lparr>bl_peer_id = peer_id, bl_device_id = None, bl_blocked_at = now, bl_reason = None, bl_notes = None, bl_is_deleted = False,
      bl_identifier_flavor = Legacy\<rparr>"

definition with_device_id :: "string \<Rightarrow> blocked_identity \<Rightarrow> blocked_identity" where
  "with_device_id d b = b\<lparr>bl_device_id := Some d\<rparr>"

definition with_reason :: "string \<Rightarrow> blocked_identity \<Rightarrow> blocked_identity" where
  "with_reason r b = b\<lparr>bl_reason := Some r\<rparr>"

definition block_key :: "string \<Rightarrow> string option \<Rightarrow> bytes" where
  "block_key peer_id device_id =
     as_bytes (case device_id of
                 Some d \<Rightarrow> BLOCKED_PREFIX @ peer_id @ '':'' @ d
               | None \<Rightarrow> BLOCKED_PREFIX @ peer_id)"

definition storage_key :: "blocked_identity \<Rightarrow> bytes" where
  "storage_key b = block_key (bl_peer_id b) (bl_device_id b)"

definition registry_key :: "string \<Rightarrow> bytes" where
  "registry_key peer_id = as_bytes (DEVICE_REGISTRY_PREFIX @ peer_id)"

definition split_identifier_flavor :: "string \<Rightarrow> string \<times> identifier_flavor" where
  "split_identifier_flavor peer_id =
     (case strip_prefix PUBLIC_KEY_PREFIX peer_id of
        Some raw \<Rightarrow> (raw, PublicKey)
      | None \<Rightarrow>
          (case strip_prefix IDENTITY_ID_PREFIX peer_id of
             Some raw \<Rightarrow> (raw, IdentityId)
           | None \<Rightarrow> (peer_id, Legacy)))"

definition push_unique :: "string \<Rightarrow> string list \<Rightarrow> string list" where
  "push_unique x xs = (if x \<in> set xs then xs else xs @ [x])"

definition public_key_hex_from_peer_id :: "id_libs \<Rightarrow> string \<Rightarrow> string option" where
  "public_key_hex_from_peer_id I peer_id =
     (case idl_parse_peer_id I peer_id of
        None \<Rightarrow> None
      | Some (code, digest) \<Rightarrow>
          if code \<noteq> 0 then None else map_option (idl_hex_encode I) (idl_decode_ed25519 I digest))"

section \<open>The manager\<close>

definition resolved_identifiers :: "id_libs \<Rightarrow> string \<Rightarrow> string list" where
  "resolved_identifiers I peer_id =
     (case split_identifier_flavor peer_id of (raw, flavor) \<Rightarrow>
        let ids = [raw];
            ids = (if flavor \<noteq> Legacy then push_unique peer_id ids else ids) in
        (case flavor of
           PublicKey \<Rightarrow> (case identity_id_from_public_key_hex I raw of Some d \<Rightarrow> push_unique d ids | None \<Rightarrow> ids)
         | Legacy \<Rightarrow>
             (case public_key_hex_from_peer_id I raw of
                None \<Rightarrow> ids
              | Some k \<Rightarrow>
                  let ids = push_unique (''pk:'' @ k) (push_unique k ids) in
                  (case identity_id_from_public_key_hex I k of
                     Some d \<Rightarrow> push_unique (''id:'' @ d) (push_unique d ids)
                   | None \<Rightarrow> ids))
         | IdentityId \<Rightarrow> ids))"

definition write_block_entry :: "'s blocked_libs \<Rightarrow> blocked_identity \<Rightarrow> 's \<Rightarrow> (iron_core_error, unit) result \<times> 's" where
  "write_block_entry L b st =
     or_return (encode_row (bk_json L) b) st (\<lambda>v. core_put (bk_vtable L) (storage_key b) v st)"

fun write_block_entries :: "'s blocked_libs \<Rightarrow> blocked_identity list \<Rightarrow> 's \<Rightarrow> (iron_core_error, unit) result \<times> 's" where
  "write_block_entries L [] st = (Ok (), st)"
| "write_block_entries L (b # bs) st =
     (case write_block_entry L b st of (r, st') \<Rightarrow> or_return r st' (\<lambda>_. write_block_entries L bs st'))"

definition remove_block_entry :: "'s blocked_libs \<Rightarrow> string \<Rightarrow> string option \<Rightarrow> 's \<Rightarrow> (iron_core_error, unit) result \<times> 's" where
  "remove_block_entry L peer_id device_id st = core_remove (bk_vtable L) (block_key peer_id device_id) st"

definition is_blocked_exact :: "'s blocked_libs \<Rightarrow> string \<Rightarrow> string option \<Rightarrow> 's \<Rightarrow> (iron_core_error, bool) result" where
  "is_blocked_exact L peer_id device_id st =
     and_then (case device_id of
                 Some d \<Rightarrow> and_then (core_get (bk_vtable L) (block_key peer_id (Some d)) st) (\<lambda>found. Ok (found \<noteq> None))
               | None \<Rightarrow> Ok False) (\<lambda>device_blocked.
       if device_blocked then Ok True
       else and_then (core_get (bk_vtable L) (block_key peer_id None) st) (\<lambda>found. Ok (found \<noteq> None)))"

definition get_exact :: "'s blocked_libs \<Rightarrow> string \<Rightarrow> string option \<Rightarrow> 's \<Rightarrow> (iron_core_error, blocked_identity option) result" where
  "get_exact L peer_id device_id st =
     and_then (core_get (bk_vtable L) (block_key peer_id device_id) st) (\<lambda>found.
       (case found of None \<Rightarrow> Ok None | Some v \<Rightarrow> and_then (decode_row (bk_json L) v) (\<lambda>b. Ok (Some b))))"

definition is_blocked_and_deleted_exact :: "'s blocked_libs \<Rightarrow> string \<Rightarrow> 's \<Rightarrow> (iron_core_error, bool) result" where
  "is_blocked_and_deleted_exact L peer_id st =
     and_then (core_get (bk_vtable L) (block_key peer_id None) st) (\<lambda>found.
       (case found of None \<Rightarrow> Ok False | Some v \<Rightarrow> and_then (decode_row (bk_json L) v) (\<lambda>b. Ok (bl_is_deleted b))))"

definition get_known_devices :: "'s blocked_libs \<Rightarrow> string \<Rightarrow> 's \<Rightarrow> (iron_core_error, string list) result" where
  "get_known_devices L peer_id st =
     (let raw = fst (split_identifier_flavor peer_id) in
      and_then (core_get (bk_vtable L) (registry_key raw) st) (\<lambda>found.
        (case found of None \<Rightarrow> Ok [] | Some v \<Rightarrow> decode_row (bk_devices L) v)))"

text \<open>
  \<open>block\<close> writes, in this order: the entry under the derived identity id, the entry itself, and for a peer-level
  block one entry per known device, then the same devices under the identity id.
\<close>

definition block_entries :: "string option \<Rightarrow> string list \<Rightarrow> blocked_identity \<Rightarrow> blocked_identity list" where
  "block_entries derived devices b =
     (case derived of Some d \<Rightarrow> [b\<lparr>bl_peer_id := d, bl_identifier_flavor := IdentityId\<rparr>] | None \<Rightarrow> [])
     @ [b]
     @ (if bl_device_id b = None
        then map (\<lambda>dev. b\<lparr>bl_device_id := Some dev\<rparr>) devices
          @ (case derived of
               Some d \<Rightarrow> map (\<lambda>dev. b\<lparr>bl_peer_id := d, bl_device_id := Some dev, bl_identifier_flavor := IdentityId\<rparr>) devices
             | None \<Rightarrow> [])
        else [])"

definition Blocked_block :: "'s blocked_libs \<Rightarrow> blocked_identity \<Rightarrow> 's \<Rightarrow> (iron_core_error, unit) result \<times> 's" where
  "Blocked_block L blocked st =
     (case split_identifier_flavor (bl_peer_id blocked) of (raw, flavor) \<Rightarrow>
        let b = blocked\<lparr>bl_peer_id := raw, bl_identifier_flavor := flavor\<rparr> in
        or_return (if flavor = PublicKey
                   then (case identity_id_from_public_key_hex (bk_ids L) raw of Some d \<Rightarrow> Ok (Some d) | None \<Rightarrow> Err InvalidInput)
                   else Ok None) st (\<lambda>derived.
        or_return (if bl_device_id b = None then get_known_devices L raw st else Ok []) st (\<lambda>devices.
          write_block_entries L (block_entries derived devices b) st)))"

definition block_and_delete :: "'s blocked_libs \<Rightarrow> u64 \<Rightarrow> string \<Rightarrow> string option \<Rightarrow> 's \<Rightarrow> (iron_core_error, unit) result \<times> 's" where
  "block_and_delete L now peer_id reason st =
     (let b = (BlockedIdentity_new now peer_id)\<lparr>bl_is_deleted := True\<rparr>;
          b = (case reason of Some r \<Rightarrow> b\<lparr>bl_reason := Some r\<rparr> | None \<Rightarrow> b) in
      Blocked_block L b st)"

text \<open>Both loops of \<open>identifiers_for_unblock\<close>; rows and keys that do not parse are skipped.\<close>

definition blocked_keys_of :: "'s blocked_libs \<Rightarrow> string \<Rightarrow> scan_result \<Rightarrow> string list" where
  "blocked_keys_of L raw es =
     List.map_filter (\<lambda>(key, v).
       (case from_slice (bk_json L) v of
          Some b \<Rightarrow>
            if bl_identifier_flavor b = PublicKey \<and> identity_id_from_public_key_hex (bk_ids L) (bl_peer_id b) = Some raw
            then Some (bl_peer_id b) else None
        | None \<Rightarrow> None)) es"

definition registry_keys_of :: "'s blocked_libs \<Rightarrow> string \<Rightarrow> scan_result \<Rightarrow> string list" where
  "registry_keys_of L raw es =
     List.map_filter (\<lambda>(key, v).
       (case Option.bind (strip_prefix (as_bytes DEVICE_REGISTRY_PREFIX) key) string_from_utf8 of
          Some k \<Rightarrow> if identity_id_from_public_key_hex (bk_ids L) k = Some raw then Some k else None
        | None \<Rightarrow> None)) es"

definition identifiers_for_unblock :: "'s blocked_libs \<Rightarrow> string \<Rightarrow> 's \<Rightarrow> (iron_core_error, string list) result" where
  "identifiers_for_unblock L peer_id st =
     (let ids = resolved_identifiers (bk_ids L) peer_id;
          raw = fst (split_identifier_flavor peer_id) in
      and_then (core_scan (bk_vtable L) (as_bytes BLOCKED_PREFIX) st) (\<lambda>entries.
      let ids = fold push_unique (blocked_keys_of L raw entries) ids in
      and_then (core_scan (bk_vtable L) (as_bytes DEVICE_REGISTRY_PREFIX) st) (\<lambda>registries.
        Ok (fold push_unique (registry_keys_of L raw registries) ids))))"

definition unregister_device_from_registry :: "'s blocked_libs \<Rightarrow> string \<Rightarrow> string \<Rightarrow> 's \<Rightarrow> (iron_core_error, unit) result \<times> 's" where
  "unregister_device_from_registry L peer_id device_id st =
     (let raw = fst (split_identifier_flavor peer_id) in
      or_return (get_known_devices L raw st) st (\<lambda>devices.
        let left = filter (\<lambda>d. d \<noteq> device_id) devices in
        if left = [] then core_remove (bk_vtable L) (registry_key raw) st
        else or_return (encode_row (bk_devices L) left) st (\<lambda>v. core_put (bk_vtable L) (registry_key raw) v st)))"

fun unblock_device :: "'s blocked_libs \<Rightarrow> string \<Rightarrow> string list \<Rightarrow> 's \<Rightarrow> (iron_core_error, unit) result \<times> 's" where
  "unblock_device L did [] st = (Ok (), st)"
| "unblock_device L did (i # ids) st =
     (case remove_block_entry L i (Some did) st of (r, st1) \<Rightarrow> or_return r st1 (\<lambda>_.
      (case unregister_device_from_registry L i did st1 of (q, st2) \<Rightarrow> or_return q st2 (\<lambda>_. unblock_device L did ids st2))))"

fun known_devices_of :: "'s blocked_libs \<Rightarrow> string list \<Rightarrow> 's \<Rightarrow> (iron_core_error, string list) result" where
  "known_devices_of L [] st = Ok []"
| "known_devices_of L (i # ids) st =
     and_then (get_known_devices L i st) (\<lambda>ds. and_then (known_devices_of L ids st) (\<lambda>es. Ok (ds @ es)))"

text \<open>The devices form a set; \<open>remdups\<close> lists it once, in an order that does not matter.\<close>

definition Blocked_unblock :: "'s blocked_libs \<Rightarrow> string \<Rightarrow> string option \<Rightarrow> 's \<Rightarrow> (iron_core_error, unit) result \<times> 's" where
  "Blocked_unblock L peer_id device_id st =
     or_return (identifiers_for_unblock L peer_id st) st (\<lambda>ids.
       (case device_id of
          Some did \<Rightarrow> unblock_device L did ids st
        | None \<Rightarrow>
            or_return (known_devices_of L ids st) st (\<lambda>ds.
              let devices = remdups ds in
              core_remove_all (bk_vtable L)
                (concat (map (\<lambda>i. [block_key i None] @ map (\<lambda>d. block_key i (Some d)) devices @ [registry_key i]) ids)) st)))"

fun any_identifier :: "(string \<Rightarrow> (iron_core_error, bool) result) \<Rightarrow> string list \<Rightarrow> (iron_core_error, bool) result" where
  "any_identifier f [] = Ok False"
| "any_identifier f (i # ids) = and_then (f i) (\<lambda>b. if b then Ok True else any_identifier f ids)"

definition is_blocked_resolved :: "'s blocked_libs \<Rightarrow> string \<Rightarrow> string option \<Rightarrow> 's \<Rightarrow> (iron_core_error, bool) result" where
  "is_blocked_resolved L peer_id device_id st =
     any_identifier (\<lambda>i. is_blocked_exact L i device_id st) (resolved_identifiers (bk_ids L) peer_id)"

definition Blocked_is_blocked :: "'s blocked_libs \<Rightarrow> string \<Rightarrow> string option \<Rightarrow> 's \<Rightarrow> (iron_core_error, bool) result" where
  "Blocked_is_blocked L peer_id device_id st = is_blocked_resolved L peer_id device_id st"

fun first_entry :: "(string \<Rightarrow> (iron_core_error, blocked_identity option) result) \<Rightarrow> string list \<Rightarrow> (iron_core_error, blocked_identity option) result" where
  "first_entry f [] = Ok None"
| "first_entry f (i # ids) = and_then (f i) (\<lambda>found. case found of Some b \<Rightarrow> Ok (Some b) | None \<Rightarrow> first_entry f ids)"

definition Blocked_get :: "'s blocked_libs \<Rightarrow> string \<Rightarrow> string option \<Rightarrow> 's \<Rightarrow> (iron_core_error, blocked_identity option) result" where
  "Blocked_get L peer_id device_id st =
     first_entry (\<lambda>i. get_exact L i device_id st) (resolved_identifiers (bk_ids L) peer_id)"

definition Blocked_list :: "'s blocked_libs \<Rightarrow> 's \<Rightarrow> (iron_core_error, blocked_identity list) result" where
  "Blocked_list L st =
     and_then (core_scan (bk_vtable L) (as_bytes BLOCKED_PREFIX) st) (\<lambda>all_rows.
     and_then (read_rows (bk_json L) all_rows) (\<lambda>bs.
       let ids = bl_peer_id ` set bs;
           kept = filter (\<lambda>b.
             \<not> (bl_identifier_flavor b = PublicKey
                \<and> (case identity_id_from_public_key_hex (bk_ids L) (bl_peer_id b) of
                     Some d \<Rightarrow> d \<noteq> bl_peer_id b \<and> d \<in> ids
                   | None \<Rightarrow> False))) bs in
       Ok (sort_key (\<lambda>b. - uint (bl_blocked_at b)) kept)))"

definition Blocked_count :: "'s blocked_libs \<Rightarrow> 's \<Rightarrow> (iron_core_error, nat) result" where
  "Blocked_count L st = and_then (Blocked_list L st) (\<lambda>bs. Ok (length bs))"

definition is_blocked_and_deleted_resolved :: "'s blocked_libs \<Rightarrow> string \<Rightarrow> 's \<Rightarrow> (iron_core_error, bool) result" where
  "is_blocked_and_deleted_resolved L peer_id st =
     any_identifier (\<lambda>i. is_blocked_and_deleted_exact L i st) (resolved_identifiers (bk_ids L) peer_id)"

definition blocked_only_peer_ids :: "'s blocked_libs \<Rightarrow> 's \<Rightarrow> (iron_core_error, string set) result" where
  "blocked_only_peer_ids L st =
     and_then (Blocked_list L st) (\<lambda>bs. Ok (bl_peer_id ` set (filter (\<lambda>b. \<not> bl_is_deleted b) bs)))"

definition register_device_id :: "'s blocked_libs \<Rightarrow> u64 \<Rightarrow> string \<Rightarrow> string \<Rightarrow> 's \<Rightarrow> (iron_core_error, bool) result \<times> 's" where
  "register_device_id L now peer_id device_id st =
     (case split_identifier_flavor peer_id of (raw, flavor) \<Rightarrow>
        or_return (get_known_devices L raw st) st (\<lambda>devices.
        if device_id \<in> set devices then (Ok False, st)
        else or_return (encode_row (bk_devices L) (devices @ [device_id])) st (\<lambda>v.
          (case core_put (bk_vtable L) (registry_key raw) v st of (r, st1) \<Rightarrow> or_return r st1 (\<lambda>_.
           or_return (is_blocked_resolved L raw None st1) st1 (\<lambda>blocked.
           if blocked
           then or_return (Blocked_get L raw None st1) st1 (\<lambda>peer_block.
                  let b = \<lparr>bl_peer_id = raw, bl_device_id = Some device_id,
                           bl_blocked_at = (case peer_block of Some p \<Rightarrow> bl_blocked_at p | None \<Rightarrow> now),
                           bl_reason = (case peer_block of Some p \<Rightarrow> bl_reason p | None \<Rightarrow> None), bl_notes = None,
                           bl_is_deleted = (case peer_block of Some p \<Rightarrow> bl_is_deleted p | None \<Rightarrow> False),
                           bl_identifier_flavor = flavor\<rparr> in
                  (case Blocked_block L b st1 of (q, st2) \<Rightarrow> or_return q st2 (\<lambda>_. (Ok True, st2))))
           else (Ok True, st1)))))))"

fun register_device_ids :: "'s blocked_libs \<Rightarrow> u64 \<Rightarrow> string \<Rightarrow> string list \<Rightarrow> nat \<Rightarrow> 's \<Rightarrow> (iron_core_error, nat) result \<times> 's" where
  "register_device_ids L now peer_id [] registered st = (Ok registered, st)"
| "register_device_ids L now peer_id (d # ds) registered st =
     (case register_device_id L now peer_id d st of (r, st') \<Rightarrow>
        or_return r st' (\<lambda>is_new. register_device_ids L now peer_id ds (if is_new then registered + 1 else registered) st'))"

definition is_device_blocked :: "'s blocked_libs \<Rightarrow> string \<Rightarrow> string \<Rightarrow> 's \<Rightarrow> (iron_core_error, bool) result" where
  "is_device_blocked L peer_id device_id st = Blocked_is_blocked L peer_id (Some device_id) st"

end
