(* ===== verification/Blocked_Properties.thy ===== *)
theory Blocked_Properties
  imports Blocked_Peers Sample_Codec
begin

text \<open>
  The block list: a block is enforced under every identifier of the peer that can be derived, and what an
  unblock request releases and leaves.
\<close>

section \<open>Lookups\<close>

definition blocked_in :: "(bytes \<rightharpoonup> bytes) \<Rightarrow> string \<Rightarrow> string option \<Rightarrow> bool" where
  "blocked_in c i d \<longleftrightarrow> (\<exists>x. d = Some x \<and> c (block_key i (Some x)) \<noteq> None) \<or> c (block_key i None) \<noteq> None"

lemma any_identifier_ok: "(\<And>i. f i = Ok (g i)) \<Longrightarrow> any_identifier f ids = Ok (\<exists>i \<in> set ids. g i)"
  by (induction ids) auto

lemma split_pk: "split_identifier_flavor (''pk:'' @ k) = (k, PublicKey)"
  unfolding split_identifier_flavor_def PUBLIC_KEY_PREFIX_def by (simp only: strip_prefix_append option.case)

lemma split_id: "split_identifier_flavor (''id:'' @ d) = (d, IdentityId)"
proof -
  have "strip_prefix PUBLIC_KEY_PREFIX (''id:'' @ d) = None" by (simp add: strip_prefix_def PUBLIC_KEY_PREFIX_def)
  then show ?thesis unfolding split_identifier_flavor_def IDENTITY_ID_PREFIX_def by (simp only: strip_prefix_append option.case)
qed

lemma set_map_filter: "set (List.map_filter f xs) = {y. \<exists>x \<in> set xs. f x = Some y}"
  by (force simp: List.map_filter_def image_iff)


lemma set_push_unique [simp]: "set (push_unique x xs) = insert x (set xs)"
  by (auto simp: push_unique_def)

text \<open>The identifiers under which a peer is looked up.\<close>

lemma resolved_pk: "set (resolved_identifiers I (''pk:'' @ k)) = {k, ''pk:'' @ k} \<union> set_option (identity_id_from_public_key_hex I k)"
  by (simp add: resolved_identifiers_def split_pk [simplified] Let_def insert_commute split: option.split)

lemma resolved_id: "set (resolved_identifiers I (''id:'' @ d)) = {d, ''id:'' @ d}"
  by (simp add: resolved_identifiers_def split_id [simplified] Let_def insert_commute)

lemma resolved_raw: "split_identifier_flavor p = (raw, flavor) \<Longrightarrow> raw \<in> set (resolved_identifiers I p)"
  by (cases flavor) (simp_all add: resolved_identifiers_def Let_def split: option.split)

lemma hex_legacy:
  assumes "list_all is_hexdigit i"
  shows "split_identifier_flavor i = (i, Legacy)"
proof -
  have "strip_prefix PUBLIC_KEY_PREFIX i = None" "strip_prefix IDENTITY_ID_PREFIX i = None"
    using assms by (auto simp: strip_prefix_def starts_with_iff PUBLIC_KEY_PREFIX_def IDENTITY_ID_PREFIX_def is_hexdigit_def)
  then show ?thesis by (simp add: split_identifier_flavor_def)
qed

lemma identity_self: "is_valid_identity_id i \<Longrightarrow> i \<in> set (resolved_identifiers I i)"
  by (rule resolved_raw [OF hex_legacy]) (simp add: is_valid_identity_id_def)

lemma resolved_head: "split_identifier_flavor p = (raw, flavor) \<Longrightarrow> \<exists>ids. resolved_identifiers I p = raw # ids"
  by (cases flavor) (auto simp: resolved_identifiers_def Let_def push_unique_def split: option.split)

lemma resolved_derived:
  "split_identifier_flavor p = (raw, PublicKey) \<Longrightarrow> identity_id_from_public_key_hex I raw = Some d \<Longrightarrow> d \<in> set (resolved_identifiers I p)"
  by (simp add: resolved_identifiers_def Let_def)

text \<open>The keys that a block writes.\<close>

lemma block_entries_keys:
  "storage_key ` set (block_entries derived devs b) =
     (\<lambda>i. block_key i (bl_device_id b)) ` ({bl_peer_id b} \<union> set_option derived)
     \<union> (if bl_device_id b = None then \<Union>i \<in> {bl_peer_id b} \<union> set_option derived. (\<lambda>x. block_key i (Some x)) ` set devs else {})"
  by (cases derived; cases "bl_device_id b") (auto simp: block_entries_def storage_key_def image_Un image_image)

lemma block_entries_deleted: "e \<in> set (block_entries derived devs b) \<Longrightarrow> bl_is_deleted e = bl_is_deleted b"
  by (cases derived; cases "bl_device_id b") (auto simp: block_entries_def)

context backend_contract begin

lemma is_blocked_exact_ok: "good s \<Longrightarrow> bk_vtable L = vt \<Longrightarrow> is_blocked_exact L i d s = Ok (blocked_in (content s) i d)"
  by (cases d) (auto simp: is_blocked_exact_def blocked_in_def core_get_ok)

lemma is_blocked_ok:
  assumes "good s" and "bk_vtable L = vt"
  shows "is_blocked_resolved L p d s = Ok (\<exists>i \<in> set (resolved_identifiers (bk_ids L) p). blocked_in (content s) i d)"
  unfolding is_blocked_resolved_def by (rule any_identifier_ok) (rule is_blocked_exact_ok [OF assms])

lemma write_block_entries_ok:
  assumes "bk_vtable L = vt" and "serde_correct (bk_json L)"
  shows "good s \<Longrightarrow> \<exists>s'. write_block_entries L bs s = (Ok (), s') \<and> good s'
    \<and> (\<forall>k. k \<notin> storage_key ` set bs \<longrightarrow> content s' k = content s k)
    \<and> (\<forall>k \<in> storage_key ` set bs. \<exists>b \<in> set bs. \<exists>v. storage_key b = k \<and> content s' k = Some v \<and> from_slice (bk_json L) v = Some b)"
proof (induction bs arbitrary: s)
  case (Cons b bs)
  from encode_row_ok [OF assms(2)] obtain v where v: "encode_row (bk_json L) b = Ok v" "from_slice (bk_json L) v = Some b" .
  from core_put_ok [OF Cons.prems, of "storage_key b" v] obtain s1 where s1: "core_put vt (storage_key b) v s = (Ok (), s1)" "good s1"
    "content s1 = (content s)(storage_key b \<mapsto> v)" by blast
  from Cons.IH [OF s1(2)] obtain s' where IH: "write_block_entries L bs s1 = (Ok (), s')" "good s'"
    "\<forall>k. k \<notin> storage_key ` set bs \<longrightarrow> content s' k = content s1 k"
    "\<forall>k \<in> storage_key ` set bs. \<exists>b \<in> set bs. \<exists>v. storage_key b = k \<and> content s' k = Some v \<and> from_slice (bk_json L) v = Some b" by blast
  have "write_block_entries L (b # bs) s = (Ok (), s')" by (simp add: write_block_entry_def v(1) assms(1) s1(1) IH(1))
  moreover have "content s' k = content s k" if "k \<notin> storage_key ` set (b # bs)" for k using that IH(3) s1(3) by simp
  moreover have "\<exists>c \<in> set (b # bs). \<exists>v. storage_key c = k \<and> content s' k = Some v \<and> from_slice (bk_json L) v = Some c"
    if "k \<in> storage_key ` set (b # bs)" for k
  proof (cases "k \<in> storage_key ` set bs")
    case True
    with IH(4) show ?thesis by fastforce
  next
    case False
    with that IH(3) s1(3) v(2) show ?thesis by auto
  qed
  ultimately show ?case using IH(2) by blast
qed simp

lemma block_writes:
  assumes "good s" and "bk_vtable L = vt" and "serde_correct (bk_json L)" and "Blocked_block L b s = (Ok (), s')"
    and "split_identifier_flavor (bl_peer_id b) = (raw, flavor)"
  obtains derived devs where "good s'" "derived = (if flavor = PublicKey then identity_id_from_public_key_hex (bk_ids L) raw else None)"
    "flavor = PublicKey \<longrightarrow> derived \<noteq> None"
    "bl_device_id b = None \<longrightarrow> get_known_devices L raw s = Ok devs"
    "\<forall>k. content s' k \<noteq> None \<longleftrightarrow> content s k \<noteq> None \<or> k \<in> storage_key ` set (block_entries derived devs (b\<lparr>bl_peer_id := raw, bl_identifier_flavor := flavor\<rparr>))"
    "\<forall>k \<in> storage_key ` set (block_entries derived devs (b\<lparr>bl_peer_id := raw, bl_identifier_flavor := flavor\<rparr>)).
       \<exists>c v. content s' k = Some v \<and> from_slice (bk_json L) v = Some c \<and> bl_is_deleted c = bl_is_deleted b"
proof -
  let ?b = "b\<lparr>bl_peer_id := raw, bl_identifier_flavor := flavor\<rparr>"
  let ?der = "if flavor = PublicKey then (case identity_id_from_public_key_hex (bk_ids L) raw of Some d \<Rightarrow> Ok (Some d) | None \<Rightarrow> Err InvalidInput) else Ok None"
  let ?dev = "if bl_device_id b = None then get_known_devices L raw s else Ok []"
  have eq: "Blocked_block L b s = or_return ?der s (\<lambda>derived. or_return ?dev s (\<lambda>devices. write_block_entries L (block_entries derived devices ?b) s))"
    by (simp add: Blocked_block_def assms(5) Let_def)
  from assms(4) eq obtain derived where der: "?der = Ok derived" by (cases ?der) (simp_all split: if_splits option.splits)
  from assms(4) eq der obtain devs where dev: "?dev = Ok devs" by (cases ?dev) simp_all
  define es where "es = block_entries derived devs ?b"
  have "write_block_entries L es s = (Ok (), s')" using assms(4) unfolding eq der dev es_def by simp
  with write_block_entries_ok [OF assms(2,3,1), of es] have w: "good s'" "\<forall>k. k \<notin> storage_key ` set es \<longrightarrow> content s' k = content s k"
    "\<forall>k \<in> storage_key ` set es. \<exists>b \<in> set es. \<exists>v. storage_key b = k \<and> content s' k = Some v \<and> from_slice (bk_json L) v = Some b" by simp_all
  have some: "content s' k \<noteq> None \<longleftrightarrow> content s k \<noteq> None \<or> k \<in> storage_key ` set es" for k
  proof (cases "k \<in> storage_key ` set es")
    case True
    with w(3) show ?thesis by blast
  next
    case False
    with w(2) show ?thesis by simp
  qed
  have del: "\<exists>c v. content s' k = Some v \<and> from_slice (bk_json L) v = Some c \<and> bl_is_deleted c = bl_is_deleted b" if "k \<in> storage_key ` set es" for k
  proof -
    from w(3) that obtain c v where "c \<in> set es" "content s' k = Some v" "from_slice (bk_json L) v = Some c" by blast
    moreover have "bl_is_deleted c = bl_is_deleted b" using block_entries_deleted [of c derived devs ?b] \<open>c \<in> set es\<close> by (simp add: es_def)
    ultimately show ?thesis by blast
  qed
  have "derived = (if flavor = PublicKey then identity_id_from_public_key_hex (bk_ids L) raw else None)"
    using der by (cases "identity_id_from_public_key_hex (bk_ids L) raw"; cases "flavor = PublicKey") simp_all
  moreover have "flavor = PublicKey \<longrightarrow> derived \<noteq> None"
    using der by (cases "identity_id_from_public_key_hex (bk_ids L) raw") auto
  moreover have "bl_device_id b = None \<longrightarrow> get_known_devices L raw s = Ok devs" using dev by auto
  ultimately show thesis using that [of derived devs] w(1) some del unfolding es_def by blast
qed

lemma block_ok:
  assumes "good s" and "bk_vtable L = vt" and "serde_correct (bk_json L)" and "split_identifier_flavor (bl_peer_id b) = (raw, flavor)"
    and "flavor = PublicKey \<longrightarrow> is_valid_public_key (bk_ids L) raw" and "get_known_devices L raw s = Ok devs"
  shows "\<exists>s'. Blocked_block L b s = (Ok (), s')"
proof -
  obtain derived where
    "(if flavor = PublicKey then (case identity_id_from_public_key_hex (bk_ids L) raw of Some d \<Rightarrow> Ok (Some d) | None \<Rightarrow> Err InvalidInput) else Ok None) = Ok derived"
  proof (cases "flavor = PublicKey")
    case True
    with assms(5) valid_key_identity obtain i where "identity_id_from_public_key_hex (bk_ids L) raw = Some i" by blast
    with True show thesis by (intro that [of "Some i"]) simp
  next
    case False
    then show thesis by (intro that [of None]) simp
  qed
  moreover have "\<exists>s'. write_block_entries L es s = (Ok (), s')" for es using write_block_entries_ok [OF assms(2,3,1), of es] by blast
  ultimately show ?thesis by (cases "bl_device_id b") (simp_all add: Blocked_block_def assms(4,6) Let_def)
qed

lemma no_devices:
  assumes "good s" and "bk_vtable L = vt" and "\<forall>k. starts_with k (as_bytes DEVICE_REGISTRY_PREFIX) \<longrightarrow> content s k = None"
  shows "get_known_devices L i s = Ok []" "known_devices_of L ids s = Ok []"
proof -
  have "starts_with (registry_key (fst (split_identifier_flavor i))) (as_bytes DEVICE_REGISTRY_PREFIX)" for i by (simp add: registry_key_def starts_with_iff)
  then show dev: "get_known_devices L i s = Ok []" for i
    by (simp add: get_known_devices_def core_get_ok [OF assms(1)] assms(2,3))
  show "known_devices_of L ids s = Ok []" by (induction ids) (simp_all add: dev)
qed

lemma is_deleted_first:
  assumes "good s" and "bk_vtable L = vt" and "split_identifier_flavor p = (raw, flavor)"
    and "content s (block_key raw None) = Some v" and "from_slice (bk_json L) v = Some c" and "bl_is_deleted c"
  shows "is_blocked_and_deleted_resolved L p s = Ok True"
proof -
  have "is_blocked_and_deleted_exact L raw s = Ok True"
    using assms(2,4-6) core_get_ok [OF assms(1)] by (simp add: is_blocked_and_deleted_exact_def decode_row_def)
  moreover obtain ids where "resolved_identifiers (bk_ids L) p = raw # ids" using resolved_head [OF assms(3)] by blast
  ultimately show ?thesis by (simp add: is_blocked_and_deleted_resolved_def)
qed

text \<open>A block is seen under every identifier of the peer, and no other block is lost.\<close>

lemma block_seen:
  assumes "good s" and "bk_vtable L = vt" and "serde_correct (bk_json L)" and "Blocked_block L b s = (Ok (), s')"
    and "split_identifier_flavor (bl_peer_id b) = (raw, flavor)"
  shows "good s'"
    and "bl_device_id b = None \<or> bl_device_id b = d \<Longrightarrow>
      i = raw \<or> flavor = PublicKey \<and> identity_id_from_public_key_hex (bk_ids L) raw = Some i \<Longrightarrow> blocked_in (content s') i d"
    and "blocked_in (content s) i d \<Longrightarrow> blocked_in (content s') i d"
    and "bl_device_id b = None \<Longrightarrow> bl_is_deleted b \<Longrightarrow> is_blocked_and_deleted_resolved L (bl_peer_id b) s' = Ok True"
proof -
  obtain derived devs where w: "good s'"
    "derived = (if flavor = PublicKey then identity_id_from_public_key_hex (bk_ids L) raw else None)"
    "flavor = PublicKey \<longrightarrow> derived \<noteq> None" "bl_device_id b = None \<longrightarrow> get_known_devices L raw s = Ok devs"
    "\<forall>k. content s' k \<noteq> None \<longleftrightarrow> content s k \<noteq> None \<or> k \<in> storage_key ` set (block_entries derived devs (b\<lparr>bl_peer_id := raw, bl_identifier_flavor := flavor\<rparr>))"
    "\<forall>k \<in> storage_key ` set (block_entries derived devs (b\<lparr>bl_peer_id := raw, bl_identifier_flavor := flavor\<rparr>)).
       \<exists>c v. content s' k = Some v \<and> from_slice (bk_json L) v = Some c \<and> bl_is_deleted c = bl_is_deleted b"
    using block_writes [OF assms] .
  show "good s'" by (fact w(1))
  have key: "block_key i (bl_device_id b) \<in> storage_key ` set (block_entries derived devs (b\<lparr>bl_peer_id := raw, bl_identifier_flavor := flavor\<rparr>))"
    if "i = raw \<or> flavor = PublicKey \<and> identity_id_from_public_key_hex (bk_ids L) raw = Some i" for i
    using that unfolding block_entries_keys by (auto simp: w(2))
  show "blocked_in (content s') i d" if "bl_device_id b = None \<or> bl_device_id b = d"
    "i = raw \<or> flavor = PublicKey \<and> identity_id_from_public_key_hex (bk_ids L) raw = Some i"
    using w(5) key [OF that(2)] that(1) by (cases d) (auto simp: blocked_in_def)
  show "blocked_in (content s') i d" if "blocked_in (content s) i d" using that w(5) by (auto simp: blocked_in_def)
  assume "bl_device_id b = None" and del: "bl_is_deleted b"
  with bspec [OF w(6) key [of raw]] obtain c v where "content s' (block_key raw None) = Some v" "from_slice (bk_json L) v = Some c" "bl_is_deleted c" by auto
  then show "is_blocked_and_deleted_resolved L (bl_peer_id b) s' = Ok True" by (rule is_deleted_first [OF w(1) assms(2,5)])
qed

text \<open>Unblocking a peer removes its rows under every identifier it is known by.\<close>

lemma set_fold_push_unique: "set (fold push_unique xs ys) = set xs \<union> set ys"
  by (induction xs arbitrary: ys) auto

lemma unblock_removes:
  assumes "good s" and "bk_vtable L = vt" and "Blocked_unblock L p None s = (Ok (), s')"
  obtains ids devs where "good s'" "identifiers_for_unblock L p s = Ok ids" "known_devices_of L ids s = Ok devs"
    "content s' = (\<lambda>k. if (\<exists>i \<in> set ids. k = block_key i None \<or> (\<exists>d \<in> set devs. k = block_key i (Some d)) \<or> k = registry_key i) then None else content s k)"
proof -
  from assms(3) obtain ids where ids: "identifiers_for_unblock L p s = Ok ids"
    by (cases "identifiers_for_unblock L p s") (simp_all add: Blocked_unblock_def)
  with assms(3) obtain devs where devs: "known_devices_of L ids s = Ok devs"
    by (cases "known_devices_of L ids s") (simp_all add: Blocked_unblock_def)
  define ks where "ks = concat (map (\<lambda>i. [block_key i None] @ map (\<lambda>d. block_key i (Some d)) (remdups devs) @ [registry_key i]) ids)"
  have "core_remove_all vt ks s = (Ok (), s')"
    using assms(3) by (simp add: Blocked_unblock_def ids devs assms(2) ks_def Let_def)
  with core_remove_all_ok [OF assms(1), of ks] have s': "good s'" "content s' = (\<lambda>k. if k \<in> set ks then None else content s k)" by simp_all
  have "k \<in> set ks \<longleftrightarrow> (\<exists>i \<in> set ids. k = block_key i None \<or> (\<exists>d \<in> set devs. k = block_key i (Some d)) \<or> k = registry_key i)" for k
    by (auto simp: ks_def)
  with s' ids devs show thesis by (intro that [of ids devs]) simp_all
qed

lemma unblock_identifiers:
  assumes "good s" and "bk_vtable L = vt" and "identifiers_for_unblock L p s = Ok ids"
  shows "set ids = set (resolved_identifiers (bk_ids L) p)
    \<union> {bl_peer_id b |b. b \<in> rows (content s) (bk_json L) (as_bytes BLOCKED_PREFIX) \<and> bl_identifier_flavor b = PublicKey
          \<and> identity_id_from_public_key_hex (bk_ids L) (bl_peer_id b) = Some (fst (split_identifier_flavor p))}
    \<union> {k. identity_id_from_public_key_hex (bk_ids L) k = Some (fst (split_identifier_flavor p))
          \<and> (\<exists>x. content s x \<noteq> None \<and> Option.bind (strip_prefix (as_bytes DEVICE_REGISTRY_PREFIX) x) string_from_utf8 = Some k)}"
proof -
  let ?raw = "fst (split_identifier_flavor p)"
  from core_scan_ok [OF assms(1), of "as_bytes BLOCKED_PREFIX"] obtain es where es: "core_scan vt (as_bytes BLOCKED_PREFIX) s = Ok es"
    "set es = {(k, v). content s k = Some v \<and> starts_with k (as_bytes BLOCKED_PREFIX)}" by blast
  from core_scan_ok [OF assms(1), of "as_bytes DEVICE_REGISTRY_PREFIX"] obtain fs where fs: "core_scan vt (as_bytes DEVICE_REGISTRY_PREFIX) s = Ok fs"
    "set fs = {(k, v). content s k = Some v \<and> starts_with k (as_bytes DEVICE_REGISTRY_PREFIX)}" by blast
  have ids: "ids = fold push_unique (registry_keys_of L ?raw fs) (fold push_unique (blocked_keys_of L ?raw es) (resolved_identifiers (bk_ids L) p))"
    using assms(3) by (simp add: identifiers_for_unblock_def assms(2) es(1) fs(1) Let_def)
  have "set (blocked_keys_of L ?raw es) = {bl_peer_id b |b. b \<in> rows (content s) (bk_json L) (as_bytes BLOCKED_PREFIX) \<and> bl_identifier_flavor b = PublicKey
          \<and> identity_id_from_public_key_hex (bk_ids L) (bl_peer_id b) = Some ?raw}"
    by (fastforce simp: blocked_keys_of_def set_map_filter es(2) rows_def split: option.splits if_splits)
  moreover have "set (registry_keys_of L ?raw fs) = {k. identity_id_from_public_key_hex (bk_ids L) k = Some ?raw
          \<and> (\<exists>x. content s x \<noteq> None \<and> Option.bind (strip_prefix (as_bytes DEVICE_REGISTRY_PREFIX) x) string_from_utf8 = Some k)}"
    by (fastforce simp: registry_keys_of_def set_map_filter fs(2) strip_prefix_def split: option.splits if_splits bind_splits)
  ultimately show ?thesis by (auto simp: ids set_fold_push_unique)
qed

end

section \<open>Keys do not collide\<close>

lemma as_bytes_eq: "as_bytes a = as_bytes b \<longleftrightarrow> a = b"
  by (metis bytes_string_inverse)

lemma block_key_eq_None: "block_key i None = block_key j None \<longleftrightarrow> i = j"
  by (simp add: block_key_def as_bytes_eq)

lemma block_key_not_registry: "block_key i d \<noteq> registry_key j"
  by (cases d) (simp_all add: block_key_def registry_key_def as_bytes_eq BLOCKED_PREFIX_def DEVICE_REGISTRY_PREFIX_def)

lemma block_key_prefix: "\<not> starts_with (block_key i d) (as_bytes DEVICE_REGISTRY_PREFIX)"
proof -
  have "length (as_bytes DEVICE_REGISTRY_PREFIX) = 13" "as_bytes DEVICE_REGISTRY_PREFIX ! 7 = 0x5f"
    by (simp_all add: as_bytes_def DEVICE_REGISTRY_PREFIX_def)
  moreover have "block_key i d ! 7 = 0x3a" by (cases d) (simp_all add: block_key_def as_bytes_def BLOCKED_PREFIX_def)
  ultimately show ?thesis by (auto simp: starts_with_iff nth_append)
qed

lemma hex_no_colon: "list_all is_hexdigit xs \<Longrightarrow> CHR '':'' \<notin> set xs"
  by (auto simp: list_all_iff is_hexdigit_def)

lemma device_key_distinct:
  assumes "is_valid_public_key I k" and "i = ''pk:'' @ k \<or> CHR '':'' \<notin> set i"
  shows "block_key k (Some d) \<noteq> block_key i None"
proof
  assume "block_key k (Some d) = block_key i None"
  then have i: "i = k @ '':'' @ d" unfolding block_key_def option.case as_bytes_eq by simp
  have k: "length k = 64" "CHR '':'' \<notin> set k" using assms(1) hex_no_colon by (auto simp: is_valid_public_key_def split: if_splits)
  from i assms(2) have "''pk:'' @ k = k @ '':'' @ d" by auto
  then have "(''pk:'' @ k) ! 2 = (k @ '':'' @ d) ! 2" by simp
  moreover have "k ! 2 \<in> set k" using k(1) by simp
  ultimately show False using k by (simp add: nth_append)
qed

context backend_contract begin

lemma unblock_ok:
  assumes "good s" and "bk_vtable L = vt" and "\<forall>k. starts_with k (as_bytes DEVICE_REGISTRY_PREFIX) \<longrightarrow> content s k = None"
  shows "\<exists>s'. Blocked_unblock L p None s = (Ok (), s')"
proof -
  from core_scan_ok [OF assms(1)] obtain es fs where "core_scan vt (as_bytes BLOCKED_PREFIX) s = Ok es" "core_scan vt (as_bytes DEVICE_REGISTRY_PREFIX) s = Ok fs" by blast
  then have "\<exists>ids. identifiers_for_unblock L p s = Ok ids" by (simp add: identifiers_for_unblock_def assms(2) Let_def)
  then obtain ids where ids: "identifiers_for_unblock L p s = Ok ids" by blast
  have "\<exists>s'. core_remove_all vt ks s = (Ok (), s')" for ks using core_remove_all_ok [OF assms(1), of ks] by blast
  then show ?thesis by (simp add: Blocked_unblock_def ids no_devices(2) [OF assms] assms(2))
qed

lemma block_registry:
  assumes "good s" and "bk_vtable L = vt" and "serde_correct (bk_json L)" and "Blocked_block L b s = (Ok (), s')"
    and "split_identifier_flavor (bl_peer_id b) = (raw, flavor)"
    and "\<forall>k. starts_with k (as_bytes DEVICE_REGISTRY_PREFIX) \<longrightarrow> content s k = None"
  shows "\<forall>k. starts_with k (as_bytes DEVICE_REGISTRY_PREFIX) \<longrightarrow> content s' k = None"
proof (intro allI impI)
  fix k
  assume k: "starts_with k (as_bytes DEVICE_REGISTRY_PREFIX)"
  obtain derived devs where "\<forall>k. content s' k \<noteq> None \<longleftrightarrow> content s k \<noteq> None
      \<or> k \<in> storage_key ` set (block_entries derived devs (b\<lparr>bl_peer_id := raw, bl_identifier_flavor := flavor\<rparr>))"
    using block_writes [OF assms(1-5)] .
  moreover have "k \<noteq> storage_key e" for e using k block_key_prefix by (auto simp: storage_key_def)
  ultimately show "content s' k = None" using k assms(6) by blast
qed

text \<open>The rows that survive a peer-level unblock when no device is registered.\<close>

lemma unblock_keeps:
  assumes "good s" and "bk_vtable L = vt" and "Blocked_unblock L p None s = (Ok (), s')"
    and "\<forall>k. starts_with k (as_bytes DEVICE_REGISTRY_PREFIX) \<longrightarrow> content s k = None"
    and "\<And>i. i \<in> set (resolved_identifiers (bk_ids L) p) \<or> identity_id_from_public_key_hex (bk_ids L) i = Some (fst (split_identifier_flavor p))
      \<Longrightarrow> block_key j d \<noteq> block_key i None"
  shows "good s'" "content s' (block_key j d) = content s (block_key j d)"
proof -
  obtain ids devs where u: "good s'" "identifiers_for_unblock L p s = Ok ids" "known_devices_of L ids s = Ok devs"
    "content s' = (\<lambda>k. if (\<exists>i \<in> set ids. k = block_key i None \<or> (\<exists>d \<in> set devs. k = block_key i (Some d)) \<or> k = registry_key i) then None else content s k)"
    using unblock_removes [OF assms(1-3)] .
  show "good s'" by (fact u(1))
  have "devs = []" using no_devices(2) [OF assms(1,2,4)] u(3) by simp
  moreover have "block_key j d \<noteq> block_key i None" if "i \<in> set ids" for i
    using that assms(5) unfolding unblock_identifiers [OF assms(1,2) u(2)] by blast
  ultimately show "content s' (block_key j d) = content s (block_key j d)" using block_key_not_registry by (auto simp: u(4))
qed

lemma block_pk:
  assumes "good s" and "bk_vtable L = vt" and "serde_correct (bk_json L)"
    and "\<forall>x. starts_with x (as_bytes DEVICE_REGISTRY_PREFIX) \<longrightarrow> content s x = None"
    and "identity_id_from_public_key_hex (bk_ids L) k = Some i" and "bl_peer_id b = ''pk:'' @ k"
  shows "\<exists>s1. Blocked_block L b s = (Ok (), s1) \<and> good s1 \<and> (\<forall>x. starts_with x (as_bytes DEVICE_REGISTRY_PREFIX) \<longrightarrow> content s1 x = None)
      \<and> content s1 (block_key k (bl_device_id b)) \<noteq> None \<and> content s1 (block_key i (bl_device_id b)) \<noteq> None"
proof -
  have sp: "split_identifier_flavor (bl_peer_id b) = (k, PublicKey)" unfolding assms(6) by (rule split_pk)
  obtain s1 where s1: "Blocked_block L b s = (Ok (), s1)"
    using block_ok [OF assms(1-3) sp _ no_devices(1) [OF assms(1,2,4)]] identity_id_valid [OF assms(5)] by blast
  obtain derived devs where w: "good s1" "derived = (if PublicKey = PublicKey then identity_id_from_public_key_hex (bk_ids L) k else None)"
    "PublicKey = PublicKey \<longrightarrow> derived \<noteq> None" "bl_device_id b = None \<longrightarrow> get_known_devices L k s = Ok devs"
    "\<forall>x. content s1 x \<noteq> None \<longleftrightarrow> content s x \<noteq> None
      \<or> x \<in> storage_key ` set (block_entries derived devs (b\<lparr>bl_peer_id := k, bl_identifier_flavor := PublicKey\<rparr>))"
    using block_writes [OF assms(1-3) s1 sp] .
  have "block_key j (bl_device_id b) \<in> storage_key ` set (block_entries derived devs (b\<lparr>bl_peer_id := k, bl_identifier_flavor := PublicKey\<rparr>))"
    if "j = k \<or> j = i" for j using that unfolding block_entries_keys w(2) assms(5) by auto
  then have "content s1 (block_key j (bl_device_id b)) \<noteq> None" if "j = k \<or> j = i" for j using that w(5) by simp
  then show ?thesis using s1 w(1) block_registry [OF assms(1-3) s1 sp assms(4)] by (intro exI [of _ s1]) simp
qed

lemma device_block_survives:
  assumes "good s" and "bk_vtable L = vt" and "id_libs_correct (bk_ids L)" and "identity_id_from_public_key_hex (bk_ids L) k = Some i"
    and "\<forall>x. starts_with x (as_bytes DEVICE_REGISTRY_PREFIX) \<longrightarrow> content s x = None" and "content s (block_key k (Some d)) \<noteq> None"
  shows "\<exists>s'. Blocked_unblock L (''pk:'' @ k) None s = (Ok (), s') \<and> is_device_blocked L (''pk:'' @ k) d s' = Ok True"
proof -
  obtain s' where s': "Blocked_unblock L (''pk:'' @ k) None s = (Ok (), s')" using unblock_ok [OF assms(1,2,5)] by blast
  have "block_key k (Some d) \<noteq> block_key j None"
    if "j \<in> set (resolved_identifiers (bk_ids L) (''pk:'' @ k)) \<or> identity_id_from_public_key_hex (bk_ids L) j = Some (fst (split_identifier_flavor (''pk:'' @ k)))" for j
  proof (rule device_key_distinct [OF identity_id_valid [OF assms(4)]])
    have "j = k \<or> j = ''pk:'' @ k \<or> j = i \<or> is_valid_public_key (bk_ids L) j"
      using that identity_id_valid unfolding resolved_pk assms(4) by auto
    then show "j = ''pk:'' @ k \<or> CHR '':'' \<notin> set j"
      using identity_id_valid [OF assms(4)] identity_id_format [OF assms(3,4)] hex_no_colon [of j]
      by (auto simp: is_valid_public_key_def is_valid_identity_id_def split: if_splits)
  qed
  from unblock_keeps [OF assms(1,2) s' assms(5) this] assms(6) have "good s'" "content s' (block_key k (Some d)) \<noteq> None" by simp_all
  then have "is_blocked_resolved L (''pk:'' @ k) (Some d) s' = Ok True"
    unfolding is_blocked_ok [OF \<open>good s'\<close> assms(2)] resolved_pk by (auto simp: blocked_in_def)
  with s' show ?thesis by (simp add: is_device_blocked_def Blocked_is_blocked_def)
qed

lemma identity_row_survives:
  assumes "good s" and "bk_vtable L = vt" and "identity_id_from_public_key_hex (bk_ids L) k = Some i" and "i \<noteq> k"
    and "identity_id_from_public_key_hex (bk_ids L) i \<noteq> Some k" and "public_key_hex_from_peer_id (bk_ids L) k = None"
    and "\<forall>x. starts_with x (as_bytes DEVICE_REGISTRY_PREFIX) \<longrightarrow> content s x = None" and "content s (block_key i None) \<noteq> None"
  shows "\<exists>s'. Blocked_unblock L k None s = (Ok (), s') \<and> Blocked_is_blocked L (''pk:'' @ k) None s' = Ok True"
proof -
  obtain s' where s': "Blocked_unblock L k None s = (Ok (), s')" using unblock_ok [OF assms(1,2,7)] by blast
  have sp: "split_identifier_flavor k = (k, Legacy)" using identity_id_valid [OF assms(3)]
    by (intro hex_legacy) (auto simp: is_valid_public_key_def split: if_splits)
  have "block_key i None \<noteq> block_key j None"
    if "j \<in> set (resolved_identifiers (bk_ids L) k) \<or> identity_id_from_public_key_hex (bk_ids L) j = Some (fst (split_identifier_flavor k))" for j
    using that assms(4-6) unfolding block_key_eq_None by (auto simp: resolved_identifiers_def sp Let_def)
  from unblock_keeps [OF assms(1,2) s' assms(7) this] assms(8) have "good s'" "content s' (block_key i None) \<noteq> None" by simp_all
  then have "is_blocked_resolved L (''pk:'' @ k) None s' = Ok True"
    unfolding is_blocked_ok [OF \<open>good s'\<close> assms(2)] resolved_pk assms(3) by (auto simp: blocked_in_def)
  with s' show ?thesis by (simp add: Blocked_is_blocked_def)
qed

end

section \<open>A concrete block list\<close>

definition hex_digit :: "nat \<Rightarrow> char" where
  "hex_digit n = (if n < 10 then char_of (48 + n) else char_of (87 + n))"

definition hex_value :: "char \<Rightarrow> nat" where
  "hex_value c = (let n = of_char c in if n < 58 then n - 48 else n - 87)"

definition sample_hex :: "bytes \<Rightarrow> string" where
  "sample_hex v = concat (map (\<lambda>b. [hex_digit (unat b div 16), hex_digit (unat b mod 16)]) v)"

fun sample_unhex :: "string \<Rightarrow> bytes" where
  "sample_unhex (c # d # cs) = of_nat (hex_value c * 16 + hex_value d) # sample_unhex cs"
| "sample_unhex cs = []"

lemma hex_digit: "n < 16 \<Longrightarrow> hex_value (hex_digit n) = n" "n < 16 \<Longrightarrow> is_hexdigit (hex_digit n)"
  by (auto simp: hex_digit_def hex_value_def is_hexdigit_def Let_def)

lemma sample_hex_Cons: "sample_hex (b # v) = hex_digit (unat b div 16) # hex_digit (unat b mod 16) # sample_hex v"
  by (simp add: sample_hex_def)

lemma nibbles: "unat (b :: byte) div 16 < 16" "unat b mod 16 < 16"
  using unsigned_less [of b, where 'a = nat] by (simp_all add: less_mult_imp_div_less)

lemma sample_hex_correct:
  "length (sample_hex v) = 2 * length v" "list_all is_hexdigit (sample_hex v)" "sample_unhex (sample_hex v) = v"
proof -
  show "length (sample_hex v) = 2 * length v" by (induction v) (simp_all add: sample_hex_def)
  show "list_all is_hexdigit (sample_hex v)" by (induction v) (simp_all add: sample_hex_Cons hex_digit nibbles, simp add: sample_hex_def)
  show "sample_unhex (sample_hex v) = v"
    by (induction v) (simp_all add: sample_hex_Cons hex_digit nibbles del: of_nat_add of_nat_mult, simp add: sample_hex_def)
qed

definition sample_ids :: id_libs where
  "sample_ids = \<lparr>idl_hex_encode = sample_hex, idl_hex_decode = (\<lambda>t. Some (sample_unhex t)), idl_hash = (\<lambda>_. replicate 32 7),
     idl_valid_point = (\<lambda>_. True), idl_parse_peer_id = (\<lambda>_. None), idl_decode_ed25519 = Some\<rparr>"

definition sample_key :: string where
  "sample_key = sample_hex (replicate 32 1)"

definition sample_identity :: string where
  "sample_identity = sample_hex (replicate 32 7)"

lemma sample_ids_correct: "id_libs_correct sample_ids"
  by (simp add: id_libs_correct_def sample_ids_def sample_hex_correct)

lemma sample_key_identity: "identity_id_from_public_key_hex sample_ids sample_key = Some sample_identity"
  by (simp add: identity_id_from_public_key_hex_def is_valid_public_key_def sample_ids_def sample_key_def sample_identity_def sample_hex_correct)

lemma sample_identity_distinct: "sample_identity \<noteq> sample_key"
proof
  assume "sample_identity = sample_key"
  then have "sample_unhex (sample_hex (replicate 32 7)) = sample_unhex (sample_hex (replicate 32 1))" by (simp add: sample_identity_def sample_key_def)
  then show False by (simp add: sample_hex_correct)
qed

fun flavor_bytes :: "identifier_flavor \<Rightarrow> bytes" where
  "flavor_bytes Legacy = []" | "flavor_bytes PublicKey = [1]" | "flavor_bytes IdentityId = [2]"

definition bytes_flavor :: "bytes \<Rightarrow> identifier_flavor" where
  "bytes_flavor v = (if v = [] then Legacy else if v = [1] then PublicKey else IdentityId)"

lemma bytes_flavor_inverse [simp]: "bytes_flavor (flavor_bytes f) = f"
  by (cases f) (simp_all add: bytes_flavor_def)

definition sample_block_json :: "blocked_identity serde" where
  "sample_block_json = \<lparr>to_vec = (\<lambda>b. Some (enc_fields [as_bytes (bl_peer_id b), option_bytes as_bytes (bl_device_id b), u64_bytes (bl_blocked_at b),
       option_bytes as_bytes (bl_reason b), option_bytes as_bytes (bl_notes b), bool_bytes (bl_is_deleted b), flavor_bytes (bl_identifier_flavor b)])),
     from_slice = (\<lambda>v. case dec_fields 7 v of
         [p, d, t, r, n, x, f] \<Rightarrow> Some \<lparr>bl_peer_id = bytes_string p, bl_device_id = bytes_option bytes_string d, bl_blocked_at = bytes_u64 t,
             bl_reason = bytes_option bytes_string r, bl_notes = bytes_option bytes_string n, bl_is_deleted = bytes_bool x,
             bl_identifier_flavor = bytes_flavor f\<rparr>
       | _ \<Rightarrow> None)\<rparr>"

lemma sample_block_json_correct: "serde_correct sample_block_json"
  by (simp add: serde_correct_def sample_block_json_def dec_enc_fields)

definition sample_devices_json :: "string list serde" where
  "sample_devices_json = \<lparr>to_vec = (\<lambda>ds. Some (replicate (length ds) 1 @ [0] @ enc_fields (map as_bytes ds))),
     from_slice = (\<lambda>v. let n = length (takeWhile ((=) 1) v) in Some (map bytes_string (dec_fields n (drop (Suc n) v))))\<rparr>"

lemma sample_devices_json_correct: "serde_correct sample_devices_json"
  by (simp add: serde_correct_def sample_devices_json_def takeWhile_append takeWhile_replicate dec_enc_fields comp_def)

definition sample_blocked :: "memory_storage blocked_libs" where
  "sample_blocked = \<lparr>bk_vtable = memory_vtable, bk_json = sample_block_json, bk_devices = sample_devices_json, bk_ids = sample_ids\<rparr>"

lemma sample_blocked_simps [simp]: "bk_vtable sample_blocked = memory_vtable" "bk_json sample_blocked = sample_block_json"
  "bk_devices sample_blocked = sample_devices_json" "bk_ids sample_blocked = sample_ids"
  by (simp_all add: sample_blocked_def)

section \<open>Properties\<close>

text \<open>
  C17.  A block is enforced.  Once \<open>BlockedManager::block\<close> has succeeded, the peer is blocked for the device of
  the entry, and for every device if the entry names none: under the identifier that was blocked, under the
  identity id if a public key was blocked (with and without its prefix), and under every public key of the
  identity if an identity id was blocked.  Nobody who was blocked before is released, and a block with the
  \<open>is_deleted\<close> flag makes the peer blocked and deleted.
\<close>

theorem block_enforced:
  assumes "memory_good s" and "bk_vtable L = memory_vtable" and "serde_correct (bk_json L)" and "Blocked_block L b s = (Ok (), s')"
    and "bl_device_id b = None \<or> bl_device_id b = d" and "id_libs_correct (bk_ids L)"
  shows "is_blocked_resolved L (bl_peer_id b) d s' = Ok True
    \<and> (\<forall>k. bl_peer_id b = ''pk:'' @ k \<longrightarrow> (\<exists>i. identity_id_from_public_key_hex (bk_ids L) k = Some i
          \<and> is_blocked_resolved L i d s' = Ok True \<and> is_blocked_resolved L (''id:'' @ i) d s' = Ok True))
    \<and> (\<forall>i k. bl_peer_id b = ''id:'' @ i \<and> identity_id_from_public_key_hex (bk_ids L) k = Some i \<longrightarrow> is_blocked_resolved L (''pk:'' @ k) d s' = Ok True)
    \<and> (\<forall>p e. is_blocked_resolved L p e s = Ok True \<longrightarrow> is_blocked_resolved L p e s' = Ok True)
    \<and> (bl_device_id b = None \<and> bl_is_deleted b \<longrightarrow> is_blocked_and_deleted_resolved L (bl_peer_id b) s' = Ok True)"
proof -
  obtain raw flavor where sp: "split_identifier_flavor (bl_peer_id b) = (raw, flavor)" by (cases "split_identifier_flavor (bl_peer_id b)")
  note seen = memory.block_seen [OF assms(1-4) sp]
  note look = memory.is_blocked_ok [OF seen(1) assms(2)]
  have one: "is_blocked_resolved L p d s' = Ok True"
    if "j \<in> set (resolved_identifiers (bk_ids L) p)" "j = raw \<or> flavor = PublicKey \<and> identity_id_from_public_key_hex (bk_ids L) raw = Some j" for p j
    using seen(2) [OF assms(5) that(2)] that(1) by (auto simp: look)
  have "is_blocked_resolved L (bl_peer_id b) d s' = Ok True" using one resolved_raw [OF sp] by blast
  moreover have "\<exists>i. identity_id_from_public_key_hex (bk_ids L) k = Some i
      \<and> is_blocked_resolved L i d s' = Ok True \<and> is_blocked_resolved L (''id:'' @ i) d s' = Ok True" if "bl_peer_id b = ''pk:'' @ k" for k
  proof -
    have fl: "raw = k" "flavor = PublicKey" using sp unfolding that split_pk by simp_all
    obtain i where i: "identity_id_from_public_key_hex (bk_ids L) k = Some i"
      using memory.block_writes [OF assms(1-4) sp] fl by (metis option.exhaust)
    have "i \<in> set (resolved_identifiers (bk_ids L) (''id:'' @ i))" unfolding resolved_id by simp
    moreover have "i \<in> set (resolved_identifiers (bk_ids L) i)" by (rule identity_self [OF identity_id_format [OF assms(6) i]])
    ultimately show ?thesis using i one fl by auto
  qed
  moreover have "is_blocked_resolved L (''pk:'' @ k) d s' = Ok True"
    if "bl_peer_id b = ''id:'' @ i" "identity_id_from_public_key_hex (bk_ids L) k = Some i" for i k
  proof -
    have "raw = i" using sp unfolding that(1) split_id by simp
    moreover have "i \<in> set (resolved_identifiers (bk_ids L) (''pk:'' @ k))" unfolding resolved_pk that(2) by simp
    ultimately show ?thesis using one by blast
  qed
  moreover have "is_blocked_resolved L p e s' = Ok True" if "is_blocked_resolved L p e s = Ok True" for p e
    using that seen(3) by (auto simp: look memory.is_blocked_ok [OF assms(1,2)])
  ultimately show ?thesis using seen(4) by blast
qed

lemma sample_block:
  fixes d :: "string option"
  obtains s' where "Blocked_block sample_blocked ((BlockedIdentity_new 5 (''pk:'' @ sample_key))\<lparr>bl_device_id := d, bl_is_deleted := x\<rparr>) MemoryStorage_new = (Ok (), s')"
proof -
  have "get_known_devices sample_blocked sample_key MemoryStorage_new = Ok []"
    by (rule memory.no_devices(1)) (simp_all add: memory_new_good)
  with identity_id_valid [OF sample_key_identity] have "\<exists>s'. Blocked_block sample_blocked ((BlockedIdentity_new 5 (''pk:'' @ sample_key))\<lparr>bl_device_id := d, bl_is_deleted := x\<rparr>) MemoryStorage_new = (Ok (), s')"
    by (intro memory.block_ok [where raw = sample_key and flavor = PublicKey and devs = "[]"])
      (simp_all add: memory_new_good sample_block_json_correct BlockedIdentity_new_def split_pk [simplified])
  then show thesis using that by blast
qed

theorem block_enforced_witness:
  "\<exists>b s'. bl_peer_id b = ''pk:'' @ sample_key \<and> Blocked_block sample_blocked b MemoryStorage_new = (Ok (), s')
     \<and> is_blocked_resolved sample_blocked (bl_peer_id b) (Some ''phone'') s' = Ok True \<and> is_blocked_resolved sample_blocked sample_identity (Some ''phone'') s' = Ok True
     \<and> is_blocked_and_deleted_resolved sample_blocked (bl_peer_id b) s' = Ok True"
proof -
  obtain b where b: "b = (BlockedIdentity_new 5 (''pk:'' @ sample_key))\<lparr>bl_device_id := None, bl_is_deleted := True\<rparr>" by simp
  obtain s' where s': "Blocked_block sample_blocked b MemoryStorage_new = (Ok (), s')" unfolding b by (rule sample_block)
  have p: "bl_peer_id b = ''pk:'' @ sample_key" "bl_device_id b = None" "bl_is_deleted b" by (simp_all add: b BlockedIdentity_new_def)
  have "is_blocked_resolved sample_blocked (bl_peer_id b) (Some ''phone'') s' = Ok True
    \<and> (\<exists>i. identity_id_from_public_key_hex sample_ids sample_key = Some i \<and> is_blocked_resolved sample_blocked i (Some ''phone'') s' = Ok True)
    \<and> is_blocked_and_deleted_resolved sample_blocked (bl_peer_id b) s' = Ok True"
    using block_enforced [of MemoryStorage_new sample_blocked b s' "Some ''phone''"] p
    by (simp add: memory_new_good sample_block_json_correct sample_ids_correct s' sample_key_identity)
  then show ?thesis using s' p(1) by (intro exI [of _ b] exI [of _ s']) (simp add: sample_key_identity)
qed



text \<open>
  C38.  What an unblock request leaves behind.  (1) A block of one device that was never registered survives
  the unblock request for the whole peer, although \<open>unblock\<close> promises to remove all device-specific blocks.
  (2) After a block under \<open>pk:\<close> and the key, the unblock request for the bare key removes the key's row and not
  the row of the identity id, so the peer stays blocked.  Both hold on every backend without registered
  devices, for every key whose identity id is another string and not a key of the identity \<open>k\<close>.
\<close>

theorem unblock_incomplete:
  assumes "memory_good s" and "bk_vtable L = memory_vtable" and "serde_correct (bk_json L)" and "id_libs_correct (bk_ids L)"
    and "\<forall>x. starts_with x (as_bytes DEVICE_REGISTRY_PREFIX) \<longrightarrow> memory_content s x = None"
    and "identity_id_from_public_key_hex (bk_ids L) k = Some i" and "i \<noteq> k"
    and "identity_id_from_public_key_hex (bk_ids L) i \<noteq> Some k" and "public_key_hex_from_peer_id (bk_ids L) k = None"
  shows "(\<exists>s1 s2. Blocked_block L (with_device_id d (BlockedIdentity_new now (''pk:'' @ k))) s = (Ok (), s1)
        \<and> Blocked_unblock L (''pk:'' @ k) None s1 = (Ok (), s2) \<and> is_device_blocked L (''pk:'' @ k) d s2 = Ok True)
    \<and> (\<exists>s1 s2. Blocked_block L (BlockedIdentity_new now (''pk:'' @ k)) s = (Ok (), s1)
        \<and> Blocked_unblock L k None s1 = (Ok (), s2) \<and> Blocked_is_blocked L (''pk:'' @ k) None s2 = Ok True)"
proof
  obtain s1 where s1: "Blocked_block L (with_device_id d (BlockedIdentity_new now (''pk:'' @ k))) s = (Ok (), s1)" "memory_good s1"
    "\<forall>x. starts_with x (as_bytes DEVICE_REGISTRY_PREFIX) \<longrightarrow> memory_content s1 x = None" "memory_content s1 (block_key k (Some d)) \<noteq> None"
    using memory.block_pk [OF assms(1-3,5,6), of "with_device_id d (BlockedIdentity_new now (''pk:'' @ k))"]
    by (auto simp: with_device_id_def BlockedIdentity_new_def)
  with memory.device_block_survives [OF s1(2) assms(2,4,6) s1(3,4)]
  show "\<exists>s1 s2. Blocked_block L (with_device_id d (BlockedIdentity_new now (''pk:'' @ k))) s = (Ok (), s1)
        \<and> Blocked_unblock L (''pk:'' @ k) None s1 = (Ok (), s2) \<and> is_device_blocked L (''pk:'' @ k) d s2 = Ok True" by blast
next
  obtain s1 where s1: "Blocked_block L (BlockedIdentity_new now (''pk:'' @ k)) s = (Ok (), s1)" "memory_good s1"
    "\<forall>x. starts_with x (as_bytes DEVICE_REGISTRY_PREFIX) \<longrightarrow> memory_content s1 x = None" "memory_content s1 (block_key i None) \<noteq> None"
    using memory.block_pk [OF assms(1-3,5,6), of "BlockedIdentity_new now (''pk:'' @ k)"] by (auto simp: BlockedIdentity_new_def)
  with memory.identity_row_survives [OF s1(2) assms(2,6-9) s1(3,4)]
  show "\<exists>s1 s2. Blocked_block L (BlockedIdentity_new now (''pk:'' @ k)) s = (Ok (), s1)
        \<and> Blocked_unblock L k None s1 = (Ok (), s2) \<and> Blocked_is_blocked L (''pk:'' @ k) None s2 = Ok True" by blast
qed

theorem unblock_incomplete_witness:
  "\<exists>s1 s2. Blocked_block sample_blocked (with_device_id ''phone'' (BlockedIdentity_new 5 (''pk:'' @ sample_key))) MemoryStorage_new = (Ok (), s1)
     \<and> Blocked_unblock sample_blocked (''pk:'' @ sample_key) None s1 = (Ok (), s2) \<and> is_device_blocked sample_blocked (''pk:'' @ sample_key) ''phone'' s2 = Ok True"
proof -
  have "identity_id_from_public_key_hex sample_ids sample_identity \<noteq> Some sample_key"
    using sample_identity_distinct
    by (simp add: identity_id_from_public_key_hex_def is_valid_public_key_def sample_ids_def sample_identity_def sample_hex_correct)
  moreover have "public_key_hex_from_peer_id sample_ids sample_key = None" by (simp add: public_key_hex_from_peer_id_def sample_ids_def)
  ultimately show ?thesis
    using unblock_incomplete [of MemoryStorage_new sample_blocked sample_key sample_identity "''phone''" 5]
    by (simp add: memory_new_good sample_block_json_correct sample_ids_correct sample_key_identity sample_identity_distinct)
qed

end
