(* ===== verification/Inbox.thy ===== *)
theory Inbox
  imports Sample_Stores
begin

text \<open>
  The inbox (\<open>core/src/store/inbox.rs\<close>) with its two backends, and the statistics of duplicates
  (\<open>core/src/store/dedup.rs\<close>).  The inbox refuses a message whose id was seen; it remembers 50,000 ids.

  A \<open>FxHashSet\<close> is a set; where the code depends on its iteration order, the order is a function of the
  set that the model does not know (\<open>ib_iter\<close>).  \<open>bincode\<close> and BLAKE3 are parameters.  The backend of a
  persistent inbox and the log manager behind the retention policy are passed along.
\<close>

section \<open>Messages\<close>

record received_message =
  rm_version :: byte
  rm_message_id :: string
  rm_sender_id :: string
  rm_payload :: bytes
  rm_received_at :: u64
  rm_sender_public_key_hex :: "string option"

record legacy_received_message =
  lrm_message_id :: string
  lrm_sender_id :: string
  lrm_payload :: bytes
  lrm_received_at :: u64

record 's inbox_libs =
  ib_vtable :: "'s storage_vtable"
  ib_hash :: "bytes \<Rightarrow> bytes"
  ib_seen :: "bytes set serde"
  ib_message :: "received_message serde"
  ib_legacy :: "bytes \<Rightarrow> legacy_received_message option"
  ib_iter :: "bytes set \<Rightarrow> bytes list"
  ib_history :: "'s history_libs"
  ib_logs :: "'s log_libs"

definition deserialize_received_message :: "'s inbox_libs \<Rightarrow> bytes \<Rightarrow> received_message option" where
  "deserialize_received_message L data =
     (if data = [] then None
      else if data ! 0 = 1 then from_slice (ib_message L) data
      else map_option (\<lambda>l. \<lparr>rm_version = 1, rm_message_id = lrm_message_id l, rm_sender_id = lrm_sender_id l, rm_payload = lrm_payload l,
             rm_received_at = lrm_received_at l, rm_sender_public_key_hex = None\<rparr>) (ib_legacy L data))"

definition MAX_SEEN_IDS :: nat where "MAX_SEEN_IDS = 50000"

definition SEEN_IDS_KEY :: bytes where "SEEN_IDS_KEY = as_bytes ''inbox_seen_ids''"

definition MESSAGES_PREFIX :: bytes where "MESSAGES_PREFIX = as_bytes ''inbox_msg_''"

definition message_key :: "string \<Rightarrow> string \<Rightarrow> bytes" where
  "message_key sender_id message_id = as_bytes (''inbox_msg_'' @ sender_id @ ''_'' @ message_id)"

definition id_hash :: "'s inbox_libs \<Rightarrow> string \<Rightarrow> bytes" where
  "id_hash L message_id = ib_hash L (as_bytes message_id)"

section \<open>The inbox\<close>

record inbox_memory =
  im_seen_ids :: "bytes set"
  im_seen_order :: "bytes list"
  im_messages :: "(string, received_message list) hmap"
  im_total :: nat

datatype inbox_backend = InboxMemory inbox_memory | InboxPersistent

record inbox =
  in_backend :: inbox_backend
  in_storage_manager :: "storage_manager option"

definition Inbox_new :: inbox where
  "Inbox_new = \<lparr>in_backend = InboxMemory \<lparr>im_seen_ids = {}, im_seen_order = [], im_messages = [], im_total = 0\<rparr>, in_storage_manager = None\<rparr>"

definition Inbox_persistent_with_storage :: "storage_manager \<Rightarrow> inbox" where
  "Inbox_persistent_with_storage g = \<lparr>in_backend = InboxPersistent, in_storage_manager = Some g\<rparr>"

definition Inbox_persistent :: inbox where
  "Inbox_persistent = \<lparr>in_backend = InboxPersistent, in_storage_manager = None\<rparr>"

definition Inbox_trigger_maintenance :: "'s inbox_libs \<Rightarrow> u64 \<Rightarrow> inbox \<Rightarrow> log_manager \<times> 's \<Rightarrow> log_manager \<times> 's" where
  "Inbox_trigger_maintenance L now b ms =
     (case in_storage_manager b of
        Some g \<Rightarrow> snd (perform_maintenance (ib_history L) (ib_logs L) now g ms)
      | None \<Rightarrow> ms)"

definition load_seen :: "'s inbox_libs \<Rightarrow> 's \<Rightarrow> bytes set option" where
  "load_seen L st =
     (case vt_get (ib_vtable L) SEEN_IDS_KEY st of Ok (Some bs) \<Rightarrow> from_slice (ib_seen L) bs | _ \<Rightarrow> None)"

definition is_duplicate :: "'s inbox_libs \<Rightarrow> string \<Rightarrow> 's \<Rightarrow> inbox \<Rightarrow> bool" where
  "is_duplicate L message_id st b =
     (let h = id_hash L message_id in
      case in_backend b of
        InboxMemory m \<Rightarrow> h \<in> im_seen_ids m
      | InboxPersistent \<Rightarrow> (case load_seen L st of Some seen \<Rightarrow> h \<in> seen | None \<Rightarrow> False))"

text \<open>
  The eviction loop.  It makes no progress when the order is empty, so as a loop of its own it may run
  forever; \<open>None\<close> stands for that.
\<close>

partial_function (option) evict_old :: "bytes set \<Rightarrow> bytes list \<Rightarrow> (bytes set \<times> bytes list) option" where
  "evict_old seen order =
     (if card seen > MAX_SEEN_IDS
      then (case order of
              old # order' \<Rightarrow> evict_old (seen - {old}) order'
            | [] \<Rightarrow> evict_old seen order)
      else Some (seen, order))"

definition push_message :: "received_message \<Rightarrow> (string, received_message list) hmap \<Rightarrow> (string, received_message list) hmap" where
  "push_message msg ms =
     hm_insert (rm_sender_id msg) ((case hm_get ms (rm_sender_id msg) of Some xs \<Rightarrow> xs | None \<Rightarrow> []) @ [msg]) ms"

definition receive_memory :: "bytes \<Rightarrow> received_message \<Rightarrow> inbox_memory \<Rightarrow> (bool \<times> inbox_memory) option" where
  "receive_memory h msg m =
     (if h \<in> im_seen_ids m then Some (False, m)
      else Option.bind (evict_old (insert h (im_seen_ids m)) (im_seen_order m @ [h])) (\<lambda>(seen, order).
        Some (True, m\<lparr>im_seen_ids := seen, im_seen_order := order,
                      im_messages := push_message msg (im_messages m), im_total := im_total m + 1\<rparr>)))"

definition receive_persistent :: "'s inbox_libs \<Rightarrow> bytes \<Rightarrow> received_message \<Rightarrow> 's \<Rightarrow> bool \<times> 's" where
  "receive_persistent L h msg st =
     (let seen = (case load_seen L st of Some s \<Rightarrow> s | None \<Rightarrow> {}) in
      if h \<in> seen then (False, st)
      else let seen = insert h seen;
               seen = (if card seen > MAX_SEEN_IDS then seen - set (take 1000 (ib_iter L seen)) else seen);
               st = (case to_vec (ib_seen L) seen of Some bs \<Rightarrow> ignore_put (ib_vtable L) SEEN_IDS_KEY bs st | None \<Rightarrow> st);
               st = (case to_vec (ib_message L) msg of
                       Some bs \<Rightarrow> ignore_flush (ib_vtable L) (ignore_put (ib_vtable L) (message_key (rm_sender_id msg) (rm_message_id msg)) bs st)
                     | None \<Rightarrow> st) in
           (True, st))"

text \<open>A duplicate returns early; only a new message triggers maintenance.\<close>

definition Inbox_receive ::
  "'s inbox_libs \<Rightarrow> u64 \<Rightarrow> received_message \<Rightarrow> inbox \<Rightarrow> log_manager \<times> 's \<Rightarrow> (bool \<times> inbox \<times> log_manager \<times> 's) option" where
  "Inbox_receive L now msg b ms =
     (let h = id_hash L (rm_message_id msg) in
      case in_backend b of
        InboxMemory m \<Rightarrow>
          Option.bind (receive_memory h msg m) (\<lambda>(is_new, m').
            if is_new then Some (True, b\<lparr>in_backend := InboxMemory m'\<rparr>, Inbox_trigger_maintenance L now b ms)
            else Some (False, b, ms))
      | InboxPersistent \<Rightarrow>
          (case ms of (lm, st) \<Rightarrow>
             (case receive_persistent L h msg st of (is_new, st') \<Rightarrow>
                if is_new then Some (True, b, Inbox_trigger_maintenance L now b (lm, st')) else Some (False, b, lm, st'))))"

definition readable_messages :: "'s inbox_libs \<Rightarrow> scan_result \<Rightarrow> received_message list" where
  "readable_messages L es = List.map_filter (\<lambda>(key, v). deserialize_received_message L v) es"

definition messages_from :: "'s inbox_libs \<Rightarrow> string \<Rightarrow> 's \<Rightarrow> inbox \<Rightarrow> received_message list" where
  "messages_from L sender_id st b =
     (case in_backend b of
        InboxMemory m \<Rightarrow> (case hm_get (im_messages m) sender_id of Some xs \<Rightarrow> xs | None \<Rightarrow> [])
      | InboxPersistent \<Rightarrow>
          (case vt_scan_prefix (ib_vtable L) (as_bytes (''inbox_msg_'' @ sender_id @ ''_'')) st of
             Ok es \<Rightarrow> readable_messages L es
           | _ \<Rightarrow> []))"

definition all_messages :: "'s inbox_libs \<Rightarrow> 's \<Rightarrow> inbox \<Rightarrow> received_message list" where
  "all_messages L st b =
     (case in_backend b of
        InboxMemory m \<Rightarrow> concat (map snd (im_messages m))
      | InboxPersistent \<Rightarrow>
          (case vt_scan_prefix (ib_vtable L) MESSAGES_PREFIX st of Ok es \<Rightarrow> readable_messages L es | _ \<Rightarrow> []))"

definition Inbox_total_count :: "'s inbox_libs \<Rightarrow> 's \<Rightarrow> inbox \<Rightarrow> nat" where
  "Inbox_total_count L st b =
     (case in_backend b of
        InboxMemory m \<Rightarrow> im_total m
      | InboxPersistent \<Rightarrow> ok_or (vt_count_prefix (ib_vtable L) MESSAGES_PREFIX st) 0)"

definition sender_count :: "'s inbox_libs \<Rightarrow> 's \<Rightarrow> inbox \<Rightarrow> nat" where
  "sender_count L st b =
     (case in_backend b of
        InboxMemory m \<Rightarrow> length (im_messages m)
      | InboxPersistent \<Rightarrow>
          (case vt_scan_prefix (ib_vtable L) MESSAGES_PREFIX st of
             Ok es \<Rightarrow> card (rm_sender_id ` set (readable_messages L es))
           | _ \<Rightarrow> 0))"

definition get_inbox_count :: "'s inbox_libs \<Rightarrow> 's \<Rightarrow> inbox \<Rightarrow> u32" where
  "get_inbox_count L st b = of_nat (Inbox_total_count L st b)"

definition drain_received_messages :: "'s inbox_libs \<Rightarrow> 's \<Rightarrow> inbox \<Rightarrow> received_message list \<times> inbox \<times> 's" where
  "drain_received_messages L st b =
     (case in_backend b of
        InboxMemory m \<Rightarrow>
          (concat (map snd (im_messages m)), b\<lparr>in_backend := InboxMemory (m\<lparr>im_messages := [], im_total := 0\<rparr>)\<rparr>, st)
      | InboxPersistent \<Rightarrow>
          let results = ok_or (vt_scan_prefix (ib_vtable L) MESSAGES_PREFIX st) [] in
          (readable_messages L results, b,
           ignore_flush (ib_vtable L) (fold (ignore_remove (ib_vtable L)) (map fst results) st)))"

definition clear_messages :: "'s inbox_libs \<Rightarrow> 's \<Rightarrow> inbox \<Rightarrow> inbox \<times> 's" where
  "clear_messages L st b =
     (case in_backend b of
        InboxMemory m \<Rightarrow> (b\<lparr>in_backend := InboxMemory (m\<lparr>im_messages := [], im_total := 0\<rparr>)\<rparr>, st)
      | InboxPersistent \<Rightarrow>
          (case vt_scan_prefix (ib_vtable L) MESSAGES_PREFIX st of
             Ok results \<Rightarrow> (b, ignore_flush (ib_vtable L) (fold (ignore_remove (ib_vtable L)) (map fst results) st))
           | _ \<Rightarrow> (b, st)))"

section \<open>Duplicate statistics\<close>

record dedup_stats =
  dst_message_id :: string
  dst_first_received_at :: u64
  dst_duplicate_count :: u32
  dst_first_transport :: "string option"

definition DedupStats_new :: "string \<Rightarrow> u64 \<Rightarrow> dedup_stats" where
  "DedupStats_new message_id first_received_at =
     \<lparr>dst_message_id = message_id, dst_first_received_at = first_received_at, dst_duplicate_count = 0, dst_first_transport = None\<rparr>"

definition record_duplicate :: "dedup_stats \<Rightarrow> dedup_stats" where
  "record_duplicate e = e\<lparr>dst_duplicate_count := sat_add (dst_duplicate_count e) 1\<rparr>"

record dedup_tracker =
  ddt_entries :: "(string, dedup_stats) hmap"
  ddt_max_entries :: nat

definition DedupStatsTracker_with_max_entries :: "nat \<Rightarrow> dedup_tracker" where
  "DedupStatsTracker_with_max_entries n = \<lparr>ddt_entries = [], ddt_max_entries = n\<rparr>"

definition DedupStatsTracker_new :: dedup_tracker where
  "DedupStatsTracker_new = DedupStatsTracker_with_max_entries 10000"

text \<open>The order of strings is the lexicographic order of their bytes.\<close>

fun bytes_less :: "bytes \<Rightarrow> bytes \<Rightarrow> bool" where
  "bytes_less xs [] = False"
| "bytes_less [] (y # ys) = True"
| "bytes_less (x # xs) (y # ys) \<longleftrightarrow> x < y \<or> x = y \<and> bytes_less xs ys"

definition older :: "dedup_stats \<Rightarrow> dedup_stats \<Rightarrow> bool" where
  "older a b \<longleftrightarrow> dst_first_received_at a < dst_first_received_at b
     \<or> dst_first_received_at a = dst_first_received_at b \<and> bytes_less (as_bytes (dst_message_id a)) (as_bytes (dst_message_id b))"

text \<open>\<open>min_by_key\<close>: the first of the least entries.\<close>

fun oldest_entry :: "(string \<times> dedup_stats) \<Rightarrow> (string, dedup_stats) hmap \<Rightarrow> string \<times> dedup_stats" where
  "oldest_entry best [] = best"
| "oldest_entry best (e # es) = oldest_entry (if older (snd e) (snd best) then e else best) es"

definition record_received :: "string \<Rightarrow> string option \<Rightarrow> u64 \<Rightarrow> dedup_tracker \<Rightarrow> dedup_stats \<times> dedup_tracker" where
  "record_received message_id first_transport now_ms t =
     (case hm_get (ddt_entries t) message_id of
        Some e \<Rightarrow> (record_duplicate e, t\<lparr>ddt_entries := hm_insert message_id (record_duplicate e) (ddt_entries t)\<rparr>)
      | None \<Rightarrow>
          let stats = (DedupStats_new message_id now_ms)\<lparr>dst_first_transport := first_transport\<rparr>;
              kept = (if length (ddt_entries t) \<ge> ddt_max_entries t
                      then (case ddt_entries t of [] \<Rightarrow> [] | e # es \<Rightarrow> hm_remove (fst (oldest_entry e es)) (ddt_entries t))
                      else ddt_entries t) in
          (stats, t\<lparr>ddt_entries := hm_insert message_id stats kept\<rparr>))"

definition get_dedup_stats :: "string \<Rightarrow> dedup_tracker \<Rightarrow> dedup_stats option" where
  "get_dedup_stats message_id t = hm_get (ddt_entries t) message_id"

definition DedupStatsTracker_len :: "dedup_tracker \<Rightarrow> nat" where
  "DedupStatsTracker_len t = length (ddt_entries t)"

definition DedupStatsTracker_clear :: "dedup_tracker \<Rightarrow> dedup_tracker" where
  "DedupStatsTracker_clear t = t\<lparr>ddt_entries := []\<rparr>"

record dedup_aggregate_stats =
  das_total_entries :: nat
  das_total_duplicates :: u32
  das_entries_with_transport :: nat

definition DedupStatsTracker_aggregate :: "dedup_tracker \<Rightarrow> dedup_aggregate_stats" where
  "DedupStatsTracker_aggregate t =
     \<lparr>das_total_entries = length (ddt_entries t),
      das_total_duplicates = sum_list (map (\<lambda>(k, e). dst_duplicate_count e) (ddt_entries t)),
      das_entries_with_transport = length (filter (\<lambda>(k, e). dst_first_transport e \<noteq> None) (ddt_entries t))\<rparr>"

section \<open>The eviction loop\<close>

text \<open>It ends exactly if the ids that the order does not know fit into the window.\<close>

lemma evict_old_small: "card seen \<le> MAX_SEEN_IDS \<Longrightarrow> evict_old seen order = Some (seen, order)"
  by (subst evict_old.simps) simp

lemma evict_old_big: "card seen > MAX_SEEN_IDS \<Longrightarrow> evict_old seen (x # xs) = evict_old (seen - {x}) xs"
  by (subst evict_old.simps) simp

lemma evict_old_stuck: "card seen > MAX_SEEN_IDS \<Longrightarrow> evict_old seen [] = None"
proof (rule ccontr)
  assume big: "card seen > MAX_SEEN_IDS" and "evict_old seen [] \<noteq> None"
  then obtain r where r: "evict_old seen [] = Some r" by blast
  have "\<not> (order = [] \<and> card seen > MAX_SEEN_IDS)" if "evict_old seen order = Some r" for seen order
    by (rule evict_old.raw_induct [OF _ that, of "\<lambda>seen order r. \<not> (order = [] \<and> card seen > MAX_SEEN_IDS)"]) (auto split: if_splits)
  from this [OF r] big show False by simp
qed

lemma evict_old_returns:
  assumes "finite seen"
  shows "evict_old seen order = None \<longleftrightarrow> card (seen - set order) > MAX_SEEN_IDS"
  using assms
proof (induction order arbitrary: seen)
  case Nil
  then show ?case using evict_old_stuck [of seen] by (cases "card seen > MAX_SEEN_IDS") (simp_all add: evict_old_small)
next
  case (Cons x xs)
  show ?case
  proof (cases "card seen > MAX_SEEN_IDS")
    case True
    have "seen - {x} - set xs = seen - set (x # xs)" by auto
    with Cons.IH [of "seen - {x}"] Cons.prems True show ?thesis by (simp add: evict_old_big)
  next
    case False
    moreover have "card (seen - set (x # xs)) \<le> card seen" using Cons.prems by (rule card_mono) auto
    ultimately show ?thesis by (simp add: evict_old_small)
  qed
qed

definition window :: "nat \<Rightarrow> 'a list \<Rightarrow> 'a list" where
  "window n xs = drop (length xs - n) xs"

lemma evict_old_window:
  "distinct order \<Longrightarrow> evict_old (set order) order = Some (set (window MAX_SEEN_IDS order), window MAX_SEEN_IDS order)"
proof (induction order)
  case (Cons x xs)
  then have x: "set (x # xs) - {x} = set xs" "card (set (x # xs)) = length (x # xs)" by (auto simp: distinct_card)
  show ?case
  proof (cases "length xs < MAX_SEEN_IDS")
    case True
    with x(2) show ?thesis using evict_old_small [of "set (x # xs)" "x # xs"] by (simp add: window_def)
  next
    case False
    with x Cons show ?thesis using evict_old_big [of "set (x # xs)" x xs] by (simp add: window_def Suc_diff_le not_less)
  qed
qed (simp add: evict_old_small window_def)

section \<open>Bounded statistics\<close>

lemma oldest_entry_in: "oldest_entry e es \<in> set (e # es)"
  by (induction es arbitrary: e) (auto split: if_splits)

text \<open>
  The tracker holds at most \<open>max_entries\<close> entries (one, if that is zero), the recorded message among them; a known
  message counts one duplicate more, up to the largest 32-bit number.
\<close>

lemma dedup_tracker_bounded:
  assumes "hm_wf (ddt_entries t)" and "length (ddt_entries t) \<le> max 1 (ddt_max_entries t)"
    and "record_received i tr now t = (e, t')"
  shows "hm_wf (ddt_entries t')" and "length (ddt_entries t') \<le> max 1 (ddt_max_entries t')" and "get_dedup_stats i t' = Some e"
    and "unat (dst_duplicate_count e) = (case get_dedup_stats i t of None \<Rightarrow> 0 | Some d \<Rightarrow> min (2 ^ 32 - 1) (unat (dst_duplicate_count d) + 1))"
proof -
  let ?m = "ddt_entries t"
  have "hm_wf (ddt_entries t') \<and> length (ddt_entries t') \<le> max 1 (ddt_max_entries t') \<and> get_dedup_stats i t' = Some e
    \<and> unat (dst_duplicate_count e) = (case get_dedup_stats i t of None \<Rightarrow> 0 | Some d \<Rightarrow> min (2 ^ 32 - 1) (unat (dst_duplicate_count d) + 1))"
  proof (cases "hm_get ?m i")
    case (Some d)
    then have "i \<in> fst ` set ?m" by (metis hm_contains_def hm_contains_iff option.distinct(1))
    then have "length (hm_insert i v ?m) = length ?m" for v by (simp add: length_hm_insert)
    with Some assms show ?thesis
      by (auto simp: record_received_def get_dedup_stats_def record_duplicate_def unat_sat_add)
  next
    case None
    then have i: "i \<notin> fst ` set ?m" by (metis map_of_eq_None_iff)
    let ?k = "if length ?m \<ge> ddt_max_entries t then (case ?m of [] \<Rightarrow> [] | e # es \<Rightarrow> hm_remove (fst (oldest_entry e es)) ?m) else ?m"
    have "hm_wf ?k \<and> length ?k < max 1 (ddt_max_entries t) \<and> i \<notin> fst ` set ?k"
    proof (cases ?m)
      case (Cons x xs)
      have "fst (oldest_entry x xs) \<in> fst ` set ?m" using oldest_entry_in [of x xs] unfolding Cons by blast
      then have "length (hm_remove (fst (oldest_entry x xs)) ?m) = length ?m - 1" using length_hm_remove [OF assms(1)] by simp
      moreover have "i \<notin> fst ` set (hm_remove (fst (oldest_entry x xs)) ?m)" using i by (auto simp: hm_remove_filter)
      moreover have "0 < length ?m" by (simp add: Cons)
      moreover have k: "?k = (if length ?m \<ge> ddt_max_entries t then hm_remove (fst (oldest_entry x xs)) ?m else ?m)"
        by (simp only: Cons list.case)
      ultimately show ?thesis unfolding k using assms(1,2) i by (cases "length ?m \<ge> ddt_max_entries t") (simp_all add: max_def split: if_splits)
    qed simp
    then have "hm_wf ?k" "length (hm_insert i v ?k) \<le> max 1 (ddt_max_entries t)" for v by (simp_all add: length_hm_insert del: max_less_iff_conj)
    moreover have "e = (DedupStats_new i now)\<lparr>dst_first_transport := tr\<rparr>" "t' = t\<lparr>ddt_entries := hm_insert i e ?k\<rparr>"
      using None assms(3) by (auto simp: record_received_def Let_def)
    ultimately show ?thesis using None by (simp add: get_dedup_stats_def DedupStats_new_def)
  qed
  then show "hm_wf (ddt_entries t')" and "length (ddt_entries t') \<le> max 1 (ddt_max_entries t')" and "get_dedup_stats i t' = Some e"
    and "unat (dst_duplicate_count e) = (case get_dedup_stats i t of None \<Rightarrow> 0 | Some d \<Rightarrow> min (2 ^ 32 - 1) (unat (dst_duplicate_count d) + 1))" by auto
qed

end
