(* ===== verification/Inbox_Properties.thy ===== *)
theory Inbox_Properties
  imports Inbox "HOL-Library.List_Lexorder"
begin

text \<open>
  What the inbox promises: receiving returns, a memory inbox is a window over the last 50,000 accepted ids,
  and a persistent inbox accepts the same messages until it has to forget ids.
\<close>

section \<open>Sequences of messages\<close>

fun Inbox_run ::
  "'s inbox_libs \<Rightarrow> (u64 \<times> received_message) list \<Rightarrow> inbox \<Rightarrow> log_manager \<times> 's \<Rightarrow> (bool list \<times> inbox \<times> log_manager \<times> 's) option" where
  "Inbox_run L [] b ms = Some ([], b, ms)"
| "Inbox_run L ((now, msg) # msgs) b ms =
     Option.bind (Inbox_receive L now msg b ms) (\<lambda>(r, b', ms').
     Option.bind (Inbox_run L msgs b' ms') (\<lambda>(rs, b'', ms''). Some (r # rs, b'', ms'')))"

lemma Inbox_run_snoc:
  "Inbox_run L (msgs @ [(now, msg)]) b ms =
     Option.bind (Inbox_run L msgs b ms) (\<lambda>(rs, b', ms').
     Option.bind (Inbox_receive L now msg b' ms') (\<lambda>(r, b'', ms''). Some (rs @ [r], b'', ms'')))"
proof (induction msgs arbitrary: b ms)
  case Nil
  then show ?case by (cases "Inbox_receive L now msg b ms") auto
next
  case (Cons m msgs)
  obtain t x where m: "m = (t, x)" by (cases m)
  show ?case
    by (cases "Inbox_receive L t x b ms") (auto simp: m Cons split: option.splits bind_splits)
qed

text \<open>The hashes of the messages that were accepted.\<close>

definition accepted :: "bool list \<Rightarrow> 'a list \<Rightarrow> 'a list" where
  "accepted bs hs = map snd (filter fst (zip bs hs))"

abbreviation hashes :: "'s inbox_libs \<Rightarrow> (u64 \<times> received_message) list \<Rightarrow> bytes list" where
  "hashes L msgs \<equiv> map (\<lambda>(now, msg). id_hash L (rm_message_id msg)) msgs"

lemma accepted_snoc: "length bs = length hs \<Longrightarrow> accepted (bs @ [b]) (hs @ [h]) = accepted bs hs @ (if b then [h] else [])"
  by (simp add: accepted_def)

lemma window_snoc: "window n (window n xs @ [x]) = window n (xs @ [x])"
  by (cases "length xs \<le> n") (simp_all add: window_def Suc_diff_le not_le)

lemma length_window: "length (window n xs) = min n (length xs)"
  by (simp add: window_def min_def)

lemma distinct_window: "distinct xs \<Longrightarrow> distinct (window n xs)"
  by (simp add: window_def)

lemma set_window_subset: "set (window n xs) \<subseteq> set xs"
  by (auto simp: window_def dest: in_set_dropD)

section \<open>The memory inbox\<close>

definition memory_inbox :: "bytes list \<Rightarrow> nat \<Rightarrow> inbox \<Rightarrow> bool" where
  "memory_inbox w n b \<longleftrightarrow> distinct w \<and> length w \<le> MAX_SEEN_IDS \<and> in_storage_manager b = None
     \<and> (\<exists>ms. in_backend b = InboxMemory \<lparr>im_seen_ids = set w, im_seen_order = w, im_messages = ms, im_total = n\<rparr>)"

lemma memory_inbox_receive:
  assumes "memory_inbox w n b"
  shows "\<exists>b'. Inbox_receive L now msg b ms = Some (id_hash L (rm_message_id msg) \<notin> set w, b', ms)
    \<and> memory_inbox (if id_hash L (rm_message_id msg) \<in> set w then w else window MAX_SEEN_IDS (w @ [id_hash L (rm_message_id msg)]))
        (if id_hash L (rm_message_id msg) \<in> set w then n else n + 1) b'"
proof -
  let ?h = "id_hash L (rm_message_id msg)"
  from assms obtain xs where b: "in_backend b = InboxMemory \<lparr>im_seen_ids = set w, im_seen_order = w, im_messages = xs, im_total = n\<rparr>"
    "in_storage_manager b = None" and w: "distinct w" by (auto simp: memory_inbox_def)
  show ?thesis
  proof (cases "?h \<in> set w")
    case True
    then show ?thesis using assms by (simp add: Inbox_receive_def b receive_memory_def Let_def)
  next
    case False
    then have "evict_old (insert ?h (set w)) (w @ [?h]) = Some (set (window MAX_SEEN_IDS (w @ [?h])), window MAX_SEEN_IDS (w @ [?h]))"
      using evict_old_window [of "w @ [?h]"] w by simp
    with False w show ?thesis
      by (simp add: Inbox_receive_def b receive_memory_def Let_def Inbox_trigger_maintenance_def memory_inbox_def distinct_window length_window)
  qed
qed

lemma memory_inbox_new: "memory_inbox [] 0 Inbox_new"
  by (simp add: memory_inbox_def Inbox_new_def)

lemma memory_inbox_is_duplicate: "memory_inbox w n b \<Longrightarrow> is_duplicate L i st b \<longleftrightarrow> id_hash L i \<in> set w"
  by (auto simp: memory_inbox_def is_duplicate_def Let_def)

lemma memory_inbox_run:
  "\<exists>bs b. Inbox_run L msgs Inbox_new ms = Some (bs, b, ms) \<and> length bs = length msgs
     \<and> memory_inbox (window MAX_SEEN_IDS (accepted bs (hashes L msgs))) (length (accepted bs (hashes L msgs))) b
     \<and> (\<forall>k < length msgs. bs ! k \<longleftrightarrow> hashes L msgs ! k \<notin> set (window MAX_SEEN_IDS (accepted (take k bs) (take k (hashes L msgs)))))"
proof (induction msgs rule: rev_induct)
  case Nil
  then show ?case using memory_inbox_new by (simp add: accepted_def window_def)
next
  case (snoc m msgs)
  obtain now msg where m: "m = (now, msg)" by (cases m)
  let ?hs = "hashes L msgs" and ?h = "id_hash L (rm_message_id msg)"
  from snoc obtain bs b where IH: "Inbox_run L msgs Inbox_new ms = Some (bs, b, ms)" "length bs = length msgs"
    "memory_inbox (window MAX_SEEN_IDS (accepted bs ?hs)) (length (accepted bs ?hs)) b"
    "\<forall>k < length msgs. bs ! k \<longleftrightarrow> ?hs ! k \<notin> set (window MAX_SEEN_IDS (accepted (take k bs) (take k ?hs)))" by blast
  let ?w = "window MAX_SEEN_IDS (accepted bs ?hs)" and ?r = "?h \<notin> set (window MAX_SEEN_IDS (accepted bs ?hs))"
  from memory_inbox_receive [OF IH(3), of L now msg ms] obtain b' where b': "Inbox_receive L now msg b ms = Some (?r, b', ms)"
    "memory_inbox (if ?h \<in> set ?w then ?w else window MAX_SEEN_IDS (?w @ [?h])) (if ?h \<in> set ?w then length (accepted bs ?hs) else length (accepted bs ?hs) + 1) b'"
    by blast
  have acc: "accepted (bs @ [?r]) (hashes L (msgs @ [m])) = accepted bs ?hs @ (if ?r then [?h] else [])"
    using IH(2) by (simp add: m accepted_snoc)
  have "Inbox_run L (msgs @ [m]) Inbox_new ms = Some (bs @ [?r], b', ms)" unfolding m Inbox_run_snoc IH(1) by (simp add: b'(1))
  moreover have "memory_inbox (window MAX_SEEN_IDS (accepted (bs @ [?r]) (hashes L (msgs @ [m]))))
      (length (accepted (bs @ [?r]) (hashes L (msgs @ [m])))) b'"
    using b'(2) unfolding acc by (cases ?r) (simp_all add: window_snoc)
  moreover have "(bs @ [?r]) ! k \<longleftrightarrow> hashes L (msgs @ [m]) ! k \<notin> set (window MAX_SEEN_IDS (accepted (take k (bs @ [?r])) (take k (hashes L (msgs @ [m])))))"
    if "k < length (msgs @ [m])" for k
    using that IH(2,4) by (cases "k = length msgs") (simp_all add: nth_append m)
  ultimately show ?case using IH(2) by (intro exI [of _ "bs @ [?r]"] exI [of _ b']) simp
qed

text \<open>
  C20. The in-memory inbox refines a window: a sequence of messages is accepted and refused exactly as by a
  list that remembers the last 50,000 accepted ids (by their hashes), \<open>is_duplicate\<close> answers from that list,
  and the total counts the accepted messages.
\<close>

theorem inbox_window:
  "\<exists>bs b. Inbox_run L msgs Inbox_new ms = Some (bs, b, ms) \<and> length bs = length msgs
     \<and> (\<forall>k < length msgs. bs ! k = (hashes L msgs ! k \<notin> set (window 50000 (accepted (take k bs) (take k (hashes L msgs))))))
     \<and> (\<forall>i st. is_duplicate L i st b = (id_hash L i \<in> set (window 50000 (accepted bs (hashes L msgs)))))
     \<and> (\<forall>st. Inbox_total_count L st b = length (accepted bs (hashes L msgs)))"
proof -
  from memory_inbox_run [of L msgs ms] obtain bs b where r: "Inbox_run L msgs Inbox_new ms = Some (bs, b, ms)" "length bs = length msgs"
    "memory_inbox (window MAX_SEEN_IDS (accepted bs (hashes L msgs))) (length (accepted bs (hashes L msgs))) b"
    "\<forall>k < length msgs. bs ! k \<longleftrightarrow> hashes L msgs ! k \<notin> set (window MAX_SEEN_IDS (accepted (take k bs) (take k (hashes L msgs))))" by blast
  have "Inbox_total_count L st b = length (accepted bs (hashes L msgs))" for st
    using r(3) by (auto simp: memory_inbox_def Inbox_total_count_def)
  moreover have "is_duplicate L i st b = (id_hash L i \<in> set (window MAX_SEEN_IDS (accepted bs (hashes L msgs))))" for i st
    by (rule memory_inbox_is_duplicate [OF r(3)])
  ultimately show ?thesis using r(1,2,4) by (intro exI [of _ bs] exI [of _ b]) (simp add: MAX_SEEN_IDS_def)
qed

section \<open>Termination\<close>

inductive inbox_reach :: "'s inbox_libs \<Rightarrow> inbox \<Rightarrow> bool" for L where
  new: "inbox_reach L Inbox_new"
| receive: "inbox_reach L b \<Longrightarrow> Inbox_receive L now msg b ms = Some (r, b', ms') \<Longrightarrow> inbox_reach L b'"
| drain: "inbox_reach L b \<Longrightarrow> drain_received_messages L st b = (xs, b', st') \<Longrightarrow> inbox_reach L b'"
| clear: "inbox_reach L b \<Longrightarrow> clear_messages L st b = (b', st') \<Longrightarrow> inbox_reach L b'"

lemma inbox_reach_memory: "inbox_reach L b \<Longrightarrow> \<exists>w n. memory_inbox w n b"
proof (induction rule: inbox_reach.induct)
  case new
  then show ?case using memory_inbox_new by blast
next
  case (receive b now msg ms r b' ms')
  then obtain w n where "memory_inbox w n b" by blast
  from memory_inbox_receive [OF this, of L now msg ms] receive.hyps(2) show ?case by auto
next
  case (drain b st xs b' st')
  then obtain w n where "memory_inbox w n b" by blast
  with drain.hyps(2) show ?case by (auto simp: memory_inbox_def drain_received_messages_def)
next
  case (clear b st b' st')
  then obtain w n where "memory_inbox w n b" by blast
  with clear.hyps(2) show ?case by (auto simp: memory_inbox_def clear_messages_def)
qed

text \<open>
  C21. Receiving returns: the eviction loop ends exactly if the remembered ids that are missing from the order
  list fit into the window, and in every inbox that the operations can produce no id is missing, so \<open>receive\<close>
  always comes back; the window then holds at most 50,000 ids.
\<close>

theorem inbox_receive_returns:
  "(\<forall>seen order. finite seen \<longrightarrow> (evict_old seen order = None \<longleftrightarrow> 50000 < card (seen - set order)))
   \<and> (\<forall>b now msg ms. inbox_reach L b \<longrightarrow> (\<exists>r b' m. Inbox_receive L now msg b ms = Some (r, b', ms) \<and> in_backend b' = InboxMemory m
        \<and> card (im_seen_ids m) \<le> 50000))"
proof (intro conjI allI impI)
  show "evict_old seen order = None \<longleftrightarrow> 50000 < card (seen - set order)" if "finite seen" for seen order
    using evict_old_returns [OF that, of order] by (simp add: MAX_SEEN_IDS_def)
  fix b now msg ms
  assume "inbox_reach L b"
  then obtain w n where "memory_inbox w n b" using inbox_reach_memory by blast
  from memory_inbox_receive [OF this, of L now msg ms] obtain r b' w' n' where
    r: "Inbox_receive L now msg b ms = Some (r, b', ms)" "memory_inbox w' n' b'" by blast
  from r(2) obtain m where m: "in_backend b' = InboxMemory m" "im_seen_ids m = set w'" "length w' \<le> MAX_SEEN_IDS"
    by (auto simp: memory_inbox_def)
  have "card (im_seen_ids m) \<le> 50000" using m(2,3) card_length [of w'] by (simp add: MAX_SEEN_IDS_def)
  with r(1) m(1) show "\<exists>r b' m. Inbox_receive L now msg b ms = Some (r, b', ms) \<and> in_backend b' = InboxMemory m \<and> card (im_seen_ids m) \<le> 50000"
    by blast
qed

section \<open>The persistent inbox\<close>

text \<open>What the code relies on: \<open>bincode\<close> reads back what it wrote, and iterating over a set lists it.\<close>

definition inbox_codecs :: "'s inbox_libs \<Rightarrow> bool" where
  "inbox_codecs L \<longleftrightarrow> (\<forall>S. finite S \<longrightarrow> (\<exists>b. to_vec (ib_seen L) S = Some b \<and> from_slice (ib_seen L) b = Some S))
     \<and> (\<forall>m. rm_version m = 1 \<longrightarrow> (\<exists>b. to_vec (ib_message L) m = Some (1 # b) \<and> from_slice (ib_message L) (1 # b) = Some m))
     \<and> (\<forall>m. to_vec (ib_message L) m \<noteq> None)
     \<and> (\<forall>S. finite S \<longrightarrow> set (ib_iter L S) = S \<and> distinct (ib_iter L S))"

definition seen_ids :: "'s inbox_libs \<Rightarrow> 's \<Rightarrow> bytes set" where
  "seen_ids L st = (case load_seen L st of Some s \<Rightarrow> s | None \<Rightarrow> {})"

definition after_eviction :: "'s inbox_libs \<Rightarrow> bytes set \<Rightarrow> bytes set" where
  "after_eviction L S = (if card S > MAX_SEEN_IDS then S - set (take 1000 (ib_iter L S)) else S)"

lemma message_key_other: "message_key s i \<noteq> SEEN_IDS_KEY" "starts_with (message_key s i) MESSAGES_PREFIX"
proof -
  have "\<not> starts_with SEEN_IDS_KEY MESSAGES_PREFIX" by code_simp
  moreover show "starts_with (message_key s i) MESSAGES_PREFIX"
    unfolding message_key_def MESSAGES_PREFIX_def as_bytes_append by simp
  ultimately show "message_key s i \<noteq> SEEN_IDS_KEY" by metis
qed

context backend_contract begin

lemma receive_persistent_ok:
  assumes "good s" and "ib_vtable L = vt" and "inbox_codecs L" and "finite (seen_ids L s)"
  shows "\<exists>s'. receive_persistent L h msg s = (h \<notin> seen_ids L s, s') \<and> good s'
    \<and> seen_ids L s' = (if h \<in> seen_ids L s then seen_ids L s else after_eviction L (insert h (seen_ids L s)))
    \<and> (h \<notin> seen_ids L s \<longrightarrow> (\<exists>v. to_vec (ib_message L) msg = Some v \<and> content s' (message_key (rm_sender_id msg) (rm_message_id msg)) = Some v))"
proof (cases "h \<in> seen_ids L s")
  case True
  then show ?thesis using assms(1) by (intro exI [of _ s]) (simp add: receive_persistent_def Let_def seen_ids_def)
next
  case False
  let ?S = "after_eviction L (insert h (seen_ids L s))" and ?k = "message_key (rm_sender_id msg) (rm_message_id msg)"
  have "finite ?S" using assms(4) by (simp add: after_eviction_def)
  with assms(3) obtain bs where bs: "to_vec (ib_seen L) ?S = Some bs" "from_slice (ib_seen L) bs = Some ?S"
    unfolding inbox_codecs_def by blast
  from assms(3) obtain v where v: "to_vec (ib_message L) msg = Some v" unfolding inbox_codecs_def by blast
  let ?s1 = "ignore_put vt SEEN_IDS_KEY bs s"
  let ?s2 = "ignore_put vt ?k v ?s1"
  let ?s3 = "ignore_flush vt ?s2"
  note 1 = ignore_laws(1,2) [OF assms(1), of SEEN_IDS_KEY bs]
  note 2 = ignore_laws(1,2) [OF 1(1), of ?k v]
  note 3 = ignore_laws(5,6) [OF 2(1)]
  have "receive_persistent L h msg s = (True, ?s3)"
    using False bs(1) v by (simp add: receive_persistent_def Let_def seen_ids_def assms(2) after_eviction_def)
  moreover have c: "content ?s3 = (content s)(SEEN_IDS_KEY \<mapsto> bs, ?k \<mapsto> v)" by (simp add: 3(2) 2(2) 1(2))
  moreover have "SEEN_IDS_KEY \<noteq> ?k" using message_key_other(1) by metis
  then have "vt_get vt SEEN_IDS_KEY ?s3 = Ok (Some bs)" by (simp add: get_law [OF 3(1)] c)
  then have "seen_ids L ?s3 = ?S" by (simp add: seen_ids_def [of L ?s3] load_seen_def assms(2) bs(2))
  ultimately show ?thesis using False 3(1) v by (intro exI [of _ ?s3]) simp
qed

lemma persistent_inbox_run:
  assumes "good s" and "ib_vtable L = vt" and "inbox_codecs L" and "seen_ids L s = {}"
  shows "card (set (hashes L msgs)) \<le> MAX_SEEN_IDS \<Longrightarrow> \<exists>bs s'. Inbox_run L msgs Inbox_persistent (lm, s) = Some (bs, Inbox_persistent, lm, s')
    \<and> good s' \<and> seen_ids L s' = set (hashes L msgs) \<and> length bs = length msgs
    \<and> (\<forall>k < length msgs. bs ! k \<longleftrightarrow> hashes L msgs ! k \<notin> set (take k (hashes L msgs)))"
proof (induction msgs rule: rev_induct)
  case Nil
  then show ?case using assms by simp
next
  case (snoc m msgs)
  obtain now msg where m: "m = (now, msg)" by (cases m)
  let ?hs = "hashes L msgs" and ?h = "id_hash L (rm_message_id msg)"
  have "card (set ?hs) \<le> card (set (hashes L (msgs @ [m])))" by (rule card_mono) auto
  with snoc obtain bs s1 where IH: "Inbox_run L msgs Inbox_persistent (lm, s) = Some (bs, Inbox_persistent, lm, s1)" "good s1"
    "seen_ids L s1 = set ?hs" "length bs = length msgs" "\<forall>k < length msgs. bs ! k \<longleftrightarrow> ?hs ! k \<notin> set (take k ?hs)" by auto
  have "finite (seen_ids L s1)" by (simp add: IH(3))
  from receive_persistent_ok [OF IH(2) assms(2,3) this, of ?h msg] obtain s2 where s2: "receive_persistent L ?h msg s1 = (?h \<notin> set ?hs, s2)" "good s2"
    "seen_ids L s2 = (if ?h \<in> set ?hs then set ?hs else after_eviction L (insert ?h (set ?hs)))" unfolding IH(3) by blast
  have "after_eviction L (insert ?h (set ?hs)) = insert ?h (set ?hs)" using snoc.prems by (simp add: after_eviction_def m)
  with s2(3) have seen: "seen_ids L s2 = set (hashes L (msgs @ [m]))" by (auto simp: m)
  have "Inbox_receive L now msg Inbox_persistent (lm, s1) = Some (?h \<notin> set ?hs, Inbox_persistent, lm, s2)"
    by (auto simp: Inbox_receive_def Inbox_persistent_def s2(1) Inbox_trigger_maintenance_def Let_def)
  then have "Inbox_run L (msgs @ [m]) Inbox_persistent (lm, s) = Some (bs @ [?h \<notin> set ?hs], Inbox_persistent, lm, s2)"
    unfolding m Inbox_run_snoc IH(1) by simp
  moreover have "(bs @ [?h \<notin> set ?hs]) ! k \<longleftrightarrow> hashes L (msgs @ [m]) ! k \<notin> set (take k (hashes L (msgs @ [m])))" if "k < length (msgs @ [m])" for k
    using that IH(4,5) by (cases "k = length msgs") (simp_all add: nth_append m)
  ultimately show ?case using s2(2) seen IH(4) by (intro exI [of _ "bs @ [?h \<notin> set ?hs]"] exI [of _ s2]) simp
qed

end

text \<open>Within the window nothing is forgotten, so the memory inbox accepts first occurrences.\<close>

lemma window_all: "length xs \<le> n \<Longrightarrow> window n xs = xs"
  by (simp add: window_def)

lemma accepted_length: "length (accepted bs hs) \<le> length hs"
  unfolding accepted_def using length_filter_le [of fst "zip bs hs"] by simp

lemma accepted_first:
  assumes "length bs = length hs" and "\<forall>k < length hs. bs ! k \<longleftrightarrow> hs ! k \<notin> set (window n (accepted (take k bs) (take k hs)))"
    and "card (set hs) \<le> n"
  shows "distinct (accepted bs hs) \<and> set (accepted bs hs) = set hs"
  using assms
proof (induction hs arbitrary: bs rule: rev_induct)
  case Nil
  then show ?case by (simp add: accepted_def)
next
  case (snoc h hs)
  then obtain bs' b where bs: "bs = bs' @ [b]" "length bs' = length hs" by (cases bs rule: rev_cases) auto
  have "card (set hs) \<le> card (set (hs @ [h]))" by (rule card_mono) auto
  moreover have "bs' ! k \<longleftrightarrow> hs ! k \<notin> set (window n (accepted (take k bs') (take k hs)))" if "k < length hs" for k
    using snoc.prems(2) that bs by (auto simp: nth_append dest!: spec [of _ k])
  ultimately have IH: "distinct (accepted bs' hs)" "set (accepted bs' hs) = set hs" using snoc.IH [of bs'] snoc.prems(3) bs(2) by auto
  have "length (accepted bs' hs) = card (set hs)" using IH by (metis distinct_card)
  then have "window n (accepted bs' hs) = accepted bs' hs"
    using snoc.prems(3) \<open>card (set hs) \<le> card (set (hs @ [h]))\<close> by (intro window_all) linarith
  then have "b \<longleftrightarrow> h \<notin> set hs" using snoc.prems(2) [rule_format, of "length hs"] bs IH(2) by (simp add: nth_append)
  then show ?case using IH bs by (auto simp: accepted_snoc)
qed

lemma seen_ids_new: "load_seen L st = None \<Longrightarrow> seen_ids L st = {}"
  by (simp add: seen_ids_def)

lemma is_duplicate_persistent: "is_duplicate L i st Inbox_persistent \<longleftrightarrow> id_hash L i \<in> seen_ids L st"
  by (simp add: is_duplicate_def Inbox_persistent_def Let_def seen_ids_def split: option.split)

text \<open>
  As long as no more than 50,000 different ids arrive, the two backends of the inbox cannot be told apart:
  both accept exactly the first message with each id and report the same duplicates.
\<close>

theorem inbox_backends_agree:
  assumes "memory_good st" and "ib_vtable L = memory_vtable" and "inbox_codecs L" and "load_seen L st = None"
    and "card (set (hashes L msgs)) \<le> 50000"
  shows "\<exists>bs b st'. Inbox_run L msgs Inbox_new ms = Some (bs, b, ms) \<and> Inbox_run L msgs Inbox_persistent (lm, st) = Some (bs, Inbox_persistent, lm, st')
    \<and> (\<forall>k < length msgs. bs ! k = (hashes L msgs ! k \<notin> set (take k (hashes L msgs))))
    \<and> (\<forall>i st0. is_duplicate L i st0 b = is_duplicate L i st' Inbox_persistent)"
proof -
  let ?hs = "hashes L msgs"
  have small: "card (set ?hs) \<le> MAX_SEEN_IDS" using assms(5) by (simp add: MAX_SEEN_IDS_def)
  from memory_inbox_run [of L msgs ms] obtain bs b where m: "Inbox_run L msgs Inbox_new ms = Some (bs, b, ms)" "length bs = length msgs"
    "memory_inbox (window MAX_SEEN_IDS (accepted bs ?hs)) (length (accepted bs ?hs)) b"
    "\<forall>k < length msgs. bs ! k \<longleftrightarrow> ?hs ! k \<notin> set (window MAX_SEEN_IDS (accepted (take k bs) (take k ?hs)))" by blast
  from memory.persistent_inbox_run [OF assms(1,2,3) seen_ids_new [OF assms(4)] small, of lm] obtain cs st' where
    p: "Inbox_run L msgs Inbox_persistent (lm, st) = Some (cs, Inbox_persistent, lm, st')" "seen_ids L st' = set ?hs" "length cs = length msgs"
    "\<forall>k < length msgs. cs ! k \<longleftrightarrow> ?hs ! k \<notin> set (take k ?hs)" by blast
  have first: "set (window MAX_SEEN_IDS (accepted (take k bs) (take k ?hs))) = set (take k ?hs)" if "k \<le> length msgs" for k
  proof -
    have "card (set (take k ?hs)) \<le> card (set ?hs)" by (rule card_mono) (auto dest: in_set_takeD)
    then have c: "card (set (take k ?hs)) \<le> MAX_SEEN_IDS" using small by linarith
    have a: "distinct (accepted (take k bs) (take k ?hs)) \<and> set (accepted (take k bs) (take k ?hs)) = set (take k ?hs)"
      using m(2,4) that c by (intro accepted_first [where n = MAX_SEEN_IDS]) (auto simp: min_def)
    then have "length (accepted (take k bs) (take k ?hs)) \<le> MAX_SEEN_IDS" using c by (metis distinct_card)
    with a show ?thesis by (simp add: window_all)
  qed
  have "bs ! k = cs ! k" if "k < length msgs" for k using that m(4) p(4) first [of k] by simp
  then have "bs = cs" using m(2) p(3) by (intro nth_equalityI) simp_all
  moreover have "is_duplicate L i st0 b = is_duplicate L i st' Inbox_persistent" for i st0
    using memory_inbox_is_duplicate [OF m(3), of L i st0] first [of "length msgs"] m(2) p(2) by (simp add: is_duplicate_persistent)
  ultimately show ?thesis using m(1) p(1,4) by blast
qed

text \<open>
  Beyond 50,000 ids the persistent inbox forgets the first thousand in the iteration order of the set, which
  may include the id it has just added: that message is then accepted again when it arrives again.
\<close>

theorem inbox_forgets_new_id:
  assumes "memory_good st" and "ib_vtable L = memory_vtable" and "inbox_codecs L" and "load_seen L st = Some S" and "finite S"
    and "id_hash L (rm_message_id msg) \<notin> S" and "card S \<ge> 50000"
  shows "\<exists>st'. Inbox_receive L now msg Inbox_persistent (lm, st) = Some (True, Inbox_persistent, lm, st')
    \<and> seen_ids L st' = insert (id_hash L (rm_message_id msg)) S - set (take 1000 (ib_iter L (insert (id_hash L (rm_message_id msg)) S)))
    \<and> card (seen_ids L st') = card S - 999
    \<and> (id_hash L (rm_message_id msg) \<in> set (take 1000 (ib_iter L (insert (id_hash L (rm_message_id msg)) S))) \<longrightarrow>
        (\<exists>st''. Inbox_receive L now' msg Inbox_persistent (lm, st') = Some (True, Inbox_persistent, lm, st'')))"
proof -
  let ?h = "id_hash L (rm_message_id msg)"
  let ?T = "insert ?h S"
  have S: "seen_ids L st = S" using assms(4) by (simp add: seen_ids_def)
  have again: "\<exists>st''. Inbox_receive L now msg Inbox_persistent (lm, st1) = Some (?h \<notin> seen_ids L st1, Inbox_persistent, lm, st'') \<and> memory_good st''
      \<and> (?h \<notin> seen_ids L st1 \<longrightarrow> seen_ids L st'' = after_eviction L (insert ?h (seen_ids L st1)))"
    if "memory_good st1" "finite (seen_ids L st1)" for st1 now
    using memory.receive_persistent_ok [OF that(1) assms(2,3) that(2), of ?h msg]
    by (auto simp: Inbox_receive_def Inbox_persistent_def Inbox_trigger_maintenance_def Let_def)
  have "finite (seen_ids L st)" by (simp add: S assms(5))
  from again [OF assms(1) this, of now] obtain st' where st': "Inbox_receive L now msg Inbox_persistent (lm, st) = Some (True, Inbox_persistent, lm, st')"
    "memory_good st'" "seen_ids L st' = after_eviction L ?T" unfolding S using assms(6) by auto
  have card: "card ?T = card S + 1" using assms(5,6) by simp
  then have seen: "seen_ids L st' = ?T - set (take 1000 (ib_iter L ?T))" using assms(7) by (simp add: st'(3) after_eviction_def MAX_SEEN_IDS_def)
  have iter: "set (ib_iter L ?T) = ?T" "distinct (ib_iter L ?T)" using assms(3,5) by (simp_all add: inbox_codecs_def)
  have "length (ib_iter L ?T) = card ?T" using iter by (metis distinct_card)
  then have "card (set (take 1000 (ib_iter L ?T))) = 1000" using iter(2) card assms(7) by (simp add: distinct_card)
  moreover have "set (take 1000 (ib_iter L ?T)) \<subseteq> ?T" using iter(1) set_take_subset by metis
  ultimately have "card (seen_ids L st') = card S - 999" unfolding seen using card assms(5) by (simp add: card_Diff_subset)
  moreover have "finite (seen_ids L st')" using assms(5) by (simp add: seen)
  ultimately show ?thesis using st'(1) seen again [OF st'(2), of now'] by auto
qed

section \<open>Witnesses\<close>

text \<open>Sets are written in order, after their size; ids are their own hashes.\<close>

definition sample_seen :: "bytes set serde" where
  "sample_seen =
     \<lparr>to_vec = (\<lambda>S. Some (enc_fields (replicate (card S) 0 # sorted_list_of_set S))),
      from_slice = (\<lambda>b. Some (set (drop 1 (dec_fields (Suc (length (dec_fields 1 b ! 0))) b))))\<rparr>"

lemma sample_seen_correct: "finite S \<Longrightarrow> \<exists>b. to_vec sample_seen S = Some b \<and> from_slice sample_seen b = Some S"
proof -
  assume "finite S"
  let ?fs = "replicate (card S) 0 # sorted_list_of_set S"
  have "dec_fields 1 (enc_fields ?fs) = [replicate (card S) 0]" by (simp add: enc_fields_def dec_enc_list)
  moreover have "dec_fields (Suc (card S)) (enc_fields ?fs) = ?fs" by (rule dec_enc_fields) simp
  ultimately show ?thesis using \<open>finite S\<close> by (simp add: sample_seen_def)
qed

definition sample_received_json :: "received_message serde" where
  "sample_received_json =
     \<lparr>to_vec = (\<lambda>m. Some (rm_version m # enc_fields [as_bytes (rm_message_id m), as_bytes (rm_sender_id m), rm_payload m,
         u64_bytes (rm_received_at m), option_bytes as_bytes (rm_sender_public_key_hex m)])),
      from_slice = (\<lambda>b. case b of [] \<Rightarrow> None | v # bs \<Rightarrow> (let f = dec_fields 5 bs in
         Some \<lparr>rm_version = v, rm_message_id = bytes_string (f ! 0), rm_sender_id = bytes_string (f ! 1), rm_payload = f ! 2,
           rm_received_at = bytes_u64 (f ! 3), rm_sender_public_key_hex = bytes_option bytes_string (f ! 4)\<rparr>))\<rparr>"

definition sample_inbox :: "memory_storage inbox_libs" where
  "sample_inbox = \<lparr>ib_vtable = memory_vtable, ib_hash = (\<lambda>b. b), ib_seen = sample_seen, ib_message = sample_received_json, ib_legacy = (\<lambda>_. None),
     ib_iter = sorted_list_of_set, ib_history = sample_history, ib_logs = sample_logs\<rparr>"

lemma sample_inbox_codecs: "inbox_codecs sample_inbox"
  unfolding inbox_codecs_def sample_inbox_def using sample_seen_correct
  by (auto simp: sample_received_json_def dec_enc_fields Let_def)

definition sample_received :: "string \<Rightarrow> received_message" where
  "sample_received i = \<lparr>rm_version = 1, rm_message_id = i, rm_sender_id = ''s'', rm_payload = [1], rm_received_at = 5, rm_sender_public_key_hex = None\<rparr>"

definition sample_logman :: log_manager where
  "sample_logman = \<lparr>lm_install_time = 0, lm_cache = []\<rparr>"

lemma sample_id_hash [simp]: "id_hash sample_inbox i = as_bytes i"
  by (simp add: id_hash_def sample_inbox_def)

theorem inbox_window_witness:
  "\<exists>b. Inbox_run sample_inbox [(1, sample_received ''a''), (2, sample_received ''a'')] Inbox_new (sample_logman, MemoryStorage_new)
     = Some ([True, False], b, sample_logman, MemoryStorage_new) \<and> is_duplicate sample_inbox ''a'' MemoryStorage_new b"
proof -
  let ?msgs = "[(1, sample_received ''a''), (2, sample_received ''a'')]" and ?hs = "[as_bytes ''a'', as_bytes ''a'']"
  have h: "hashes sample_inbox ?msgs = ?hs" by (simp add: sample_received_def)
  from inbox_window [of sample_inbox ?msgs "(sample_logman, MemoryStorage_new)"] obtain bs b where
    r: "Inbox_run sample_inbox ?msgs Inbox_new (sample_logman, MemoryStorage_new) = Some (bs, b, sample_logman, MemoryStorage_new)" "length bs = 2"
    "\<forall>k < 2. bs ! k = (?hs ! k \<notin> set (window 50000 (accepted (take k bs) (take k ?hs))))"
    "is_duplicate sample_inbox ''a'' MemoryStorage_new b \<longleftrightarrow> as_bytes ''a'' \<in> set (window 50000 (accepted bs ?hs))" unfolding h by auto
  obtain x y where bs: "bs = [x, y]" using r(2) by (auto simp: length_Suc_conv numeral_2_eq_2)
  have "x" using r(3) [rule_format, of 0] by (simp add: bs accepted_def window_def)
  moreover have "\<not> y" using r(3) [rule_format, of 1] \<open>x\<close> by (simp add: bs accepted_def window_def)
  ultimately show ?thesis using r(1,4) by (simp add: bs accepted_def window_def)
qed

theorem inbox_receive_returns_witness:
  "\<exists>r b' m. Inbox_receive sample_inbox 1 (sample_received ''a'') Inbox_new (sample_logman, MemoryStorage_new) = Some (r, b', sample_logman, MemoryStorage_new)
     \<and> in_backend b' = InboxMemory m \<and> card (im_seen_ids m) \<le> 50000"
  using inbox_receive_returns [of sample_inbox] inbox_reach.new [of sample_inbox] by blast

lemma sample_fresh: "load_seen sample_inbox MemoryStorage_new = None"
  by (simp add: load_seen_def sample_inbox_def memory.get_law [OF memory_new_good(1)] memory_new_good(2))

theorem inbox_backends_agree_witness:
  "\<exists>bs b st'. Inbox_run sample_inbox [(1, sample_received ''a''), (2, sample_received ''a'')] Inbox_new (sample_logman, MemoryStorage_new)
       = Some (bs, b, sample_logman, MemoryStorage_new)
     \<and> Inbox_run sample_inbox [(1, sample_received ''a''), (2, sample_received ''a'')] Inbox_persistent (sample_logman, MemoryStorage_new)
       = Some (bs, Inbox_persistent, sample_logman, st') \<and> \<not> bs ! 1"
proof -
  let ?msgs = "[(1 :: u64, sample_received ''a''), (2, sample_received ''a'')]"
  have "ib_vtable sample_inbox = memory_vtable" by (simp add: sample_inbox_def)
  moreover have "card (set (hashes sample_inbox ?msgs)) \<le> 50000" by (simp add: sample_received_def)
  ultimately obtain bs b st' where "Inbox_run sample_inbox ?msgs Inbox_new (sample_logman, MemoryStorage_new) = Some (bs, b, sample_logman, MemoryStorage_new)"
    "Inbox_run sample_inbox ?msgs Inbox_persistent (sample_logman, MemoryStorage_new) = Some (bs, Inbox_persistent, sample_logman, st')"
    "\<forall>k < length ?msgs. bs ! k = (hashes sample_inbox ?msgs ! k \<notin> set (take k (hashes sample_inbox ?msgs)))"
    using inbox_backends_agree [OF memory_new_good(1) _ sample_inbox_codecs sample_fresh] by blast
  then show ?thesis by (auto simp: sample_received_def numeral_2_eq_2 dest!: spec [of _ 1])
qed

definition many_ids :: "bytes set" where
  "many_ids = (\<lambda>n. replicate (Suc n) 0) ` {..< 50000 :: nat}"

lemma many_ids_simps: "finite many_ids" "card many_ids = 50000" "[] \<notin> many_ids"
  by (auto simp: many_ids_def card_image inj_on_def)

lemma many_ids_first: "[] \<in> set (take 1000 (sorted_list_of_set (insert [] many_ids)))"
proof -
  have "sorted_list_of_set (insert [] many_ids) = insort [] (sorted_list_of_set many_ids)"
    using many_ids_simps by (simp add: sorted_list_of_set_insert)
  also have "\<dots> = [] # sorted_list_of_set many_ids" by (rule insort_is_Cons) simp
  finally show ?thesis by simp
qed

theorem inbox_forgets_new_id_witness:
  "\<exists>st st' st''. load_seen sample_inbox st = Some many_ids
     \<and> Inbox_receive sample_inbox 1 (sample_received []) Inbox_persistent (sample_logman, st) = Some (True, Inbox_persistent, sample_logman, st')
     \<and> Inbox_receive sample_inbox 2 (sample_received []) Inbox_persistent (sample_logman, st') = Some (True, Inbox_persistent, sample_logman, st'')"
proof -
  obtain bs where bs: "to_vec sample_seen many_ids = Some bs" "from_slice sample_seen bs = Some many_ids"
    using sample_seen_correct [OF many_ids_simps(1)] by blast
  let ?st = "ignore_put memory_vtable SEEN_IDS_KEY bs MemoryStorage_new"
  note st = memory.ignore_laws(1,2) [OF memory_new_good(1), of SEEN_IDS_KEY bs]
  have l: "load_seen sample_inbox ?st = Some many_ids"
    using bs(2) by (simp add: load_seen_def sample_inbox_def memory.get_law [OF st(1)] st(2))
  have v: "ib_vtable sample_inbox = memory_vtable" "ib_iter sample_inbox = sorted_list_of_set" by (simp_all add: sample_inbox_def)
  have h: "id_hash sample_inbox (rm_message_id (sample_received [])) = []" by (simp add: sample_received_def as_bytes_def)
  from inbox_forgets_new_id [OF st(1) v(1) sample_inbox_codecs l many_ids_simps(1), of "sample_received []" 1 sample_logman 2] l
  show ?thesis unfolding h v using many_ids_simps many_ids_first by fastforce
qed

end
