(* ===== verification/Node.thy ===== *)
theory Node
  imports Ingress Contacts Blocked_Properties Inbox_Properties Outbox_Stored Drift_Store
begin

text \<open>
  Receiving a message in \<open>core/src/iron_core.rs\<close>, from the bytes of the envelope to the stores:
  \<open>receive_message\<close> authenticates and decrypts (theory \<open>Ingress\<close>), looks the sender up in the contacts and the
  block list, handles receipts, and keeps other messages in the inbox, the history and the audit log.

  The contacts, the block list, the history and the Drift store share one backend, \<open>nd_store\<close>; the backend
  of the Drift store is put into it for the call.  The inbox and the outbox of a node are in memory, as
  \<open>IronCore\<close> creates them.  The calls of the delegate are a list of events.  \<open>None\<close> stands for a lookup of a
  contact that does not return.
\<close>

section \<open>The node\<close>

record 's node =
  nd_keys :: "node_keys option"
  nd_identity_id :: "string option"
  nd_sessions :: "'s session_manager"
  nd_inbox :: inbox
  nd_outbox :: "('s, unit) outbox"
  nd_drift :: "'s mesh_store"
  nd_audit :: audit_log
  nd_logs :: log_manager
  nd_delegate :: bool
  nd_store :: 's

record 's node_libs =
  nl_ingress :: ingress_libs
  nl_contacts :: "'s contact_libs"
  nl_blocked :: "'s blocked_libs"
  nl_history :: "'s history_libs"
  nl_inbox :: "'s inbox_libs"
  nl_outbox :: "('s, unit) outbox_libs"
  nl_drift :: "'s store_libs"
  nl_receipt :: "bytes \<Rightarrow> receipt option"
  nl_uuid :: "string \<Rightarrow> bytes option"

text \<open>The clock readings of one call, and the identifier of the audit event.\<close>

record readings =
  rd_now :: u64
  rd_maintenance :: u64
  rd_uuid :: string
  rd_audit :: u64

datatype delegate_event =
    OnReceiptReceived string string
  | OnMessageReceived string string string u64 bytes

definition mark_message_sent :: "'s node_libs \<Rightarrow> string \<Rightarrow> 's node \<Rightarrow> bool \<times> 's node" where
  "mark_message_sent L message_id n =
     (case Outbox_remove (nl_outbox L) message_id (nd_outbox n) of (outbox_removed, ob) \<Rightarrow>
        let n = n\<lparr>nd_outbox := ob\<rparr> in
        (case nl_uuid L message_id of
           Some parsed_id \<Rightarrow>
             (case MeshStore_remove (nl_drift L) parsed_id ((nd_drift n)\<lparr>mst_backend := Some (nd_store n)\<rparr>) of (drift_removed, d) \<Rightarrow>
                (outbox_removed \<or> drift_removed,
                 n\<lparr>nd_drift := d\<lparr>mst_backend := None\<rparr>,
                   nd_store := (case mst_backend d of Some st \<Rightarrow> st | None \<Rightarrow> nd_store n)\<rparr>))
         | None \<Rightarrow> (outbox_removed, n)))"

text \<open>The last known device of the sender: the first of its identifiers that is a contact.\<close>

fun sender_device_id :: "'s contact_libs \<Rightarrow> string list \<Rightarrow> 's \<Rightarrow> (iron_core_error, string option) result option" where
  "sender_device_id L [] st = Some (Ok None)"
| "sender_device_id L (i # ids) st =
     Option.bind (Contacts_get L i st) (\<lambda>r.
       (case r of
          Ok (Some c) \<Rightarrow> Some (Ok (ct_last_known_device_id c))
        | Ok None \<Rightarrow> sender_device_id L ids st
        | Err e \<Rightarrow> Some (Err e)
        | Panic \<Rightarrow> Some Panic))"

text \<open>Refused, or whether the message is hidden; read errors count against the sender.\<close>

definition block_policy :: "'s blocked_libs \<Rightarrow> string \<Rightarrow> string option \<Rightarrow> 's \<Rightarrow> (iron_core_error, bool) result" where
  "block_policy L authenticated_sender_key device_id st =
     (case is_blocked_and_deleted_resolved L authenticated_sender_key st of
        Ok True \<Rightarrow> Err Blocked
      | Ok False \<Rightarrow>
          (case is_blocked_resolved L authenticated_sender_key device_id st of
             Ok blocked \<Rightarrow> Ok blocked
           | Err e \<Rightarrow> Ok True
           | Panic \<Rightarrow> Panic)
      | Err e \<Rightarrow> Err Blocked
      | Panic \<Rightarrow> Panic)"

definition status_string :: "delivery_status \<Rightarrow> string" where
  "status_string s = (if s = DSent then ''Sent'' else ''Delivered'')"

definition handle_receipt :: "'s node_libs \<Rightarrow> message \<Rightarrow> 's node \<Rightarrow> delegate_event list \<times> 's node" where
  "handle_receipt L message n =
     (case nl_receipt L (msg_payload message) of
        None \<Rightarrow> ([], n)
      | Some r \<Rightarrow>
          (if nd_delegate n then [OnReceiptReceived (rc_message_id r) (status_string (rc_status r))] else [],
           if rc_status r = DDelivered \<or> rc_status r = DRead then snd (mark_message_sent L (rc_message_id r) n) else n))"

definition received_of :: "u64 \<Rightarrow> string \<Rightarrow> string \<Rightarrow> message \<Rightarrow> received_message" where
  "received_of now sender_hex canonical_peer_id message =
     \<lparr>rm_version = 1, rm_message_id = msg_id message, rm_sender_id = canonical_peer_id, rm_payload = msg_payload message,
      rm_received_at = now, rm_sender_public_key_hex = Some sender_hex\<rparr>"

definition record_of :: "string \<Rightarrow> bool \<Rightarrow> message \<Rightarrow> message_record" where
  "record_of canonical_peer_id hidden message =
     \<lparr>mr_id = msg_id message, mr_direction = Received, mr_peer_id = canonical_peer_id,
      mr_content = (case string_from_utf8 (msg_payload message) of Some t \<Rightarrow> t | None \<Rightarrow> []),
      mr_timestamp = msg_timestamp message, mr_sender_timestamp = msg_timestamp message, mr_delivered = True, mr_hidden = hidden\<rparr>"

definition keep_message ::
  "'s node_libs \<Rightarrow> readings \<Rightarrow> string \<Rightarrow> string \<Rightarrow> bool \<Rightarrow> message \<Rightarrow> 's node
    \<Rightarrow> ((iron_core_error, message) result \<times> delegate_event list \<times> 's node) option" where
  "keep_message L t sender_hex canonical_peer_id hidden message n =
     Option.bind
       (if is_duplicate (nl_inbox L) (msg_id message) (nd_store n) (nd_inbox n)
        then Some (nd_inbox n, nd_logs n, nd_store n)
        else map_option snd (Inbox_receive (nl_inbox L) (rd_maintenance t) (received_of (rd_now t) sender_hex canonical_peer_id message) (nd_inbox n) (nd_logs n, nd_store n)))
     (\<lambda>(b, lm, st).
       let st = snd (History_add (nl_history L) (record_of canonical_peer_id hidden message) st);
           n = n\<lparr>nd_inbox := b, nd_logs := lm, nd_store := st\<rparr> in
       (case AuditLog_append (il_audit (nl_ingress L)) (rd_uuid t) (rd_audit t) MessageReceived (nd_identity_id n) (Some canonical_peer_id) None (nd_audit n) of
          (Ok _, audit) \<Rightarrow>
            Some (Ok message,
                  if nd_delegate n
                  then [OnMessageReceived (msg_sender_id message) (msg_sender_id message) (msg_id message) (msg_timestamp message) (msg_payload message)]
                  else [],
                  n\<lparr>nd_audit := audit\<rparr>)
        | (_, audit) \<Rightarrow> Some (Panic, [], n\<lparr>nd_audit := audit\<rparr>)))"

text \<open>What happens to a decrypted message; \<open>hex\<close> is \<open>hex::encode\<close> of the authenticated sender key.\<close>

definition deliver_message ::
  "'s node_libs \<Rightarrow> readings \<Rightarrow> message \<Rightarrow> bytes \<Rightarrow> 's node
    \<Rightarrow> ((iron_core_error, message) result \<times> delegate_event list \<times> 's node) option" where
  "deliver_message L t message sender_pubkey n =
     (let I = cl_ids (nl_contacts L);
          hex = idl_hex_encode I sender_pubkey in
      case identity_id_from_public_key_hex I hex of
        None \<Rightarrow> Some (Err CryptoError, [], n)
      | Some canonical_peer_id \<Rightarrow>
          Option.bind (sender_device_id (nl_contacts L) [hex, canonical_peer_id] (nd_store n)) (\<lambda>device.
            (case device of
               Err e \<Rightarrow> Some (Err e, [], n)
             | Panic \<Rightarrow> Some (Panic, [], n)
             | Ok device_id \<Rightarrow>
                 (case block_policy (nl_blocked L) (PUBLIC_KEY_PREFIX @ hex) device_id (nd_store n) of
                    Err e \<Rightarrow> Some (Err e, [], n)
                  | Panic \<Rightarrow> Some (Panic, [], n)
                  | Ok any_blocked \<Rightarrow>
                      if msg_type message = MReceipt
                      then (case handle_receipt L message n of (ev, n') \<Rightarrow> Some (Ok message, ev, n'))
                      else keep_message L t hex canonical_peer_id any_blocked message n))))"

definition sender_bundle :: "'s node_libs \<Rightarrow> bytes \<Rightarrow> 's node \<Rightarrow> public_key_bundle option option" where
  "sender_bundle L envelope_data n =
     (case authenticate_wire (nl_ingress L) envelope_data of
        Ok w \<Rightarrow>
          if nd_keys n = None then Some None
          else map_option (\<lambda>r. case r of Ok b \<Rightarrow> b | _ \<Rightarrow> None)
                 (get_contact_bundle (nl_contacts L) (idl_hex_encode (cl_ids (nl_contacts L)) (wire_sender w)) (nd_store n))
      | _ \<Rightarrow> Some None)"

definition IronCore_receive_message ::
  "'s node_libs \<Rightarrow> decrypt_rnd \<Rightarrow> public_key_bundle option \<Rightarrow> readings \<Rightarrow> bytes \<Rightarrow> 's node
    \<Rightarrow> ((iron_core_error, message) result \<times> delegate_event list \<times> 's node) option" where
  "IronCore_receive_message L rnd our_bundle t envelope_data n =
     Option.bind (sender_bundle L envelope_data n) (\<lambda>bundle.
       (case receive_message (nl_ingress L) rnd (nd_keys n) our_bundle (\<lambda>_. bundle) envelope_data (nd_sessions n) of (r, sessions) \<Rightarrow>
          let n = n\<lparr>nd_sessions := sessions\<rparr> in
          (case r of
             Ok (message, sender_pubkey) \<Rightarrow> deliver_message L t message sender_pubkey n
           | Err e \<Rightarrow> Some (Err e, [], n)
           | Panic \<Rightarrow> Some (Panic, [], n))))"

end
