(* ===== verification/Contact_Properties.thy ===== *)
theory Contact_Properties
  imports Contacts Blocked_Properties
begin

text \<open>
  What the contacts promise: a contact is found under its public key and under the identity id, lookups
  return, and a contact row whose key is written in another case cannot be found by its identity id.
\<close>

section \<open>Text of keys\<close>

text \<open>\<open>to_lowercase\<close> on ASCII text.\<close>

definition lowercase_ascii :: "(string \<Rightarrow> string) \<Rightarrow> bool" where
  "lowercase_ascii f \<longleftrightarrow> (\<forall>s. list_all (\<lambda>c. (of_char c :: nat) < 128) s \<longrightarrow> f s = map ascii_lower s)"

lemma white_space_not_hex: "list_all (\<lambda>w. w \<noteq> [] \<and> \<not> is_hexdigit (hd w) \<and> \<not> is_hexdigit (last w)) white_space"
  by (simp add: white_space_def bytes_string_def is_hexdigit_def upt_rec Let_def)

lemma skip_space_hex:
  assumes "list_all is_hexdigit s" and "\<forall>w \<in> set ws. w \<noteq> [] \<and> \<not> is_hexdigit (hd w)"
  shows "skip_space ws s = s"
proof -
  have "\<not> starts_with s w" if "w \<in> set ws" for w
  proof
    assume "starts_with s w"
    then obtain r where "s = w @ r" by (auto simp: starts_with_iff)
    then have "hd w \<in> set s" using assms(2) that by (cases w) auto
    then show False using assms that by (auto simp: list_all_iff)
  qed
  then have "find (starts_with s) ws = None" by (simp add: find_None_iff)
  then show ?thesis by (simp add: skip_space.simps [of ws s] leading_space_def)
qed

lemma trim_hex: "list_all is_hexdigit s \<Longrightarrow> trim s = s"
  using white_space_not_hex by (auto simp: trim_def skip_space_hex list_all_iff hd_rev)

lemma hex_ascii: "list_all is_hexdigit s \<Longrightarrow> list_all (\<lambda>c. (of_char c :: nat) < 128) s"
  by (auto simp: list_all_iff is_hexdigit_def Let_def)

lemma lowercase_hex: "lowercase_ascii f \<Longrightarrow> list_all is_hexdigit s \<Longrightarrow> f s = map ascii_lower s"
  by (simp add: lowercase_ascii_def hex_ascii)

lemma hex_utf8: "list_all is_hexdigit s \<Longrightarrow> string_from_utf8 (as_bytes s) = Some s"
proof -
  assume h: "list_all is_hexdigit s"
  have "x < 0x80" if "x \<in> set (as_bytes s)" for x
  proof -
    from that obtain c where c: "c \<in> set s" "x = of_nat (of_char c)" by (auto simp: as_bytes_def)
    then have "of_char c < (128 :: nat)" using hex_ascii [OF h] by (simp add: list_all_iff)
    then have "unat x < 128" by (simp add: c(2) unsigned_of_nat take_bit_nat_eq_self)
    then show "x < 0x80" by (simp add: word_less_nat_alt)
  qed
  then have "utf8_valid (as_bytes s)" by (intro utf8_valid_ascii) blast
  then show ?thesis by (simp add: string_from_utf8_def)
qed

text \<open>A contact with a valid key in lower case is stored under that key.\<close>

definition lower_hex :: "string \<Rightarrow> bool" where
  "lower_hex k \<longleftrightarrow> list_all is_hexdigit k \<and> map ascii_lower k = k"

lemma canonicalize_lower:
  assumes "lowercase_ascii (cl_lowercase L)" and "is_valid_public_key (cl_ids L) k" and "lower_hex k"
    and "ct_public_key c = k" and "trim (ct_peer_id c) \<noteq> []"
  shows "canonicalize L c = c\<lparr>ct_peer_id := k\<rparr>"
proof -
  have k: "trim k = k" "cl_lowercase L k = k" "length k = 64" "list_all is_hexdigit k" "idl_hex_decode (cl_ids L) k \<noteq> None"
    using assms(1-3) by (auto simp: lower_hex_def trim_hex lowercase_hex is_valid_public_key_def split: if_splits option.splits)
  then have "key_valid L k" "canonical_hex L c = Some k" by (simp_all add: key_valid_def canonical_hex_def assms(4))
  then show ?thesis using assms(4,5) k(1,2) by (auto simp: canonicalize_def Let_def)
qed

section \<open>Rows\<close>

lemma contact_keys_distinct:
  "contact_key p = contact_key q \<longleftrightarrow> p = q" "identity_id_index_key p = identity_id_index_key q \<longleftrightarrow> p = q"
  "contact_bundle_key p = contact_bundle_key q \<longleftrightarrow> p = q"
  "contact_key p \<noteq> identity_id_index_key q" "identity_id_index_key p \<noteq> contact_key q" "contact_bundle_key p \<noteq> contact_key q"
  "contact_key p \<noteq> contact_bundle_key q" "contact_bundle_key p \<noteq> identity_id_index_key q" "identity_id_index_key p \<noteq> contact_bundle_key q"
  by (simp_all add: contact_key_def identity_id_index_key_def contact_bundle_key_def as_bytes_eq)

definition index_ok :: "id_libs \<Rightarrow> (bytes \<rightharpoonup> bytes) \<Rightarrow> bool" where
  "index_ok I c \<longleftrightarrow> (\<forall>i v. c (identity_id_index_key i) = Some v \<longrightarrow>
     (\<exists>k. string_from_utf8 v = Some k \<and> identity_id_from_public_key_hex I k = Some i))"

text \<open>No key is, over any number of steps, the hash of itself.\<close>

definition no_id_cycle :: "id_libs \<Rightarrow> bool" where
  "no_id_cycle I \<longleftrightarrow> acyclic {(k, i). identity_id_from_public_key_hex I k = Some i}"

context backend_contract begin

lemma contacts_get_row:
  assumes "good s" and "cl_vtable L = vt" and "content s (contact_key p) = Some v" and "from_slice (cl_json L) v = Some c"
  shows "Contacts_get L p s = Some (Ok (Some c))"
  by (subst Contacts_get.simps) (simp add: assms core_get_ok decode_row_def)

lemma contacts_get_step:
  assumes "good s" and "cl_vtable L = vt" and "content s (contact_key p) = None" and "content s (identity_id_index_key p) = Some v"
    and "string_from_utf8 v = Some k"
  shows "Contacts_get L p s = Contacts_get L k s"
  by (subst Contacts_get.simps) (simp add: assms core_get_ok resolve_identity_id_def)

lemma contacts_get_none:
  assumes "good s" and "cl_vtable L = vt" and "content s (contact_key p) = None" and "content s (identity_id_index_key p) = None"
  shows "Contacts_get L p s = Some (Ok None)"
  by (subst Contacts_get.simps) (simp add: assms core_get_ok resolve_identity_id_def)

lemma contacts_add_ok:
  assumes "good s" and "cl_vtable L = vt" and "serde_correct (cl_json L)"
  shows "\<exists>v s'. Contacts_add L c s = (Ok (), s') \<and> good s' \<and> from_slice (cl_json L) v = Some (canonicalize L c)
    \<and> content s' = (case identity_id_from_public_key_hex (cl_ids L) (ct_public_key (canonicalize L c)) of
         Some i \<Rightarrow> (content s)(contact_key (ct_peer_id (canonicalize L c)) \<mapsto> v, identity_id_index_key i \<mapsto> as_bytes (ct_public_key (canonicalize L c)))
       | None \<Rightarrow> (content s)(contact_key (ct_peer_id (canonicalize L c)) \<mapsto> v))"
proof -
  let ?c = "canonicalize L c"
  from encode_row_ok [OF assms(3)] obtain v where v: "encode_row (cl_json L) ?c = Ok v" "from_slice (cl_json L) v = Some ?c" .
  from core_put_ok [OF assms(1), of "contact_key (ct_peer_id ?c)" v] obtain s1 where s1: "core_put vt (contact_key (ct_peer_id ?c)) v s = (Ok (), s1)"
    "good s1" "content s1 = (content s)(contact_key (ct_peer_id ?c) \<mapsto> v)" by blast
  show ?thesis
  proof (cases "identity_id_from_public_key_hex (cl_ids L) (ct_public_key ?c)")
    case None
    then show ?thesis by (intro exI [of _ v] exI [of _ s1]) (simp add: Contacts_add_def Let_def v s1 assms(2))
  next
    case (Some i)
    from core_put_ok [OF s1(2), of "identity_id_index_key i" "as_bytes (ct_public_key ?c)"] obtain s2 where
      "core_put vt (identity_id_index_key i) (as_bytes (ct_public_key ?c)) s1 = (Ok (), s2)" "good s2"
      "content s2 = (content s1)(identity_id_index_key i \<mapsto> as_bytes (ct_public_key ?c))" by blast
    then show ?thesis using Some
      by (intro exI [of _ v] exI [of _ s2]) (simp add: Contacts_add_def Let_def v s1 assms(2) save_identity_id_index_def)
  qed
qed

text \<open>Lookups return if every row of the index leads from the identity id of a key to that key.\<close>

lemma finite_content: "good s \<Longrightarrow> finite (dom (content s))"
proof -
  assume "good s"
  from core_scan_ok [OF this, of "[]"] obtain es where "set es = {(k, v). content s k = Some v}" by (auto simp: starts_with_iff)
  moreover have "dom (content s) = fst ` {(k, v). content s k = Some v}" by force
  ultimately show ?thesis by (metis finite_imageI List.finite_set)
qed

lemma index_wf:
  assumes "good s" and "index_ok I (content s)" and "no_id_cycle I"
  shows "wf {(k, i). \<exists>v. content s (identity_id_index_key i) = Some v \<and> string_from_utf8 v = Some k}" (is "wf ?R")
proof (rule finite_acyclic_wf)
  have sub: "?R \<subseteq> {(k, i). identity_id_from_public_key_hex I k = Some i}" using assms(2) by (fastforce simp: index_ok_def)
  define f where "f = (\<lambda>x. (case string_from_utf8 (the (content s x)) of Some k \<Rightarrow> k | None \<Rightarrow> [], bytes_string (drop (length (as_bytes ''identity_id_idx:'')) x)))"
  have "bytes_string (drop (length (as_bytes p)) (as_bytes (p @ i))) = i" for p i by simp
  then have "f (identity_id_index_key i) = (case string_from_utf8 (the (content s (identity_id_index_key i))) of Some k \<Rightarrow> k | None \<Rightarrow> [], i)" for i
    unfolding f_def identity_id_index_key_def by blast
  then have "(k, i) \<in> f ` dom (content s)" if "content s (identity_id_index_key i) = Some v" "string_from_utf8 v = Some k" for k i v
    using that by (intro image_eqI [of _ _ "identity_id_index_key i"]) auto
  then have "?R \<subseteq> f ` dom (content s)" by blast
  then show "finite ?R" by (rule finite_subset) (simp add: finite_content assms(1))
  show "acyclic ?R" using assms(3) acyclic_subset [OF _ sub] by (simp add: no_id_cycle_def)
qed

lemma contacts_get_returns:
  assumes "good s" and "cl_vtable L = vt" and "index_ok (cl_ids L) (content s)" and "no_id_cycle (cl_ids L)"
  shows "\<exists>r. Contacts_get L p s = Some r" "\<exists>r. get_contact_bundle L p s = Some r"
proof -
  note wf = index_wf [OF assms(1,3,4)]
  show "\<exists>r. Contacts_get L p s = Some r"
    using wf
  proof (induction p rule: wf_induct_rule)
    case (less p)
    show ?case
      by (subst Contacts_get.simps)
        (use less in \<open>auto simp: assms(2) core_get_ok [OF assms(1)] resolve_identity_id_def split: option.split\<close>)
  qed
  show "\<exists>r. get_contact_bundle L p s = Some r"
    using wf
  proof (induction p rule: wf_induct_rule)
    case (less p)
    show ?case
      by (subst get_contact_bundle.simps)
        (use less in \<open>auto simp: assms(2) core_get_ok [OF assms(1)] resolve_identity_id_def split: option.split\<close>)
  qed
qed

lemma add_index_ok:
  assumes "good s" and "cl_vtable L = vt" and "serde_correct (cl_json L)" and "index_ok (cl_ids L) (content s)" and "Contacts_add L c s = (r, s')"
  shows "good s'" "index_ok (cl_ids L) (content s')"
proof -
  let ?k = "ct_public_key (canonicalize L c)"
  from contacts_add_ok [OF assms(1-3), of c] assms(5) obtain v where a: "good s'"
    "content s' = (case identity_id_from_public_key_hex (cl_ids L) ?k of
         Some i \<Rightarrow> (content s)(contact_key (ct_peer_id (canonicalize L c)) \<mapsto> v, identity_id_index_key i \<mapsto> as_bytes ?k)
       | None \<Rightarrow> (content s)(contact_key (ct_peer_id (canonicalize L c)) \<mapsto> v))" by auto
  show "good s'" by (fact a(1))
  have hex: "string_from_utf8 (as_bytes ?k) = Some ?k" if "identity_id_from_public_key_hex (cl_ids L) ?k = Some i" for i
    using identity_id_valid [OF that] by (intro hex_utf8) (auto simp: is_valid_public_key_def split: if_splits)
  show "index_ok (cl_ids L) (content s')"
    using assms(4) hex by (auto simp: a(2) index_ok_def contact_keys_distinct split: option.splits)
qed

lemma index_entry_ok:
  assumes "good s" and "cl_vtable L = vt" and "index_ok (cl_ids L) (content s)" and "identity_id_from_public_key_hex (cl_ids L) k = Some i"
  shows "\<exists>s'. save_identity_id_index L i k s = (Ok (), s') \<and> good s' \<and> index_ok (cl_ids L) (content s')"
proof -
  from core_put_ok [OF assms(1), of "identity_id_index_key i" "as_bytes k"] obtain s' where
    s': "core_put vt (identity_id_index_key i) (as_bytes k) s = (Ok (), s')" "good s'" "content s' = (content s)(identity_id_index_key i \<mapsto> as_bytes k)" by blast
  have "list_all is_hexdigit k" using identity_id_valid [OF assms(4)] by (simp add: is_valid_public_key_def split: if_splits)
  then have "string_from_utf8 (as_bytes k) = Some k" by (rule hex_utf8)
  with assms(3,4) have "index_ok (cl_ids L) (content s')" by (auto simp: index_ok_def s'(3) contact_keys_distinct)
  with s' show ?thesis by (simp add: save_identity_id_index_def assms(2))
qed

lemma index_contacts_ok:
  assumes "good s" and "cl_vtable L = vt" and "index_ok (cl_ids L) (content s)"
  shows "good (snd (index_contacts L cs n s)) \<and> index_ok (cl_ids L) (content (snd (index_contacts L cs n s)))"
  using assms(1,3)
proof (induction cs arbitrary: n s)
  case (Cons c cs)
  show ?case
  proof (cases "identity_id_from_public_key_hex (cl_ids L) (ct_public_key c)")
    case None
    then show ?thesis using Cons by simp
  next
    case (Some i)
    from index_entry_ok [OF Cons.prems(1) assms(2) Cons.prems(2) Some] obtain s' where
      "save_identity_id_index L i (ct_public_key c) s = (Ok (), s')" "good s'" "index_ok (cl_ids L) (content s')" by blast
    then show ?thesis using Cons Some by simp
  qed
qed simp

lemma migrate_index_ok:
  assumes "good s" and "cl_vtable L = vt" and "index_ok (cl_ids L) (content s)" and "migrate_identity_id_index L s = (n, s')"
  shows "good s' \<and> index_ok (cl_ids L) (content s')"
proof (cases "key_present L (as_bytes ''metadata_identity_id_index_migrated'') s")
  case True
  then show ?thesis using assms by (simp add: migrate_identity_id_index_def)
next
  case False
  obtain m s1 where s1: "(case Contacts_list L s of Ok cs \<Rightarrow> index_contacts L cs 0 s | _ \<Rightarrow> (0, s)) = (m, s1)" by force
  with index_contacts_ok [OF assms(1-3)] have ok: "good s1" "index_ok (cl_ids L) (content s1)"
    using assms(1,3) by (auto split: result.splits) (metis snd_conv)+
  have other: "identity_id_index_key i \<noteq> as_bytes ''metadata_identity_id_index_migrated''" for i
    by (simp add: identity_id_index_key_def as_bytes_eq)
  from False s1 assms(4) have "s' = ignore_put (cl_vtable L) (as_bytes ''metadata_identity_id_index_migrated'') (as_bytes ''true'') s1"
    by (simp add: migrate_identity_id_index_def)
  with put_law [OF ok(1), of "as_bytes ''metadata_identity_id_index_migrated''" "as_bytes ''true''"] ok other show ?thesis
    by (auto simp: ignore_put_def assms(2) index_ok_def)
qed

end

section \<open>Reachable contacts\<close>



section \<open>A concrete contact store\<close>

definition acyclic_ids :: id_libs where
  "acyclic_ids = sample_ids\<lparr>idl_valid_point := (\<lambda>bs. bs \<noteq> replicate 32 7)\<rparr>"



lemma acyclic_ids_key: "identity_id_from_public_key_hex acyclic_ids sample_key = Some sample_identity"
proof -
  have "replicate 32 (1 :: byte) \<noteq> replicate 32 7" by simp
  then show ?thesis
    by (simp add: identity_id_from_public_key_hex_def is_valid_public_key_def acyclic_ids_def sample_ids_def sample_key_def sample_identity_def sample_hex_correct)
qed

lemma sample_key_lower: "lower_hex sample_key"
proof -
  have "ascii_lower (hex_digit n) = hex_digit n" if "n < 16" for n using that by (auto simp: ascii_lower_def hex_digit_def)
  then have "map ascii_lower (sample_hex v) = sample_hex v" for v
    by (induction v) (simp_all add: sample_hex_Cons nibbles, simp add: sample_hex_def)
  then show ?thesis by (simp add: lower_hex_def sample_key_def sample_hex_correct)
qed

definition sample_contact_json :: "contact serde" where
  "sample_contact_json = \<lparr>to_vec = (\<lambda>c. Some (enc_fields [as_bytes (ct_peer_id c), option_bytes as_bytes (ct_nickname c),
       option_bytes as_bytes (ct_local_nickname c), as_bytes (ct_public_key c), u64_bytes (ct_added_at c), option_bytes u64_bytes (ct_last_seen c),
       option_bytes as_bytes (ct_notes c), option_bytes as_bytes (ct_last_known_device_id c)])),
     from_slice = (\<lambda>v. case dec_fields 8 v of
         [p, n, l, k, a, t, x, d] \<Rightarrow> Some \<lparr>ct_peer_id = bytes_string p, ct_nickname = bytes_option bytes_string n,
             ct_local_nickname = bytes_option bytes_string l, ct_public_key = bytes_string k, ct_added_at = bytes_u64 a,
             ct_last_seen = bytes_option bytes_u64 t, ct_notes = bytes_option bytes_string x,
             ct_last_known_device_id = bytes_option bytes_string d\<rparr>
       | _ \<Rightarrow> None)\<rparr>"

lemma sample_contact_json_correct: "serde_correct sample_contact_json"
  by (simp add: serde_correct_def sample_contact_json_def dec_enc_fields)

definition sample_contacts :: "public_key_bundle serde \<Rightarrow> memory_storage contact_libs" where
  "sample_contacts B = \<lparr>cl_vtable = memory_vtable, cl_json = sample_contact_json, cl_bundle = B, cl_ids = acyclic_ids,
     cl_bs58_decode = (\<lambda>_. None), cl_lowercase = map ascii_lower, cl_is_uuid = (\<lambda>_. True)\<rparr>"

lemma sample_contacts_simps [simp]: "cl_vtable (sample_contacts B) = memory_vtable" "cl_json (sample_contacts B) = sample_contact_json"
  "cl_ids (sample_contacts B) = acyclic_ids" "cl_lowercase (sample_contacts B) = map ascii_lower"
  by (simp_all add: sample_contacts_def)

definition no_bundles :: "public_key_bundle serde" where
  "no_bundles = \<lparr>to_vec = (\<lambda>_. None), from_slice = (\<lambda>_. None)\<rparr>"

definition sample_contact :: contact where
  "sample_contact = Contact_new 5 sample_key sample_key"

section \<open>Properties\<close>



text \<open>
  C18.  A contact with a valid public key in lower case, added under any peer id, is found under the key and
  under the identity id of the key, stored with the key as its peer id; the rows of other contacts are left
  alone.  Removing it by the key deletes its row and its bundle.  Removing it by the identity id deletes the
  bundle and leaves the contact.
\<close>

theorem contact_lookup:
  assumes "memory_good s" and "cl_vtable L = memory_vtable" and "serde_correct (cl_json L)" and "lowercase_ascii (cl_lowercase L)"
    and "identity_id_from_public_key_hex (cl_ids L) k = Some i" and "lower_hex k" and "i \<noteq> k"
    and "ct_public_key c = k" and "trim (ct_peer_id c) \<noteq> []" and "memory_content s (contact_key i) = None"
  shows "\<exists>s'. Contacts_add L c s = (Ok (), s')
    \<and> Contacts_get L k s' = Some (Ok (Some (c\<lparr>ct_peer_id := k\<rparr>))) \<and> Contacts_get L i s' = Some (Ok (Some (c\<lparr>ct_peer_id := k\<rparr>)))
    \<and> (\<forall>p. p \<noteq> k \<longrightarrow> memory_content s' (contact_key p) = memory_content s (contact_key p))
    \<and> (\<exists>s''. Contacts_remove L k s' = Some (Ok (), s'') \<and> memory_content s'' (contact_key k) = None \<and> memory_content s'' (contact_bundle_key k) = None)
    \<and> (\<exists>s''. Contacts_remove L i s' = Some (Ok (), s'') \<and> Contacts_get L k s'' = Some (Ok (Some (c\<lparr>ct_peer_id := k\<rparr>)))
          \<and> memory_content s'' (contact_bundle_key k) = None)"
proof -
  let ?c = "c\<lparr>ct_peer_id := k\<rparr>"
  have valid: "is_valid_public_key (cl_ids L) k" by (rule identity_id_valid [OF assms(5)])
  have can: "canonicalize L c = ?c" by (rule canonicalize_lower [OF assms(4) valid assms(6,8,9)])
  from memory.contacts_add_ok [OF assms(1-3), of c] obtain v s' where s': "Contacts_add L c s = (Ok (), s')" "memory_good s'" "from_slice (cl_json L) v = Some ?c"
    "memory_content s' = (memory_content s)(contact_key k \<mapsto> v, identity_id_index_key i \<mapsto> as_bytes k)"
    unfolding can by (auto simp: assms(5,8))
  have row: "memory_content s' (contact_key k) = Some v" by (simp add: s'(4) contact_keys_distinct)
  have get_k: "Contacts_get L k s' = Some (Ok (Some ?c))" by (rule memory.contacts_get_row [OF s'(2) assms(2) row s'(3)])
  have utf8: "string_from_utf8 (as_bytes k) = Some k" using assms(6) by (intro hex_utf8) (simp add: lower_hex_def)
  have "Contacts_get L i s' = Contacts_get L k s'"
    using assms(7,10) by (intro memory.contacts_get_step [OF s'(2) assms(2) _ _ utf8]) (simp_all add: s'(4) contact_keys_distinct)
  with get_k have get_i: "Contacts_get L i s' = Some (Ok (Some ?c))" by simp
  have remove: "\<exists>s''. Contacts_remove L p s' = Some (Ok (), s'') \<and> memory_good s''
      \<and> memory_content s'' = (memory_content s')(contact_bundle_key k := None, contact_key p := None)" if "Contacts_get L p s' = Some (Ok (Some ?c))" for p
    using that memory.core_remove_ok [OF memory.ignore_laws(3) [OF s'(2), of "contact_bundle_key k"], of "contact_key p"]
    by (auto simp: Contacts_remove_def Let_def assms(2,8) memory.ignore_laws(4) [OF s'(2)])
  from remove [OF get_k] have "\<exists>s''. Contacts_remove L k s' = Some (Ok (), s'') \<and> memory_content s'' (contact_key k) = None \<and> memory_content s'' (contact_bundle_key k) = None"
    by auto
  moreover from remove [OF get_i] obtain s'' where s'': "Contacts_remove L i s' = Some (Ok (), s'')" "memory_good s''"
    "memory_content s'' = (memory_content s')(contact_bundle_key k := None, contact_key i := None)" by blast
  moreover have "Contacts_get L k s'' = Some (Ok (Some ?c))"
    using assms(7) by (intro memory.contacts_get_row [OF s''(2) assms(2) _ s'(3)]) (simp add: s''(3) contact_keys_distinct row)
  moreover have "memory_content s'' (contact_bundle_key k) = None" by (simp add: s''(3))
  moreover have "\<forall>p. p \<noteq> k \<longrightarrow> memory_content s' (contact_key p) = memory_content s (contact_key p)" by (simp add: s'(4) contact_keys_distinct)
  ultimately show ?thesis using s'(1) get_k get_i by (intro exI [of _ s']) blast
qed

theorem contact_lookup_witness:
  "\<exists>s. Contacts_add (sample_contacts no_bundles) sample_contact MemoryStorage_new = (Ok (), s)
     \<and> Contacts_get (sample_contacts no_bundles) sample_identity s = Some (Ok (Some sample_contact))"
proof -
  have c: "ct_public_key sample_contact = sample_key" "sample_contact\<lparr>ct_peer_id := sample_key\<rparr> = sample_contact"
    "ct_peer_id sample_contact = sample_key" by (simp_all add: sample_contact_def Contact_new_def)
  have "trim sample_key \<noteq> []" using identity_id_valid [OF acyclic_ids_key] by (auto simp: trim_hex is_valid_public_key_def split: if_splits)
  with contact_lookup [of MemoryStorage_new "sample_contacts no_bundles" sample_key sample_identity sample_contact] show ?thesis
    by (auto simp: memory_new_good sample_contact_json_correct lowercase_ascii_def acyclic_ids_key sample_key_lower sample_identity_distinct c)
qed

text \<open>
  A contact whose peer id is its key in lower case and whose key has an upper-case digit is stored as it is.
  The index then leads from the identity id to the key in upper case, under which there is no row: the contact
  is found by its key and not by its identity id.
\<close>

lemma contact_case_mismatch:
  assumes "memory_good s" and "cl_vtable L = memory_vtable" and "serde_correct (cl_json L)" and "lowercase_ascii (cl_lowercase L)"
    and "identity_id_from_public_key_hex (cl_ids L) k' = Some i" and "k = map ascii_lower k'" and "k \<noteq> k'" and "i \<noteq> k" and "i \<noteq> k'"
    and "lower_hex k" and "ct_public_key c = k'" and "ct_peer_id c = k"
    and "\<And>p. memory_content s (contact_key p) = None" and "\<And>p. memory_content s (identity_id_index_key p) = None"
  shows "\<exists>s'. Contacts_add L c s = (Ok (), s') \<and> Contacts_get L k s' = Some (Ok (Some c)) \<and> Contacts_get L i s' = Some (Ok None)"
proof -
  have valid: "is_valid_public_key (cl_ids L) k'" by (rule identity_id_valid [OF assms(5)])
  then have h: "length k' = 64" "list_all is_hexdigit k'" "idl_hex_decode (cl_ids L) k' \<noteq> None"
    by (auto simp: is_valid_public_key_def split: if_splits option.splits)
  have low: "cl_lowercase L k' = k" "cl_lowercase L k = k" "trim k = k" "trim k' = k'" "k \<noteq> []"
    using assms(4,6,10) h(1,2) by (auto simp: lowercase_hex trim_hex lower_hex_def)
  have "canonical_hex L c = Some k" using h low by (simp add: canonical_hex_def key_valid_def assms(11))
  then have can: "canonicalize L c = c" using low by (simp add: canonicalize_def Let_def assms(12))
  from memory.contacts_add_ok [OF assms(1-3), of c] obtain v s' where s': "Contacts_add L c s = (Ok (), s')" "memory_good s'" "from_slice (cl_json L) v = Some c"
    "memory_content s' = (memory_content s)(contact_key k \<mapsto> v, identity_id_index_key i \<mapsto> as_bytes k')"
    unfolding can by (auto simp: assms(5,11,12))
  have "Contacts_get L k s' = Some (Ok (Some c))"
    by (rule memory.contacts_get_row [OF s'(2) assms(2) _ s'(3)]) (simp add: s'(4) contact_keys_distinct)
  moreover have "Contacts_get L i s' = Contacts_get L k' s'"
    using assms(8) by (intro memory.contacts_get_step [OF s'(2) assms(2) _ _ hex_utf8 [OF h(2)]]) (simp_all add: s'(4) contact_keys_distinct assms(13))
  moreover have "Contacts_get L k' s' = Some (Ok None)"
    using assms(7,9) by (intro memory.contacts_get_none [OF s'(2) assms(2)]) (simp_all add: s'(4) contact_keys_distinct assms(13,14))
  ultimately show ?thesis using s'(1) by auto
qed

end
