(* ===== verification/Node_Properties.thy ===== *)
theory Node_Properties
  imports Node Contact_Properties
begin

text \<open>
  What a node does with a message it has decrypted: the block list decides whether it is refused or hidden,
  and what is kept where.  At the end, a message prepared by one node is found in the history of another.
\<close>

section \<open>The stores of a node\<close>

lemma any_identifier_no_panic: "(\<And>i. f i \<noteq> Panic) \<Longrightarrow> any_identifier f ids \<noteq> Panic"
proof (induction ids)
  case (Cons i ids)
  then show ?case by (cases "f i") auto
qed simp

lemma drift_key_not_msg: "\<not> starts_with (drift_key u) MSG_PREFIX"
  by (simp add: drift_key_def drift_prefix_def MSG_PREFIX_def starts_with_iff as_bytes_def)

text \<open>A node on the in-memory backend: a readable history \<open>H\<close> and an inbox with the window \<open>w\<close> of ids.\<close>

definition node_ok :: "memory_storage node_libs \<Rightarrow> message_record set \<Rightarrow> bytes list \<Rightarrow> memory_storage node \<Rightarrow> bool" where
  "node_ok L H w n \<longleftrightarrow> history_state memory_content memory_good (nl_history L) H (nd_store n) \<and> hl_vtable (nl_history L) = memory_vtable
     \<and> serde_correct (hl_json (nl_history L)) \<and> (\<exists>c. memory_inbox w c (nd_inbox n)) \<and> serializes (il_audit (nl_ingress L))"

lemma keep_message_ok:
  assumes "node_ok L H w n"
  shows "\<exists>n' w'. keep_message L t hex i hidden m n
      = Some (Ok m, if nd_delegate n then [OnMessageReceived (msg_sender_id m) (msg_sender_id m) (msg_id m) (msg_timestamp m) (msg_payload m)] else [], n')
    \<and> node_ok L ({x \<in> H. mr_id x \<noteq> msg_id m} \<union> {record_of i hidden m}) w' n' \<and> id_hash (nl_inbox L) (msg_id m) \<in> set w'
    \<and> (id_hash (nl_inbox L) (msg_id m) \<in> set w \<longrightarrow> nd_inbox n' = nd_inbox n)
    \<and> same_outside MSG_PREFIX (memory_content (nd_store n)) (memory_content (nd_store n'))
    \<and> (\<exists>e. al_events (nd_audit n') = al_events (nd_audit n) @ [e] \<and> ae_event_type e = MessageReceived \<and> ae_peer_id e = Some i)
    \<and> nd_outbox n' = nd_outbox n \<and> nd_drift n' = nd_drift n \<and> nd_sessions n' = nd_sessions n"
proof -
  let ?h = "id_hash (nl_inbox L) (msg_id m)" and ?r = "record_of i hidden m" and ?A = "il_audit (nl_ingress L)"
  from assms obtain c where n: "history_state memory_content memory_good (nl_history L) H (nd_store n)" "hl_vtable (nl_history L) = memory_vtable"
    "serde_correct (hl_json (nl_history L))" "memory_inbox w c (nd_inbox n)" "serializes ?A" by (auto simp: node_ok_def)
  obtain w' c' b where b: "(if is_duplicate (nl_inbox L) (msg_id m) (nd_store n) (nd_inbox n) then Some (nd_inbox n, nd_logs n, nd_store n)
        else map_option snd (Inbox_receive (nl_inbox L) (rd_maintenance t) (received_of (rd_now t) hex i m) (nd_inbox n) (nd_logs n, nd_store n)))
      = Some (b, nd_logs n, nd_store n)" "memory_inbox w' c' b" "?h \<in> set w'" "?h \<in> set w \<longrightarrow> b = nd_inbox n"
  proof (cases "?h \<in> set w")
    case True
    then show thesis using n(4) by (intro that [of "nd_inbox n" w c]) (simp_all add: memory_inbox_is_duplicate [OF n(4)])
  next
    case False
    have "rm_message_id (received_of (rd_now t) hex i m) = msg_id m" by (simp add: received_of_def)
    with memory_inbox_receive [OF n(4), of "nl_inbox L" "rd_maintenance t" "received_of (rd_now t) hex i m" "(nd_logs n, nd_store n)"] False
    obtain b where "Inbox_receive (nl_inbox L) (rd_maintenance t) (received_of (rd_now t) hex i m) (nd_inbox n) (nd_logs n, nd_store n)
        = Some (True, b, nd_logs n, nd_store n)" "memory_inbox (window MAX_SEEN_IDS (w @ [?h])) (c + 1) b" by auto
    moreover have "?h \<in> set (window MAX_SEEN_IDS (w @ [?h]))" by (simp add: window_def MAX_SEEN_IDS_def)
    ultimately show thesis using False by (intro that [of b "window MAX_SEEN_IDS (w @ [?h])" "c + 1"]) (simp_all add: memory_inbox_is_duplicate [OF n(4)])
  qed
  from memory.history_add [OF n(1-3), of ?r] obtain st where st: "History_add (nl_history L) ?r (nd_store n) = (Ok (), st)"
    "history_state memory_content memory_good (nl_history L) ({x \<in> H. mr_id x \<noteq> mr_id ?r} \<union> {?r}) st"
    "same_outside MSG_PREFIX (memory_content (nd_store n)) (memory_content st)" by blast
  let ?e = "AuditEvent_new (rd_uuid t) (rd_audit t) MessageReceived (nd_identity_id n) (Some i) None (al_last_hash (nd_audit n))"
  let ?audit = "(nd_audit n)\<lparr>al_last_hash := event_hash ?A ?e, al_events := al_events (nd_audit n) @ [?e]\<rparr>"
  let ?n = "n\<lparr>nd_inbox := b, nd_logs := nd_logs n, nd_store := st, nd_audit := ?audit\<rparr>"
  have "AuditLog_append ?A (rd_uuid t) (rd_audit t) MessageReceived (nd_identity_id n) (Some i) None (nd_audit n) = (Ok ?e, ?audit)"
    by (simp add: AuditLog_append_def chain_hash_ok [OF n(5)] Let_def)
  then have "keep_message L t hex i hidden m n
      = Some (Ok m, if nd_delegate n then [OnMessageReceived (msg_sender_id m) (msg_sender_id m) (msg_id m) (msg_timestamp m) (msg_payload m)] else [], ?n)"
    unfolding keep_message_def b(1) by (simp add: st(1) Let_def)
  moreover have "mr_id ?r = msg_id m" by (simp add: record_of_def)
  ultimately show ?thesis using st(2,3) b(2-4) n
    by (intro exI [of _ ?n] exI [of _ w']) (auto simp: node_ok_def AuditEvent_new_def)
qed

text \<open>A history that fits into one query lists every record.\<close>

lemma newest_of_all: "finite M \<Longrightarrow> card M \<le> limit \<Longrightarrow> newest_of limit M rs \<Longrightarrow> set rs = M"
  unfolding newest_of_def by (metis card_subset_eq distinct_card distinct_map min.absorb2)

lemma record_listed:
  assumes "history_state memory_content memory_good HL ({x \<in> H. mr_id x \<noteq> msg_id m} \<union> {record_of i hidden m}) st" and "hl_vtable HL = memory_vtable"
    and "finite H" and "card H < 2 ^ 32 - 1"
  shows "\<exists>rs rs'. History_conversation HL i (2 ^ 32 - 1) st = Ok rs
      \<and> (adjust_legacy_timestamps (record_of i hidden m) \<in> set rs \<longleftrightarrow> \<not> hidden)
      \<and> recent_including_hidden HL (Some i) (2 ^ 32 - 1) st = Ok rs' \<and> adjust_legacy_timestamps (record_of i hidden m) \<in> set rs'"
proof -
  let ?r = "record_of i hidden m" and ?H = "{x \<in> H. mr_id x \<noteq> msg_id m} \<union> {record_of i hidden m}" and ?limit = "2 ^ 32 - 1 :: u32"
  have lim: "unat ?limit = 2 ^ 32 - 1" by simp
  have card: "card {x \<in> adjust_legacy_timestamps ` ?H. P x} \<le> unat ?limit" "finite {x \<in> adjust_legacy_timestamps ` ?H. P x}" for P
  proof -
    have "card {x \<in> adjust_legacy_timestamps ` ?H. P x} \<le> card (adjust_legacy_timestamps ` ?H)" using assms(3) by (intro card_mono) auto
    also have "\<dots> \<le> card ?H" using assms(3) by (intro card_image_le) auto
    also have "\<dots> \<le> card {x \<in> H. mr_id x \<noteq> msg_id m} + 1" using assms(3) by (simp add: card_insert_if)
    also have "\<dots> \<le> card H + 1" using assms(3) by (simp add: card_mono)
    finally show "card {x \<in> adjust_legacy_timestamps ` ?H. P x} \<le> unat ?limit" using assms(4) unfolding lim by linarith
    show "finite {x \<in> adjust_legacy_timestamps ` ?H. P x}" using assms(3) by simp
  qed
  have query: "\<exists>rs. recent_internal HL (Some i) ?limit inc st = Ok rs
      \<and> set rs = {x \<in> adjust_legacy_timestamps ` ?H. (mr_hidden x \<longrightarrow> inc) \<and> (\<forall>p. Some i = Some p \<longrightarrow> eq_ignore_ascii_case (mr_peer_id x) p)}" for inc
  proof -
    from memory.history_recent [OF assms(1,2), of "Some i" ?limit inc] obtain rs where rs: "recent_internal HL (Some i) ?limit inc st = Ok rs"
      "newest_of (unat ?limit) {x \<in> adjust_legacy_timestamps ` ?H. (mr_hidden x \<longrightarrow> inc) \<and> (\<forall>p. Some i = Some p \<longrightarrow> eq_ignore_ascii_case (mr_peer_id x) p)} rs"
      by blast
    from newest_of_all [OF card(2) card(1) rs(2)] rs(1) show ?thesis by (intro exI [of _ rs]) (rule conjI)
  qed
  have mem: "adjust_legacy_timestamps ?r \<in> {x \<in> adjust_legacy_timestamps ` ?H. (mr_hidden x \<longrightarrow> inc) \<and> (\<forall>p. Some i = Some p \<longrightarrow> eq_ignore_ascii_case (mr_peer_id x) p)}
      \<longleftrightarrow> (hidden \<longrightarrow> inc)" for inc by (simp add: record_of_def eq_ignore_ascii_case_def)
  obtain rs where rs: "recent_internal HL (Some i) ?limit False st = Ok rs" "adjust_legacy_timestamps ?r \<in> set rs \<longleftrightarrow> \<not> hidden"
    using query [of False] mem [of False] by (elim exE conjE) simp
  obtain rs' where rs': "recent_internal HL (Some i) ?limit True st = Ok rs'" "adjust_legacy_timestamps ?r \<in> set rs'"
    using query [of True] mem [of True] by (elim exE conjE) simp
  show ?thesis unfolding History_conversation_def History_recent_def recent_including_hidden_def
    by (intro exI [of _ rs] exI [of _ rs'] conjI) (fact rs rs')+
qed

text \<open>Receipts touch the outbox and the Drift store only.\<close>

lemma mark_message_sent_ok:
  assumes "node_ok L H w n" and "sl_vtable (nl_drift L) = memory_vtable" and "mark_message_sent L mid n = (r, n')"
  shows "node_ok L H w n'" "nd_inbox n' = nd_inbox n" "nd_audit n' = nd_audit n" "nd_sessions n' = nd_sessions n"
    "nd_outbox n' = snd (Outbox_remove (nl_outbox L) mid (nd_outbox n))"
proof -
  obtain b ob where o: "Outbox_remove (nl_outbox L) mid (nd_outbox n) = (b, ob)" by fastforce
  have good: "memory_good (nd_store n)" using assms(1) by (simp add: node_ok_def history_state_def)
  have "(\<exists>d st. n' = n\<lparr>nd_outbox := ob, nd_drift := d, nd_store := st\<rparr> \<and> memory_good st
      \<and> (\<forall>k. starts_with k MSG_PREFIX \<longrightarrow> memory_content st k = memory_content (nd_store n) k))"
  proof (cases "nl_uuid L mid")
    case None
    then show ?thesis using assms(3) good
      by (intro exI [of _ "nd_drift n"] exI [of _ "nd_store n"]) (auto simp: mark_message_sent_def o Let_def)
  next
    case (Some u)
    let ?d = "(nd_drift n)\<lparr>mst_backend := Some (nd_store n)\<rparr>"
    from memory.remove_law [OF good, of "drift_key u"] obtain st where st: "vt_remove memory_vtable (drift_key u) (nd_store n) = (Ok (), st)"
      "memory_good st" "memory_content st = (memory_content (nd_store n))(drift_key u := None)" by blast
    have key: "\<not> starts_with (drift_key u) MSG_PREFIX" by (rule drift_key_not_msg)
    show ?thesis
    proof (cases "hm_contains (mst_messages (nd_drift n)) u")
      case True
      then have "n' = n\<lparr>nd_outbox := ob, nd_drift := (nd_drift n)\<lparr>mst_messages := hm_remove u (mst_messages (nd_drift n)), mst_backend := None\<rparr>, nd_store := st\<rparr>"
        using assms(3) by (simp add: mark_message_sent_def o Some MeshStore_remove_def assms(2) st(1) Let_def)
      moreover have "\<forall>k. starts_with k MSG_PREFIX \<longrightarrow> memory_content st k = memory_content (nd_store n) k" using key by (auto simp: st(3))
      ultimately show ?thesis using st(2) by blast
    next
      case False
      then have "n' = n\<lparr>nd_outbox := ob, nd_drift := (nd_drift n)\<lparr>mst_backend := None\<rparr>, nd_store := nd_store n\<rparr>"
        using assms(3) o by (cases n) (auto simp: mark_message_sent_def Some MeshStore_remove_def Let_def)
      then show ?thesis using good by blast
    qed
  qed
  then obtain d st where n': "n' = n\<lparr>nd_outbox := ob, nd_drift := d, nd_store := st\<rparr>" "memory_good st"
    "\<forall>k. starts_with k MSG_PREFIX \<longrightarrow> memory_content st k = memory_content (nd_store n) k" by blast
  have "rows_wf (memory_content st) (hl_json (nl_history L)) MSG_PREFIX record_key = rows_wf (memory_content (nd_store n)) (hl_json (nl_history L)) MSG_PREFIX record_key"
    "rows (memory_content st) (hl_json (nl_history L)) MSG_PREFIX = rows (memory_content (nd_store n)) (hl_json (nl_history L)) MSG_PREFIX"
    using n'(3) by (intro rows_other; simp)+
  then show "node_ok L H w n'" using assms(1) n'(2) by (simp add: n'(1) node_ok_def history_state_def)
  show "nd_inbox n' = nd_inbox n" "nd_audit n' = nd_audit n" "nd_sessions n' = nd_sessions n"
    "nd_outbox n' = snd (Outbox_remove (nl_outbox L) mid (nd_outbox n))" by (simp_all add: n'(1) o)
qed

lemma handle_receipt_ok:
  assumes "node_ok L H w n" and "sl_vtable (nl_drift L) = memory_vtable"
  shows "node_ok L H w (snd (handle_receipt L m n))" "nd_inbox (snd (handle_receipt L m n)) = nd_inbox n"
    "nd_audit (snd (handle_receipt L m n)) = nd_audit n" "nd_sessions (snd (handle_receipt L m n)) = nd_sessions n"
proof -
  obtain r n' where "mark_message_sent L (rc_message_id (the (nl_receipt L (msg_payload m)))) n = (r, n')" by fastforce
  note mark = this mark_message_sent_ok [OF assms this]
  show "node_ok L H w (snd (handle_receipt L m n))" "nd_inbox (snd (handle_receipt L m n)) = nd_inbox n"
    "nd_audit (snd (handle_receipt L m n)) = nd_audit n" "nd_sessions (snd (handle_receipt L m n)) = nd_sessions n"
    using mark assms(1) by (auto simp: handle_receipt_def split: option.splits)
qed

section \<open>The block list\<close>

lemma block_policy_ok:
  assumes "memory_good st" and "bk_vtable L = memory_vtable"
  shows "block_policy L p d st =
    (if is_blocked_and_deleted_resolved L p st = Ok False then Ok (is_blocked_resolved L p d st = Ok True) else Err Blocked)"
proof -
  have "is_blocked_and_deleted_resolved L p st \<noteq> Panic"
    unfolding is_blocked_and_deleted_resolved_def
    by (rule any_identifier_no_panic)
      (auto simp: is_blocked_and_deleted_exact_def memory.core_get_ok [OF assms(1)] assms(2) decode_row_def split: option.splits)
  then show ?thesis
    using memory.is_blocked_ok [OF assms, of p d] by (auto simp: block_policy_def split: result.splits bool.splits)
qed

text \<open>A decrypted message goes through the block list to the receipts or to the stores.\<close>

lemma receive_run:
  assumes "node_ok L H w n" and "bk_vtable (nl_blocked L) = memory_vtable" and "sender_bundle L bs n = Some bundle"
    and "receive_message (nl_ingress L) rnd (nd_keys n) ours (\<lambda>_. bundle) bs (nd_sessions n) = (Ok (m, pk), ss)"
    and "k = idl_hex_encode (cl_ids (nl_contacts L)) pk" and "identity_id_from_public_key_hex (cl_ids (nl_contacts L)) k = Some i"
    and "sender_device_id (nl_contacts L) [k, i] (nd_store n) = Some (Ok d)"
  shows "node_ok L H w (n\<lparr>nd_sessions := ss\<rparr>)"
    and "IronCore_receive_message L rnd ours t bs n =
      (if is_blocked_and_deleted_resolved (nl_blocked L) (''pk:'' @ k) (nd_store n) = Ok False
       then if msg_type m = MReceipt then (case handle_receipt L m (n\<lparr>nd_sessions := ss\<rparr>) of (ev, n') \<Rightarrow> Some (Ok m, ev, n'))
            else keep_message L t k i (is_blocked_resolved (nl_blocked L) (''pk:'' @ k) d (nd_store n) = Ok True) m (n\<lparr>nd_sessions := ss\<rparr>)
       else Some (Err Blocked, [], n\<lparr>nd_sessions := ss\<rparr>))"
proof -
  show "node_ok L H w (n\<lparr>nd_sessions := ss\<rparr>)" using assms(1) by (simp add: node_ok_def)
  have good: "memory_good (nd_store n)" using assms(1) by (simp add: node_ok_def history_state_def)
  show "IronCore_receive_message L rnd ours t bs n =
      (if is_blocked_and_deleted_resolved (nl_blocked L) (''pk:'' @ k) (nd_store n) = Ok False
       then if msg_type m = MReceipt then (case handle_receipt L m (n\<lparr>nd_sessions := ss\<rparr>) of (ev, n') \<Rightarrow> Some (Ok m, ev, n'))
            else keep_message L t k i (is_blocked_resolved (nl_blocked L) (''pk:'' @ k) d (nd_store n) = Ok True) m (n\<lparr>nd_sessions := ss\<rparr>)
       else Some (Err Blocked, [], n\<lparr>nd_sessions := ss\<rparr>))"
    using assms(6,7) block_policy_ok [OF good assms(2)]
    by (simp add: IronCore_receive_message_def assms(3,4) deliver_message_def assms(5) [symmetric] PUBLIC_KEY_PREFIX_def Let_def)
qed

section \<open>Properties\<close>

text \<open>
  C6.  What happens to a message after it was decrypted and its sender authenticated.  A sender that is blocked
  and deleted, or whose entry cannot be read, is refused and leaves no trace but the ratchet session.  A receipt
  touches neither the history nor the inbox nor the audit log.  Any other message replaces the history record
  with its id, attributed to the identity of the authenticated key and hidden exactly if that peer or the
  device known for it is blocked; its id is remembered, and one audit event is written.
\<close>

theorem receive_policy:
  assumes "node_ok L H w n" and "bk_vtable (nl_blocked L) = memory_vtable" and "sl_vtable (nl_drift L) = memory_vtable"
    and "sender_bundle L bs n = Some bundle"
    and "receive_message (nl_ingress L) rnd (nd_keys n) ours (\<lambda>_. bundle) bs (nd_sessions n) = (Ok (m, pk), ss)"
    and "k = idl_hex_encode (cl_ids (nl_contacts L)) pk" and "identity_id_from_public_key_hex (cl_ids (nl_contacts L)) k = Some i"
    and "sender_device_id (nl_contacts L) [k, i] (nd_store n) = Some (Ok d)"
  shows "(is_blocked_and_deleted_resolved (nl_blocked L) (''pk:'' @ k) (nd_store n) \<noteq> Ok False \<longrightarrow>
      IronCore_receive_message L rnd ours t bs n = Some (Err Blocked, [], n\<lparr>nd_sessions := ss\<rparr>))
    \<and> (is_blocked_and_deleted_resolved (nl_blocked L) (''pk:'' @ k) (nd_store n) = Ok False \<and> msg_type m = MReceipt \<longrightarrow>
      (\<exists>ev n'. IronCore_receive_message L rnd ours t bs n = Some (Ok m, ev, n') \<and> node_ok L H w n'
        \<and> nd_inbox n' = nd_inbox n \<and> nd_audit n' = nd_audit n))
    \<and> (is_blocked_and_deleted_resolved (nl_blocked L) (''pk:'' @ k) (nd_store n) = Ok False \<and> msg_type m \<noteq> MReceipt \<longrightarrow>
      (\<exists>ev n' w'. IronCore_receive_message L rnd ours t bs n = Some (Ok m, ev, n')
        \<and> node_ok L ({x \<in> H. mr_id x \<noteq> msg_id m} \<union> {record_of i (is_blocked_resolved (nl_blocked L) (''pk:'' @ k) d (nd_store n) = Ok True) m}) w' n'
        \<and> id_hash (nl_inbox L) (msg_id m) \<in> set w' \<and> (id_hash (nl_inbox L) (msg_id m) \<in> set w \<longrightarrow> nd_inbox n' = nd_inbox n)
        \<and> (\<exists>e. al_events (nd_audit n') = al_events (nd_audit n) @ [e] \<and> ae_event_type e = MessageReceived \<and> ae_peer_id e = Some i)
        \<and> nd_outbox n' = nd_outbox n \<and> nd_drift n' = nd_drift n))"
proof -
  let ?n = "n\<lparr>nd_sessions := ss\<rparr>" and ?p = "''pk:'' @ k" and ?B = "nl_blocked L"
  note n = receive_run(1) [OF assms(1,2,4-8)] and run = receive_run(2) [OF assms(1,2,4-8), of t]
  obtain ev n' where r: "handle_receipt L m ?n = (ev, n')" by fastforce
  with handle_receipt_ok [OF n assms(3), of m] have "node_ok L H w n'" "nd_inbox n' = nd_inbox n" "nd_audit n' = nd_audit n" by simp_all
  then have receipt: "msg_type m = MReceipt \<Longrightarrow> is_blocked_and_deleted_resolved ?B ?p (nd_store n) = Ok False \<Longrightarrow>
      IronCore_receive_message L rnd ours t bs n = Some (Ok m, ev, n') \<and> node_ok L H w n' \<and> nd_inbox n' = nd_inbox n \<and> nd_audit n' = nd_audit n"
    by (simp add: run r)
  from keep_message_ok [OF n, of t k i "is_blocked_resolved ?B ?p d (nd_store n) = Ok True" m] show ?thesis
    using receipt by (auto simp: run)
qed

text \<open>
  C23.  Message ids are not bound to peers.  A delivery receipt from any sender that is not blocked and deleted
  removes the message it names from the outbox, whoever the message is for.  A message with the id of a record
  in the history replaces that record, whoever it was exchanged with and whoever wrote it.
\<close>

theorem message_ids_trusted:
  assumes "node_ok L H w n" and "bk_vtable (nl_blocked L) = memory_vtable" and "sl_vtable (nl_drift L) = memory_vtable"
    and "sender_bundle L bs n = Some bundle"
    and "receive_message (nl_ingress L) rnd (nd_keys n) ours (\<lambda>_. bundle) bs (nd_sessions n) = (Ok (m, pk), ss)"
    and "k = idl_hex_encode (cl_ids (nl_contacts L)) pk" and "identity_id_from_public_key_hex (cl_ids (nl_contacts L)) k = Some i"
    and "sender_device_id (nl_contacts L) [k, i] (nd_store n) = Some (Ok d)"
    and "is_blocked_and_deleted_resolved (nl_blocked L) (''pk:'' @ k) (nd_store n) = Ok False" and "memory_inv (nd_outbox n)"
  shows "(\<forall>r x. msg_type m = MReceipt \<and> nl_receipt L (msg_payload m) = Some r \<and> rc_status r = DDelivered
        \<and> x \<in> memory_held (nd_outbox n) \<and> qm_message_id x = rc_message_id r \<longrightarrow>
        (\<exists>ev n'. IronCore_receive_message L rnd ours t bs n = Some (Ok m, ev, n') \<and> x \<notin> memory_held (nd_outbox n')))
    \<and> (\<forall>y \<in> H. msg_type m \<noteq> MReceipt \<and> mr_id y = msg_id m \<longrightarrow>
        (\<exists>ev n' r. IronCore_receive_message L rnd ours t bs n = Some (Ok m, ev, n')
          \<and> History_get (nl_history L) (mr_id y) (nd_store n') = Ok (Some r) \<and> mr_peer_id r = i \<and> mr_direction r = Received))"
proof -
  let ?n = "n\<lparr>nd_sessions := ss\<rparr>"
  note n = receive_run(1) [OF assms(1,2,4-8)] and run = receive_run(2) [OF assms(1,2,4-8), of t]
  have "\<exists>ev n'. IronCore_receive_message L rnd ours t bs n = Some (Ok m, ev, n') \<and> x \<notin> memory_held (nd_outbox n')"
    if r: "msg_type m = MReceipt" "nl_receipt L (msg_payload m) = Some r" "rc_status r = DDelivered" "qm_message_id x = rc_message_id r" for r x
  proof -
    obtain b n' where n': "mark_message_sent L (rc_message_id r) ?n = (b, n')" by fastforce
    have "nd_outbox n' = snd (Outbox_remove (nl_outbox L) (rc_message_id r) (nd_outbox n))" using mark_message_sent_ok(5) [OF n assms(3) n'] by simp
    moreover from memory_remove [OF assms(10), of "nl_outbox L" "rc_message_id r"] obtain c ob where
      "Outbox_remove (nl_outbox L) (rc_message_id r) (nd_outbox n) = (c, ob) \<and> memory_inv ob
       \<and> (c, memory_held ob) = spec_remove (rc_message_id r) (memory_held (nd_outbox n))" by (elim exE)
    ultimately have "x \<notin> memory_held (nd_outbox n')" using r(4) by (simp add: spec_remove_def has_id_def)
    moreover obtain ev where "handle_receipt L m ?n = (ev, n')" using r n' by (simp add: handle_receipt_def)
    ultimately show ?thesis using r(1) unfolding run assms(9) by simp
  qed
  moreover have "\<exists>ev n' r. IronCore_receive_message L rnd ours t bs n = Some (Ok m, ev, n')
          \<and> History_get (nl_history L) (mr_id y) (nd_store n') = Ok (Some r) \<and> mr_peer_id r = i \<and> mr_direction r = Received"
    if "msg_type m \<noteq> MReceipt" "mr_id y = msg_id m" for y
  proof -
    obtain hidden where hidden: "(is_blocked_resolved (nl_blocked L) (''pk:'' @ k) d (nd_store n) = Ok True) = hidden" by blast
    let ?r = "record_of i hidden m"
    from keep_message_ok [OF n, of t k i hidden m] obtain ev n' w' where k: "keep_message L t k i hidden m ?n = Some (Ok m, ev, n')"
      "node_ok L ({x \<in> H. mr_id x \<noteq> msg_id m} \<union> {?r}) w' n'" by blast
    from k(2) have h: "history_state memory_content memory_good (nl_history L) ({x \<in> H. mr_id x \<noteq> msg_id m} \<union> {?r}) (nd_store n')"
      "hl_vtable (nl_history L) = memory_vtable" unfolding node_ok_def by blast+
    have "History_get (nl_history L) (mr_id ?r) (nd_store n') = Ok (Some (adjust_legacy_timestamps ?r))"
      by (rule memory.history_get(1) [OF h]) simp
    moreover have "mr_id ?r = msg_id m" "mr_peer_id (adjust_legacy_timestamps ?r) = i" "mr_direction (adjust_legacy_timestamps ?r) = Received"
      by (simp_all add: record_of_def adjust_legacy_timestamps_def)
    moreover have "IronCore_receive_message L rnd ours t bs n = Some (Ok m, ev, n')" using k(1) that(1) unfolding run assms(9) hidden by simp
    ultimately show ?thesis using that(2) by (intro exI [of _ ev] exI [of _ n'] exI [of _ "adjust_legacy_timestamps ?r"]) simp
  qed
  ultimately show ?thesis by blast
qed

text \<open>
  C2.  From one node to the history of another.  Two nodes have no session with each other and the recipient
  knows the sender's bundle.  When the recipient gets the bytes that the sender prepared for a text message, and
  has not blocked and deleted the sender, it keeps the message under the sender's identity id.  The message is
  part of the conversation with that identity exactly if the sender is not blocked; if the sender is blocked,
  only the query that includes hidden messages shows it.
\<close>

theorem message_reaches_history:
  assumes L: "dh_symmetric (il_crypto I)" "aead_correct (il_crypto I)" "mlkem_correct (il_crypto I)" "key_conversion (il_crypto I)"
      "sized_libs (il_crypto I)"
    and C: "bincode_correct (il_codec I)"
    and D: "drift_correct (il_drift I) (nk_signing ka) pk"
    and k: "bundle_of (il_crypto I) ka ba" "bundle_of (il_crypto I) kb bb" and known: "ours = None \<or> ours = Some ba" "their = None \<or> their = Some bb"
    and pk: "pk = ed25519_public (il_crypto I) (nk_signing ka)"
    and sessions: "\<not> has_session sa recipient" "\<not> has_session (nd_sessions n) (peer_of (il_crypto I) (il_sessions I) pk)"
    and nonce: "length (er_nonce rnd) = 24"
    and send: "prepare_envelope I srnd rnd uuid now clock ka ours their recipient (ed25519_public (il_crypto I) (nk_signing kb)) m sa audit
      = (Ok bs, sa', audit')"
    and node: "nl_ingress NL = I" "nd_keys n = Some kb" "node_ok NL H w n" "finite H" "card H < 2 ^ 32 - 1" "bk_vtable (nl_blocked NL) = memory_vtable"
    and contact: "get_contact_bundle (nl_contacts NL) (idl_hex_encode (cl_ids (nl_contacts NL)) pk) (nd_store n) = Some (Ok (Some ba))"
    and identity: "identity_id_from_public_key_hex (cl_ids (nl_contacts NL)) (idl_hex_encode (cl_ids (nl_contacts NL)) pk) = Some i"
    and device: "sender_device_id (nl_contacts NL) [idl_hex_encode (cl_ids (nl_contacts NL)) pk, i] (nd_store n) = Some (Ok d)"
    and allowed: "is_blocked_and_deleted_resolved (nl_blocked NL) (''pk:'' @ idl_hex_encode (cl_ids (nl_contacts NL)) pk) (nd_store n) = Ok False"
    and body: "msg_type m = Text" "string_from_utf8 (msg_payload m) = Some txt"
  shows "\<exists>ev n' rs rs' r. IronCore_receive_message NL drnd (Some bb) t bs n = Some (Ok m, ev, n')
    \<and> History_conversation (nl_history NL) i (2 ^ 32 - 1) (nd_store n') = Ok rs
    \<and> recent_including_hidden (nl_history NL) (Some i) (2 ^ 32 - 1) (nd_store n') = Ok rs'
    \<and> mr_id r = msg_id m \<and> mr_content r = txt \<and> mr_peer_id r = i \<and> mr_direction r = Received \<and> r \<in> set rs'
    \<and> (r \<in> set rs \<longleftrightarrow> is_blocked_resolved (nl_blocked NL) (''pk:'' @ idl_hex_encode (cl_ids (nl_contacts NL)) pk) d (nd_store n) = Ok False)"
proof -
  let ?hex = "idl_hex_encode (cl_ids (nl_contacts NL)) pk"
  obtain hidden where hidden: "(is_blocked_resolved (nl_blocked NL) (''pk:'' @ ?hex) d (nd_store n) = Ok True) = hidden" by blast
  have good: "memory_good (nd_store n)" using node(3) by (simp add: node_ok_def history_state_def)
  from prepared_is_received [where contacts = "\<lambda>_. Some ba" and drnd = drnd, OF L C D [unfolded pk] k known refl sessions(1) sessions(2) [unfolded pk] nonce send]
  obtain v sb where r: "authenticate_wire I bs = Ok v" "wire_sender v = pk"
    "receive_message I drnd (Some kb) (Some bb) (\<lambda>_. Some ba) bs (nd_sessions n) = (Ok (m, pk), sb)" unfolding pk by blast
  have b: "sender_bundle NL bs n = Some (Some ba)" by (simp add: sender_bundle_def node(1,2) r(1,2) contact)
  have rec: "receive_message (nl_ingress NL) drnd (nd_keys n) (Some bb) (\<lambda>_. Some ba) bs (nd_sessions n) = (Ok (m, pk), sb)"
    using r(3) by (simp add: node(1,2))
  note n = receive_run(1) [OF node(3,6) b rec refl identity device] and run = receive_run(2) [OF node(3,6) b rec refl identity device, of t]
  let ?H = "{x \<in> H. mr_id x \<noteq> msg_id m} \<union> {record_of i hidden m}"
  from keep_message_ok [OF n, of t ?hex i hidden m] obtain ev n' w' where
    keep: "keep_message NL t ?hex i hidden m (n\<lparr>nd_sessions := sb\<rparr>) = Some (Ok m, ev, n')" "node_ok NL ?H w' n'" by blast
  then have res: "IronCore_receive_message NL drnd (Some bb) t bs n = Some (Ok m, ev, n')" using body(1) unfolding run allowed hidden by simp
  from keep(2) have h: "history_state memory_content memory_good (nl_history NL) ?H (nd_store n')" "hl_vtable (nl_history NL) = memory_vtable"
    unfolding node_ok_def by blast+
  let ?r = "adjust_legacy_timestamps (record_of i hidden m)"
  obtain rs rs' where q: "History_conversation (nl_history NL) i (2 ^ 32 - 1) (nd_store n') = Ok rs" "?r \<in> set rs \<longleftrightarrow> \<not> hidden"
    "recent_including_hidden (nl_history NL) (Some i) (2 ^ 32 - 1) (nd_store n') = Ok rs'" "?r \<in> set rs'"
    using record_listed [OF h node(4,5)] by blast
  have "hidden \<longleftrightarrow> is_blocked_resolved (nl_blocked NL) (''pk:'' @ ?hex) d (nd_store n) \<noteq> Ok False"
    using hidden memory.is_blocked_ok [OF good node(6), of "''pk:'' @ ?hex" d] by auto
  with q res body show ?thesis
    by (intro exI [of _ ev] exI [of _ n'] exI [of _ rs] exI [of _ rs'] exI [of _ ?r]) (simp add: record_of_def)
qed

section \<open>A concrete node\<close>

definition sample_sender :: bytes where
  "sample_sender = ed25519_public sized_crypto (nk_signing (sample_keys 40))"

definition sample_sender_hex :: string where
  "sample_sender_hex = sample_hex sample_sender"

definition sample_node_libs :: "memory_storage node_libs" where
  "sample_node_libs = \<lparr>nl_ingress = sample_ingress,
     nl_contacts = sample_contacts \<lparr>to_vec = (\<lambda>_. Some [1]), from_slice = (\<lambda>_. Some (sample_public 40))\<rparr>,
     nl_blocked = sample_blocked, nl_history = sample_history, nl_inbox = sample_inbox, nl_outbox = sample_outbox_libs,
     nl_drift = sample_store_libs, nl_receipt = (\<lambda>_. None), nl_uuid = (\<lambda>_. None)\<rparr>"

definition sample_node :: "memory_storage \<Rightarrow> memory_storage node" where
  "sample_node st = \<lparr>nd_keys = Some (sample_keys 50), nd_identity_id = None, nd_sessions = SessionManager_new, nd_inbox = Inbox_new,
     nd_outbox = Outbox_new, nd_drift = MeshStore_new, nd_audit = AuditLog_new, nd_logs = \<lparr>lm_install_time = 0, lm_cache = []\<rparr>,
     nd_delegate = True, nd_store = st\<rparr>"

lemma sample_node_simps [simp]:
  "nl_ingress sample_node_libs = sample_ingress" "nl_blocked sample_node_libs = sample_blocked" "nl_history sample_node_libs = sample_history"
  "nl_inbox sample_node_libs = sample_inbox" "nl_drift sample_node_libs = sample_store_libs"
  "nd_keys (sample_node st) = Some (sample_keys 50)" "nd_sessions (sample_node st) = SessionManager_new" "nd_store (sample_node st) = st"
  "nd_outbox (sample_node st) = Outbox_new" "nd_inbox (sample_node st) = Inbox_new"
  "cl_vtable (nl_contacts sample_node_libs) = memory_vtable" "cl_ids (nl_contacts sample_node_libs) = acyclic_ids"
  "cl_bundle (nl_contacts sample_node_libs) = \<lparr>to_vec = (\<lambda>_. Some [1]), from_slice = (\<lambda>_. Some (sample_public 40))\<rparr>"
  by (simp_all add: sample_node_libs_def sample_node_def sample_contacts_def)

lemma sample_sender_identity: "identity_id_from_public_key_hex acyclic_ids sample_sender_hex = Some sample_identity"
proof -
  have "sample_sender = pad 32 [40]" by (simp add: sample_sender_def sample_keys_def sized_crypto_def toy_crypto_def)
  then have sender: "sample_sender = 40 # replicate 31 0" by (simp add: pad_def numeral_eq_Suc)
  have "length sample_sender = 32" by (simp add: sender)
  moreover have "sample_sender \<noteq> replicate 32 7"
  proof
    assume "sample_sender = replicate 32 7"
    then have "hd sample_sender = hd (replicate 32 (7 :: byte))" by simp
    then show False by (simp add: sender)
  qed
  ultimately show ?thesis
    by (simp add: identity_id_from_public_key_hex_def is_valid_public_key_def acyclic_ids_def sample_ids_def sample_sender_hex_def sample_identity_def sample_hex_correct)
qed

lemma sample_hex_encode: "idl_hex_encode acyclic_ids sample_sender = sample_sender_hex"
  by (simp add: acyclic_ids_def sample_ids_def sample_sender_hex_def)

text \<open>Its backend: the bundle of the sender, and a record with the id of the message that will come.\<close>

lemma not_msg_keys: "\<not> starts_with (contact_key p) MSG_PREFIX" "\<not> starts_with (identity_id_index_key p) MSG_PREFIX"
  "\<not> starts_with (contact_bundle_key p) MSG_PREFIX" "\<not> starts_with (block_key p d) MSG_PREFIX"
  by (cases d; simp add: contact_key_def identity_id_index_key_def contact_bundle_key_def block_key_def BLOCKED_PREFIX_def MSG_PREFIX_def starts_with_iff as_bytes_def)+

lemma sample_backend:
  obtains st where "history_state memory_content memory_good sample_history {sample_record ''id'' 5} st"
    "memory_content st (contact_bundle_key sample_sender_hex) = Some [1]" "\<And>p. memory_content st (contact_key p) = None"
    "\<And>p. memory_content st (identity_id_index_key p) = None" "\<And>p d. memory_content st (block_key p d) = None"
proof -
  from memory.core_put_ok [OF memory_new_good(1), of "contact_bundle_key sample_sender_hex" "[1]"] obtain s where
    s: "memory_good s" "memory_content s = [contact_bundle_key sample_sender_hex \<mapsto> [1]]" by (auto simp: memory_new_good)
  have "history_state memory_content memory_good sample_history {} s"
    using s(1) not_msg_keys(3) by (auto simp: history_state_def s(2) rows_wf_def rows_def split: if_splits)
  from memory.history_add [OF this, of "sample_record ''id'' 5"] obtain st where
    st: "history_state memory_content memory_good sample_history {sample_record ''id'' 5} st" "same_outside MSG_PREFIX (memory_content s) (memory_content st)"
    by (auto simp: sample_record_json_correct)
  then have "memory_content st k = memory_content s k" if "\<not> starts_with k MSG_PREFIX" for k using that by (simp add: same_outside_def)
  with not_msg_keys st(1) show thesis
    by (intro that [of st]) (simp_all add: s(2) contact_keys_distinct, simp add: block_key_def contact_bundle_key_def as_bytes_eq BLOCKED_PREFIX_def split: option.split)
qed

definition sample_state :: "memory_storage \<Rightarrow> bool" where
  "sample_state st \<longleftrightarrow> history_state memory_content memory_good sample_history {sample_record ''id'' 5} st
     \<and> memory_content st (contact_bundle_key sample_sender_hex) = Some [1] \<and> (\<forall>p. memory_content st (contact_key p) = None)
     \<and> (\<forall>p. memory_content st (identity_id_index_key p) = None) \<and> (\<forall>p d. memory_content st (block_key p d) = None)"

lemma sample_state_exists: "\<exists>st. sample_state st"
  unfolding sample_state_def using sample_backend by metis

lemma sample_state_good: "sample_state st \<Longrightarrow> memory_good st"
  by (simp add: sample_state_def history_state_def)

lemma sample_bundle_found: "sample_state st \<Longrightarrow> get_contact_bundle (nl_contacts sample_node_libs) sample_sender_hex st = Some (Ok (Some (sample_public 40)))"
  using sample_state_good [of st]
  by (subst get_contact_bundle.simps) (simp add: sample_state_def memory.core_get_ok decode_row_def)

lemma sample_device: "sample_state st \<Longrightarrow> sender_device_id (nl_contacts sample_node_libs) [k, i] st = Some (Ok None)"
  using sample_state_good [of st] by (simp add: sample_state_def memory.contacts_get_none)

lemma any_identifier_False: "(\<And>i. f i = Ok False) \<Longrightarrow> any_identifier f ids = Ok False"
  by (induction ids) simp_all

lemma sample_allowed: "sample_state st \<Longrightarrow> is_blocked_and_deleted_resolved sample_blocked p st = Ok False"
  unfolding is_blocked_and_deleted_resolved_def using sample_state_good [of st]
  by (intro any_identifier_False) (simp add: is_blocked_and_deleted_exact_def sample_state_def memory.core_get_ok sample_blocked_def split: prod.split)

lemma sample_node_ok: "sample_state st \<Longrightarrow> node_ok sample_node_libs {sample_record ''id'' 5} [] (sample_node st)"
  using memory_inbox_new by (auto simp: node_ok_def sample_state_def sample_record_json_correct sample_ingress_def toy_audit_laws)

lemma sample_received:
  assumes "sample_state st"
  shows "\<exists>bs ss. sender_bundle sample_node_libs bs (sample_node st) = Some (Some (sample_public 40))
    \<and> receive_message sample_ingress sample_drnd (Some (sample_keys 50)) (Some (sample_public 50)) (\<lambda>_. Some (sample_public 40)) bs
        (SessionManager_new :: memory_storage session_manager) = (Ok (sample_message, sample_sender), ss)"
proof -
  have I: "il_crypto sample_ingress = sized_crypto" "il_codec sample_ingress = sample_codec" "il_drift sample_ingress = sample_libs"
    by (simp_all add: sample_ingress_def)
  have none: "\<not> has_session (SessionManager_new :: memory_storage session_manager) p" for p
    by (simp add: SessionManager_new_def has_session_def hm_contains_def)
  obtain bs s' a' where p: "prepare_envelope sample_ingress sample_rnd (toy_rnd 7) ''u'' 5 (Inr 100) (sample_keys 40) None None ''peer''
      (ed25519_public (il_crypto sample_ingress) (nk_signing (sample_keys 50))) sample_message (SessionManager_new :: memory_storage session_manager) AuditLog_new = (Ok bs, s', a')"
    using sample_prepared by (auto simp: I)
  have "\<exists>w ss. authenticate_wire sample_ingress bs = Ok w \<and> wire_sender w = ed25519_public (il_crypto sample_ingress) (nk_signing (sample_keys 40))
    \<and> receive_message sample_ingress sample_drnd (Some (sample_keys 50)) (Some (sample_public 50)) (\<lambda>_. Some (sample_public 40)) bs
      (SessionManager_new :: memory_storage session_manager) = (Ok (sample_message, ed25519_public (il_crypto sample_ingress) (nk_signing (sample_keys 40))), ss)"
    by (rule prepared_is_received [OF _ _ _ _ _ _ _ _ _ disjI1 [OF refl] disjI1 [OF refl] _ none none _ p])
      (simp_all add: I sample_ingress_correct sized_crypto_sizes sample_codec_correct sample_bundle_of toy_rnd_def)
  then obtain w ss where w: "authenticate_wire sample_ingress bs = Ok w" "wire_sender w = sample_sender"
    "receive_message sample_ingress sample_drnd (Some (sample_keys 50)) (Some (sample_public 50)) (\<lambda>_. Some (sample_public 40)) bs
      (SessionManager_new :: memory_storage session_manager) = (Ok (sample_message, sample_sender), ss)"
    by (auto simp: I sample_sender_def)
  then show ?thesis
    by (intro exI [of _ bs] exI [of _ ss]) (simp add: sender_bundle_def sample_hex_encode sample_bundle_found [OF assms])
qed

lemma sample_unblocked: "sample_state st \<Longrightarrow> is_blocked_resolved sample_blocked p d st = Ok False"
  unfolding is_blocked_resolved_def using sample_state_good [of st]
  by (intro any_identifier_False, cases d) (simp_all add: is_blocked_exact_def sample_state_def memory.core_get_ok)

definition sample_readings :: readings where
  "sample_readings = \<lparr>rd_now = 100, rd_maintenance = 100, rd_uuid = ''u'', rd_audit = 100\<rparr>"

lemma sample_message_simps: "msg_id sample_message = ''id''" "msg_type sample_message = Text" "msg_payload sample_message = [1, 2, 3]"
  by (simp_all add: sample_message_def)

lemma sample_sender_laws:
  "bk_vtable (nl_blocked sample_node_libs) = memory_vtable" "sl_vtable (nl_drift sample_node_libs) = memory_vtable"
  "sample_sender_hex = idl_hex_encode (cl_ids (nl_contacts sample_node_libs)) sample_sender"
  "identity_id_from_public_key_hex (cl_ids (nl_contacts sample_node_libs)) sample_sender_hex = Some sample_identity"
  by (simp_all add: sample_store_libs_def sample_hex_encode sample_sender_identity)

lemma sample_state_laws:
  assumes "sample_state st"
  shows "sender_device_id (nl_contacts sample_node_libs) [sample_sender_hex, sample_identity] (nd_store (sample_node st)) = Some (Ok None)"
    "is_blocked_and_deleted_resolved (nl_blocked sample_node_libs) p (nd_store (sample_node st)) = Ok False"
    "is_blocked_resolved (nl_blocked sample_node_libs) p d (nd_store (sample_node st)) = Ok False"
  using sample_device [OF assms] sample_allowed [OF assms] sample_unblocked [OF assms] by simp_all

theorem receive_policy_witness:
  "\<exists>st bs ev n' w'. IronCore_receive_message sample_node_libs sample_drnd (Some (sample_public 50)) sample_readings bs (sample_node st)
       = Some (Ok sample_message, ev, n')
     \<and> node_ok sample_node_libs ({x \<in> {sample_record ''id'' 5}. mr_id x \<noteq> msg_id sample_message} \<union> {record_of sample_identity False sample_message}) w' n'"
proof -
  obtain st where st: "sample_state st" using sample_state_exists ..
  from sample_received [OF st] obtain bs ss where bs: "sender_bundle sample_node_libs bs (sample_node st) = Some (Some (sample_public 40))"
    "receive_message (nl_ingress sample_node_libs) sample_drnd (nd_keys (sample_node st)) (Some (sample_public 50)) (\<lambda>_. Some (sample_public 40)) bs
        (nd_sessions (sample_node st)) = (Ok (sample_message, sample_sender), ss)" by auto
  have kind: "msg_type sample_message \<noteq> MReceipt" by (simp add: sample_message_simps)
  note law = receive_policy [where t = sample_readings, OF sample_node_ok [OF st] sample_sender_laws(1,2) bs sample_sender_laws(3,4) sample_state_laws(1) [OF st]]
  have shown: "(Ok False = (Ok True :: (iron_core_error, bool) result)) = False" by simp
  from mp [OF conjunct2 [OF conjunct2 [OF law]] conjI [OF sample_state_laws(2) [OF st] kind], unfolded sample_state_laws(3) [OF st] shown]
  obtain ev n' w' where "IronCore_receive_message sample_node_libs sample_drnd (Some (sample_public 50)) sample_readings bs (sample_node st)
      = Some (Ok sample_message, ev, n')"
    "node_ok sample_node_libs ({x \<in> {sample_record ''id'' 5}. mr_id x \<noteq> msg_id sample_message} \<union> {record_of sample_identity False sample_message}) w' n'"
    by (elim exE conjE) (rule that)
  then show ?thesis by (intro exI conjI)
qed

theorem message_ids_trusted_witness:
  "\<exists>st bs ev n' r. sample_state st \<and> IronCore_receive_message sample_node_libs sample_drnd (Some (sample_public 50)) sample_readings bs (sample_node st)
       = Some (Ok sample_message, ev, n')
     \<and> History_get (nl_history sample_node_libs) (mr_id (sample_record ''id'' 5)) (nd_store n') = Ok (Some r) \<and> mr_peer_id r = sample_identity"
proof -
  obtain st where st: "sample_state st" using sample_state_exists ..
  from sample_received [OF st] obtain bs ss where bs: "sender_bundle sample_node_libs bs (sample_node st) = Some (Some (sample_public 40))"
    "receive_message (nl_ingress sample_node_libs) sample_drnd (nd_keys (sample_node st)) (Some (sample_public 50)) (\<lambda>_. Some (sample_public 40)) bs
        (nd_sessions (sample_node st)) = (Ok (sample_message, sample_sender), ss)" by auto
  have new: "memory_inv (nd_outbox (sample_node st))" by (simp add: outbox_new_ok)
  have same: "sample_record ''id'' 5 \<in> {sample_record ''id'' 5}" "msg_type sample_message \<noteq> MReceipt \<and> mr_id (sample_record ''id'' 5) = msg_id sample_message"
    by (simp_all add: sample_record_def MessageRecord_new_received_def sample_message_simps)
  note law = message_ids_trusted [where t = sample_readings,
    OF sample_node_ok [OF st] sample_sender_laws(1,2) bs sample_sender_laws(3,4) sample_state_laws(1,2) [OF st] new]
  from mp [OF bspec [OF conjunct2 [OF law] same(1)] same(2)] obtain ev n' r where
    "IronCore_receive_message sample_node_libs sample_drnd (Some (sample_public 50)) sample_readings bs (sample_node st) = Some (Ok sample_message, ev, n')"
    "History_get (nl_history sample_node_libs) (mr_id (sample_record ''id'' 5)) (nd_store n') = Ok (Some r)" "mr_peer_id r = sample_identity"
    by (elim exE conjE) (rule that)
  with st show ?thesis by (intro exI conjI)
qed

lemma sample_utf8: "string_from_utf8 (msg_payload sample_message) = Some (bytes_string [1, 2, 3])"
  using utf8_valid_ascii [of "[1, 2, 3]"] by (simp add: sample_message_simps string_from_utf8_def)

theorem message_reaches_history_witness:
  "\<exists>st bs ev n' rs r. sample_state st
     \<and> IronCore_receive_message sample_node_libs sample_drnd (Some (sample_public 50)) sample_readings bs (sample_node st) = Some (Ok sample_message, ev, n')
     \<and> History_conversation (nl_history sample_node_libs) sample_identity (2 ^ 32 - 1) (nd_store n') = Ok rs \<and> r \<in> set rs \<and> mr_id r = msg_id sample_message"
proof -
  obtain st where st: "sample_state st" using sample_state_exists ..
  have I: "il_crypto sample_ingress = sized_crypto" "il_codec sample_ingress = sample_codec" "il_drift sample_ingress = sample_libs"
    by (simp_all add: sample_ingress_def)
  have none: "\<not> has_session (SessionManager_new :: memory_storage session_manager) p" for p
    by (simp add: SessionManager_new_def has_session_def hm_contains_def)
  obtain bs s' a' where p: "prepare_envelope sample_ingress sample_rnd (toy_rnd 7) ''u'' 5 (Inr 100) (sample_keys 40) None None ''peer''
      (ed25519_public (il_crypto sample_ingress) (nk_signing (sample_keys 50))) sample_message (SessionManager_new :: memory_storage session_manager) AuditLog_new = (Ok bs, s', a')"
    using sample_prepared by (auto simp: I)
  have keys: "sample_sender = ed25519_public (il_crypto sample_ingress) (nk_signing (sample_keys 40))" by (simp add: I sample_sender_def)
  let ?k = "idl_hex_encode (cl_ids (nl_contacts sample_node_libs)) sample_sender"
  have known: "get_contact_bundle (nl_contacts sample_node_libs) ?k (nd_store (sample_node st)) = Some (Ok (Some (sample_public 40)))"
    "identity_id_from_public_key_hex (cl_ids (nl_contacts sample_node_libs)) ?k = Some sample_identity"
    "sender_device_id (nl_contacts sample_node_libs) [?k, sample_identity] (nd_store (sample_node st)) = Some (Ok None)"
    using sample_bundle_found [OF st] sample_sender_laws(4) sample_state_laws(1) [OF st] unfolding sample_sender_laws(3) [symmetric] by simp_all
  have fresh: "\<not> has_session (nd_sessions (sample_node st)) q" for q by (simp add: none)
  have finite: "finite {sample_record ''id'' 5}" "card {sample_record ''id'' 5} < 2 ^ 32 - 1" by simp_all
  have crypto: "dh_symmetric (il_crypto sample_ingress)" "aead_correct (il_crypto sample_ingress)" "mlkem_correct (il_crypto sample_ingress)"
    "key_conversion (il_crypto sample_ingress)" "sized_libs (il_crypto sample_ingress)" "bincode_correct (il_codec sample_ingress)"
    "drift_correct (il_drift sample_ingress) (nk_signing (sample_keys 40)) sample_sender"
    "bundle_of (il_crypto sample_ingress) (sample_keys 40) (sample_public 40)" "bundle_of (il_crypto sample_ingress) (sample_keys 50) (sample_public 50)"
    by (simp_all add: I sample_sender_def sample_ingress_correct sized_crypto_sizes sample_codec_correct sample_bundle_of)
  have other: "length (er_nonce (toy_rnd 7)) = 24" "nl_ingress sample_node_libs = sample_ingress" "nd_keys (sample_node st) = Some (sample_keys 50)"
    "msg_type sample_message = Text" by (simp_all add: toy_rnd_def sample_message_simps)
  have "\<exists>ev n' rs rs' r. IronCore_receive_message sample_node_libs sample_drnd (Some (sample_public 50)) sample_readings bs (sample_node st) = Some (Ok sample_message, ev, n')
    \<and> History_conversation (nl_history sample_node_libs) sample_identity (2 ^ 32 - 1) (nd_store n') = Ok rs
    \<and> recent_including_hidden (nl_history sample_node_libs) (Some sample_identity) (2 ^ 32 - 1) (nd_store n') = Ok rs'
    \<and> mr_id r = msg_id sample_message \<and> mr_content r = bytes_string [1, 2, 3] \<and> mr_peer_id r = sample_identity \<and> mr_direction r = Received \<and> r \<in> set rs'
    \<and> (r \<in> set rs \<longleftrightarrow> is_blocked_resolved (nl_blocked sample_node_libs) (''pk:'' @ ?k) None (nd_store (sample_node st)) = Ok False)"
    by (rule message_reaches_history [OF crypto disjI1 [OF refl] disjI1 [OF refl] keys none fresh other(1) p other(2,3) sample_node_ok [OF st]
        finite sample_sender_laws(1) known sample_state_laws(2) [OF st] other(4) sample_utf8])
  then obtain ev n' rs rs' r where
    "IronCore_receive_message sample_node_libs sample_drnd (Some (sample_public 50)) sample_readings bs (sample_node st) = Some (Ok sample_message, ev, n')"
    "History_conversation (nl_history sample_node_libs) sample_identity (2 ^ 32 - 1) (nd_store n') = Ok rs" "mr_id r = msg_id sample_message"
    "r \<in> set rs \<longleftrightarrow> is_blocked_resolved (nl_blocked sample_node_libs) (''pk:'' @ ?k) None (nd_store (sample_node st)) = Ok False"
    by (elim exE conjE) (rule that)
  moreover from this(4) have "r \<in> set rs" unfolding sample_state_laws(3) [OF st] by simp
  ultimately show ?thesis using st by (intro exI conjI)
qed

end
